(* ===== verification/Prelude.thy ===== *)
theory Prelude
  imports Main "HOL-Library.Word"
begin

unbundle bit_operations_syntax

text \<open>
  Shared vocabulary of the development: the C integer types of the target (a 32-bit
  big-endian PowerPC: \<open>uchar\<close> is 8 bits, \<open>ushort\<close> 16 bits, \<open>int\<close> and \<open>long\<close> 32 bits, plain
  \<open>char\<close> unsigned), string literals as bytes, the big-endian layout of multi-byte integers,
  and the generic lemmas on words and lists that the components use.
\<close>

section \<open>Types and literals\<close>

type_synonym byte = "8 word"
type_synonym u16 = "16 word"
type_synonym u32 = "32 word"

text \<open>A string literal as the bytes it stands for (without the terminating NUL).\<close>

definition str :: "string \<Rightarrow> byte list" where
  "str s = map of_char s"

text \<open>A character literal as a byte.\<close>

abbreviation ch :: "char \<Rightarrow> byte" where
  "ch c \<equiv> of_char c"

lemma str_Nil [simp]: "str [] = []"
  by (simp add: str_def)

lemma str_Cons [simp]: "str (c # cs) = of_char c # str cs"
  by (simp add: str_def)

lemma length_str [simp]: "length (str s) = length s"
  by (simp add: str_def)

lemma str_inject [simp]: "str a = str b \<longleftrightarrow> a = b"
proof -
  have b: "bit (of_char c :: byte) n \<longleftrightarrow> n < 8 \<and>
      [digit0 c, digit1 c, digit2 c, digit3 c, digit4 c, digit5 c, digit6 c, digit7 c] ! n" for c n
    unfolding of_char_def bit_horner_sum_bit_word_iff by (simp add: numeral_eq_Suc)
  have "x = y" if "(of_char x :: byte) = of_char y" for x y
  proof (rule char.expand, intro conjI)
    have e: "bit (of_char x :: byte) n = bit (of_char y :: byte) n" for n by (simp only: that)
    show "digit0 x = digit0 y" using e [of 0] by (simp add: b)
    show "digit1 x = digit1 y" using e [of 1] by (simp add: b)
    show "digit2 x = digit2 y" using e [of 2] by (simp add: b)
    show "digit3 x = digit3 y" using e [of 3] by (simp add: b)
    show "digit4 x = digit4 y" using e [of 4] by (simp add: b)
    show "digit5 x = digit5 y" using e [of 5] by (simp add: b)
    show "digit6 x = digit6 y" using e [of 6] by (simp add: b)
    show "digit7 x = digit7 y" using e [of 7] by (simp add: b)
  qed
  then have "inj (of_char :: char \<Rightarrow> byte)" by (rule injI)
  then show ?thesis by (simp add: str_def inj_map_eq_map)
qed

section \<open>Big-endian integers\<close>

definition be16 :: "u16 \<Rightarrow> byte list" where
  "be16 w = [ucast (drop_bit 8 w), ucast w]"

definition be32 :: "u32 \<Rightarrow> byte list" where
  "be32 w = [ucast (drop_bit 24 w), ucast (drop_bit 16 w), ucast (drop_bit 8 w), ucast w]"

fun be_dec :: "byte list \<Rightarrow> 'a::len word \<Rightarrow> 'a word" where
  "be_dec [] acc = acc"
| "be_dec (b # bs) acc = be_dec bs (push_bit 8 acc OR ucast b)"

definition be16_dec :: "byte list \<Rightarrow> u16" where
  "be16_dec bs = be_dec (take 2 bs) 0"

definition be32_dec :: "byte list \<Rightarrow> u32" where
  "be32_dec bs = be_dec (take 4 bs) 0"

lemma length_be16 [simp]: "length (be16 w) = 2"
  by (simp add: be16_def)

lemma length_be32 [simp]: "length (be32 w) = 4"
  by (simp add: be32_def)

lemma be32_dec_be32 [simp]: "be32_dec (be32 w @ xs) = w"
proof (rule bit_word_eqI)
  fix n :: nat
  assume "n < LENGTH(32)"
  then consider "n < 8" | "8 \<le> n" "n < 16" | "16 \<le> n" "n < 24" | "24 \<le> n" "n < 32"
    by fastforce
  then show "bit (be32_dec (be32 w @ xs)) n = bit w n"
    by cases (auto simp: be32_dec_def be32_def bit_simps)
qed

lemma be16_dec_be16 [simp]: "be16_dec (be16 w @ xs) = w"
  unfolding be16_dec_def be16_def
  by (simp, rule bit_word_eqI) (auto simp: bit_simps)

lemma list4_cases:
  assumes "length bs = 4"
  obtains a b c d where "bs = [a, b, c, d]"
  using assms by (auto simp: numeral_eq_Suc length_Suc_conv)

lemma be32_be32_dec:
  assumes "length bs = 4"
  shows "be32 (be32_dec bs) = bs"
proof -
  obtain a b c d where bs: "bs = [a, b, c, d]" using assms by (rule list4_cases)
  show ?thesis
    unfolding bs be32_dec_def be32_def
    by (simp; intro conjI; rule bit_word_eqI) (auto simp: bit_simps dest: bit_imp_le_length)
qed

lemma be32_inject [simp]: "be32 v = be32 w \<longleftrightarrow> v = w"
  by (metis append_Nil2 be32_dec_be32)

lemma be16_inject [simp]: "be16 v = be16 w \<longleftrightarrow> v = w"
  by (metis append_Nil2 be16_dec_be16)

section \<open>Words\<close>

lemma ucast_byte_inject32 [simp]: "(ucast (a :: byte) :: u32) = ucast b \<longleftrightarrow> a = b"
proof
  assume eq: "(ucast a :: u32) = ucast b"
  show "a = b"
  proof (rule bit_word_eqI)
    fix n assume "n < LENGTH(8)"
    then show "bit a n = bit b n"
      using arg_cong [OF eq, of "\<lambda>w. bit w n"] by (simp add: bit_simps)
  qed
qed simp

lemma xor_left_cancel [simp]: "(a :: 'a::len word) XOR b = a XOR c \<longleftrightarrow> b = c"
  by (metis xor.assoc xor_self_eq xor.left_neutral)

section \<open>Lists\<close>

lemma take_length_append [simp]: "n = length xs \<Longrightarrow> take n (xs @ ys) = xs"
  by simp

lemma drop_length_append [simp]: "n = length xs \<Longrightarrow> drop n (xs @ ys) = ys"
  by simp

text \<open>Check every entry of a table together with its index, by evaluation.\<close>

fun all_index :: "(nat \<Rightarrow> 'a \<Rightarrow> bool) \<Rightarrow> nat \<Rightarrow> 'a list \<Rightarrow> bool" where
  "all_index P k [] \<longleftrightarrow> True"
| "all_index P k (x # xs) \<longleftrightarrow> P k x \<and> all_index P (k + 1) xs"

lemma all_index_nth: "all_index P k xs \<Longrightarrow> i < length xs \<Longrightarrow> P (k + i) (xs ! i)"
proof (induction xs arbitrary: k i)
  case (Cons x xs)
  then show ?case by (cases i) fastforce+
qed simp

lemma unat_byte_less [simp]: "unat (c :: byte) < 256"
  using unsigned_less [where ?'a = nat, of c] by simp

end
