(* ===== verification/Crc32.thy ===== *)
theory Crc32
  imports Prelude
begin

text \<open>
  \<^verbatim>\<open>lib_generic/crc32.c\<close>: the 32-bit CRC that protects images and the environment.
  The table generator \<open>make_crc_table\<close> (used under \<^verbatim>\<open>DYNAMIC_CRC_TABLE\<close>), the static
  table \<open>crc_table\<close>, the byte step \<^verbatim>\<open>DO1\<close>, the unrolled loop of \<^verbatim>\<open>crc32\<close> and the
  variant without ones complement. The bytes \<^verbatim>\<open>buf[0..len-1]\<close> are a list, and
  \<^verbatim>\<open>buf == Z_NULL\<close> is \<open>None\<close>. The lemmas relate the code to the bit-serial shift register
  that defines the CRC, give the chunking law its users rely on, and show which errors
  it detects.
\<close>

section \<open>The code\<close>

subsection \<open>Tables\<close>

definition crc_poly_terms :: "nat list" where
  "crc_poly_terms = [0, 1, 2, 4, 5, 7, 8, 10, 11, 12, 16, 22, 23, 26]"

definition crc_poly :: u32 where
  "crc_poly = fold (\<lambda>p acc. acc OR push_bit (31 - p) 1) crc_poly_terms 0"

definition crc_shift :: "u32 \<Rightarrow> u32" where
  "crc_shift c = (if c AND 1 \<noteq> 0 then crc_poly XOR drop_bit 1 c else drop_bit 1 c)"

definition make_crc_table :: "u32 list" where
  "make_crc_table = map (\<lambda>n. (crc_shift ^^ 8) (of_nat n)) [0..<256]"

definition crc_table :: "u32 list" where
  "crc_table = [
    0x00000000, 0x77073096, 0xee0e612c, 0x990951ba, 0x076dc419, 0x706af48f,
    0xe963a535, 0x9e6495a3, 0x0edb8832, 0x79dcb8a4, 0xe0d5e91e, 0x97d2d988,
    0x09b64c2b, 0x7eb17cbd, 0xe7b82d07, 0x90bf1d91, 0x1db71064, 0x6ab020f2,
    0xf3b97148, 0x84be41de, 0x1adad47d, 0x6ddde4eb, 0xf4d4b551, 0x83d385c7,
    0x136c9856, 0x646ba8c0, 0xfd62f97a, 0x8a65c9ec, 0x14015c4f, 0x63066cd9,
    0xfa0f3d63, 0x8d080df5, 0x3b6e20c8, 0x4c69105e, 0xd56041e4, 0xa2677172,
    0x3c03e4d1, 0x4b04d447, 0xd20d85fd, 0xa50ab56b, 0x35b5a8fa, 0x42b2986c,
    0xdbbbc9d6, 0xacbcf940, 0x32d86ce3, 0x45df5c75, 0xdcd60dcf, 0xabd13d59,
    0x26d930ac, 0x51de003a, 0xc8d75180, 0xbfd06116, 0x21b4f4b5, 0x56b3c423,
    0xcfba9599, 0xb8bda50f, 0x2802b89e, 0x5f058808, 0xc60cd9b2, 0xb10be924,
    0x2f6f7c87, 0x58684c11, 0xc1611dab, 0xb6662d3d, 0x76dc4190, 0x01db7106,
    0x98d220bc, 0xefd5102a, 0x71b18589, 0x06b6b51f, 0x9fbfe4a5, 0xe8b8d433,
    0x7807c9a2, 0x0f00f934, 0x9609a88e, 0xe10e9818, 0x7f6a0dbb, 0x086d3d2d,
    0x91646c97, 0xe6635c01, 0x6b6b51f4, 0x1c6c6162, 0x856530d8, 0xf262004e,
    0x6c0695ed, 0x1b01a57b, 0x8208f4c1, 0xf50fc457, 0x65b0d9c6, 0x12b7e950,
    0x8bbeb8ea, 0xfcb9887c, 0x62dd1ddf, 0x15da2d49, 0x8cd37cf3, 0xfbd44c65,
    0x4db26158, 0x3ab551ce, 0xa3bc0074, 0xd4bb30e2, 0x4adfa541, 0x3dd895d7,
    0xa4d1c46d, 0xd3d6f4fb, 0x4369e96a, 0x346ed9fc, 0xad678846, 0xda60b8d0,
    0x44042d73, 0x33031de5, 0xaa0a4c5f, 0xdd0d7cc9, 0x5005713c, 0x270241aa,
    0xbe0b1010, 0xc90c2086, 0x5768b525, 0x206f85b3, 0xb966d409, 0xce61e49f,
    0x5edef90e, 0x29d9c998, 0xb0d09822, 0xc7d7a8b4, 0x59b33d17, 0x2eb40d81,
    0xb7bd5c3b, 0xc0ba6cad, 0xedb88320, 0x9abfb3b6, 0x03b6e20c, 0x74b1d29a,
    0xead54739, 0x9dd277af, 0x04db2615, 0x73dc1683, 0xe3630b12, 0x94643b84,
    0x0d6d6a3e, 0x7a6a5aa8, 0xe40ecf0b, 0x9309ff9d, 0x0a00ae27, 0x7d079eb1,
    0xf00f9344, 0x8708a3d2, 0x1e01f268, 0x6906c2fe, 0xf762575d, 0x806567cb,
    0x196c3671, 0x6e6b06e7, 0xfed41b76, 0x89d32be0, 0x10da7a5a, 0x67dd4acc,
    0xf9b9df6f, 0x8ebeeff9, 0x17b7be43, 0x60b08ed5, 0xd6d6a3e8, 0xa1d1937e,
    0x38d8c2c4, 0x4fdff252, 0xd1bb67f1, 0xa6bc5767, 0x3fb506dd, 0x48b2364b,
    0xd80d2bda, 0xaf0a1b4c, 0x36034af6, 0x41047a60, 0xdf60efc3, 0xa867df55,
    0x316e8eef, 0x4669be79, 0xcb61b38c, 0xbc66831a, 0x256fd2a0, 0x5268e236,
    0xcc0c7795, 0xbb0b4703, 0x220216b9, 0x5505262f, 0xc5ba3bbe, 0xb2bd0b28,
    0x2bb45a92, 0x5cb36a04, 0xc2d7ffa7, 0xb5d0cf31, 0x2cd99e8b, 0x5bdeae1d,
    0x9b64c2b0, 0xec63f226, 0x756aa39c, 0x026d930a, 0x9c0906a9, 0xeb0e363f,
    0x72076785, 0x05005713, 0x95bf4a82, 0xe2b87a14, 0x7bb12bae, 0x0cb61b38,
    0x92d28e9b, 0xe5d5be0d, 0x7cdcefb7, 0x0bdbdf21, 0x86d3d2d4, 0xf1d4e242,
    0x68ddb3f8, 0x1fda836e, 0x81be16cd, 0xf6b9265b, 0x6fb077e1, 0x18b74777,
    0x88085ae6, 0xff0f6a70, 0x66063bca, 0x11010b5c, 0x8f659eff, 0xf862ae69,
    0x616bffd3, 0x166ccf45, 0xa00ae278, 0xd70dd2ee, 0x4e048354, 0x3903b3c2,
    0xa7672661, 0xd06016f7, 0x4969474d, 0x3e6e77db, 0xaed16a4a, 0xd9d65adc,
    0x40df0b66, 0x37d83bf0, 0xa9bcae53, 0xdebb9ec5, 0x47b2cf7f, 0x30b5ffe9,
    0xbdbdf21c, 0xcabac28a, 0x53b39330, 0x24b4a3a6, 0xbad03605, 0xcdd70693,
    0x54de5729, 0x23d967bf, 0xb3667a2e, 0xc4614ab8, 0x5d681b02, 0x2a6f2b94,
    0xb40bbe37, 0xc30c8ea1, 0x5a05df1b, 0x2d02ef8d]"

subsection \<open>The checksum functions\<close>

definition crc_do1 :: "u32 \<Rightarrow> byte \<Rightarrow> u32" where
  "crc_do1 crc b = crc_table ! unat ((crc XOR ucast b) AND 0xff) XOR drop_bit 8 crc"

fun crc_do8 :: "u32 \<Rightarrow> byte list \<Rightarrow> u32" where
  "crc_do8 crc (b0 # b1 # b2 # b3 # b4 # b5 # b6 # b7 # _) =
     crc_do1 (crc_do1 (crc_do1 (crc_do1 (crc_do1 (crc_do1 (crc_do1 (crc_do1
       crc b0) b1) b2) b3) b4) b5) b6) b7"
| "crc_do8 crc _ = crc"

fun crc_tail :: "u32 \<Rightarrow> byte list \<Rightarrow> u32" where
  "crc_tail crc [] = crc"
| "crc_tail crc (b # bs) = crc_tail (crc_do1 crc b) bs"

function crc_loop :: "u32 \<Rightarrow> byte list \<Rightarrow> u32" where
  "crc_loop crc buf =
     (if 8 \<le> length buf then crc_loop (crc_do8 crc buf) (drop 8 buf)
      else crc_tail crc buf)"
  by pat_completeness auto
termination
  by (relation "measure (\<lambda>(crc, buf). length buf)") auto

definition crc32 :: "u32 \<Rightarrow> byte list option \<Rightarrow> u32" where
  "crc32 crc buf =
     (case buf of
        None \<Rightarrow> 0
      | Some bs \<Rightarrow> crc_loop (crc XOR 0xffffffff) bs XOR 0xffffffff)"

definition crc32_no_comp :: "u32 \<Rightarrow> byte list option \<Rightarrow> u32" where
  "crc32_no_comp crc buf = (case buf of None \<Rightarrow> 0 | Some bs \<Rightarrow> crc_loop crc bs)"

section \<open>Lemmas\<close>

declare crc_loop.simps [simp del]

lemma crc_tail_append: "crc_tail c (xs @ ys) = crc_tail (crc_tail c xs) ys"
  by (induction xs arbitrary: c) auto

lemma crc_do8_tail: "8 \<le> length bs \<Longrightarrow> crc_do8 c bs = crc_tail c (take 8 bs)"
  by (induction c bs rule: crc_do8.induct) (auto simp: numeral_eq_Suc)

text \<open>The unrolling by eight is only an optimisation.\<close>

lemma crc_loop_tail: "crc_loop c bs = crc_tail c bs"
proof (induction c bs rule: crc_loop.induct)
  case (1 c bs)
  show ?case
  proof (cases "8 \<le> length bs")
    case True
    then have "crc_loop c bs = crc_tail (crc_tail c (take 8 bs)) (drop 8 bs)"
      using 1 by (subst crc_loop.simps) (simp add: crc_do8_tail)
    then show ?thesis by (simp add: crc_tail_append [symmetric])
  next
    case False
    then show ?thesis by (subst crc_loop.simps) simp
  qed
qed

lemma crc_loop_Nil [simp]: "crc_loop c [] = c"
  by (simp add: crc_loop_tail)

lemma crc_loop_append: "crc_loop c (xs @ ys) = crc_loop (crc_loop c xs) ys"
  by (simp add: crc_loop_tail crc_tail_append)

subsection \<open>The bit-serial shift register\<close>

lemma crc_poly_eq: "crc_poly = 0xedb88320"
  by code_simp

lemma crc_shift_bit0: "crc_shift c = (if bit c 0 then crc_poly XOR drop_bit 1 c else drop_bit 1 c)"
  by (simp add: crc_shift_def and_one_eq bit_0 odd_iff_mod_2_eq_one)

lemma drop_bit_xor_word: "drop_bit n (x XOR y) = drop_bit n x XOR drop_bit n (y :: u32)"
  by (rule bit_word_eqI) (simp add: bit_simps)

lemma crc_shift_xor: "crc_shift (x XOR y) = crc_shift x XOR crc_shift y"
  by (auto simp: crc_shift_bit0 bit_xor_iff drop_bit_xor_word xor.assoc xor.commute
      xor.left_commute xor_self_eq)

lemma crc_shift_pow_xor:
  "(crc_shift ^^ n) (x XOR y) = (crc_shift ^^ n) x XOR (crc_shift ^^ n) y"
  by (induction n) (simp_all add: crc_shift_xor)

lemma crc_shift_inject: "crc_shift x = crc_shift y \<Longrightarrow> x = y"
proof (rule bit_word_eqI)
  fix n :: nat
  assume eq: "crc_shift x = crc_shift y" and n: "n < LENGTH(32)"
  have top: "bit (crc_shift z) 31 = bit z 0" for z
    by (auto simp: crc_shift_bit0 crc_poly_eq bit_simps dest: bit_imp_le_length)
  have b0: "bit x 0 = bit y 0" using top eq by metis
  then have "drop_bit 1 x = drop_bit 1 y"
    using eq by (auto simp: crc_shift_bit0 split: if_splits)
  then have "bit x (Suc m) = bit y (Suc m)" for m
    by (metis One_nat_def bit_drop_bit_eq comp_apply plus_1_eq_Suc)
  with b0 show "bit x n = bit y n" by (cases n) auto
qed

lemma crc_shift_pow_inject: "(crc_shift ^^ n) x = (crc_shift ^^ n) y \<Longrightarrow> x = y"
  by (induction n) (auto dest: crc_shift_inject)

text \<open>Shifting out low bits that are zero is a plain right shift.\<close>

lemma crc_shift_pow_low_zero:
  "(\<And>i. i < n \<Longrightarrow> \<not> bit x i) \<Longrightarrow> (crc_shift ^^ n) x = drop_bit n x"
proof (induction n)
  case 0
  then show ?case by simp
next
  case (Suc n)
  then have "(crc_shift ^^ n) x = drop_bit n x" by simp
  moreover have "\<not> bit (drop_bit n x) 0" using Suc.prems by (simp add: bit_simps)
  ultimately show ?case
    by (simp add: crc_shift_bit0 [of "drop_bit n x"])
qed

subsection \<open>The generated table is the static one\<close>

text \<open>
  Shifting is linear, so the table is determined by its entries at the powers of two:
  these are evaluated, and the literal table is checked to double by exclusive-or.
\<close>

lemma funpow8: "(f ^^ 8) x = f (f (f (f (f (f (f (f x)))))))"
  by (simp add: numeral_eq_Suc)

lemma crc_table_powers:
  "map (crc_shift ^^ 8) [1, 2, 4, 8, 16, 32, 64, 128] = map ((!) crc_table) [1, 2, 4, 8, 16, 32, 64, 128]"
  by (simp add: funpow8 crc_shift_def crc_poly_eq crc_table_def)

lemma crc_table_doubles:
  "list_all (\<lambda>k. take (2 * k) crc_table =
     take k crc_table @ map (\<lambda>x. crc_table ! k XOR x) (take k crc_table)) [1, 2, 4, 8, 16, 32, 64, 128]"
  by (simp add: crc_table_def)

lemma pow2_below_8: "k < 8 \<Longrightarrow> (2::nat) ^ k \<in> set [1, 2, 4, 8, 16, 32, 64, 128]"
  by (auto simp: less_Suc_eq numeral_eq_Suc)

lemma crc_table_double:
  assumes "k < 8" and "j < 2 ^ k"
  shows "crc_table ! (2 ^ k + j) = crc_table ! (2 ^ k) XOR crc_table ! j"
proof -
  let ?t = "take (2 ^ k) crc_table"
  have len: "length ?t = 2 ^ k"
    using pow2_below_8 [OF assms(1)] by (auto simp: crc_table_def)
  have "take (2 * 2 ^ k) crc_table = ?t @ map (\<lambda>x. crc_table ! (2 ^ k) XOR x) ?t"
    using crc_table_doubles pow2_below_8 [OF assms(1)] unfolding list_all_iff by blast
  then have "take (2 * 2 ^ k) crc_table ! (2 ^ k + j) = crc_table ! (2 ^ k) XOR crc_table ! j"
    using assms(2) len by (simp add: nth_append)
  then show ?thesis using assms(2) by simp
qed

lemma crc_shift8_pow2: "k < 8 \<Longrightarrow> (crc_shift ^^ 8) (2 ^ k) = crc_table ! (2 ^ k)"
  using crc_table_powers by (auto simp: less_Suc_eq numeral_eq_Suc)

lemma pow2_add_of_nat:
  assumes "j < 2 ^ k"
  shows "(2 ^ k :: u32) + of_nat j = 2 ^ k XOR of_nat j"
proof (rule disjunctive_add_eq_xor)
  have "\<not> bit j k" using assms by (simp add: bit_iff_odd)
  then show "(2 ^ k :: u32) AND of_nat j = 0"
    by (auto intro!: bit_word_eqI simp: bit_simps)
qed

lemma crc_shift8_table: "k \<le> 8 \<Longrightarrow> n < 2 ^ k \<Longrightarrow> crc_table ! n = (crc_shift ^^ 8) (of_nat n)"
proof (induction k arbitrary: n)
  case 0
  then show ?case by (simp add: funpow8 crc_shift_def crc_table_def)
next
  case (Suc k)
  show ?case
  proof (cases "n < 2 ^ k")
    case True
    with Suc show ?thesis by simp
  next
    case False
    define j where "j = n - 2 ^ k"
    with False Suc.prems have n: "n = 2 ^ k + j" and j: "j < 2 ^ k" by auto
    have "crc_table ! n = (crc_shift ^^ 8) (2 ^ k) XOR (crc_shift ^^ 8) (of_nat j)"
      using Suc j by (simp add: n crc_table_double crc_shift8_pow2)
    also have "\<dots> = (crc_shift ^^ 8) (of_nat n)"
      using j by (simp add: n pow2_add_of_nat crc_shift_pow_xor)
    finally show ?thesis .
  qed
qed

lemma length_crc_table [simp]: "length crc_table = 256"
  by (simp add: crc_table_def)

lemma crc_table_nth: "n < 256 \<Longrightarrow> crc_table ! n = (crc_shift ^^ 8) (of_nat n)"
  using crc_shift8_table [of 8 n] by simp

lemma crc_table_generated: "make_crc_table = crc_table"
  by (rule nth_equalityI) (simp_all add: make_crc_table_def crc_table_nth)

text \<open>One table step is eight steps of the shift register.\<close>

lemma crc_do1_bits: "crc_do1 c b = (crc_shift ^^ 8) (c XOR ucast b)"
proof -
  let ?x = "c XOR ucast b"
  have low: "unat (?x AND 0xff) < 256"
    using word_and_le1 [of ?x "0xff"] by (simp add: word_le_nat_alt)
  have mask8: "(0xff :: u32) = mask 8" by (simp add: mask_eq_exp_minus_1)
  have split: "?x = (?x AND 0xff) XOR (?x AND NOT 0xff)"
    by (rule bit_word_eqI) (auto simp: bit_simps)
  have "(crc_shift ^^ 8) ?x =
    (crc_shift ^^ 8) (?x AND 0xff) XOR (crc_shift ^^ 8) (?x AND NOT 0xff)"
    by (subst split) (rule crc_shift_pow_xor)
  also have "(crc_shift ^^ 8) (?x AND NOT 0xff) = drop_bit 8 (?x AND NOT 0xff)"
    unfolding mask8 by (rule crc_shift_pow_low_zero) (auto simp: bit_simps)
  also have "\<dots> = drop_bit 8 c"
    unfolding mask8 by (rule bit_word_eqI) (auto simp: bit_simps dest: bit_imp_le_length)
  also have "(crc_shift ^^ 8) (?x AND 0xff) = crc_table ! unat (?x AND 0xff)"
    using low by (simp add: crc_table_nth)
  finally show ?thesis by (simp add: crc_do1_def)
qed

subsection \<open>The bit-serial definition of the CRC\<close>

text \<open>
  The register as the comment of \<^verbatim>\<open>make_crc_table\<close> describes it: each message bit, least
  significant first, is compared with the bit shifted out, and the polynomial is added
  when they differ.
\<close>

definition crc_bit :: "u32 \<Rightarrow> bool \<Rightarrow> u32" where
  "crc_bit c m = (if bit c 0 \<noteq> m then crc_poly XOR drop_bit 1 c else drop_bit 1 c)"

definition message_bits :: "byte list \<Rightarrow> bool list" where
  "message_bits bs = concat (map (\<lambda>b. map (bit b) [0..<8]) bs)"

definition crc_serial :: "u32 \<Rightarrow> byte list \<Rightarrow> u32" where
  "crc_serial c bs = foldl crc_bit c (message_bits bs)"

lemma crc_bit_shift: "crc_bit c m = crc_shift (c XOR of_bool m)"
  by (cases m) (auto simp: crc_bit_def crc_shift_bit0 bit_simps drop_bit_xor_word)

lemma crc_bits_shift:
  "n \<le> 32 \<Longrightarrow> foldl crc_bit c (map (bit w) [0..<n]) = (crc_shift ^^ n) (c XOR take_bit n (w :: u32))"
proof (induction n)
  case 0
  then show ?case by simp
next
  case (Suc n)
  have "take_bit (Suc n) w = take_bit n w XOR push_bit n (of_bool (bit w n))"
    by (rule bit_word_eqI) (auto simp: bit_simps less_Suc_eq)
  moreover have "(crc_shift ^^ n) (push_bit n (of_bool (bit w n))) = of_bool (bit w n)"
  proof -
    have "(crc_shift ^^ n) (push_bit n (of_bool (bit w n))) =
        drop_bit n (push_bit n (of_bool (bit w n)) :: u32)"
      by (rule crc_shift_pow_low_zero) (simp add: bit_simps)
    also have "\<dots> = of_bool (bit w n)"
      using Suc.prems by (auto intro!: bit_word_eqI simp: bit_simps)
    finally show ?thesis .
  qed
  ultimately have "(crc_shift ^^ Suc n) (c XOR take_bit (Suc n) w) =
      crc_shift ((crc_shift ^^ n) (c XOR take_bit n w) XOR of_bool (bit w n))"
    by (simp add: xor.assoc [symmetric] crc_shift_pow_xor)
  with Suc show ?case by (simp add: crc_bit_shift)
qed

lemma crc_byte_serial: "foldl crc_bit c (map (bit b) [0..<8]) = crc_do1 c (b :: byte)"
proof -
  have m: "map (bit b) [0..<8] = map (bit (ucast b :: u32)) [0..<8]"
    by (simp add: bit_simps)
  have "foldl crc_bit c (map (bit b) [0..<8]) =
      (crc_shift ^^ 8) (c XOR take_bit 8 (ucast b :: u32))"
    unfolding m by (rule crc_bits_shift) simp
  moreover have "take_bit 8 (ucast b :: u32) = ucast b"
    by (rule bit_word_eqI) (auto simp: bit_simps dest: bit_imp_le_length)
  ultimately show ?thesis by (simp only: crc_do1_bits)
qed

lemma crc_serial_tail: "crc_serial c bs = crc_tail c bs"
  by (induction bs arbitrary: c) (simp_all add: crc_serial_def message_bits_def crc_byte_serial)

subsection \<open>Error detection\<close>

lemma crc_do1_inject: "crc_do1 c b = crc_do1 c' b \<Longrightarrow> c = c'"
  by (auto simp: crc_do1_bits xor.commute [of _ "ucast b"] dest: crc_shift_pow_inject)

lemma crc_tail_inject: "crc_tail c bs = crc_tail c' bs \<Longrightarrow> c = c'"
  by (induction bs arbitrary: c c') (auto dest: crc_do1_inject)

text \<open>Up to four bytes act on the register as one word, least significant byte first.\<close>

fun le_word :: "byte list \<Rightarrow> u32" where
  "le_word [] = 0"
| "le_word (b # bs) = push_bit 8 (le_word bs) XOR ucast b"

lemma le_word_high: "8 * length bs \<le> n \<Longrightarrow> \<not> bit (le_word bs) n"
  by (induction bs arbitrary: n) (auto simp: bit_simps dest: bit_imp_le_length)

lemma le_word_inject:
  "length bs = length bs' \<Longrightarrow> length bs \<le> 4 \<Longrightarrow> le_word bs = le_word bs' \<Longrightarrow> bs = bs'"
proof (induction bs bs' rule: list_induct2)
  case Nil
  then show ?case by simp
next
  case (Cons b bs b' bs')
  have eq: "bit (le_word (b # bs)) n = bit (le_word (b' # bs')) n" for n
    using Cons.prems by simp
  have "bit b n = bit b' n" if "n < 8" for n
    using eq [of n] that by (auto simp: bit_simps)
  then have "b = b'" by (auto intro: bit_word_eqI)
  moreover have "bit (le_word bs) n = bit (le_word bs') n" for n
  proof (cases "n < 24")
    case True
    with eq [of "n + 8"] show ?thesis by (auto simp: bit_simps dest: bit_imp_le_length)
  next
    case False
    with Cons show ?thesis by (simp add: le_word_high)
  qed
  ultimately show ?case using Cons by (auto intro: bit_word_eqI)
qed

lemma crc_tail_le_word:
  "length bs \<le> 4 \<Longrightarrow> crc_tail c bs = (crc_shift ^^ (8 * length bs)) (c XOR le_word bs)"
proof (induction bs arbitrary: c)
  case Nil
  then show ?case by simp
next
  case (Cons b bs)
  have "(crc_shift ^^ 8) (push_bit 8 (le_word bs)) = drop_bit 8 (push_bit 8 (le_word bs))"
    by (rule crc_shift_pow_low_zero) (simp add: bit_simps)
  also have "\<dots> = le_word bs"
  proof (rule bit_word_eqI)
    fix n assume "n < LENGTH(32)"
    then show "bit (drop_bit 8 (push_bit 8 (le_word bs))) n = bit (le_word bs) n"
      using le_word_high [of bs n] Cons.prems by (cases "n < 24") (auto simp: bit_simps)
  qed
  finally have "(crc_shift ^^ 8) (c XOR le_word (b # bs)) = crc_do1 c b XOR le_word bs"
    by (simp add: crc_do1_bits crc_shift_pow_xor xor.assoc xor.left_commute xor.commute)
  moreover have "8 * length (b # bs) = 8 * length bs + 8" by simp
  ultimately show ?case
    using Cons by (simp only: funpow_add comp_apply crc_tail.simps list.size)
qed

lemma crc_loop_burst:
  assumes "length w = length w'" and "length w \<le> 4" and "w \<noteq> w'"
  shows "crc_loop c (xs @ w @ ys) \<noteq> crc_loop c (xs @ w' @ ys)"
proof
  assume "crc_loop c (xs @ w @ ys) = crc_loop c (xs @ w' @ ys)"
  then have "crc_tail (crc_tail c xs) w = crc_tail (crc_tail c xs) w'"
    by (auto simp: crc_loop_tail crc_tail_append dest: crc_tail_inject)
  then have "le_word w = le_word w'"
    using assms by (auto simp: crc_tail_le_word dest: crc_shift_pow_inject)
  with assms show False using le_word_inject by blast
qed

section \<open>The streaming interface\<close>

text \<open>
  What the callers rely on: a checksum of a block can be computed piece by piece, the
  result of one piece being the start value of the next.
\<close>

locale checksum_stream =
  fixes upd :: "'s \<Rightarrow> byte list \<Rightarrow> 's"
  assumes upd_Nil: "upd c [] = c"
    and upd_append: "upd (upd c xs) ys = upd c (xs @ ys)"
begin

lemma upd_concat: "foldl upd c bss = upd c (concat bss)"
  by (induction bss arbitrary: c) (simp_all add: upd_Nil upd_append)

end

interpretation crc: checksum_stream "\<lambda>c bs. crc32 c (Some bs)"
  by unfold_locales (simp_all add: crc32_def crc_loop_append xor.assoc)

interpretation crc_nc: checksum_stream "\<lambda>c bs. crc32_no_comp c (Some bs)"
  by unfold_locales (simp_all add: crc32_no_comp_def crc_loop_append)

section \<open>Properties\<close>

text \<open>
  C26: the static table is exactly the one \<^verbatim>\<open>make_crc_table\<close> computes from the polynomial,
  and \<^verbatim>\<open>crc32\<close> over a buffer is the bit-serial CRC of its bits, between the two ones
  complements, for every start value: the table and the unrolling by eight change nothing.
\<close>

theorem crc32_serial:
  "make_crc_table = crc_table \<and>
   crc32 crc (Some buf) = crc_serial (crc XOR 0xffffffff) buf XOR 0xffffffff"
  by (simp add: crc_table_generated crc32_def crc_loop_tail crc_serial_tail)

lemma crc32_burst:
  assumes "length w = length w'" and "length w \<le> 4" and "w \<noteq> w'"
  shows "crc32 crc (Some (pre @ w @ post)) \<noteq> crc32 crc (Some (pre @ w' @ post))"
  using crc_loop_burst [OF assms] by (simp add: crc32_def xor.commute [of _ "0xffffffff"])

text \<open>
  C27: every error that is confined to four adjacent bytes (in particular, every burst of
  at most 25 bits) changes the checksum, wherever it is in the buffer.
\<close>

theorem crc32_detects_burst:
  assumes "length w = length w'" and "length w \<le> 4" and "w \<noteq> w'"
  shows "crc32 crc (Some (pre @ w @ post)) \<noteq> crc32 crc (Some (pre @ w' @ post))"
  using assms by (rule crc32_burst)

theorem crc32_detects_burst_witness:
  "crc32 0 (Some ([7] @ [1, 2, 3, 4] @ [9])) \<noteq> crc32 0 (Some ([7] @ [1, 2, 3, 5] @ [9]))"
  by (rule crc32_detects_burst) simp_all

end
