(* ===== verification/Memory.thy ===== *)
theory Memory
  imports Prelude
begin

text \<open>
  The target's memory: one byte at every 32-bit address, addresses wrapping at the end of
  the address space as unsigned pointer arithmetic does. Blocks are read and written as
  byte lists; the lemmas say what a read sees after a write, for the same block and for
  disjoint ones.
\<close>

type_synonym mem = "u32 \<Rightarrow> byte"

fun mread :: "mem \<Rightarrow> u32 \<Rightarrow> nat \<Rightarrow> byte list" where
  "mread m a 0 = []"
| "mread m a (Suc n) = m a # mread m (a + 1) n"

fun mwrite :: "mem \<Rightarrow> u32 \<Rightarrow> byte list \<Rightarrow> mem" where
  "mwrite m a [] = m"
| "mwrite m a (b # bs) = mwrite (m(a := b)) (a + 1) bs"

text \<open>The address lies in the block of \<open>n\<close> bytes at \<open>a\<close>.\<close>

definition in_block :: "u32 \<Rightarrow> nat \<Rightarrow> u32 \<Rightarrow> bool" where
  "in_block a n x \<longleftrightarrow> unat (x - a) < n"

definition disjoint_blocks :: "u32 \<Rightarrow> nat \<Rightarrow> u32 \<Rightarrow> nat \<Rightarrow> bool" where
  "disjoint_blocks a n b k \<longleftrightarrow>
     unat a + n \<le> 2 ^ 32 \<and> unat b + k \<le> 2 ^ 32 \<and>
     (unat a + n \<le> unat b \<or> unat b + k \<le> unat a)"

abbreviation mem_be32 :: "mem \<Rightarrow> u32 \<Rightarrow> u32" where
  "mem_be32 m a \<equiv> be32_dec (mread m a 4)"

section \<open>Reading\<close>

lemma length_mread [simp]: "length (mread m a n) = n"
  by (induction n arbitrary: a) auto

lemma nth_mread [simp]: "i < n \<Longrightarrow> mread m a n ! i = m (a + of_nat i)"
proof (induction n arbitrary: a i)
  case (Suc n)
  then show ?case by (cases i) (simp_all add: algebra_simps)
qed simp

lemma mread_append: "mread m a (n + k) = mread m a n @ mread m (a + of_nat n) k"
  by (induction n arbitrary: a) (simp_all add: algebra_simps)

lemma mread_eqI: "(\<And>i. i < n \<Longrightarrow> m (a + of_nat i) = m' (b + of_nat i)) \<Longrightarrow> mread m a n = mread m' b n"
  by (rule nth_equalityI) auto

lemma take_mread: "k \<le> n \<Longrightarrow> take k (mread m a n) = mread m a k"
  by (rule nth_equalityI) auto

section \<open>Writing\<close>

lemma unat_minus_Suc:
  assumes "x \<noteq> (a :: u32)"
  shows "unat (x - a) = Suc (unat (x - (a + 1)))"
proof -
  have "x - (a + 1) = (x - a) - 1" by simp
  moreover have "x - a \<noteq> 0" using assms by simp
  ultimately show ?thesis
    by (metis Suc_pred' unat_gt_0 unat_minus_one)
qed

lemma mwrite_apply:
  "length bs \<le> 2 ^ 32 \<Longrightarrow>
   mwrite m a bs x = (if unat (x - a) < length bs then bs ! unat (x - a) else m x)"
proof (induction bs arbitrary: m a)
  case Nil
  then show ?case by simp
next
  case (Cons b bs)
  have IH: "mwrite (m(a := b)) (a + 1) bs x =
      (if unat (x - (a + 1)) < length bs then bs ! unat (x - (a + 1)) else (m(a := b)) x)"
    using Cons by simp
  show ?case
  proof (cases "x = a")
    case True
    have "unat (- 1 :: u32) = 2 ^ 32 - 1" by (simp add: unsigned_minus_1_eq_mask mask_eq_exp_minus_1)
    then have "\<not> unat (a - (a + 1)) < length bs" using Cons.prems by simp
    with True IH show ?thesis by simp
  next
    case False
    with IH show ?thesis by (simp add: unat_minus_Suc)
  qed
qed

lemma mwrite_other: "length bs \<le> 2 ^ 32 \<Longrightarrow> \<not> in_block a (length bs) x \<Longrightarrow> mwrite m a bs x = m x"
  by (simp add: mwrite_apply in_block_def)

lemma mwrite_append: "mwrite m a (xs @ ys) = mwrite (mwrite m a xs) (a + of_nat (length xs)) ys"
  by (induction xs arbitrary: m a) (simp_all add: algebra_simps)

lemma unat_of_nat_u32: "i < 2 ^ 32 \<Longrightarrow> unat (of_nat i :: u32) = i"
  by (simp add: unat_of_nat)

lemma mread_mwrite [simp]:
  "length bs \<le> 2 ^ 32 \<Longrightarrow> n = length bs \<Longrightarrow> mread (mwrite m a bs) a n = bs"
  by (rule nth_equalityI) (simp_all add: mwrite_apply unat_of_nat_u32)

lemma disjoint_blocks_commute: "disjoint_blocks a n b k \<longleftrightarrow> disjoint_blocks b k a n"
  by (auto simp: disjoint_blocks_def)

lemma unat_add_of_nat:
  "unat (a :: u32) + i < 2 ^ 32 \<Longrightarrow> unat (a + of_nat i) = unat a + i"
  by (simp add: unat_word_ariths unat_of_nat)

lemma disjoint_not_in_block:
  assumes "disjoint_blocks a n b k" and "i < k"
  shows "\<not> in_block a n (b + of_nat i)"
proof
  assume "in_block a n (b + of_nat i)"
  then have lt: "unat (b + of_nat i - a) < n" by (simp add: in_block_def)
  define j where "j = unat (b + of_nat i - a)"
  have "b + of_nat i = a + of_nat j"
    by (simp add: j_def)
  moreover have "unat (b + of_nat i) = unat b + i"
    using assms by (intro unat_add_of_nat) (auto simp: disjoint_blocks_def)
  moreover have "unat (a + of_nat j) = unat a + j"
    using assms lt by (intro unat_add_of_nat) (auto simp: disjoint_blocks_def j_def)
  ultimately have "unat b + i = unat a + j" by simp
  with assms lt show False by (auto simp: disjoint_blocks_def j_def)
qed

lemma mread_mwrite_disjoint:
  assumes "disjoint_blocks a (length bs) b k"
  shows "mread (mwrite m a bs) b k = mread m b k"
proof (rule mread_eqI)
  fix i assume "i < k"
  then show "mwrite m a bs (b + of_nat i) = m (b + of_nat i)"
    using assms disjoint_not_in_block [OF assms]
    by (intro mwrite_other) (auto simp: disjoint_blocks_def)
qed

lemma mwrite_mread_same: "length bs \<le> 2 ^ 32 \<Longrightarrow> mread m a (length bs) = bs \<Longrightarrow> mwrite m a bs = m"
proof (rule ext)
  fix x
  assume len: "length bs \<le> 2 ^ 32" and eq: "mread m a (length bs) = bs"
  show "mwrite m a bs x = m x"
  proof (cases "unat (x - a) < length bs")
    case True
    then have "bs ! unat (x - a) = mread m a (length bs) ! unat (x - a)" by (simp only: eq)
    also have "\<dots> = m x" using True by simp
    finally show ?thesis using len True by (simp add: mwrite_apply)
  qed (simp add: mwrite_apply [OF len])
qed

end
