(* ===== verification/Ctype.thy ===== *)
theory Ctype
  imports Prelude
begin

text \<open>
  \<^verbatim>\<open>lib_generic/ctype.c\<close> and \<^verbatim>\<open>include/linux/ctype.h\<close>: the 256-entry character class
  table and the predicates over it. The lemmas give each predicate the code uses its
  meaning as a range of character codes.
\<close>

section \<open>The table\<close>

definition ctU :: byte where "ctU = 0x01"
definition ctL :: byte where "ctL = 0x02"
definition ctD :: byte where "ctD = 0x04"
definition ctC :: byte where "ctC = 0x08"
definition ctP :: byte where "ctP = 0x10"
definition ctS :: byte where "ctS = 0x20"
definition ctX :: byte where "ctX = 0x40"
definition ctSP :: byte where "ctSP = 0x80"

lemmas ct_defs = ctU_def ctL_def ctD_def ctC_def ctP_def ctS_def ctX_def ctSP_def

definition ctype_table :: "byte list" where
  "ctype_table = [
    ctC, ctC, ctC, ctC, ctC, ctC, ctC, ctC,
    ctC, ctC OR ctS, ctC OR ctS, ctC OR ctS, ctC OR ctS, ctC OR ctS, ctC, ctC,
    ctC, ctC, ctC, ctC, ctC, ctC, ctC, ctC,
    ctC, ctC, ctC, ctC, ctC, ctC, ctC, ctC,
    ctS OR ctSP, ctP, ctP, ctP, ctP, ctP, ctP, ctP,
    ctP, ctP, ctP, ctP, ctP, ctP, ctP, ctP,
    ctD, ctD, ctD, ctD, ctD, ctD, ctD, ctD,
    ctD, ctD, ctP, ctP, ctP, ctP, ctP, ctP,
    ctP, ctU OR ctX, ctU OR ctX, ctU OR ctX, ctU OR ctX, ctU OR ctX, ctU OR ctX, ctU,
    ctU, ctU, ctU, ctU, ctU, ctU, ctU, ctU,
    ctU, ctU, ctU, ctU, ctU, ctU, ctU, ctU,
    ctU, ctU, ctU, ctP, ctP, ctP, ctP, ctP,
    ctP, ctL OR ctX, ctL OR ctX, ctL OR ctX, ctL OR ctX, ctL OR ctX, ctL OR ctX, ctL,
    ctL, ctL, ctL, ctL, ctL, ctL, ctL, ctL,
    ctL, ctL, ctL, ctL, ctL, ctL, ctL, ctL,
    ctL, ctL, ctL, ctP, ctP, ctP, ctP, ctC,
    0, 0, 0, 0, 0, 0, 0, 0,
    0, 0, 0, 0, 0, 0, 0, 0,
    0, 0, 0, 0, 0, 0, 0, 0,
    0, 0, 0, 0, 0, 0, 0, 0,
    ctS OR ctSP, ctP, ctP, ctP, ctP, ctP, ctP, ctP,
    ctP, ctP, ctP, ctP, ctP, ctP, ctP, ctP,
    ctP, ctP, ctP, ctP, ctP, ctP, ctP, ctP,
    ctP, ctP, ctP, ctP, ctP, ctP, ctP, ctP,
    ctU, ctU, ctU, ctU, ctU, ctU, ctU, ctU,
    ctU, ctU, ctU, ctU, ctU, ctU, ctU, ctU,
    ctU, ctU, ctU, ctU, ctU, ctU, ctU, ctP,
    ctU, ctU, ctU, ctU, ctU, ctU, ctU, ctL,
    ctL, ctL, ctL, ctL, ctL, ctL, ctL, ctL,
    ctL, ctL, ctL, ctL, ctL, ctL, ctL, ctL,
    ctL, ctL, ctL, ctL, ctL, ctL, ctL, ctP,
    ctL, ctL, ctL, ctL, ctL, ctL, ctL, ctL]"

definition ismask :: "byte \<Rightarrow> byte" where
  "ismask c = ctype_table ! unat c"

definition isdigit :: "byte \<Rightarrow> bool" where
  "isdigit c \<longleftrightarrow> ismask c AND ctD \<noteq> 0"

definition islower :: "byte \<Rightarrow> bool" where
  "islower c \<longleftrightarrow> ismask c AND ctL \<noteq> 0"

definition isupper :: "byte \<Rightarrow> bool" where
  "isupper c \<longleftrightarrow> ismask c AND ctU \<noteq> 0"

definition isxdigit :: "byte \<Rightarrow> bool" where
  "isxdigit c \<longleftrightarrow> ismask c AND (ctD OR ctX) \<noteq> 0"

definition isspace :: "byte \<Rightarrow> bool" where
  "isspace c \<longleftrightarrow> ismask c AND ctS \<noteq> 0"

definition isprint :: "byte \<Rightarrow> bool" where
  "isprint c \<longleftrightarrow> ismask c AND (ctP OR ctU OR ctL OR ctD OR ctSP) \<noteq> 0"

definition tolower :: "byte \<Rightarrow> byte" where
  "tolower c = (if isupper c then c - (ch CHR ''A'' - ch CHR ''a'') else c)"

definition toupper :: "byte \<Rightarrow> byte" where
  "toupper c = (if islower c then c - (ch CHR ''a'' - ch CHR ''A'') else c)"

section \<open>The classes as ranges\<close>

lemma length_ctype_table [simp]: "length ctype_table = 256"
  by (simp add: ctype_table_def)

text \<open>
  A class test is a function of the table entry; checking it against a range on all 256
  entries gives the range for every character.
\<close>

lemma ctype_range:
  assumes "all_index (\<lambda>n m. f m = P n) 0 ctype_table"
  shows "f (ismask c) = P (unat c)"
  using all_index_nth [OF assms, of "unat c"] by (simp add: ismask_def)

lemma isdigit_range: "isdigit c \<longleftrightarrow> 48 \<le> unat c \<and> unat c \<le> 57"
  unfolding isdigit_def by (rule ctype_range) (simp add: ctype_table_def ct_defs)

lemma isxdigit_range:
  "isxdigit c \<longleftrightarrow> 48 \<le> unat c \<and> unat c \<le> 57 \<or> 65 \<le> unat c \<and> unat c \<le> 70 \<or> 97 \<le> unat c \<and> unat c \<le> 102"
  unfolding isxdigit_def by (rule ctype_range) (simp add: ctype_table_def ct_defs)

lemma isspace_range:
  "isspace c \<longleftrightarrow> 9 \<le> unat c \<and> unat c \<le> 13 \<or> unat c = 32 \<or> unat c = 160"
  unfolding isspace_def by (rule ctype_range) (simp add: ctype_table_def ct_defs)

lemma isupper_ascii:
  "unat c < 128 \<Longrightarrow> isupper c \<longleftrightarrow> 65 \<le> unat c \<and> unat c \<le> 90"
  using ctype_range [of "\<lambda>m. m AND ctU \<noteq> 0"
      "\<lambda>n. 65 \<le> n \<and> n \<le> 90 \<or> 192 \<le> n \<and> n \<le> 222 \<and> n \<noteq> 215" c]
  unfolding isupper_def by (auto simp: ctype_table_def ct_defs)

lemma islower_ascii:
  "unat c < 128 \<Longrightarrow> islower c \<longleftrightarrow> 97 \<le> unat c \<and> unat c \<le> 122"
  using ctype_range [of "\<lambda>m. m AND ctL \<noteq> 0"
      "\<lambda>n. 97 \<le> n \<and> n \<le> 122 \<or> 223 \<le> n \<and> n \<noteq> 247" c]
  unfolding islower_def by (auto simp: ctype_table_def ct_defs)

end
