(* ===== verification/Vsprintf.thy ===== *)
theory Vsprintf
  imports Ctype
begin

text \<open>
  \<^verbatim>\<open>lib_generic/vsprintf.c\<close>: reading numbers (\<open>simple_strtoul\<close>, \<open>simple_strtol\<close>) and
  formatted output (\<open>number\<close>, \<open>vsprintf\<close>). A C string is the list of its bytes up to the
  NUL, and the byte under a pointer past the last one is that NUL (\<open>peek\<close>). Results are
  32-bit words, so \<^verbatim>\<open>result*base+value\<close> wraps as the code does. What the code writes
  through \<^verbatim>\<open>str\<close> is the list of emitted bytes.
\<close>

section \<open>Reading numbers\<close>

fun peek :: "byte list \<Rightarrow> byte" where
  "peek [] = 0"
| "peek (c # _) = c"

definition digit_value :: "byte \<Rightarrow> u32" where
  "digit_value c =
     (if isdigit c then ucast c - 48
      else ucast (if islower c then toupper c else c) - 65 + 10)"

fun strtoul_loop :: "u32 \<Rightarrow> u32 \<Rightarrow> byte list \<Rightarrow> u32 \<times> byte list" where
  "strtoul_loop base result [] = (result, [])"
| "strtoul_loop base result (c # cs) =
     (if isxdigit c \<and> digit_value c < base
      then strtoul_loop base (result * base + digit_value c) cs
      else (result, c # cs))"

text \<open>The number and the rest of the string, which is where \<^verbatim>\<open>*endp\<close> points.\<close>

definition simple_strtoul :: "byte list \<Rightarrow> u32 \<Rightarrow> u32 \<times> byte list" where
  "simple_strtoul cp base =
     (let (cp, base) =
            (if peek cp = ch CHR ''0''
             then let cp = tl cp;
                      (base, cp) = (if peek cp = ch CHR ''x'' \<and> isxdigit (peek (tl cp))
                                    then (16, tl cp) else (base, cp))
                  in (cp, if base = 0 then 8 else base)
             else (cp, base));
          base = (if base = 0 then 10 else base)
      in strtoul_loop base 0 cp)"

definition simple_strtol :: "byte list \<Rightarrow> u32 \<Rightarrow> u32 \<times> byte list" where
  "simple_strtol cp base =
     (if peek cp = ch CHR ''-''
      then (let (v, e) = simple_strtoul (tl cp) base in (- v, e))
      else simple_strtoul cp base)"

section \<open>Formatting one number\<close>

definition fZEROPAD :: u32 where "fZEROPAD = 1"
definition fSIGN :: u32 where "fSIGN = 2"
definition fPLUS :: u32 where "fPLUS = 4"
definition fSPACE :: u32 where "fSPACE = 8"
definition fLEFT :: u32 where "fLEFT = 16"
definition fSPECIAL :: u32 where "fSPECIAL = 32"
definition fLARGE :: u32 where "fLARGE = 64"

lemmas flag_defs = fZEROPAD_def fSIGN_def fPLUS_def fSPACE_def fLEFT_def fSPECIAL_def fLARGE_def

definition digits_lower :: "byte list" where
  "digits_lower = str ''0123456789abcdefghijklmnopqrstuvwxyz''"

definition digits_upper :: "byte list" where
  "digits_upper = str ''0123456789ABCDEFGHIJKLMNOPQRSTUVWXYZ''"

text \<open>
  \<^verbatim>\<open>while (num != 0) tmp[i++] = digits[do_div(num,base)]\<close>: the contents of \<^verbatim>\<open>tmp\<close>, least
  significant digit first; \<^verbatim>\<open>do_div\<close> divides as unsigned.
\<close>

function digit_loop :: "byte list \<Rightarrow> u32 \<Rightarrow> u32 \<Rightarrow> byte list" where
  "digit_loop digits base num =
     (if num = 0 \<or> base < 2 then []
      else digits ! unat (num mod base) # digit_loop digits base (num div base))"
  by pat_completeness auto
termination
proof (relation "measure (\<lambda>(d, b, n). unat n)")
  fix digits :: "byte list" and base num :: u32
  assume "\<not> (num = 0 \<or> base < 2)"
  then have "0 < unat num" and "1 < unat base"
    by (auto simp: unat_gt_0 word_less_nat_alt)
  then have "unat (num div base) < unat num"
    by (simp add: unat_div)
  then show "((digits, base, num div base), digits, base, num) \<in> measure (\<lambda>(d, b, n). unat n)"
    by simp
qed simp

declare digit_loop.simps [simp del]

text \<open>\<^verbatim>\<open>while (size-- > 0) *str++ = c\<close>: what it emits, and \<^verbatim>\<open>size\<close> afterwards.\<close>

definition pad_loop :: "byte \<Rightarrow> int \<Rightarrow> byte list \<times> int" where
  "pad_loop c sz = (replicate (nat sz) c, min sz 0 - 1)"

text \<open>The bytes appended at \<^verbatim>\<open>str\<close>; \<open>None\<close> where the code returns 0.\<close>

definition number :: "u32 \<Rightarrow> int \<Rightarrow> int \<Rightarrow> int \<Rightarrow> u32 \<Rightarrow> byte list option" where
  "number num base sz precision type =
     (let digits = (if type AND fLARGE \<noteq> 0 then digits_upper else digits_lower);
          type = (if type AND fLEFT \<noteq> 0 then type AND NOT fZEROPAD else type)
      in
      if base < 2 \<or> base > 36 then None
      else
        let c = (if type AND fZEROPAD \<noteq> 0 then ch CHR ''0'' else ch CHR '' '');
            (sign, num, sz) =
              (if type AND fSIGN \<noteq> 0
               then if num <s 0 then ([ch CHR ''-''], - num, sz - 1)
                    else if type AND fPLUS \<noteq> 0 then ([ch CHR ''+''], num, sz - 1)
                    else if type AND fSPACE \<noteq> 0 then ([ch CHR '' ''], num, sz - 1)
                    else ([], num, sz)
               else ([], num, sz));
            sz = (if type AND fSPECIAL \<noteq> 0
                    then if base = 16 then sz - 2 else if base = 8 then sz - 1 else sz
                    else sz);
            tmp = (if num = 0 then [ch CHR ''0''] else digit_loop digits (word_of_int base) num);
            i = int (length tmp);
            precision = (if i > precision then i else precision);
            sz = sz - precision;
            (pad1, sz) = (if type AND (fZEROPAD OR fLEFT) = 0 then pad_loop (ch CHR '' '') sz
                            else ([], sz));
            special = (if type AND fSPECIAL \<noteq> 0
                       then if base = 8 then [ch CHR ''0'']
                            else if base = 16 then [ch CHR ''0'', digits ! 33] else []
                       else []);
            (pad2, sz) = (if type AND fLEFT = 0 then pad_loop c sz else ([], sz));
            zeros = replicate (nat (precision - i)) (ch CHR ''0'');
            (pad3, _) = pad_loop (ch CHR '' '') sz
        in Some (pad1 @ sign @ special @ pad2 @ zeros @ rev tmp @ pad3))"

section \<open>Formatted output\<close>

text \<open>
  The variable arguments. On the target \<^verbatim>\<open>int\<close>, \<^verbatim>\<open>long\<close> and pointers are one 32-bit word
  (\<open>VaWord\<close>); a \<^verbatim>\<open>char *\<close> argument carries the string it points to, \<open>None\<close> for a null
  pointer. A missing argument, or a word where a string is fetched, is undefined in C: the
  functions then return \<open>None\<close>.
\<close>

datatype va_arg = VaWord u32 | VaStr "byte list option"

fun va_word :: "va_arg list \<Rightarrow> (u32 \<times> va_arg list) option" where
  "va_word (VaWord w # args) = Some (w, args)"
| "va_word _ = None"

fun va_str :: "va_arg list \<Rightarrow> (byte list option \<times> va_arg list) option" where
  "va_str (VaStr s # args) = Some (s, args)"
| "va_str _ = None"

definition is_digit :: "byte \<Rightarrow> bool" where
  "is_digit c \<longleftrightarrow> ch CHR ''0'' \<le> c \<and> c \<le> ch CHR ''9''"

fun skip_atoi :: "int \<Rightarrow> byte list \<Rightarrow> int \<times> byte list" where
  "skip_atoi i [] = (i, [])"
| "skip_atoi i (c # cs) =
     (if is_digit c then skip_atoi (i * 10 + uint c - 48) cs else (i, c # cs))"

fun parse_flags :: "u32 \<Rightarrow> byte list \<Rightarrow> u32 \<times> byte list" where
  "parse_flags flags [] = (flags, [])"
| "parse_flags flags (c # fmt) =
     (if c = ch CHR ''-'' then parse_flags (flags OR fLEFT) fmt
      else if c = ch CHR ''+'' then parse_flags (flags OR fPLUS) fmt
      else if c = ch CHR '' '' then parse_flags (flags OR fSPACE) fmt
      else if c = ch CHR ''#'' then parse_flags (flags OR fSPECIAL) fmt
      else if c = ch CHR ''0'' then parse_flags (flags OR fZEROPAD) fmt
      else (flags, c # fmt))"

definition parse_width ::
    "u32 \<Rightarrow> byte list \<Rightarrow> va_arg list \<Rightarrow> (int \<times> u32 \<times> byte list \<times> va_arg list) option" where
  "parse_width flags fmt args =
     (if is_digit (peek fmt) then (let (w, fmt) = skip_atoi 0 fmt in Some (w, flags, fmt, args))
      else if peek fmt = ch CHR ''*'' then
        (case va_word args of
           None \<Rightarrow> None
         | Some (w, args) \<Rightarrow>
             Some (if sint w < 0 then (- sint w, flags OR fLEFT, tl fmt, args)
                   else (sint w, flags, tl fmt, args)))
      else Some (-1, flags, fmt, args))"

definition parse_precision ::
    "byte list \<Rightarrow> va_arg list \<Rightarrow> (int \<times> byte list \<times> va_arg list) option" where
  "parse_precision fmt args =
     (if peek fmt = ch CHR ''.'' then
        (let fmt = tl fmt in
         if is_digit (peek fmt) then (let (p, fmt) = skip_atoi 0 fmt in Some (max p 0, fmt, args))
         else if peek fmt = ch CHR ''*'' then
           (case va_word args of
              None \<Rightarrow> None
            | Some (p, args) \<Rightarrow> Some (max (sint p) 0, tl fmt, args))
         else Some (0, fmt, args))
      else Some (-1, fmt, args))"

text \<open>\<^verbatim>\<open>while (--size > 0) *str++ = ' '\<close> and \<^verbatim>\<open>while (len < size--) *str++ = ' '\<close>.\<close>

definition pad_pre :: "int \<Rightarrow> byte list \<times> int" where
  "pad_pre sz = (replicate (nat (sz - 1)) (ch CHR '' ''), min (sz - 1) 0)"

definition pad_to :: "int \<Rightarrow> int \<Rightarrow> byte list \<times> int" where
  "pad_to len sz = (replicate (nat (sz - len)) (ch CHR '' ''), min sz len - 1)"

text \<open>The argument of an integer conversion, widened to \<^verbatim>\<open>unsigned long\<close> as the code does.\<close>

definition fetch_num :: "byte \<Rightarrow> u32 \<Rightarrow> u32 \<Rightarrow> u32" where
  "fetch_num qualifier flags w =
     (if qualifier = ch CHR ''h''
      then (let num = (ucast (ucast w :: u16) :: u32)
            in if flags AND fSIGN \<noteq> 0 then (scast (ucast num :: u16) :: u32) else num)
      else w)"

text \<open>
  One conversion, from the qualifier on. \<open>pos\<close> is \<^verbatim>\<open>str - buf\<close>. The result holds the emitted
  bytes, the stores of \<^verbatim>\<open>%n\<close> (address and value), and the rest of the format and arguments.
\<close>

definition conversion ::
    "u32 \<Rightarrow> int \<Rightarrow> int \<Rightarrow> byte list \<Rightarrow> va_arg list \<Rightarrow> nat \<Rightarrow>
       (byte list \<times> (u32 \<times> u32) list \<times> byte list \<times> va_arg list) option" where
  "conversion flags field_width precision fmt args pos =
     (let (qualifier, fmt) =
            (if peek fmt = ch CHR ''h'' \<or> peek fmt = ch CHR ''l'' \<or> peek fmt = ch CHR ''L''
             then (peek fmt, tl fmt) else (0, fmt));
          integer = (\<lambda>base flags.
            case va_word args of
              None \<Rightarrow> None
            | Some (w, args) \<Rightarrow>
                map_option (\<lambda>out. (out, [], tl fmt, args))
                  (number (fetch_num qualifier flags w) base field_width precision flags));
          c = peek fmt
      in
      if c = ch CHR ''c'' then
        (case va_word args of
           None \<Rightarrow> None
         | Some (w, args) \<Rightarrow>
             let (p1, fw) = (if flags AND fLEFT = 0 then pad_pre field_width else ([], field_width));
                 (p2, _) = pad_pre fw
             in Some (p1 @ [ucast w] @ p2, [], tl fmt, args))
      else if c = ch CHR ''s'' then
        (case va_str args of
           None \<Rightarrow> None
         | Some (s, args) \<Rightarrow>
             let s = (case s of None \<Rightarrow> str ''<NULL>'' | Some s \<Rightarrow> s);
                 s = (if precision < 0 then s else take (nat precision) s);
                 (p1, fw) = (if flags AND fLEFT = 0 then pad_to (int (length s)) field_width
                             else ([], field_width));
                 (p2, _) = pad_to (int (length s)) fw
             in Some (p1 @ s @ p2, [], tl fmt, args))
      else if c = ch CHR ''p'' then
        (case va_word args of
           None \<Rightarrow> None
         | Some (w, args) \<Rightarrow>
             let (fw, flags) = (if field_width = -1 then (8, flags OR fZEROPAD)
                                else (field_width, flags))
             in map_option (\<lambda>out. (out, [], tl fmt, args)) (number w 16 fw precision flags))
      else if c = ch CHR ''n'' then
        (case va_word args of
           None \<Rightarrow> None
         | Some (a, args) \<Rightarrow> Some ([], [(a, of_nat pos)], tl fmt, args))
      else if c = ch CHR ''%'' then Some ([ch CHR ''%''], [], tl fmt, args)
      else if c = ch CHR ''o'' then integer 8 flags
      else if c = ch CHR ''X'' then integer 16 (flags OR fLARGE)
      else if c = ch CHR ''x'' then integer 16 flags
      else if c = ch CHR ''d'' \<or> c = ch CHR ''i'' then integer 10 (flags OR fSIGN)
      else if c = ch CHR ''u'' then integer 10 flags
      else Some (ch CHR ''%'' # take 1 fmt, [], tl fmt, args))"

definition directive ::
    "byte list \<Rightarrow> va_arg list \<Rightarrow> nat \<Rightarrow>
       (byte list \<times> (u32 \<times> u32) list \<times> byte list \<times> va_arg list) option" where
  "directive fmt args pos =
     (let (flags, fmt) = parse_flags 0 fmt in
      case parse_width flags fmt args of
        None \<Rightarrow> None
      | Some (field_width, flags, fmt, args) \<Rightarrow>
          (case parse_precision fmt args of
             None \<Rightarrow> None
           | Some (precision, fmt, args) \<Rightarrow>
               conversion flags field_width precision fmt args pos))"

lemma length_skip_atoi: "skip_atoi i fmt = (n, r) \<Longrightarrow> length r \<le> length fmt"
  by (induction i fmt rule: skip_atoi.induct) (auto split: if_splits)

lemma length_parse_flags: "parse_flags fl fmt = (fl', r) \<Longrightarrow> length r \<le> length fmt"
  by (induction fl fmt rule: parse_flags.induct) (auto split: if_splits)

lemma length_parse_width: "parse_width fl fmt args = Some (w, fl', r, args') \<Longrightarrow> length r \<le> length fmt"
  by (auto simp: parse_width_def dest: length_skip_atoi split: if_splits option.splits prod.splits)

lemma length_tl_le: "length (tl xs) \<le> length xs"
  by simp

lemma length_parse_precision: "parse_precision fmt args = Some (p, r, args') \<Longrightarrow> length r \<le> length fmt"
  by (auto simp: parse_precision_def Let_def dest!: length_skip_atoi
      split: if_splits option.splits prod.splits)

lemma length_conversion: "conversion fl w p fmt args pos = Some (out, wr, r, args') \<Longrightarrow> length r \<le> length fmt"
  by (auto simp: conversion_def Let_def split: if_splits option.splits prod.splits)

lemma length_directive:
  assumes "directive fmt args pos = Some (out, wr, r, args')"
  shows "length r \<le> length fmt"
  using assms unfolding directive_def
  by (fastforce dest: length_parse_flags length_parse_width length_parse_precision length_conversion
      split: prod.splits option.splits)

text \<open>
  \<^verbatim>\<open>vsprintf\<close> proper: the emitted string (the code adds the NUL and returns its length)
  and the stores of \<^verbatim>\<open>%n\<close> in order.
\<close>

function vsprintf_loop ::
    "byte list \<Rightarrow> va_arg list \<Rightarrow> byte list \<Rightarrow> (u32 \<times> u32) list \<Rightarrow>
       (byte list \<times> (u32 \<times> u32) list) option" where
  "vsprintf_loop [] args out wr = Some (out, wr)"
| "vsprintf_loop (c # fmt) args out wr =
     (if c \<noteq> ch CHR ''%'' then vsprintf_loop fmt args (out @ [c]) wr
      else (case directive fmt args (length out) of
              None \<Rightarrow> None
            | Some (emit, wr', fmt', args') \<Rightarrow>
                vsprintf_loop fmt' args' (out @ emit) (wr @ wr')))"
  by pat_completeness auto
termination
  by (relation "measure (\<lambda>(fmt, _). length fmt)") (auto simp: less_Suc_eq_le dest: length_directive)

definition vsprintf :: "byte list \<Rightarrow> va_arg list \<Rightarrow> (byte list \<times> (u32 \<times> u32) list) option" where
  "vsprintf fmt args = vsprintf_loop fmt args [] []"

text \<open>\<^verbatim>\<open>sprintf(buf, fmt, ...)\<close> for formats without \<^verbatim>\<open>%n\<close>: the string left in \<^verbatim>\<open>buf\<close>.\<close>

definition sprintf :: "byte list \<Rightarrow> va_arg list \<Rightarrow> byte list option" where
  "sprintf fmt args = map_option fst (vsprintf fmt args)"

section \<open>Lemmas\<close>

subsection \<open>Digits\<close>

lemma digits_lower_value:
  assumes "m < 16"
  shows "isxdigit (digits_lower ! m) \<and> digit_value (digits_lower ! m) = of_nat m"
proof -
  have "all_index (\<lambda>m d. isxdigit d \<and> digit_value d = of_nat m) 0 (take 16 digits_lower)"
    by (simp add: digits_lower_def isxdigit_range digit_value_def isdigit_range islower_ascii
        toupper_def)
  moreover have "length digits_lower = 36" by (simp add: digits_lower_def)
  ultimately show ?thesis using all_index_nth [of _ 0 "take 16 digits_lower" m] assms by simp
qed

lemma digit_loop_Cons:
  "num \<noteq> 0 \<Longrightarrow> 2 \<le> base \<Longrightarrow>
   digit_loop d base num = d ! unat (num mod base) # digit_loop d base (num div base)"
  by (subst digit_loop.simps) auto

lemma digit_loop_0 [simp]: "digit_loop d base 0 = []"
  by (subst digit_loop.simps) simp

lemma strtoul_digit_loop:
  assumes "2 \<le> base" and "base \<le> 16"
  shows "strtoul_loop base acc (rev (digit_loop digits_lower base num) @ rest) =
         strtoul_loop base (acc * base ^ length (digit_loop digits_lower base num) + num) rest"
  using assms
proof (induction digits_lower base num arbitrary: acc rest rule: digit_loop.induct)
  case (1 base num)
  show ?case
  proof (cases "num = 0")
    case True
    then show ?thesis by simp
  next
    case False
    let ?d = "digits_lower ! unat (num mod base)"
    have base: "2 \<le> base" "base \<noteq> 0" using 1 by auto
    have lt: "num mod base < base" using base by (simp add: word_mod_less_divisor word_gt_0)
    then have "unat (num mod base) < 16" using 1(3) by (simp add: word_less_nat_alt word_le_nat_alt)
    then have d: "isxdigit ?d" "digit_value ?d = num mod base"
      using digits_lower_value [of "unat (num mod base)"] by auto
    have eq: "digit_loop digits_lower base num = ?d # digit_loop digits_lower base (num div base)"
      using False base by (simp add: digit_loop_Cons)
    have "\<not> (num = 0 \<or> base < 2)" using False base by auto
    note IH = 1(1) [OF this 1(2,3), of acc "?d # rest"]
    have "(y + num div base) * base + num mod base = y * base + num" for y
      by (simp only: distrib_right add.assoc div_mult_mod_eq)
    then show ?thesis using d lt by (simp add: eq IH mult.assoc mult.commute mult.left_commute)
  qed
qed

lemma digit_loop_bound:
  assumes "2 \<le> base" and "unat num < 2 ^ k"
  shows "length (digit_loop d base num) \<le> k"
  using assms
proof (induction k arbitrary: num)
  case 0
  then show ?case by (simp add: unat_eq_zero)
next
  case (Suc k)
  show ?case
  proof (cases "num = 0")
    case True
    then show ?thesis by simp
  next
    case False
    have "unat (num div base) = unat num div unat base" by (simp add: unat_div)
    also have "\<dots> \<le> unat num div 2"
      using Suc.prems by (intro div_le_mono2) (auto simp: word_le_nat_alt)
    also have "\<dots> < 2 ^ k" using Suc.prems by auto
    finally show ?thesis using Suc False by (simp add: digit_loop_Cons)
  qed
qed

lemma digit_loop_neq_Nil: "num \<noteq> 0 \<Longrightarrow> 2 \<le> base \<Longrightarrow> digit_loop d base num \<noteq> []"
  by (simp add: digit_loop_Cons)

text \<open>The most significant digit is not zero.\<close>

lemma last_digit_loop:
  assumes "num \<noteq> 0" and "2 \<le> base" and "base \<le> 16"
  shows "last (digit_loop digits_lower base num) \<noteq> ch CHR ''0''"
  using assms
proof (induction digits_lower base num rule: digit_loop.induct)
  case (1 base num)
  have base: "base \<noteq> 0" using 1(3) by auto
  show ?case
  proof (cases "num div base = 0")
    case False
    with 1 show ?thesis by (auto simp: digit_loop_Cons digit_loop_neq_Nil)
  next
    case True
    then have "num mod base = num" using div_mult_mod_eq [of num base] by simp
    then have lt: "num < base" using base by (metis word_mod_less_divisor word_gt_0)
    then have "unat num < 16" using 1(4) by (simp add: word_less_nat_alt word_le_nat_alt)
    then have "digit_value (digits_lower ! unat num) = num"
      using digits_lower_value [of "unat num"] by simp
    moreover have "digit_value (ch CHR ''0'') = 0"
      by (simp add: digit_value_def isdigit_range)
    ultimately show ?thesis
      using True 1 \<open>num mod base = num\<close> by (auto simp: digit_loop_Cons)
  qed
qed

subsection \<open>Printed numbers\<close>

text \<open>What \<open>number\<close> emits without flags, width and precision is the digits alone.\<close>

definition digit_string :: "int \<Rightarrow> u32 \<Rightarrow> byte list" where
  "digit_string base num =
     (if num = 0 then [ch CHR ''0''] else rev (digit_loop digits_lower (word_of_int base) num))"

lemma number_plain:
  "2 \<le> base \<Longrightarrow> base \<le> 36 \<Longrightarrow> number num base (-1) (-1) 0 = Some (digit_string base num)"
  by (auto simp: number_def digit_string_def pad_loop_def flag_defs Let_def)

lemma number_signed:
  "number num 10 (-1) (-1) fSIGN =
     Some (if num <s 0 then ch CHR ''-'' # digit_string 10 (- num) else digit_string 10 num)"
  by (auto simp: number_def digit_string_def pad_loop_def flag_defs Let_def)

lemma word_of_int_base: "2 \<le> base \<Longrightarrow> base \<le> 16 \<Longrightarrow> 2 \<le> (word_of_int base :: u32) \<and> (word_of_int base :: u32) \<le> 16"
  by (simp add: word_le_def uint_word_of_int take_bit_eq_mod)

lemma peek_digit_string:
  assumes "num \<noteq> 0" and "2 \<le> base" and "base \<le> 16"
  shows "peek (digit_string base num @ rest) \<noteq> ch CHR ''0''"
proof -
  let ?ds = "digit_loop digits_lower (word_of_int base) num"
  have b: "2 \<le> (word_of_int base :: u32)" "(word_of_int base :: u32) \<le> 16"
    using word_of_int_base assms by auto
  have "?ds \<noteq> []" using digit_loop_neq_Nil assms b by blast
  then obtain d ds where r: "rev ?ds = d # ds" by (metis neq_Nil_conv rev_is_Nil_conv)
  then have "d = last ?ds" by (metis hd_rev list.sel(1))
  moreover have "digit_string base num = d # ds"
    unfolding digit_string_def r using assms(1) by simp
  ultimately show ?thesis
    using last_digit_loop [OF assms(1) b] by simp
qed

lemma strtoul_stop:
  "\<not> isxdigit (peek rest) \<Longrightarrow> strtoul_loop base acc rest = (acc, rest)"
  by (cases rest) auto

lemma strtoul_digit_string:
  assumes "2 \<le> base" and "base \<le> 16"
    and "\<not> isxdigit (peek rest)" and "peek rest \<noteq> ch CHR ''x''"
  shows "simple_strtoul (digit_string base num @ rest) (word_of_int base) = (num, rest)"
proof -
  have b: "2 \<le> (word_of_int base :: u32)" "(word_of_int base :: u32) \<le> 16"
    using word_of_int_base assms by auto
  then have b0: "(word_of_int base :: u32) \<noteq> 0" by auto
  show ?thesis
  proof (cases "num = 0")
    case True
    with assms(3,4) b0 show ?thesis
      by (simp add: simple_strtoul_def digit_string_def strtoul_stop)
  next
    case False
    with assms b0 have "simple_strtoul (digit_string base num @ rest) (word_of_int base) =
        strtoul_loop (word_of_int base) 0 (digit_string base num @ rest)"
      using peek_digit_string [of num base rest] by (simp add: simple_strtoul_def)
    also have "\<dots> = (num, rest)"
      using False b assms(3) by (simp add: digit_string_def strtoul_digit_loop strtoul_stop)
    finally show ?thesis .
  qed
qed

lemma digit_string_range:
  assumes "2 \<le> base" and "base \<le> 16" and "c \<in> set (digit_string base num)"
  shows "isxdigit c"
proof -
  have "\<forall>c \<in> set (digit_loop digits_lower b num). isxdigit c" if "2 \<le> b" "b \<le> 16" for b
    using that
  proof (induction digits_lower b num rule: digit_loop.induct)
    case (1 base num)
    show ?case
    proof (cases "num = 0")
      case False
      have "base \<noteq> 0" using 1(2) by auto
      then have lt: "num mod base < base" by (simp add: word_mod_less_divisor word_gt_0)
      then have "unat (num mod base) < 16" using 1(3) by (simp add: word_less_nat_alt word_le_nat_alt)
      with 1 False show ?thesis by (auto simp: digit_loop_Cons digits_lower_value)
    qed simp
  qed
  moreover have "isxdigit (ch CHR ''0'')" by (simp add: isxdigit_range)
  ultimately show ?thesis
    using word_of_int_base assms by (auto simp: digit_string_def split: if_splits)
qed

lemma minus_not_zero_char: "peek (digit_string 10 num @ rest) \<noteq> ch CHR ''-''"
proof -
  have "digit_string 10 num \<noteq> []"
    by (auto simp: digit_string_def digit_loop_neq_Nil)
  then obtain c cs where eq: "digit_string 10 num = c # cs" by (cases "digit_string 10 num") auto
  then have "isxdigit c" using digit_string_range [of 10 c num] by simp
  then show ?thesis by (auto simp: eq isxdigit_range)
qed

section \<open>Properties\<close>

text \<open>
  C39: \<open>simple_strtoul\<close> reads back what \<open>number\<close> printed: for every 32-bit value and every
  base from 2 to 16, parsing the printed digits in that base returns the value, and the end
  pointer is left right after them (provided what follows is neither a hex digit nor the
  \<^verbatim>\<open>x\<close> that would make a leading \<^verbatim>\<open>0\<close> a prefix).
\<close>

theorem strtoul_reads_number:
  assumes "2 \<le> base" and "base \<le> 16"
    and "number num base (-1) (-1) 0 = Some out"
    and "\<not> isxdigit (peek rest)" and "peek rest \<noteq> ch CHR ''x''"
  shows "simple_strtoul (out @ rest) (word_of_int base) = (num, rest)"
  using assms by (auto simp: number_plain strtoul_digit_string)

theorem strtoul_reads_number_witness:
  "simple_strtoul (str ''ff00'' @ str ''.'') (word_of_int 16) = (0xff00, str ''.'')"
proof (rule strtoul_reads_number)
  show "number 0xff00 16 (-1) (-1) 0 = Some (str ''ff00'')" by code_simp
qed (simp_all add: isxdigit_range)

text \<open>
  \<open>simple_strtol\<close> in base 10 reads back what \<open>number\<close> printed with the sign flag, for
  every 32-bit value, the most negative one included (whose negation wraps to itself).
\<close>

theorem strtol_reads_signed:
  assumes "number num 10 (-1) (-1) fSIGN = Some out"
    and "\<not> isxdigit (peek rest)" and "peek rest \<noteq> ch CHR ''x''"
  shows "simple_strtol (out @ rest) 10 = (num, rest)"
  using assms strtoul_digit_string [of 10 rest num] strtoul_digit_string [of 10 rest "- num"]
    minus_not_zero_char [of num rest]
  by (auto simp: number_signed simple_strtol_def split: if_splits)

theorem strtol_reads_signed_witness:
  "simple_strtol (str ''-2147483648'' @ []) 10 = (0x80000000, [])"
proof (rule strtol_reads_signed)
  show "number 0x80000000 10 (-1) (-1) fSIGN = Some (str ''-2147483648'')" by code_simp
qed (simp_all add: isxdigit_range)

text \<open>
  the scratch array \<^verbatim>\<open>tmp[66]\<close> of \<open>number\<close> cannot overflow: for every accepted base it
  receives at most 32 digits.
\<close>

theorem number_tmp_bound:
  "2 \<le> base \<Longrightarrow> base \<le> 36 \<Longrightarrow> length (digit_loop digits (word_of_int base) num) \<le> 32"
  by (rule digit_loop_bound)
    (use unsigned_less [where ?'a = nat, of num] in
      \<open>auto simp: word_le_def uint_word_of_int take_bit_eq_mod\<close>)

theorem number_tmp_bound_witness:
  "length (digit_loop digits_upper (word_of_int 2) 0xffffffff) \<le> 32"
  by (rule number_tmp_bound) simp_all

end
