(* ===== verification/Srecord.thy ===== *)
theory Srecord
  imports Memory Vsprintf
begin

text \<open>
  Motorola S-records: the decoder \<^verbatim>\<open>common/s_record.c\<close> and the serial up- and download of
  \<^verbatim>\<open>common/cmd_boot.c\<close> (\<open>read_record\<close>, \<open>load_serial\<close>, \<open>save_serial\<close>, \<open>write_record\<close>).
  A record is the list of its characters up to the NUL. The serial line is the list of the
  characters still to come, each with the answer of the console hangup check made after it;
  a read past its end blocks for ever and is \<open>None\<close>. Echo and progress output is left out.
\<close>

section \<open>The decoder\<close>

datatype srec_code =
    SREC_START | SREC_DATA2 | SREC_DATA3 | SREC_DATA4 | SREC_COUNT
  | SREC_END4 | SREC_END3 | SREC_END2 | SREC_EMPTY
  | SREC_E_BADTYPE | SREC_E_NOSREC | SREC_E_BADCHKS

definition hex1_bin :: "byte \<Rightarrow> int" where
  "hex1_bin c =
     (if ch CHR ''0'' \<le> c \<and> c \<le> ch CHR ''9'' then uint c - uint (ch CHR ''0'')
      else if ch CHR ''a'' \<le> c \<and> c \<le> ch CHR ''f'' then uint c + 10 - uint (ch CHR ''a'')
      else if ch CHR ''A'' \<le> c \<and> c \<le> ch CHR ''F'' then uint c + 10 - uint (ch CHR ''A'')
      else -1)"

definition hex2_bin :: "byte list \<Rightarrow> int" where
  "hex2_bin s =
     (let i = hex1_bin (peek s) in
      if i < 0 then -1
      else let j = hex1_bin (peek (tl s)) in
        if j < 0 then -1 else i * 16 + j)"

text \<open>\<^verbatim>\<open>for (; *input; ++input) if (*input == 'S') { ++input; break; }\<close>\<close>

fun skip_to_S :: "byte list \<Rightarrow> byte list" where
  "skip_to_S [] = []"
| "skip_to_S (c # cs) = (if c = ch CHR ''S'' then cs else skip_to_S cs)"

text \<open>Record type character: the code, the bytes of address, the length beyond the data.\<close>

definition srec_kind :: "byte \<Rightarrow> (srec_code \<times> nat \<times> int) option" where
  "srec_kind v =
     (if v = ch CHR ''0'' then Some (SREC_START, 2, 3)
      else if v = ch CHR ''1'' then Some (SREC_DATA2, 2, 3)
      else if v = ch CHR ''2'' then Some (SREC_DATA3, 3, 4)
      else if v = ch CHR ''3'' then Some (SREC_DATA4, 4, 5)
      else if v = ch CHR ''5'' then Some (SREC_COUNT, 2, 0)
      else if v = ch CHR ''7'' then Some (SREC_END4, 4, 5)
      else if v = ch CHR ''8'' then Some (SREC_END3, 3, 4)
      else if v = ch CHR ''9'' then Some (SREC_END2, 2, 3)
      else None)"

text \<open>
  One step of the address field: shift the value in, add it to the checksum. The flag is
  false when a character is no hex digit; the address read so far stays in \<^verbatim>\<open>*addr\<close>.
\<close>

fun srec_addr :: "nat \<Rightarrow> byte list \<Rightarrow> u32 \<Rightarrow> byte \<Rightarrow> bool \<times> byte list \<times> u32 \<times> byte" where
  "srec_addr 0 input addr chksum = (True, input, addr, chksum)"
| "srec_addr (Suc n) input addr chksum =
     (let v = hex2_bin input in
      if v < 0 then (False, input, addr, chksum)
      else srec_addr n (drop 2 input) (push_bit 8 addr + word_of_int v) (chksum + word_of_int v))"

text \<open>The data field: the bytes stored in \<^verbatim>\<open>data[]\<close>, in order.\<close>

fun srec_data :: "nat \<Rightarrow> byte list \<Rightarrow> byte \<Rightarrow> byte list \<Rightarrow> bool \<times> byte list \<times> byte \<times> byte list" where
  "srec_data 0 input chksum stored = (True, input, chksum, stored)"
| "srec_data (Suc n) input chksum stored =
     (let v = hex2_bin input in
      if v < 0 then (False, input, chksum, stored)
      else srec_data n (drop 2 input) (chksum + word_of_int v) (stored @ [word_of_int v]))"

text \<open>
  \<^verbatim>\<open>srec_decode(input, count, addr, data)\<close>: the code returned, \<^verbatim>\<open>*count\<close> and \<^verbatim>\<open>*addr\<close> afterwards
  (\<open>count0\<close> and \<open>addr0\<close> before) and the bytes stored in \<^verbatim>\<open>data\<close>.
\<close>

definition srec_decode :: "byte list \<Rightarrow> int \<Rightarrow> u32 \<Rightarrow> srec_code \<times> int \<times> u32 \<times> byte list" where
  "srec_decode input count0 addr0 =
     (let input = skip_to_S input in
      if peek input = 0 then (SREC_EMPTY, count0, addr0, [])
      else
        let v = peek input; input = tl input; count = hex2_bin input in
        if count < 0 then (SREC_E_NOSREC, count, addr0, [])
        else
          let chksum = (word_of_int count :: byte); input = drop 2 input in
          case srec_kind v of
            None \<Rightarrow> (SREC_E_BADTYPE, count, addr0, [])
          | Some (srec_type, alen, overhead) \<Rightarrow>
              let count = (if srec_type = SREC_COUNT then 0 else count - overhead);
                  (ok, input, addr, chksum) = srec_addr alen input 0 chksum
              in
              if \<not> ok then (SREC_E_NOSREC, count, addr, [])
              else
                let (ok, input, chksum, stored) = srec_data (nat count) input chksum [] in
                if \<not> ok then (SREC_E_NOSREC, count, addr, stored)
                else
                  let v = hex2_bin input in
                  if v < 0 then (SREC_E_NOSREC, count, addr, stored)
                  else if (word_of_int v :: byte) \<noteq> NOT chksum
                  then (SREC_E_BADCHKS, count, addr, stored)
                  else (srec_type, count, addr, stored))"

section \<open>Serial download\<close>

type_synonym serial_in = "(byte \<times> bool) list"

definition SREC_MAXRECLEN :: nat where "SREC_MAXRECLEN = 512 + 4"
definition SREC_MAXBINLEN :: nat where "SREC_MAXBINLEN = 255"

text \<open>
  \<open>room\<close> is \<^verbatim>\<open>buf + len - p\<close>, \<open>acc\<close> the characters in the buffer. The inner result is
  \<open>None\<close> for the return value -1.
\<close>

fun read_record_loop :: "nat \<Rightarrow> byte list \<Rightarrow> serial_in \<Rightarrow> (byte list option \<times> serial_in) option" where
  "read_record_loop 0 acc rx = Some (Some acc, rx)"
| "read_record_loop (Suc room) acc [] = None"
| "read_record_loop (Suc room) acc ((c, hup) # rx) =
     (if c = 13 \<or> c = 10 then Some (Some acc, rx)
      else if c = 0 \<or> c = 3 then Some (None, rx)
      else if hup then Some (None, rx)
      else read_record_loop room (acc @ [c]) rx)"

definition read_record :: "nat \<Rightarrow> serial_in \<Rightarrow> (byte list option \<times> serial_in) option" where
  "read_record len rx = read_record_loop (len - 1) [] rx"

lemma read_record_loop_shorter:
  "read_record_loop room acc rx = Some (r, rx') \<Longrightarrow> 0 < room \<Longrightarrow> length rx' < length rx"
proof (induction room acc rx rule: read_record_loop.induct)
  case (3 room acc c hup rx)
  then show ?case by (cases room) (auto split: if_splits)
qed auto

lemma read_record_shorter:
  "read_record (SREC_MAXRECLEN + 1) rx = Some (r, rx') \<Longrightarrow> length rx' < length rx"
  unfolding read_record_def by (rule read_record_loop_shorter) (auto simp: SREC_MAXRECLEN_def)

text \<open>
  The flash side of a store: \<open>is_flash\<close> is \<^verbatim>\<open>addr2info(a) != NULL\<close> and \<open>fl_write\<close> is
  \<^verbatim>\<open>flash_write\<close>, with its return code. Both are arguments.
\<close>

record load_state =
  ls_binlen :: int
  ls_addr :: u32
  ls_start :: u32
  ls_end :: u32
  ls_mem :: mem

definition is_data_record :: "srec_code \<Rightarrow> bool" where
  "is_data_record t \<longleftrightarrow> t \<in> {SREC_DATA2, SREC_DATA3, SREC_DATA4}"

definition is_end_record :: "srec_code \<Rightarrow> bool" where
  "is_end_record t \<longleftrightarrow> t \<in> {SREC_END2, SREC_END3, SREC_END4}"

definition is_error_code :: "srec_code \<Rightarrow> bool" where
  "is_error_code t \<longleftrightarrow> t \<in> {SREC_E_BADTYPE, SREC_E_NOSREC, SREC_E_BADCHKS}"

text \<open>
  The store of one data record. \<^verbatim>\<open>memcpy\<close> takes \<^verbatim>\<open>binlen\<close> as a \<^verbatim>\<open>size_t\<close>: a negative one
  reads far outside \<^verbatim>\<open>binbuf\<close>, which is undefined and \<open>None\<close> here. \<open>Some False\<close> in the first
  component is the failed flash write.
\<close>

definition load_store ::
    "(u32 \<Rightarrow> bool) \<Rightarrow> (byte list \<Rightarrow> u32 \<Rightarrow> mem \<Rightarrow> int \<times> mem) \<Rightarrow> u32 \<Rightarrow> byte list \<Rightarrow>
       load_state \<Rightarrow> (bool \<times> load_state) option" where
  "load_store is_flash fl_write offset binbuf s =
     (if ls_binlen s < 0 then None
      else
        let store_addr = ls_addr s + offset;
            last_addr = store_addr + word_of_int (ls_binlen s) - 1;
            (rc, m) = (if is_flash store_addr then fl_write binbuf store_addr (ls_mem s)
                       else (0, mwrite (ls_mem s) store_addr binbuf))
        in
        if rc \<noteq> 0 then Some (False, s\<lparr>ls_mem := m\<rparr>)
        else Some (True, s\<lparr>ls_mem := m,
               ls_start := (if store_addr < ls_start s then store_addr else ls_start s),
               ls_end := (if last_addr > ls_end s then last_addr else ls_end s)\<rparr>))"

text \<open>
  \<open>load_serial\<close>: the value returned (\<^verbatim>\<open>~0\<close> on failure), the size put into \<^verbatim>\<open>filesize\<close> when the
  end record arrived, the state and the rest of the line.
\<close>

function load_loop ::
    "(u32 \<Rightarrow> bool) \<Rightarrow> (byte list \<Rightarrow> u32 \<Rightarrow> mem \<Rightarrow> int \<times> mem) \<Rightarrow> u32 \<Rightarrow> load_state \<Rightarrow> serial_in \<Rightarrow>
       (u32 \<times> u32 option \<times> load_state \<times> serial_in) option" where
  "load_loop is_flash fl_write offset s rx =
     (case read_record (SREC_MAXRECLEN + 1) rx of
        None \<Rightarrow> None
      | Some (None, rx) \<Rightarrow> Some (0xffffffff, None, s, rx)
      | Some (Some rec_line, rx) \<Rightarrow>
          let (type, binlen, addr, binbuf) = srec_decode rec_line (ls_binlen s) (ls_addr s);
              s = s\<lparr>ls_binlen := binlen, ls_addr := addr\<rparr>
          in
          if is_error_code type then Some (0xffffffff, None, s, rx)
          else if is_data_record type then
            (case load_store is_flash fl_write offset binbuf s of
               None \<Rightarrow> None
             | Some (False, s) \<Rightarrow> Some (0xffffffff, None, s, rx)
             | Some (True, s) \<Rightarrow> load_loop is_flash fl_write offset s rx)
          else if is_end_record type then
            Some (ls_addr s, Some (ls_end s - ls_start s + 1), s, rx)
          else load_loop is_flash fl_write offset s rx)"
  by pat_completeness auto
termination
  by (relation "measure (\<lambda>(f, w, off, s, rx). length rx)")
    (auto dest: read_record_shorter [simplified])

definition load_serial ::
    "(u32 \<Rightarrow> bool) \<Rightarrow> (byte list \<Rightarrow> u32 \<Rightarrow> mem \<Rightarrow> int \<times> mem) \<Rightarrow> u32 \<Rightarrow> mem \<Rightarrow> serial_in \<Rightarrow>
       (u32 \<times> u32 option \<times> mem \<times> serial_in) option" where
  "load_serial is_flash fl_write offset m rx =
     map_option (\<lambda>(r, fs, s, rx). (r, fs, ls_mem s, rx))
       (load_loop is_flash fl_write offset
          \<lparr>ls_binlen = 0, ls_addr = 0, ls_start = 0xffffffff, ls_end = 0, ls_mem = m\<rparr> rx)"

section \<open>Serial upload\<close>

definition SREC_BYTES_PER_RECORD :: nat where "SREC_BYTES_PER_RECORD = 16"

definition SREC3_START :: "byte list" where "SREC3_START = str ''S0030000FC'' @ [10]"
definition SREC3_FORMAT :: "byte list" where "SREC3_FORMAT = str ''S3%02X%08lX%s%02X'' @ [10]"
definition SREC3_END :: "byte list" where "SREC3_END = str ''S70500000000FA'' @ [10]"

definition hex_digits :: "byte list" where "hex_digits = str ''0123456789ABCDEF''"

text \<open>
  \<^verbatim>\<open>ctrlc()\<close> is polled after each record; \<open>polls\<close> holds the answers still to come and its end
  means that nobody interrupts any more.
\<close>

fun poll :: "bool list \<Rightarrow> bool \<times> bool list" where
  "poll [] = (False, [])"
| "poll (b # bs) = (b, bs)"

definition write_record :: "byte list \<Rightarrow> byte list \<Rightarrow> bool list \<Rightarrow> bool \<times> byte list \<times> bool list" where
  "write_record buf tx polls = (let (stop, polls) = poll polls in (stop, tx @ buf, polls))"

definition low_bytes :: "nat \<Rightarrow> u32 \<Rightarrow> u32 \<Rightarrow> u32" where
  "low_bytes n w acc = fold (\<lambda>i acc. acc + (drop_bit (8 * i) w AND 0xff)) [0..<n] acc"

text \<open>The record the code builds for \<open>reclen\<close> bytes at \<open>address\<close> with hex dump \<open>data\<close>.\<close>

definition save_record :: "u32 \<Rightarrow> nat \<Rightarrow> byte list \<Rightarrow> u32 \<Rightarrow> byte list option" where
  "save_record address reclen data checksum =
     (let len = (of_nat (4 + reclen + 1) :: u32);
          checksum = low_bytes 2 len checksum;
          checksum = low_bytes 4 address checksum;
          checksum = NOT checksum AND 0xff
      in sprintf SREC3_FORMAT [VaWord len, VaWord address, VaStr (Some data), VaWord checksum])"

text \<open>
  The \<^verbatim>\<open>do ... while(count)\<close> loop: the flag is true when a write was interrupted. The outer
  option is the one of \<open>sprintf\<close>.
\<close>

function save_loop ::
    "mem \<Rightarrow> u32 \<Rightarrow> nat \<Rightarrow> u32 \<Rightarrow> byte list \<Rightarrow> nat \<Rightarrow> byte list \<Rightarrow> bool list \<Rightarrow>
       (bool \<times> byte list \<times> bool list) option" where
  "save_loop m address reclen checksum data count tx polls =
     (let (checksum, data, reclen, count') =
            (if count > 0
             then let c = m (address + of_nat reclen)
                  in (checksum + ucast c,
                      take (2 * reclen) data @
                        [hex_digits ! unat (drop_bit 4 c AND 0x0f), hex_digits ! unat (c AND 0x0f)],
                      reclen + 1, count - 1)
             else (checksum, data, reclen, count))
      in
      if reclen = SREC_BYTES_PER_RECORD \<or> count' = 0 then
        (case (if reclen > 0
               then map_option (\<lambda>rec_line. write_record rec_line tx polls)
                      (save_record address reclen data checksum)
               else Some (False, tx, polls)) of
           None \<Rightarrow> None
         | Some (stop, tx, polls) \<Rightarrow>
             if stop then Some (True, tx, polls)
             else if count' > 0
             then save_loop m (address + of_nat reclen) 0 0 data count' tx polls
             else Some (False, tx, polls))
      else if count' > 0 then save_loop m address reclen checksum data count' tx polls
      else Some (False, tx, polls))"
  by pat_completeness auto
termination
  by (relation "measure (\<lambda>(m, a, r, c, d, count, t, p). count)")
    (auto simp: Let_def split: if_splits)

text \<open>The return value (0 or -1) and the characters sent.\<close>

definition save_serial :: "mem \<Rightarrow> u32 \<Rightarrow> u32 \<Rightarrow> bool list \<Rightarrow> (int \<times> byte list) option" where
  "save_serial m address count polls =
     (let (stop, tx, polls) = write_record SREC3_START [] polls in
      if stop then Some (-1, tx)
      else
        case save_loop m address 0 0 [] (unat count) tx polls of
          None \<Rightarrow> None
        | Some (True, tx, polls) \<Rightarrow> Some (-1, tx)
        | Some (False, tx, polls) \<Rightarrow>
            let (stop, tx, polls) = write_record SREC3_END tx polls
            in Some (if stop then -1 else 0, tx))"

end
