(* ===== verification/SrecordCorrect.thy ===== *)
theory SrecordCorrect
  imports Srecord
begin

text \<open>
  Correctness of the S-record code: hex dumps and their decoding, the records
  \<open>save_serial\<close> builds, what \<open>load_serial\<close> does with them, and the properties of
  decoder and transfer.
\<close>

section \<open>Hex dumps\<close>

definition hexpair :: "byte \<Rightarrow> byte list" where
  "hexpair b = [hex_digits ! unat (drop_bit 4 b AND 0x0f), hex_digits ! unat (b AND 0x0f)]"

definition hexdump :: "byte list \<Rightarrow> byte list" where
  "hexdump bs = concat (map hexpair bs)"

lemma hexdump_simps [simp]:
  "hexdump [] = []" "hexdump (b # bs) = hexpair b @ hexdump bs" "hexdump (xs @ ys) = hexdump xs @ hexdump ys"
  by (simp_all add: hexdump_def)

lemma length_hexpair [simp]: "length (hexpair b) = 2"
  by (simp add: hexpair_def)

lemma length_hexdump [simp]: "length (hexdump bs) = 2 * length bs"
  by (induction bs) auto

lemma hex1_bin_digit: "k < 16 \<Longrightarrow> hex1_bin (hex_digits ! k) = int k"
proof -
  assume k: "k < 16"
  have "all_index (\<lambda>k d. hex1_bin d = int k) 0 hex_digits"
    by (simp add: hex_digits_def hex1_bin_def)
  moreover have "length hex_digits = 16" by (simp add: hex_digits_def)
  ultimately show ?thesis using all_index_nth [of _ 0 hex_digits k] k by simp
qed

lemma and_15_mod: "(b :: byte) AND 15 = b mod 16"
  using take_bit_eq_mask [of 4 b] by (simp add: mask_numeral take_bit_eq_mod)

lemma unat_low_nibble: "unat (b AND 15 :: byte) = unat b mod 16"
  by (simp add: and_15_mod unat_mod)

lemma unat_high_nibble: "unat (drop_bit 4 b :: byte) mod 16 = unat b div 16"
proof -
  have "unat b div 16 < 16" by (rule less_mult_imp_div_less) simp
  then show ?thesis by (simp add: drop_bit_eq_div unat_div)
qed

lemma hex2_bin_hexpair [simp]: "hex2_bin (hexpair b @ rest) = uint b"
proof -
  have "unat b < 256" by simp
  then have "int (unat b div 16) * 16 + int (unat b mod 16) = uint b"
    by (metis div_mult_mod_eq of_nat_add of_nat_mult of_nat_numeral of_nat_unat)
  moreover have "unat b div 16 < 16" by (rule less_mult_imp_div_less) simp
  ultimately show ?thesis
    by (simp add: hex2_bin_def hexpair_def hex1_bin_digit unat_low_nibble unat_high_nibble)
qed

lemma srec_data_hexdump [simp]:
  "srec_data (length bs) (hexdump bs @ rest) c acc = (True, rest, c + sum_list bs, acc @ bs)"
  by (induction bs arbitrary: c acc) (simp_all add: algebra_simps)

lemma push_byte_plus: "ucast (b::byte) + push_bit 8 (a::u32) = push_bit 8 a OR ucast b"
  by (subst add.commute, rule disjunctive_add_eq_or, rule bit_word_eqI) (auto simp: bit_simps dest: bit_imp_le_length)

lemma srec_addr_hexdump [simp]:
  "n = length bs \<Longrightarrow> srec_addr n (hexdump bs @ rest) a c = (True, rest, be_dec bs a, c + sum_list bs)"
  by (induction bs arbitrary: n a c) (simp_all add: algebra_simps push_byte_plus)

fun hex_fixed :: "nat \<Rightarrow> u32 \<Rightarrow> byte list" where
  "hex_fixed 0 w = []"
| "hex_fixed (Suc k) w = hex_fixed k (w div 16) @ [digits_upper ! unat (w mod 16)]"

lemma hex_fixed_0: "hex_fixed k 0 = replicate k (ch CHR ''0'')"
proof (induction k)
  case (Suc k)
  then show ?case by (simp add: digits_upper_def replicate_append_same)
qed simp

lemma hex_fixed_loop:
  "unat w < 16 ^ k \<Longrightarrow> hex_fixed k w =
     replicate (k - length (digit_loop digits_upper 16 w)) (ch CHR ''0'') @ rev (digit_loop digits_upper 16 w)"
proof (induction k arbitrary: w)
  case 0
  then show ?case by (simp add: unat_eq_zero)
next
  case (Suc k)
  show ?case
  proof (cases "w = 0")
    case True
    then show ?thesis by (simp add: hex_fixed_0 del: hex_fixed.simps)
  next
    case False
    have "unat (w div 16) < 16 ^ k" using Suc.prems
      by (simp add: unat_div less_mult_imp_div_less mult.commute)
    from Suc.IH [OF this] False show ?thesis by (simp add: digit_loop_Cons)
  qed
qed

lemma number_hex_fixed:
  assumes "unat w < 16 ^ k" and "0 < k"
  shows "number w 16 (int k) (-1) (fZEROPAD OR fLARGE) = Some (hex_fixed k w)"
proof (cases "w = 0")
  case True
  with assms(2) show ?thesis
    by (simp add: number_def flag_defs Let_def pad_loop_def hex_fixed_0 nat_diff_distrib
        flip: replicate_Suc replicate_append_same)
       (simp add: nat_minus_as_int replicate_append_same flip: replicate_Suc)
next
  case False
  with assms show ?thesis
    by (simp add: number_def flag_defs Let_def pad_loop_def hex_fixed_loop nat_minus_as_int)
qed

lemma digits_upper_hex: "k < 16 \<Longrightarrow> digits_upper ! k = hex_digits ! k"
  using nth_take [of k 16 digits_upper] by (simp add: digits_upper_def hex_digits_def)

lemma unat_ucast_byte: "unat (ucast (w :: u32) :: byte) = unat w mod 256"
  by (simp add: unsigned_ucast_eq take_bit_eq_mod)

lemma drop_bit_8_div: "w div 16 div 16 = drop_bit 8 (w :: u32)"
  by (simp add: word_unat_eq_iff unat_div drop_bit_eq_div div_mult2_eq [symmetric])

lemma hex_fixed_byte: "hex_fixed (Suc (Suc k)) w = hex_fixed k (drop_bit 8 w) @ hexpair (ucast w)"
proof -
  have "unat w mod 256 = 16 * (unat w div 16 mod 16) + unat w mod 16"
    using mod_mult2_eq [of "unat w" 16 16] by simp
  then have "(unat w mod 256) div 16 = unat w div 16 mod 16" and "(unat w mod 256) mod 16 = unat w mod 16"
    by simp_all
  then show ?thesis
    by (simp add: hexpair_def unat_low_nibble unat_high_nibble unat_mod unat_div digits_upper_hex
        drop_bit_8_div unat_ucast_byte)
qed

lemma hexpair_fixed: "hex_fixed 2 w = hexpair (ucast w)"
  by (simp add: numeral_2_eq_2 hex_fixed_byte del: hex_fixed.simps(2))

lemma hexdump_be32: "hex_fixed 8 w = hexdump (be32 w)"
  by (simp add: numeral_eq_Suc hex_fixed_byte be32_def del: hex_fixed.simps(2))

lemma number_hex2: "unat w < 256 \<Longrightarrow> number w 16 2 (-1) (fZEROPAD OR fLARGE) = Some (hexpair (ucast w))"
  using number_hex_fixed [of w 2] by (simp add: hexpair_fixed)

lemma number_hex8: "number w 16 8 (-1) (fZEROPAD OR fLARGE) = Some (hexdump (be32 w))"
  using number_hex_fixed [of w 8] unsigned_less [where ?'a = nat, of w] by (simp add: hexdump_be32)

lemma sprintf_srec3:
  assumes "unat len < 256" and "unat ck < 256"
  shows "sprintf SREC3_FORMAT [VaWord len, VaWord address, VaStr (Some data), VaWord ck] =
    Some (str ''S3'' @ hexpair (ucast len) @ hexdump (be32 address) @ data @ hexpair (ucast ck) @ [10])"
  using assms number_hex2 [of len] number_hex2 [of ck] number_hex8 [of address]
  apply (simp add: sprintf_def vsprintf_def SREC3_FORMAT_def directive_def conversion_def
     parse_width_def parse_precision_def is_digit_def fetch_num_def pad_to_def pad_pre_def Let_def)
  done

lemma ucast_byte_add: "(ucast (a + b :: u32) :: byte) = ucast a + ucast b"
  by (simp add: word_uint_eq_iff unsigned_ucast_eq uint_word_ariths take_bit_eq_mod mod_mod_cancel mod_add_eq)

lemma ucast_byte_word [simp]: "ucast (ucast b :: u32) = (b :: byte)"
  by (rule bit_word_eqI) (simp add: bit_simps)

lemma ucast_byte_of_nat: "(ucast (of_nat n :: u32) :: byte) = of_nat n"
  by (induction n) (simp_all add: ucast_byte_add)

lemma ucast_byte_mask: "(ucast (a AND 0xff :: u32) :: byte) = ucast a"
proof -
  have "a AND 0xff = take_bit 8 a"
    using take_bit_eq_mask [of 8 a] by (simp add: mask_numeral)
  moreover have "ucast (take_bit 8 a) = (ucast a :: byte)"
    by (rule bit_word_eqI) (simp add: bit_simps)
  ultimately show ?thesis by simp
qed

lemma ucast_byte_not: "(ucast (NOT a :: u32) :: byte) = NOT (ucast a)"
  by (rule bit_word_eqI) (simp add: bit_simps)

lemma ucast_low_bytes: "(ucast (low_bytes 4 w acc) :: byte) = ucast acc + sum_list (be32 w)"
  by (simp add: low_bytes_def be32_def upt_rec ucast_byte_add ucast_byte_mask algebra_simps)

lemma ucast_low_bytes2:
  assumes "unat w < 256"
  shows "(ucast (low_bytes 2 w acc) :: byte) = ucast acc + ucast w"
proof -
  have "drop_bit 8 w = 0" using assms by (simp add: word_unat_eq_iff drop_bit_eq_div unat_div)
  then show ?thesis by (simp add: low_bytes_def upt_rec ucast_byte_add ucast_byte_mask algebra_simps)
qed

lemma unat_low_byte: "unat (w AND 0xff :: u32) < 256"
proof -
  have "w AND 0xff = w mod 256"
    using take_bit_eq_mask [of 8 w] by (simp add: mask_numeral take_bit_eq_mod)
  then show ?thesis by (simp add: unat_mod)
qed

definition srec3_line :: "u32 \<Rightarrow> byte list \<Rightarrow> byte list" where
  "srec3_line address bs =
     (let body = of_nat (length bs + 5) # be32 address @ bs
      in str ''S3'' @ hexdump (body @ [NOT (sum_list body)]))"

lemma save_record_eq:
  assumes "length bs < 250"
  shows "save_record address (length bs) (hexdump bs) (sum_list (map ucast bs)) =
     Some (srec3_line address bs @ [10])"
proof -
  let ?len = "of_nat (4 + length bs + 1) :: u32"
  have len: "unat ?len < 256" using assms by (simp add: unat_of_nat_u32 del: of_nat_add)
  have acc: "(ucast (sum_list (map ucast bs) :: u32) :: byte) = sum_list bs"
    by (induction bs) (simp_all add: ucast_byte_add)
  have ucl: "(ucast ?len :: byte) = of_nat (length bs + 5)"
    by (simp only: ucast_byte_of_nat) (simp add: add.commute)
  have "sprintf SREC3_FORMAT [VaWord ?len, VaWord address, VaStr (Some (hexdump bs)),
      VaWord (NOT (low_bytes 4 address (low_bytes 2 ?len (sum_list (map ucast bs)))) AND 0xff)] =
    Some (srec3_line address bs @ [10])"
    unfolding sprintf_srec3 [OF len unat_low_byte] ucast_byte_mask ucast_byte_not ucast_low_bytes
      ucast_low_bytes2 [OF len] acc ucl
    by (simp add: srec3_line_def Let_def ac_simps)
  then show ?thesis by (simp only: save_record_def Let_def)
qed

text \<open>Any record whose body is dumped in hex: what the decoder makes of it.\<close>

lemma srec_decode_hexdump:
  assumes kind: "srec_kind v = Some (t, alen, overhead)" and t: "t \<noteq> SREC_COUNT"
    and alen: "length as = alen" and v: "v \<noteq> 0"
    and count: "uint cnt = int (length bs) + overhead"
  shows "srec_decode (str ''S'' @ [v] @ hexdump (cnt # as @ bs @ [ck]) @ rest) c0 a0 =
    (if ck = NOT (sum_list (cnt # as @ bs)) then t else SREC_E_BADCHKS, int (length bs), be_dec as 0, bs)"
proof -
  have "uint cnt - overhead = int (length bs)" using count by simp
  then show ?thesis using kind t alen v by (simp add: srec_decode_def Let_def add.assoc)
qed

function srec3_text :: "u32 \<Rightarrow> byte list \<Rightarrow> byte list" where
  "srec3_text address bs =
     (if bs = [] then []
      else srec3_line address (take 16 bs) @ [10] @ srec3_text (address + 16) (drop 16 bs))"
  by pat_completeness auto
termination by (relation "measure (length o snd)") auto

declare srec3_text.simps [simp del]

lemma srec3_text_Nil [simp]: "srec3_text address [] = []"
  by (simp add: srec3_text.simps)

lemma srec3_text_last:
  "bs \<noteq> [] \<Longrightarrow> length bs \<le> 16 \<Longrightarrow> srec3_text address bs = srec3_line address bs @ [10]"
  by (subst srec3_text.simps) simp

lemma srec3_text_step:
  "length bs = 16 \<Longrightarrow> srec3_text address (bs @ cs) = srec3_line address bs @ [10] @ srec3_text (address + 16) cs"
  by (subst srec3_text.simps) auto

lemma hexpair_snoc:
  "hexdump cs @ [hex_digits ! unat (drop_bit 4 c AND 0x0f), hex_digits ! unat (c AND 0x0f)] = hexdump (cs @ [c])"
  by (simp add: hexpair_def)

declare save_loop.simps [simp del]

lemma save_loop_Suc:
  assumes "d = take (2 * reclen) data @ [hex_digits ! unat (drop_bit 4 (m (address + of_nat reclen)) AND 0x0f),
      hex_digits ! unat (m (address + of_nat reclen) AND 0x0f)]"
    and "acc' = acc + ucast (m (address + of_nat reclen))"
    and "save_record address (Suc reclen) d acc' = Some r"
  shows "save_loop m address reclen acc data (Suc count) tx [] =
    (if Suc reclen = 16 \<or> count = 0 then
       (if count > 0 then save_loop m (address + of_nat (Suc reclen)) 0 0 d count (tx @ r) []
        else Some (False, tx @ r, []))
     else save_loop m address (Suc reclen) acc' d count tx [])"
  using assms(3) unfolding assms(1,2)
  by (subst save_loop.simps) (simp add: Let_def SREC_BYTES_PER_RECORD_def write_record_def)

lemma save_loop_text:
  assumes "length cs < 16" and "take (2 * length cs) data = hexdump cs" and "0 < count"
  shows "save_loop m address (length cs) (sum_list (map ucast cs)) data count tx [] =
     Some (False, tx @ srec3_text address (cs @ mread m (address + of_nat (length cs)) count), [])"
  using assms
proof (induction count arbitrary: cs data address tx)
  case (Suc count)
  let ?c = "m (address + of_nat (length cs))"
  let ?cs = "cs @ [?c]"
  have data: "take (2 * length cs) data @
      [hex_digits ! unat (drop_bit 4 ?c AND 15), hex_digits ! unat (?c AND 15)] = hexdump ?cs"
    by (simp only: Suc.prems hexpair_snoc)
  have sum: "sum_list (map ucast cs) + ucast ?c = (sum_list (map ucast ?cs) :: u32)" by simp
  have rec: "save_record address (Suc (length cs)) (hexdump ?cs) (sum_list (map ucast ?cs)) =
      Some (srec3_line address ?cs @ [10])"
    using save_record_eq [of ?cs address] Suc.prems by simp
  note step = save_loop_Suc [where m = m and address = address, OF data [symmetric] sum [symmetric] rec, of count tx]
  show ?case
  proof (cases "count = 0")
    case True
    with Suc.prems step show ?thesis by (simp add: srec3_text_last)
  next
    case False
    show ?thesis
    proof (cases "Suc (length cs) = 16")
      case True
      then have "length cs = 15" by simp
      with Suc.IH [of "[]" "hexdump ?cs" "address + 16" "tx @ srec3_line address ?cs @ [10]"] False step
      show ?thesis
        using srec3_text_step [of ?cs address "mread m (address + 16) count"]
        by (simp add: algebra_simps)
    next
      case neq: False
      with Suc.IH [of ?cs "hexdump ?cs" address tx] False step Suc.prems
      show ?thesis by (simp add: algebra_simps)
    qed
  qed
qed simp

definition quiet :: "byte list \<Rightarrow> serial_in" where
  "quiet = map (\<lambda>c. (c, False))"

lemma quiet_append [simp]: "quiet (xs @ ys) = quiet xs @ quiet ys"
  by (simp add: quiet_def)

lemma quiet_simps [simp]: "quiet [] = []" "quiet (x # xs) = (x, False) # quiet xs"
  by (simp_all add: quiet_def)

lemma read_record_loop_quiet:
  assumes "length line < room" and "set line \<inter> {0, 3, 10, 13} = {}"
  shows "read_record_loop room acc (quiet line @ (10, h) # rx) = Some (Some (acc @ line), rx)"
  using assms
proof (induction line arbitrary: room acc)
  case Nil
  then show ?case by (cases room) auto
next
  case (Cons c line)
  then show ?case by (cases room) auto
qed

lemma read_record_quiet:
  assumes "length line < 516" and "set line \<inter> {0, 3, 10, 13} = {}"
  shows "read_record (Suc SREC_MAXRECLEN) (quiet line @ (10, h) # rx) = Some (Some line, rx)"
  using read_record_loop_quiet [OF assms, of "[]"] by (simp add: read_record_def SREC_MAXRECLEN_def)

lemma set_hexpair: "set (hexpair b) \<subseteq> set hex_digits"
proof -
  have "length hex_digits = 16" by (simp add: hex_digits_def)
  then show ?thesis
    using unat_low_nibble [of b] unat_low_nibble [of "drop_bit 4 b"] by (auto simp: hexpair_def)
qed

lemma set_hexdump: "set (hexdump bs) \<subseteq> set hex_digits"
  using set_hexpair by (induction bs) auto

lemma set_srec3_line: "set (srec3_line a bs) \<inter> {0, 3, 10, 13} = {}"
proof -
  have "set (srec3_line a bs) \<subseteq> insert (ch CHR ''S'') (set hex_digits)"
    using set_hexdump by (auto simp: srec3_line_def Let_def set_hexpair hex_digits_def dest!: subsetD [OF set_hexdump] subsetD [OF set_hexpair])
  then show ?thesis by (auto simp: hex_digits_def)
qed

lemma length_srec3_line: "length (srec3_line a bs) = 2 * length bs + 14"
  by (simp add: srec3_line_def Let_def)

lemma uint_byte_of_nat: "n < 256 \<Longrightarrow> uint (of_nat n :: byte) = int n"
  by (simp add: unsigned_of_nat take_bit_nat_eq_self)

lemma srec3_decode:
  assumes "length bs \<le> 250"
  shows "srec_decode (srec3_line a bs) c0 a0 = (SREC_DATA4, int (length bs), a, bs)"
proof -
  let ?cnt = "of_nat (length bs + 5) :: byte" 
  let ?ck = "NOT (sum_list (?cnt # be32 a @ bs))"
  have "be_dec (be32 a) 0 = a" using be32_dec_be32 [of a "[]"] by (simp add: be32_dec_def)
  moreover have "srec_decode (str ''S'' @ [ch CHR ''3''] @ hexdump (?cnt # be32 a @ bs @ [?ck]) @ []) c0 a0 =
     (if ?ck = ?ck then SREC_DATA4 else SREC_E_BADCHKS, int (length bs), be_dec (be32 a) 0, bs)"
    using assms by (intro srec_decode_hexdump [where alen = 4 and overhead = 5])
      (simp_all add: srec_kind_def uint_byte_of_nat del: of_nat_add)
  ultimately show ?thesis by (simp add: srec3_line_def Let_def)
qed

declare load_loop.simps [simp del]

lemma load_loop_record:
  assumes "srec_decode line (ls_binlen s) (ls_addr s) = (t, n, a, bs)" 
    and "length line < 516" and "set line \<inter> {0, 3, 10, 13} = {}"
  shows "load_loop is_flash fl_write offset s (quiet line @ (10, h) # rx) =
     (let s = s\<lparr>ls_binlen := n, ls_addr := a\<rparr> in
          if is_error_code t then Some (0xffffffff, None, s, rx)
          else if is_data_record t then
            (case load_store is_flash fl_write offset bs s of
               None \<Rightarrow> None
             | Some (False, s) \<Rightarrow> Some (0xffffffff, None, s, rx)
             | Some (True, s) \<Rightarrow> load_loop is_flash fl_write offset s rx)
          else if is_end_record t then
            Some (ls_addr s, Some (ls_end s - ls_start s + 1), s, rx)
          else load_loop is_flash fl_write offset s rx)"
  by (subst load_loop.simps) (simp add: read_record_quiet assms)

lemma if_less_min: "(if x < y then x else y) = min y (x :: 'a::linorder)"
  by (auto simp: min_def)

lemma if_less_max: "(if y < x then x else y) = max y (x :: 'a::linorder)"
  by (auto simp: max_def)

lemma load_loop_data:
  assumes "bs \<noteq> []" and "length bs \<le> 16" and "\<not> is_flash (a + offset)"
  shows "load_loop is_flash fl_write offset s (quiet (srec3_line a bs @ [10]) @ rx) =
     load_loop is_flash fl_write offset
       \<lparr>ls_binlen = int (length bs), ls_addr = a,
        ls_start = min (ls_start s) (a + offset),
        ls_end = max (ls_end s) (a + offset + of_nat (length bs) - 1),
        ls_mem = mwrite (ls_mem s) (a + offset) bs\<rparr> rx"
  using assms load_loop_record [where s = s, OF srec3_decode, where bs = bs and a = a and is_flash = is_flash
      and fl_write = fl_write and offset = offset and h = False and rx = rx]
    set_srec3_line [of a bs]
  by (cases s) (simp add: length_srec3_line is_error_code_def is_data_record_def load_store_def Let_def
      if_less_min if_less_max)

lemma load_loop_text:
  assumes "bs \<noteq> []" and "unat (a + offset) + length bs \<le> 2 ^ 32"
    and "\<And>i. i < length bs \<Longrightarrow> \<not> is_flash (a + offset + of_nat i)"
  shows "\<exists>n a'. load_loop is_flash fl_write offset s (quiet (srec3_text a bs) @ rx) =
     load_loop is_flash fl_write offset
       \<lparr>ls_binlen = n, ls_addr = a',
        ls_start = min (ls_start s) (a + offset),
        ls_end = max (ls_end s) (a + offset + of_nat (length bs) - 1),
        ls_mem = mwrite (ls_mem s) (a + offset) bs\<rparr> rx"
  using assms
proof (induction a bs arbitrary: s rule: srec3_text.induct)
  case (1 a bs)
  let ?x = "a + offset"
  have x: "\<not> is_flash ?x" using "1.prems"(3) [of 0] "1.prems"(1) by simp
  show ?case
  proof (cases "length bs \<le> 16")
    case True
    then show ?thesis
      using load_loop_data [OF "1.prems"(1) True, of is_flash a offset fl_write s rx] x "1.prems"(1)
      by (simp add: srec3_text_last) metis
  next
    case False
    let ?ds = "drop 16 bs"
    define s1 where "s1 = \<lparr>ls_binlen = 16, ls_addr = a, ls_start = min (ls_start s) ?x,
        ls_end = max (ls_end s) (?x + 15), ls_mem = mwrite (ls_mem s) ?x (take 16 bs)\<rparr>"
    have u16: "unat (?x + 16) = unat ?x + 16"
      using unat_add_of_nat [of ?x 16] "1.prems"(2) False by simp
    have fl: "\<not> is_flash (a + 16 + offset + of_nat i)" if "i < length ?ds" for i
      using "1.prems"(3) [of "16 + i"] that by (simp add: algebra_simps)
    have nx: "a + 16 + offset = ?x + 16" by simp
    obtain n a' where IH: "load_loop is_flash fl_write offset s1 (quiet (srec3_text (a + 16) ?ds) @ rx) =
       load_loop is_flash fl_write offset
       \<lparr>ls_binlen = n, ls_addr = a',
        ls_start = min (ls_start s1) (?x + 16),
        ls_end = max (ls_end s1) (?x + 16 + of_nat (length ?ds) - 1),
        ls_mem = mwrite (ls_mem s1) (?x + 16) ?ds\<rparr> rx"
      using "1.IH" [OF "1.prems"(1), of s1] False fl u16 "1.prems"(2) unfolding nx by auto
    have le: "?x \<le> ?x + 16" by (simp add: word_le_nat_alt u16)
    have last: "?x + 16 + of_nat (length ?ds) - 1 = ?x + of_nat (length bs) - 1" 
      using False by (simp add: of_nat_diff)
    have last': "?x + of_nat (length bs) - 1 = ?x + of_nat (length bs - 1)"
      using False by (simp add: of_nat_diff)
    have "unat (?x + of_nat (length bs - 1)) = unat ?x + (length bs - 1)"
      using False "1.prems"(2) by (intro unat_add_of_nat) auto
    moreover have "unat (?x + 15) = unat ?x + 15"
      using unat_add_of_nat [of ?x 15] "1.prems"(2) False by simp
    ultimately have "?x + 15 \<le> ?x + of_nat (length bs) - 1"
      unfolding last' using False by (simp add: word_le_nat_alt)
    then have max: "max (ls_end s1) (?x + 16 + of_nat (length ?ds) - 1) =
        max (ls_end s) (?x + of_nat (length bs) - 1)"
      unfolding last by (simp add: s1_def max.assoc max.absorb2)
    have min: "min (ls_start s1) (?x + 16) = min (ls_start s) ?x"
      using le by (simp add: s1_def min.assoc min.absorb1)
    have mem: "mwrite (ls_mem s1) (?x + 16) ?ds = mwrite (ls_mem s) ?x bs"
      using mwrite_append [of "ls_mem s" ?x "take 16 bs" ?ds] False by (simp add: s1_def)
    have unfold: "srec3_text a bs = srec3_line a (take 16 bs) @ [10] @ srec3_text (a + 16) ?ds"
      using "1.prems"(1) by (subst srec3_text.simps) simp
    have "load_loop is_flash fl_write offset s (quiet (srec3_text a bs) @ rx) =
        load_loop is_flash fl_write offset s1 (quiet (srec3_text (a + 16) ?ds) @ rx)"
      using load_loop_data [of "take 16 bs" is_flash a offset fl_write s
          "quiet (srec3_text (a + 16) ?ds) @ rx"] False x "1.prems"(1)
      by (simp add: unfold s1_def add.commute [of 15])
    then show ?thesis unfolding IH max min mem by blast
  qed
qed

lemma srec3_start_decode: "srec_decode (str ''S0030000FC'') c0 a0 = (SREC_START, 0, 0, [])"
proof -
  have "str ''S'' @ [ch CHR ''0''] @ hexdump (3 # [0, 0] @ [] @ [252]) @ [] = str ''S0030000FC''"
    by code_simp
  then show ?thesis
    using srec_decode_hexdump [of "ch CHR ''0''" SREC_START 2 3 "[0, 0]" 3 "[]" 252 "[]" c0 a0]
    by (simp add: srec_kind_def)
qed

lemma srec3_end_decode: "srec_decode (str ''S70500000000FA'') c0 a0 = (SREC_END4, 0, 0, [])"
proof -
  have "str ''S'' @ [ch CHR ''7''] @ hexdump (5 # [0, 0, 0, 0] @ [] @ [250]) @ [] = str ''S70500000000FA''"
    by code_simp
  then show ?thesis
    using srec_decode_hexdump [of "ch CHR ''7''" SREC_END4 4 5 "[0, 0, 0, 0]" 5 "[]" 250 "[]" c0 a0]
    by (simp add: srec_kind_def)
qed

lemma load_loop_start:
  "load_loop is_flash fl_write offset s (quiet SREC3_START @ rx) =
   load_loop is_flash fl_write offset (s\<lparr>ls_binlen := 0, ls_addr := 0\<rparr>) rx"
  using load_loop_record [where s = s, OF srec3_start_decode, where is_flash = is_flash
      and fl_write = fl_write and offset = offset and h = False and rx = rx]
  by (simp add: SREC3_START_def is_error_code_def is_data_record_def is_end_record_def)

lemma load_loop_end:
  "load_loop is_flash fl_write offset s (quiet SREC3_END @ rx) =
   Some (0, Some (ls_end s - ls_start s + 1), s\<lparr>ls_binlen := 0, ls_addr := 0\<rparr>, rx)"
  using load_loop_record [where s = s, OF srec3_end_decode, where is_flash = is_flash
      and fl_write = fl_write and offset = offset and h = False and rx = rx]
  by (simp add: SREC3_END_def is_error_code_def is_data_record_def is_end_record_def)

lemma min_top_u32 [simp]: "min 0xffffffff (x :: u32) = x"
  using unsigned_less [where ?'a = nat, of x] by (simp add: min.absorb2 word_le_nat_alt)

lemma save_serial_text:
  assumes "0 < count"
  shows "save_serial m address count [] =
     Some (0, SREC3_START @ srec3_text address (mread m address (unat count)) @ SREC3_END)"
  using assms save_loop_text [of "[]" "[]" "unat count" m address SREC3_START]
  by (simp add: save_serial_def write_record_def unat_gt_0)

lemma hex1_bin_le: "hex1_bin c \<le> 15"
  by (auto simp: hex1_bin_def word_le_def)

lemma hex2_bin_le: "hex2_bin s \<le> 255"
  using hex1_bin_le [of "peek s"] hex1_bin_le [of "peek (tl s)"] by (auto simp: hex2_bin_def Let_def)

lemma srec_data_length:
  "srec_data n input c acc = (ok, input', c', out) \<Longrightarrow>
   length out \<le> length acc + n \<and> (ok \<longrightarrow> length out = length acc + n)"
  by (induction n input c acc rule: srec_data.induct) (fastforce simp: Let_def split: if_splits)+

lemma srec_kind_overhead: "srec_kind v = Some (t, alen, ov) \<Longrightarrow> t \<noteq> SREC_COUNT \<Longrightarrow> ov = int alen + 1 \<and> 2 \<le> alen \<and> v \<noteq> 0"
  by (auto simp: srec_kind_def split: if_splits)

lemma srec_decode_body:
  assumes kind: "srec_kind v = Some (t, alen, overhead)" and t: "t \<noteq> SREC_COUNT"
    and len: "length body = unat cnt" and alen: "alen < length body"
  shows "fst (srec_decode (str ''S'' @ [v] @ hexdump (cnt # body) @ rest) c0 a0) =
    (if sum_list (cnt # body) = - 1 then t else SREC_E_BADCHKS)"
proof -
  let ?as = "take alen body" and ?bs = "butlast (drop alen body)" and ?ck = "last body"
  have body: "body = ?as @ ?bs @ [?ck]"
    using alen by (metis append_butlast_last_id append_take_drop_id drop_eq_Nil2 last_drop linorder_not_le)
  have "uint cnt = int (length body)" using len by simp
  then have "length ?as = alen" and "uint cnt = int (length ?bs) + overhead"
    using alen srec_kind_overhead [OF kind t] by simp_all
  from srec_decode_hexdump [OF kind t this(1) _ this(2), of ?ck rest c0 a0] srec_kind_overhead [OF kind t]
  have "fst (srec_decode (str ''S'' @ [v] @ hexdump (cnt # body) @ rest) c0 a0) =
    (if ?ck = NOT (sum_list (cnt # ?as @ ?bs)) then t else SREC_E_BADCHKS)"
    by (subst body) simp
  moreover have "sum_list (cnt # body) = sum_list (cnt # ?as @ ?bs) + ?ck"
    by (subst body) (simp add: add.assoc)
  moreover have "(x + y = - 1) = (y = NOT x)" for x y :: byte
  proof -
    have "NOT x = - 1 - x" by (simp add: not_eq_complement)
    then show ?thesis by (metis add_diff_cancel_left' diff_add_cancel add.commute)
  qed
  ultimately show ?thesis by (simp only:)
qed

lemma sum_list_update_word:
  "i < length (xs :: 'a::len word list) \<Longrightarrow> sum_list (xs[i := b]) = sum_list xs - xs ! i + b"
proof (induction xs arbitrary: i)
  case (Cons x xs)
  then show ?case by (cases i) simp_all
qed simp

lemma load_empty:
  "load_serial is_flash fl_write offset m (quiet (SREC3_START @ SREC3_END) @ rx) = Some (0, Some 2, m, rx)"
  by (simp add: load_serial_def load_loop_start load_loop_end)

section \<open>Properties\<close>

text \<open>
  C25: what \<open>save_serial\<close> uploads, \<open>load_serial\<close> puts back. For every memory and every block of
  \<open>count > 0\<close> bytes whose destination \<open>address + offset\<close> neither wraps nor touches flash, the
  download of the uploaded text ends with entry address 0, reports exactly \<open>count\<close> bytes,
  writes the block and nothing else, and leaves the line after the end record unread.
\<close>

theorem save_load_serial:
  assumes "save_serial m address count [] = Some (0, tx)" and "0 < count"
    and "unat (address + offset) + unat count \<le> 2 ^ 32"
    and "\<And>i. i < unat count \<Longrightarrow> \<not> is_flash (address + offset + of_nat i)"
  shows "load_serial is_flash fl_write offset m' (quiet tx @ rx) =
    Some (0, Some count, mwrite m' (address + offset) (mread m address (unat count)), rx)"
proof -
  have tx: "tx = SREC3_START @ srec3_text address (mread m address (unat count)) @ SREC3_END"
    using assms(1,2) save_serial_text by simp
  let ?s = "\<lparr>ls_binlen = 0, ls_addr = 0, ls_start = 0xffffffff, ls_end = 0, ls_mem = m'\<rparr> :: load_state"
  have "mread m address (unat count) \<noteq> []" using assms(2) by (cases "unat count") (auto simp: unat_eq_zero)
  then obtain n a' where data: "load_loop is_flash fl_write offset ?s
        (quiet (srec3_text address (mread m address (unat count))) @ quiet SREC3_END @ rx) =
      load_loop is_flash fl_write offset
       \<lparr>ls_binlen = n, ls_addr = a', ls_start = min (ls_start ?s) (address + offset),
        ls_end = max (ls_end ?s) (address + offset + count - 1),
        ls_mem = mwrite (ls_mem ?s) (address + offset) (mread m address (unat count))\<rparr>
       (quiet SREC3_END @ rx)"
    using load_loop_text [of "mread m address (unat count)" address offset is_flash fl_write ?s
       "quiet SREC3_END @ rx"] assms(3,4) by (auto simp del: quiet_append)
  show ?thesis
    using data by (simp add: load_serial_def tx load_loop_start load_loop_end)
qed

theorem save_load_serial_witness:
  "load_serial (\<lambda>_. False) (\<lambda>b a m. (1, m)) 0x100 (\<lambda>_. 0)
     (quiet (str ''S0030000FC'' @ [10] @ str ''S30800000010010203E1'' @ [10] @ str ''S70500000000FA'' @ [10]) @ []) =
   Some (0, Some 3, mwrite (\<lambda>_. 0) (0x10 + 0x100) (mread (\<lambda>a. ucast (a - 15)) 0x10 (unat (3 :: u32))), [])"
proof (rule save_load_serial)
  show "save_serial (\<lambda>a. ucast (a - 15)) 0x10 3 [] =
    Some (0, str ''S0030000FC'' @ [10] @ str ''S30800000010010203E1'' @ [10] @ str ''S70500000000FA'' @ [10])"
    by code_simp
qed simp_all

text \<open>
  C38: a record whose bytes add up is no longer accepted when any single byte after the
  count (of address, data or checksum) is replaced by another one: the decoder then
  answers \<open>SREC_E_BADCHKS\<close>.
\<close>

theorem srec_rejects_corruption:
  assumes "srec_kind v = Some (t, alen, overhead)" and "t \<noteq> SREC_COUNT"
    and "length body = unat cnt" and "alen < length body"
    and "fst (srec_decode (str ''S'' @ [v] @ hexdump (cnt # body)) c0 a0) = t" and "t \<noteq> SREC_E_BADCHKS"
    and "i < length body" and "b \<noteq> body ! i"
  shows "fst (srec_decode (str ''S'' @ [v] @ hexdump (cnt # body[i := b])) c0 a0) = SREC_E_BADCHKS"
proof -
  have "sum_list (cnt # body) = - 1"
    using srec_decode_body [OF assms(1-4), of "[]" c0 a0] assms(5,6) by (simp split: if_splits)
  then have "sum_list (cnt # body[i := b]) \<noteq> - 1"
    using assms(7,8) by (simp add: sum_list_update_word algebra_simps)
  then show ?thesis
    using srec_decode_body [of v t alen overhead "body[i := b]" cnt "[]" c0 a0] assms(1-4) by simp
qed

theorem srec_rejects_corruption_witness:
  "fst (srec_decode (str ''S'' @ [ch CHR ''1''] @ hexdump (5 # [0x12, 0x34, 0xAB, 0xCD, 0x3C][2 := 0xAA])) 0 0) =
   SREC_E_BADCHKS"
proof (rule srec_rejects_corruption)
  show "srec_kind (ch CHR ''1'') = Some (SREC_DATA2, 2, 3)" by (simp add: srec_kind_def)
  show "fst (srec_decode (str ''S'' @ [ch CHR ''1''] @ hexdump (5 # [0x12, 0x34, 0xAB, 0xCD, 0x3C])) 0 0) = SREC_DATA2"
    by code_simp
qed simp_all

text \<open>
  the decoder never stores more than 252 bytes into the caller's
  \<^verbatim>\<open>binbuf[SREC_MAXBINLEN]\<close>, whatever the line says and however decoding ends, and for an
  accepted data record it stores exactly the count it reports.
\<close>

theorem srec_data_fits:
  assumes "srec_decode input c0 a0 = (t, n, a, bs)"
  shows "length bs \<le> 252 \<and> (if is_data_record t then length bs = nat n else True)"
proof -
  let ?in = "skip_to_S input"
  let ?v = "peek ?in" and ?c = "hex2_bin (tl ?in)"
  show ?thesis
  proof (cases "?v = 0 \<or> ?c < 0 \<or> srec_kind ?v = None")
    case True
    with assms show ?thesis by (auto simp: srec_decode_def Let_def is_data_record_def split: if_splits)
  next
    case False
    then obtain t' alen ov where k: "srec_kind ?v = Some (t', alen, ov)" by auto
    define n' where "n' = (if t' = SREC_COUNT then 0 else ?c - ov)"
    have "nat n' \<le> 252"
      using hex2_bin_le [of "tl ?in"] srec_kind_overhead [OF k] by (auto simp: n'_def)
    moreover obtain ok i ad c where a: "srec_addr alen (drop 2 (tl ?in)) 0 (word_of_int ?c) = (ok, i, ad, c)"
      by (metis prod_cases4)
    moreover obtain ok' i' c' bs' where d: "srec_data (nat n') i c [] = (ok', i', c', bs')"
      by (metis prod_cases4)
    moreover note srec_data_length [OF d]
    ultimately show ?thesis
      using assms False k unfolding srec_decode_def
      by (auto simp: Let_def n'_def [symmetric] is_data_record_def split: if_splits)
  qed
qed

theorem srec_data_fits_witness:
  "length [0xAB, 0xCD :: byte] \<le> 252 \<and> length [0xAB, 0xCD :: byte] = nat 2"
proof -
  have "srec_decode (str ''xS1051234ABCD3C'') 0 0 = (SREC_DATA2, 2, 0x1234, [0xAB, 0xCD])"
    by code_simp
  from srec_data_fits [OF this] show ?thesis by (simp add: is_data_record_def)
qed

text \<open>
  a record whose count byte is smaller than its address and checksum need still passes
  the checksum: \<open>srec_decode\<close> reports the length -1 and \<open>load_serial\<close> hands it to \<^verbatim>\<open>memcpy\<close> as a
  size, which is undefined. No state, address or later input prevents it.
\<close>

theorem load_short_count:
  "load_serial is_flash fl_write offset m (quiet (str ''S1020000FD'' @ [10]) @ rx) = None"
proof -
  have dec: "srec_decode (str ''S1020000FD'') c a = (SREC_DATA2, -1, 0, [])" for c a
    by code_simp
  show ?thesis
  using load_loop_record [OF dec, where is_flash = is_flash
      and fl_write = fl_write and offset = offset and h = False and rx = rx] 
  by (simp add: load_serial_def is_error_code_def is_data_record_def is_end_record_def load_store_def)
qed

end
