(* ===== verification/Console.thy ===== *)
theory Console
  imports Prelude
begin

text \<open>
  \<^verbatim>\<open>common/console.c\<close>: assigning a device to one of the three standard files. The registered
  devices are a list (\<^verbatim>\<open>devlist\<close>, items 1, 2, ...); the driver's \<^verbatim>\<open>start\<close> hook is its return value,
  \<open>None\<close> for a null hook. \<open>stdio\<close> are the three entries of \<^verbatim>\<open>stdio_devices\<close>; the entries of
  \<^verbatim>\<open>syscall_tbl\<close> follow them and are left out.
\<close>

record device =
  dev_name :: "byte list"
  dev_flags :: u32
  dev_start :: "int option"

definition DEV_FLAGS_INPUT :: u32 where "DEV_FLAGS_INPUT = 1"
definition DEV_FLAGS_OUTPUT :: u32 where "DEV_FLAGS_OUTPUT = 2"

definition stdin :: nat where "stdin = 0"
definition stdout :: nat where "stdout = 1"
definition stderr :: nat where "stderr = 2"

type_synonym stdio = "device option list"

definition console_setfile :: "nat \<Rightarrow> device option \<Rightarrow> stdio \<Rightarrow> int \<times> stdio" where
  "console_setfile file dev st =
     (case dev of
        None \<Rightarrow> (-1, st)
      | Some d \<Rightarrow>
          if file = stdin \<or> file = stdout \<or> file = stderr then
            (let error = (case dev_start d of None \<Rightarrow> 0 | Some e \<Rightarrow> e)
             in if error < 0 then (error, st) else (error, st[file := Some d]))
          else (-1, st))"

text \<open>The loop over the device list from item \<open>i\<close> on.\<close>

fun console_find :: "nat \<Rightarrow> u32 \<Rightarrow> byte list \<Rightarrow> device list \<Rightarrow> stdio \<Rightarrow> int \<times> stdio" where
  "console_find file flag devname [] st = (-1, st)"
| "console_find file flag devname (d # ds) st =
     (if devname = dev_name d
      then (if dev_flags d AND flag \<noteq> 0 then console_setfile file (Some d) st else (-1, st))
      else console_find file flag devname ds st)"

definition console_assign :: "device list \<Rightarrow> nat \<Rightarrow> byte list \<Rightarrow> stdio \<Rightarrow> int \<times> stdio" where
  "console_assign devlist file devname st =
     (if file = stdin then console_find file DEV_FLAGS_INPUT devname devlist st
      else if file = stdout \<or> file = stderr then console_find file DEV_FLAGS_OUTPUT devname devlist st
      else (-1, st))"

lemma console_find_failed: "fst (console_find file flag nm ds st) < 0 \<Longrightarrow> snd (console_find file flag nm ds st) = st"
  by (induction ds) (auto simp: console_setfile_def Let_def split: if_splits option.splits)

text \<open>
  A standard file is redirected only to a registered device of that name that can be used
  in the file's direction and that started; on any failure every file keeps its device.
\<close>

lemma console_assign_failed:
  "fst (console_assign devs file nm st) < 0 \<Longrightarrow> snd (console_assign devs file nm st) = st"
  by (auto simp: console_assign_def console_find_failed split: if_splits)

lemma console_find_ok:
  "0 \<le> fst (console_find file flag nm ds st) \<Longrightarrow>
   \<exists>d \<in> set ds. dev_name d = nm \<and> dev_flags d AND flag \<noteq> 0 \<and> snd (console_find file flag nm ds st) = st[file := Some d]"
  by (induction ds) (auto simp: console_setfile_def Let_def split: if_splits option.splits)

end
