(* ===== verification/Environment.thy ===== *)
theory Environment
  imports Vsprintf Crc32 Console "HOL-Library.Monad_Syntax"
begin

text \<open>
  The environment: \<^verbatim>\<open>common/cmd_nvedit.c\<close> and \<^verbatim>\<open>common/env_common.c\<close>. The data area
  (\<^verbatim>\<open>env_ptr->data[ENV_SIZE]\<close>) is a byte list of fixed length, indexed as the code indexes it; a
  read or write outside it, or through a null pointer, is \<open>None\<close>. Strings passed by the
  caller are byte lists without their NUL. Every loop of the code is a function on indices;
  the inner results \<open>None\<close> stand for the code's \<^verbatim>\<open>NULL\<close> and \<^verbatim>\<open>-1\<close>.
\<close>

section \<open>Reading\<close>

text \<open>\<^verbatim>\<open>env_get_char\<close> once the environment is in memory (\<^verbatim>\<open>env_get_char_memory\<close>, valid copy).\<close>

definition env_get_char :: "byte list \<Rightarrow> nat \<Rightarrow> byte option" where
  "env_get_char d i = (if i < length d then Some (d ! i) else None)"

lemma env_get_char_Some [simp]: "env_get_char d i = Some c \<longleftrightarrow> i < length d \<and> d ! i = c"
  by (auto simp: env_get_char_def)

text \<open>
  \<^verbatim>\<open>for (nxt=i; env_get_char(nxt) != 0; ++nxt)\<close>, without and with the check
  \<^verbatim>\<open>nxt >= CFG_ENV_SIZE\<close> of \<open>getenv\<close>.
\<close>

function env_nul :: "byte list \<Rightarrow> nat \<Rightarrow> nat option" where
  "env_nul d i = do { c \<leftarrow> env_get_char d i; if c = 0 then Some i else env_nul d (i + 1) }"
  by pat_completeness auto
termination by (relation "measure (\<lambda>(d, i). length d - i)") auto

definition ENV_HEADER_SIZE :: nat where "ENV_HEADER_SIZE = 4"

definition CFG_ENV_SIZE :: "byte list \<Rightarrow> nat" where
  "CFG_ENV_SIZE d = length d + ENV_HEADER_SIZE"

function env_scan :: "byte list \<Rightarrow> nat \<Rightarrow> nat option option" where
  "env_scan d nxt =
     do { c \<leftarrow> env_get_char d nxt;
          if c = 0 then Some (Some nxt)
          else if CFG_ENV_SIZE d \<le> nxt then Some None
          else env_scan d (nxt + 1) }"
  by pat_completeness auto
termination by (relation "measure (\<lambda>(d, i). length d - i)") auto

declare env_nul.simps [simp del] env_scan.simps [simp del]

text \<open>
  \<^verbatim>\<open>envmatch(s1, i2)\<close>: the index of the value or -1. When name and entry are equal up to and
  including a NUL, the code reads on behind the end of \<^verbatim>\<open>s1\<close>: \<open>None\<close>.
\<close>

fun envmatch :: "byte list \<Rightarrow> byte list \<Rightarrow> nat \<Rightarrow> nat option option" where
  "envmatch d [] i2 =
     do { c \<leftarrow> env_get_char d i2;
          if c = 0 then None
          else if c = ch CHR ''='' then Some (Some (i2 + 1)) else Some None }"
| "envmatch d (s # s1) i2 =
     do { c \<leftarrow> env_get_char d i2;
          if s = c
          then (if s = ch CHR ''='' then Some (Some (i2 + 1)) else envmatch d s1 (i2 + 1))
          else Some None }"

lemma env_nul_ge: "env_nul d i = Some n \<Longrightarrow> i \<le> n"
proof (induction d i rule: env_nul.induct)
  case (1 d i)
  then show ?case
    by (subst (asm) (2) env_nul.simps) (fastforce simp: bind_eq_Some_conv split: if_splits)
qed

lemma env_scan_ge: "env_scan d i = Some (Some n) \<Longrightarrow> i \<le> n"
proof (induction d i rule: env_scan.induct)
  case (1 d i)
  then show ?case
    by (subst (asm) (2) env_scan.simps) (fastforce simp: bind_eq_Some_conv split: if_splits)
qed

text \<open>\<^verbatim>\<open>getenv\<close>: the index of the value in the data area, from entry index \<open>i\<close> on.\<close>

function getenv_loop :: "byte list \<Rightarrow> byte list \<Rightarrow> nat \<Rightarrow> nat option option" where
  "getenv_loop d name i =
     do { c \<leftarrow> env_get_char d i;
          if c = 0 then Some None
          else do { scan \<leftarrow> env_scan d i;
                    case scan of
                      None \<Rightarrow> Some None
                    | Some nxt \<Rightarrow>
                        do { val \<leftarrow> envmatch d name i;
                             case val of
                               None \<Rightarrow> getenv_loop d name (nxt + 1)
                             | Some v \<Rightarrow> Some (Some v) } } }"
  by pat_completeness auto
termination
  by (relation "measure (\<lambda>(d, nm, i). length d - i)") (auto dest!: env_scan_ge)

definition getenv :: "byte list \<Rightarrow> byte list \<Rightarrow> nat option option" where
  "getenv d name = getenv_loop d name 0"

text \<open>The C string a caller of \<open>getenv\<close> finds at the pointer it gets, \<open>None\<close> inside for null.\<close>

definition env_string :: "byte list \<Rightarrow> nat \<Rightarrow> byte list" where
  "env_string d i = takeWhile (\<lambda>c. c \<noteq> 0) (drop i d)"

definition getenv_str :: "byte list \<Rightarrow> byte list \<Rightarrow> byte list option option" where
  "getenv_str d name = map_option (map_option (env_string d)) (getenv d name)"

text \<open>
  The copy of \<open>getenv_r\<close>: \<^verbatim>\<open>while ((len > n++) && (*buf++ = env_get_char(val++)))\<close>. The result
  is \<^verbatim>\<open>n\<close> and the bytes stored at \<^verbatim>\<open>buf\<close>, in order.
\<close>

function getenv_copy :: "byte list \<Rightarrow> nat \<Rightarrow> nat \<Rightarrow> nat \<Rightarrow> byte list \<Rightarrow> (nat \<times> byte list) option" where
  "getenv_copy d val n len out =
     (if len > n then
        do { c \<leftarrow> env_get_char d val;
             if c \<noteq> 0 then getenv_copy d (val + 1) (n + 1) len (out @ [c])
             else Some (n + 1, out @ [c]) }
      else Some (n + 1, out))"
  by pat_completeness auto
termination by (relation "measure (\<lambda>(d, v, n, len, out). length d - v)") auto

text \<open>\<open>getenv_r\<close>: the return value and everything stored from \<^verbatim>\<open>buf\<close> on.\<close>

function getenv_r_loop :: "byte list \<Rightarrow> byte list \<Rightarrow> nat \<Rightarrow> nat \<Rightarrow> (int \<times> byte list) option" where
  "getenv_r_loop d name len i =
     do { c \<leftarrow> env_get_char d i;
          if c = 0 then Some (-1, [])
          else do { scan \<leftarrow> env_scan d i;
                    case scan of
                      None \<Rightarrow> Some (-1, [])
                    | Some nxt \<Rightarrow>
                        do { val \<leftarrow> envmatch d name i;
                             case val of
                               None \<Rightarrow> getenv_r_loop d name len (nxt + 1)
                             | Some v \<Rightarrow>
                                 do { (n, out) \<leftarrow> getenv_copy d v 0 len [];
                                      Some (int n, if len = n then out @ [0] else out) } } } }"
  by pat_completeness auto
termination
  by (relation "measure (\<lambda>(d, nm, len, i). length d - i)") (auto dest!: env_scan_ge)

definition getenv_r :: "byte list \<Rightarrow> byte list \<Rightarrow> nat \<Rightarrow> (int \<times> byte list) option" where
  "getenv_r d name len = getenv_r_loop d name len 0"

declare getenv_loop.simps [simp del] getenv_copy.simps [simp del] getenv_r_loop.simps [simp del]

section \<open>Changing\<close>

text \<open>
  The state \<open>_do_setenv\<close> works on: the data area and its CRC, the fields of \<^verbatim>\<open>gd\<close> and \<^verbatim>\<open>bd\<close>
  and the globals it updates, the standard devices, and the console characters to come.
\<close>

record env_state =
  env_data :: "byte list"
  env_crc :: u32
  gd_baudrate :: u32
  bi_enetaddr :: "byte list"
  bi_ip_addr :: u32
  load_addr :: u32
  BootFile :: "byte list"
  stdio_devices :: stdio
  con_in :: "byte list"

text \<open>
  The board configuration: \<open>cfg_overwrite\<close> is \<^verbatim>\<open>CONFIG_ENV_OVERWRITE\<close>, \<open>baudrate_table\<close> is
  \<^verbatim>\<open>CFG_BAUDRATE_TABLE\<close>, \<open>devlist\<close> the registered devices. \<^verbatim>\<open>CONFIG_NET_MULTI\<close> and
  \<^verbatim>\<open>CONFIG_OVERWRITE_ETHADDR_ONCE\<close> are not set; \<^verbatim>\<open>CFG_CMD_NET\<close> is.
\<close>

record env_config =
  cfg_overwrite :: bool
  baudrate_table :: "u32 list"
  devlist :: "device list"

definition env_crc_update :: "env_state \<Rightarrow> env_state" where
  "env_crc_update s = s\<lparr>env_crc := crc32 0 (Some (env_data s))\<rparr>"

definition env_put :: "byte list \<Rightarrow> nat \<Rightarrow> byte \<Rightarrow> byte list option" where
  "env_put d i c = (if i < length d then Some (d[i := c]) else None)"

lemma length_env_put: "env_put d i c = Some d' \<Longrightarrow> length d' = length d"
  by (auto simp: env_put_def split: if_splits)

text \<open>
  The search loop of \<open>_do_setenv\<close>: \<^verbatim>\<open>oldval\<close>, \<^verbatim>\<open>env\<close> and \<^verbatim>\<open>nxt\<close> when it ends (as indices; the last
  \<^verbatim>\<open>nxt\<close> before the loop is null and unused then).
\<close>

function env_search :: "byte list \<Rightarrow> byte list \<Rightarrow> nat \<Rightarrow> nat \<Rightarrow> nat option \<Rightarrow> (nat option \<times> nat \<times> nat) option" where
  "env_search d name env nxt oldval =
     do { c \<leftarrow> env_get_char d env;
          if c = 0 then Some (oldval, env, nxt)
          else do { nxt \<leftarrow> env_nul d env;
                    oldval \<leftarrow> envmatch d name env;
                    if oldval \<noteq> None then Some (oldval, env, nxt)
                    else env_search d name (nxt + 1) nxt oldval } }"
  by pat_completeness auto
termination
  by (relation "measure (\<lambda>(d, nm, i, n, v). length d - i)") (auto dest!: env_nul_ge)

text \<open>\<^verbatim>\<open>for (;;) { *env = *nxt++; if ((*env == 0) && (*nxt == 0)) break; ++env; }\<close>\<close>

function env_shift :: "byte list \<Rightarrow> nat \<Rightarrow> nat \<Rightarrow> (byte list \<times> nat) option" where
  "env_shift d env nxt =
     do { c \<leftarrow> env_get_char d nxt;
          d' \<leftarrow> env_put d env c;
          if c = 0 then do { c' \<leftarrow> env_get_char d' (nxt + 1);
                              if c' = 0 then Some (d', env) else env_shift d' (env + 1) (nxt + 1) }
          else env_shift d' (env + 1) (nxt + 1) }"
  by pat_completeness auto
termination
  by (relation "measure (\<lambda>(d, e, n). length d - n)") (auto dest: length_env_put)

text \<open>Deletion of the entry at \<open>env\<close> that ends with the NUL at \<open>nxt\<close>.\<close>

definition env_delete :: "byte list \<Rightarrow> nat \<Rightarrow> nat \<Rightarrow> byte list option" where
  "env_delete d env nxt =
     do { c \<leftarrow> env_get_char d (nxt + 1);
          (d, env) \<leftarrow> (if c = 0 then
                         (if env > 0 then Some (d, env - 1)
                          else do { d \<leftarrow> env_put d env 0; Some (d, env) })
                       else env_shift d env (nxt + 1));
          env_put d (env + 1) 0 }"

text \<open>\<^verbatim>\<open>for (env=env_data; *env || *(env+1); ++env)\<close>\<close>

function env_end :: "byte list \<Rightarrow> nat \<Rightarrow> nat option" where
  "env_end d env =
     do { c \<leftarrow> env_get_char d env;
          if c \<noteq> 0 then env_end d (env + 1)
          else do { c' \<leftarrow> env_get_char d (env + 1);
                    if c' \<noteq> 0 then env_end d (env + 1) else Some env } }"
  by pat_completeness auto
termination by (relation "measure (\<lambda>(d, i). length d - i)") auto

text \<open>\<^verbatim>\<open>while ((*env = *s++) != 0) env++\<close>: the data and the index of the NUL.\<close>

fun env_copy_string :: "byte list \<Rightarrow> nat \<Rightarrow> byte list \<Rightarrow> (byte list \<times> nat) option" where
  "env_copy_string d env [] = do { d \<leftarrow> env_put d env 0; Some (d, env) }"
| "env_copy_string d env (c # s) = do { d \<leftarrow> env_put d env c; env_copy_string d (env + 1) s }"

text \<open>The loop over \<^verbatim>\<open>argv[2]\<close>, \<^verbatim>\<open>argv[3]\<close>, ...: each after its separator.\<close>

fun env_copy_args :: "byte list \<Rightarrow> nat \<Rightarrow> byte \<Rightarrow> byte list list \<Rightarrow> (byte list \<times> nat) option" where
  "env_copy_args d env sep [] = Some (d, env)"
| "env_copy_args d env sep (val # vals) =
     do { d \<leftarrow> env_put d env sep;
          (d, env) \<leftarrow> env_copy_string d (env + 1) val;
          env_copy_args d env (ch CHR '' '') vals }"

definition env_append :: "byte list \<Rightarrow> nat \<Rightarrow> byte list \<Rightarrow> byte list list \<Rightarrow> byte list option" where
  "env_append d env name vals =
     do { (d, env) \<leftarrow> env_copy_string d env name;
          (d, env) \<leftarrow> env_copy_args d env (ch CHR ''='') vals;
          env_put d (env + 1) 0 }"

definition args_length :: "byte list \<Rightarrow> byte list list \<Rightarrow> nat" where
  "args_length name vals = foldl (\<lambda>len v. len + (length v + 1)) (length name + 2) vals"

text \<open>\<^verbatim>\<open>s = (*e) ? e+1 : e\<close> after each number.\<close>

definition skip_sep :: "byte list \<Rightarrow> byte list" where
  "skip_sep e = (if peek e \<noteq> 0 then tl e else e)"

fun parse_numbers :: "nat \<Rightarrow> u32 \<Rightarrow> byte list \<Rightarrow> u32 list" where
  "parse_numbers 0 base s = []"
| "parse_numbers (Suc n) base s =
     (let (v, e) = simple_strtoul s base in v # parse_numbers n base (skip_sep e))"

definition parse_enetaddr :: "byte list \<Rightarrow> byte list" where
  "parse_enetaddr s = map ucast (parse_numbers 6 16 s)"

definition parse_ipaddr :: "byte list \<Rightarrow> u32" where
  "parse_ipaddr s = foldl (\<lambda>addr val. push_bit 8 addr OR (val AND 0xFF)) 0 (parse_numbers 4 10 s)"

text \<open>
  \<^verbatim>\<open>copy_filename\<close> of \<^verbatim>\<open>net/net.c\<close>: the string left at \<^verbatim>\<open>dst\<close> (it and its NUL are stored).
\<close>

fun copy_filename_loop :: "byte list \<Rightarrow> nat \<Rightarrow> byte list" where
  "copy_filename_loop [] sz = []"
| "copy_filename_loop (c # src) sz =
     (if sz > 1 \<and> c \<noteq> ch CHR ''\"'' then c # copy_filename_loop src (sz - 1) else [])"

definition copy_filename :: "byte list \<Rightarrow> nat \<Rightarrow> byte list" where
  "copy_filename src sz =
     (if peek src = ch CHR ''\"'' then copy_filename_loop (tl src) (sz - 1)
      else copy_filename_loop src sz)"

text \<open>\<^verbatim>\<open>argv[i]\<close>: arguments from \<^verbatim>\<open>argc\<close> on are null.\<close>

definition argv_at :: "byte list option list \<Rightarrow> nat \<Rightarrow> byte list option" where
  "argv_at argv i = (if i < length argv then argv ! i else None)"

fun wait_cr :: "byte list \<Rightarrow> byte list option" where
  "wait_cr [] = None"
| "wait_cr (c # cs) = (if c = 13 then Some cs else wait_cr cs)"

text \<open>
  The checks and side effects before an existing variable is deleted; the flag is false
  where the code returns 1. \<^verbatim>\<open>simple_strtoul\<close> or \<^verbatim>\<open>strcmp\<close> on a null \<^verbatim>\<open>argv[2]\<close> is \<open>None\<close>.
\<close>

definition setenv_console ::
    "env_config \<Rightarrow> byte list \<Rightarrow> byte list option list \<Rightarrow> env_state \<Rightarrow> (bool \<times> env_state) option" where
  "setenv_console cfg name argv s =
     (let console = (if name = str ''stdin'' then Some stdin
                     else if name = str ''stdout'' then Some stdout
                     else if name = str ''stderr'' then Some stderr else None)
      in case console of
           None \<Rightarrow> Some (True, s)
         | Some file \<Rightarrow>
             if length argv < 3 then Some (False, s)
             else do { devname \<leftarrow> argv_at argv 2;
                       (let (r, st) = console_assign (devlist cfg) file devname (stdio_devices s)
                        in Some (r \<ge> 0, s\<lparr>stdio_devices := st\<rparr>)) })"

definition setenv_baudrate ::
    "env_config \<Rightarrow> byte list \<Rightarrow> byte list option list \<Rightarrow> env_state \<Rightarrow> (bool \<times> env_state) option" where
  "setenv_baudrate cfg name argv s =
     (if name = str ''baudrate'' then
        do { arg \<leftarrow> argv_at argv 2;
             (let baudrate = fst (simple_strtoul arg 10)
              in if baudrate \<notin> set (baudrate_table cfg) then Some (False, s)
                 else do { rest \<leftarrow> wait_cr (con_in s);
                           Some (True, s\<lparr>gd_baudrate := baudrate, con_in := rest\<rparr>) }) }
      else Some (True, s))"

definition setenv_replace ::
    "env_config \<Rightarrow> byte list \<Rightarrow> byte list option list \<Rightarrow> nat \<Rightarrow> nat \<Rightarrow> env_state \<Rightarrow> (bool \<times> env_state) option" where
  "setenv_replace cfg name argv env nxt s =
     (if \<not> cfg_overwrite cfg \<and> (name = str ''serial#'' \<or> name = str ''ethaddr'')
      then Some (False, s)
      else do { (go, s) \<leftarrow> setenv_console cfg name argv s;
                if \<not> go then Some (False, s)
                else do { (go, s) \<leftarrow> setenv_baudrate cfg name argv s;
                          if \<not> go then Some (False, s)
                          else do { d \<leftarrow> env_delete (env_data s) env nxt;
                                    Some (True, s\<lparr>env_data := d\<rparr>) } } })"

text \<open>The variables whose new value is also kept elsewhere.\<close>

definition setenv_special :: "byte list \<Rightarrow> byte list \<Rightarrow> env_state \<Rightarrow> env_state" where
  "setenv_special name val s =
     (if name = str ''ethaddr'' then s\<lparr>bi_enetaddr := parse_enetaddr val\<rparr>
      else if name = str ''ipaddr'' then s\<lparr>bi_ip_addr := parse_ipaddr val\<rparr>
      else if name = str ''loadaddr'' then s\<lparr>load_addr := fst (simple_strtoul val 16)\<rparr>
      else if name = str ''bootfile'' then s\<lparr>BootFile := copy_filename val 128\<rparr>
      else s)"

text \<open>The new definition behind the last one, unless it does not fit.\<close>

definition setenv_append :: "byte list \<Rightarrow> byte list list \<Rightarrow> env_state \<Rightarrow> (int \<times> env_state) option" where
  "setenv_append name vals s =
     do { last \<leftarrow> env_end (env_data s) 0;
          (let env = (if last > 0 then last + 1 else last)
           in if int (args_length name vals) > int (length (env_data s)) - int env then Some (1, s)
              else do { d \<leftarrow> env_append (env_data s) env name vals;
                        Some (0, setenv_special name (hd vals) (env_crc_update (s\<lparr>env_data := d\<rparr>))) }) }"

text \<open>
  \<open>_do_setenv\<close>: the return value and the new state. The code has no null check for
  \<^verbatim>\<open>argv[1]\<close> and for the arguments after \<^verbatim>\<open>argv[2]\<close>.
\<close>

definition setenv_main :: "env_config \<Rightarrow> byte list option list \<Rightarrow> env_state \<Rightarrow> (int \<times> env_state) option" where
  "setenv_main cfg argv s =
     do { name \<leftarrow> argv_at argv 1;
          (oldval, env, nxt) \<leftarrow> env_search (env_data s) name 0 0 None;
          (go, s) \<leftarrow> (if oldval \<noteq> None then setenv_replace cfg name argv env nxt s else Some (True, s));
          if \<not> go then Some (1, s)
          else if length argv < 3 \<or> argv_at argv 2 = None then Some (0, env_crc_update s)
          else do { vals \<leftarrow> those (drop 2 argv); setenv_append name vals s } }"

definition setenv :: "env_config \<Rightarrow> byte list \<Rightarrow> byte list option \<Rightarrow> env_state \<Rightarrow> (int \<times> env_state) option" where
  "setenv cfg varname varvalue s = setenv_main cfg [Some (str ''setenv''), Some varname, varvalue] s"

definition do_setenv :: "env_config \<Rightarrow> byte list option list \<Rightarrow> env_state \<Rightarrow> (int \<times> env_state) option" where
  "do_setenv cfg argv s = (if length argv < 2 then Some (1, s) else setenv_main cfg argv s)"

section \<open>Printing\<close>

text \<open>
  \<open>do_printenv\<close> without arguments: the lines printed and the index where the list ended. The
  \<open>polls\<close> are the answers of \<^verbatim>\<open>ctrlc()\<close> after each line; the flag says that one interrupted.
\<close>

function printenv_all :: "byte list \<Rightarrow> nat \<Rightarrow> bool list \<Rightarrow> byte list \<Rightarrow> (bool \<times> nat \<times> byte list) option" where
  "printenv_all d i polls out =
     do { c \<leftarrow> env_get_char d i;
          if c = 0 then Some (False, i, out)
          else do { nxt \<leftarrow> env_nul d i;
                    (let out = out @ map (\<lambda>k. d ! k) [i..<nxt] @ [10];
                         (stop, polls) = (case polls of [] \<Rightarrow> (False, []) | b # bs \<Rightarrow> (b, bs))
                     in if stop then Some (True, i, out)
                        else printenv_all d (nxt + 1) polls out) } }"
  by pat_completeness auto
termination
  by (relation "measure (\<lambda>(d, i, p, out). length d - i)") (auto dest!: env_nul_ge)

text \<open>One named variable: what is printed, \<open>None\<close> inside for not defined.\<close>

function printenv_one :: "byte list \<Rightarrow> byte list \<Rightarrow> nat \<Rightarrow> byte list option option" where
  "printenv_one d name j =
     do { c \<leftarrow> env_get_char d j;
          if c = 0 then Some None
          else do { nxt \<leftarrow> env_nul d j;
                    k \<leftarrow> envmatch d name j;
                    case k of
                      None \<Rightarrow> printenv_one d name (nxt + 1)
                    | Some k \<Rightarrow>
                        Some (Some (name @ [ch CHR ''=''] @ map (\<lambda>k. d ! k) [k..<nxt] @ [10])) } }"
  by pat_completeness auto
termination
  by (relation "measure (\<lambda>(d, nm, i). length d - i)") (auto dest!: env_nul_ge)

fun printenv_names :: "byte list \<Rightarrow> byte list list \<Rightarrow> (int \<times> byte list) option" where
  "printenv_names d [] = Some (0, [])"
| "printenv_names d (name # names) =
     do { r \<leftarrow> printenv_one d name 0;
          (rcode, out) \<leftarrow> printenv_names d names;
          case r of
            None \<Rightarrow> Some (rcode + 1, str ''## Error: '' @ [34] @ name @ [34] @ str '' not defined'' @ [10] @ out)
          | Some line \<Rightarrow> Some (rcode, line @ out) }"

definition do_printenv :: "byte list \<Rightarrow> byte list list \<Rightarrow> bool list \<Rightarrow> (int \<times> byte list) option" where
  "do_printenv d argv polls =
     (if length argv = 1 then
        do { (stop, i, out) \<leftarrow> printenv_all d 0 polls [];
             if stop then Some (1, out @ [10] @ str '' ** Abort'' @ [10])
             else do { size_line \<leftarrow> sprintf ([10] @ str ''Environment size: %d/%d bytes'' @ [10])
                                       [VaWord (of_nat i), VaWord (of_nat (length d))];
                       Some (0, out @ size_line) } }
      else printenv_names d (tl argv))"

declare env_search.simps [simp del] env_shift.simps [simp del] env_end.simps [simp del]
  printenv_all.simps [simp del] printenv_one.simps [simp del]

section \<open>Start-up\<close>

text \<open>
  \<open>env_relocate\<close> for an environment that is not embedded: \<open>env_valid\<close> is the result of the
  CRC check made before relocation, \<open>spec\<close> what \<^verbatim>\<open>env_relocate_spec\<close> of the storage driver
  puts into the buffer, \<open>sz\<close> is \<^verbatim>\<open>ENV_SIZE\<close> and \<open>deflt\<close> the default environment. The result
  is the data area, its CRC and \<^verbatim>\<open>gd->env_valid\<close>.
\<close>

definition env_relocate ::
    "bool \<Rightarrow> nat \<Rightarrow> byte list \<Rightarrow> byte list \<times> u32 \<Rightarrow> byte list \<times> u32 \<Rightarrow> (byte list \<times> u32) \<times> bool" where
  "env_relocate env_valid sz deflt spec old =
     (if \<not> env_valid then
        if length deflt > sz then (old, False)
        else let d = deflt @ replicate (sz - length deflt) 0 in ((d, crc32 0 (Some d)), True)
      else (spec, True))"

end
