(* ===== verification/EnvironmentCorrect.thy ===== *)
theory EnvironmentCorrect
  imports Environment
begin

text \<open>
  Correctness of the environment code. A list of variables describes a data area
  (\<open>env_models\<close>); reading, searching, deleting and appending are related to that list, the
  laws of a variable store (\<open>var_store\<close>) are proved for \<open>setenv\<close> and \<open>getenv\<close>, and the
  properties follow.
\<close>

section \<open>The abstract environment\<close>

type_synonym var = "byte list \<times> byte list"

definition wf_name :: "byte list \<Rightarrow> bool" where
  "wf_name n \<longleftrightarrow> ch CHR ''='' \<notin> set n \<and> 0 \<notin> set n"

definition wf_var :: "var \<Rightarrow> bool" where
  "wf_var e \<longleftrightarrow> wf_name (fst e) \<and> 0 \<notin> set (snd e)"

definition entry :: "var \<Rightarrow> byte list" where
  "entry e = fst e @ ch CHR ''='' # snd e"

definition env_bytes :: "var list \<Rightarrow> byte list" where
  "env_bytes es = concat (map (\<lambda>e. entry e @ [0]) es)"

fun env_body :: "var list \<Rightarrow> byte list" where
  "env_body [] = []"
| "env_body [e] = entry e"
| "env_body (e # es) = entry e @ 0 # env_body es"

definition env_models :: "byte list \<Rightarrow> var list \<Rightarrow> bool" where
  "env_models d es \<longleftrightarrow> list_all wf_var es \<and> (\<exists>pad. d = env_body es @ 0 # 0 # pad)"

fun drop_var :: "byte list \<Rightarrow> var list \<Rightarrow> var list" where
  "drop_var n [] = []"
| "drop_var n (e # es) = (if fst e = n then es else e # drop_var n es)"

lemma env_bytes_simps [simp]:
  "env_bytes [] = []" "env_bytes (e # es) = entry e @ 0 # env_bytes es"
  "env_bytes (es @ fs) = env_bytes es @ env_bytes fs"
  by (simp_all add: env_bytes_def)

lemma env_body_bytes: "es \<noteq> [] \<Longrightarrow> env_bytes es = env_body es @ [0]"
  by (induction es rule: env_body.induct) auto

lemma wf_entry: "wf_var e \<Longrightarrow> 0 \<notin> set (entry e)"
  by (auto simp: wf_var_def wf_name_def entry_def)

lemma entry_neq_Nil [simp]: "entry e \<noteq> []"
  by (simp add: entry_def)

lemma length_entry: "length (entry e) = length (fst e) + length (snd e) + 1"
  by (simp add: entry_def)

lemma env_models_bytes:
  assumes "env_models d es"
  obtains pad where "d = env_bytes es @ 0 # pad"
  using assms by (cases "es = []") (auto simp: env_models_def env_body_bytes)

section \<open>Reading entries\<close>

lemma nth_pre [simp]: "(xs @ y # ys) ! length xs = y"
  by (rule nth_append_length)

lemma env_nul_entry: 
  "0 \<notin> set e \<Longrightarrow> env_nul (pre @ e @ 0 # rest) (length pre) = Some (length pre + length e)"
proof (induction e arbitrary: pre)
  case Nil
  then show ?case by (subst env_nul.simps) (simp add: env_get_char_def)
next
  case (Cons c e)
  from Cons.IH [of "pre @ [c]"] Cons.prems show ?case
    by (subst env_nul.simps) (simp add: env_get_char_def)
qed

lemma env_scan_entry: 
  "0 \<notin> set e \<Longrightarrow> env_scan (pre @ e @ 0 # rest) (length pre) = Some (Some (length pre + length e))"
proof (induction e arbitrary: pre)
  case Nil
  then show ?case by (subst env_scan.simps) (simp add: env_get_char_def)
next
  case (Cons c e)
  from Cons.IH [of "pre @ [c]"] Cons.prems show ?case
    by (subst env_scan.simps) (simp add: env_get_char_def CFG_ENV_SIZE_def)
qed

lemma envmatch_entry:
  assumes "wf_name name" and "wf_name n"
  shows "envmatch (pre @ n @ ch CHR ''='' # rest) name (length pre) =
    Some (if n = name then Some (length pre + length n + 1) else None)"
  using assms
proof (induction name arbitrary: pre n)
  case Nil
  then show ?case by (cases n) (auto simp: env_get_char_def wf_name_def)
next
  case (Cons c name)
  show ?case
  proof (cases n)
    case Nil
    with Cons.prems show ?thesis by (auto simp: env_get_char_def wf_name_def)
  next
    case (Cons b n')
    with Cons.IH [of n' "pre @ [c]"] Cons.prems show ?thesis
      by (auto simp: env_get_char_def wf_name_def)
  qed
qed

lemma getenv_loop_models:
  assumes "list_all wf_var es" and "wf_name name" 
    and d: "d = pre @ env_bytes es @ 0 # rest"
  shows "\<exists>r. getenv_loop d name (length pre) = Some r \<and> map_option (env_string d) r = map_of es name \<and>
    (\<forall>i. r = Some i \<longrightarrow> (\<exists>p q. d = p @ the (map_of es name) @ 0 # q \<and> length p = i))"
  using assms(1) d
proof (induction es arbitrary: pre)
  case Nil
  then show ?case by (subst getenv_loop.simps) (simp add: env_get_char_def)
next
  case (Cons e es)
  obtain n v where e: "e = (n, v)" by (cases e)
  have wf: "wf_var e" "wf_name n" "0 \<notin> set v" using Cons.prems e by (auto simp: wf_var_def)
  have d: "d = pre @ entry e @ 0 # (env_bytes es @ 0 # rest)" using Cons.prems by simp
  have d': "d = pre @ n @ ch CHR ''='' # (v @ 0 # (env_bytes es @ 0 # rest))"
    using d by (simp add: e entry_def)
  have first: "env_get_char d (length pre) = Some (hd (entry e))" and "hd (entry e) \<noteq> 0"
    using wf_entry [OF wf(1)] by (cases "entry e"; simp add: d env_get_char_def)+
  then have step: "getenv_loop d name (length pre) =
      (if n = name then Some (Some (length pre + length n + 1))
       else getenv_loop d name (length pre + length (entry e) + 1))"
    using env_scan_entry [OF wf_entry [OF wf(1)], of pre "env_bytes es @ 0 # rest", folded d]
      envmatch_entry [OF assms(2) wf(2), of pre "v @ 0 # (env_bytes es @ 0 # rest)", folded d']
    by (subst getenv_loop.simps) (simp del: env_get_char_Some)
  show ?case
  proof (cases "n = name")
    case True
    have "env_string d (length pre + length n + 1) = v"
    proof -
      have "\<forall>c \<in> set v. c \<noteq> 0" using wf(3) by auto
      then show ?thesis by (simp add: env_string_def d' takeWhile_append2)
    qed
    moreover have "\<exists>p q. d = p @ v @ 0 # q \<and> length p = length pre + length n + 1"
      by (rule exI [of _ "pre @ n @ [ch CHR ''='']"], rule exI [of _ "env_bytes es @ 0 # rest"]) (simp add: d')
    ultimately show ?thesis using step True by (simp add: e)
  next
    case False
    with Cons.IH [of "pre @ entry e @ [0]"] Cons.prems d step show ?thesis
      by (auto simp: e)
  qed
qed

section \<open>Searching and deleting\<close>

lemma env_search_none:
  assumes "list_all wf_var es" and "wf_name name" and d: "d = pre @ env_bytes es @ 0 # rest"
    and "name \<notin> fst ` set es"
  shows "\<exists>env nxt. env_search d name (length pre) nxt0 None = Some (None, env, nxt)"
  using assms(1,4) d
proof (induction es arbitrary: pre nxt0)
  case Nil
  then show ?case by (subst env_search.simps) (simp add: env_get_char_def)
next
  case (Cons e es)
  obtain n v where e: "e = (n, v)" by (cases e)
  have wf: "wf_var e" "wf_name n" using Cons.prems e by (auto simp: wf_var_def)
  have d: "d = pre @ entry e @ 0 # (env_bytes es @ 0 # rest)" using Cons.prems by simp
  have d': "d = pre @ n @ ch CHR ''='' # (v @ 0 # (env_bytes es @ 0 # rest))"
    using d by (simp add: e entry_def)
  have first: "env_get_char d (length pre) = Some (hd (entry e))" and "hd (entry e) \<noteq> 0"
    using wf_entry [OF wf(1)] by (cases "entry e"; simp add: d env_get_char_def)+
  then have "env_search d name (length pre) nxt0 None =
      env_search d name (length pre + length (entry e) + 1) (length pre + length (entry e)) None"
    using env_nul_entry [OF wf_entry [OF wf(1)], of pre "env_bytes es @ 0 # rest", folded d] Cons.prems(2)
      envmatch_entry [OF assms(2) wf(2), of pre "v @ 0 # (env_bytes es @ 0 # rest)", folded d']
    by (subst env_search.simps) (auto simp: e simp del: env_get_char_Some)
  with Cons.IH [of "pre @ entry e @ [0]"] Cons.prems d show ?case by (auto simp: e)
qed

lemma env_search_some:
  assumes "list_all wf_var es" and "wf_name name" and "wf_name n" and "0 \<notin> set v"
    and d: "d = pre @ env_bytes es @ entry (name, v) @ 0 # rest"
    and "name \<notin> fst ` set es"
  shows "\<exists>old. env_search d name (length pre) nxt0 None =
     Some (Some old, length (pre @ env_bytes es), length (pre @ env_bytes es) + length (entry (name, v)))"
  using assms(1,6) d
proof (induction es arbitrary: pre nxt0)
  case Nil
  have wf: "wf_var (name, v)" using assms by (simp add: wf_var_def)
  have d: "d = pre @ entry (name, v) @ 0 # rest" using Nil by simp
  have d': "d = pre @ name @ ch CHR ''='' # (v @ 0 # rest)" using d by (simp add: entry_def)
  have first: "env_get_char d (length pre) = Some (hd (entry (name, v)))" and "hd (entry (name, v)) \<noteq> 0"
    using wf_entry [OF wf] by (cases "entry (name, v)"; simp add: d env_get_char_def)+
  then show ?case
    using env_nul_entry [OF wf_entry [OF wf], of pre "rest", folded d]
      envmatch_entry [OF assms(2,2), of pre "v @ 0 # rest", folded d']
    by (subst env_search.simps) (auto simp del: env_get_char_Some)
next
  case (Cons e es)
  obtain n v' where e: "e = (n, v')" by (cases e)
  have wf: "wf_var e" "wf_name n" using Cons.prems e by (auto simp: wf_var_def)
  let ?r = "env_bytes es @ entry (name, v) @ 0 # rest"
  have d: "d = pre @ entry e @ 0 # ?r" using Cons.prems by simp
  have d': "d = pre @ n @ ch CHR ''='' # (v' @ 0 # ?r)"
    using d by (simp add: e entry_def)
  have first: "env_get_char d (length pre) = Some (hd (entry e))" and "hd (entry e) \<noteq> 0"
    using wf_entry [OF wf(1)] by (cases "entry e"; simp add: d env_get_char_def)+
  then have "env_search d name (length pre) nxt0 None =
      env_search d name (length pre + length (entry e) + 1) (length pre + length (entry e)) None"
    using env_nul_entry [OF wf_entry [OF wf(1)], of pre ?r, folded d] Cons.prems(2)
      envmatch_entry [OF assms(2) wf(2), of pre "v' @ 0 # ?r", folded d']
    by (subst env_search.simps) (auto simp: e simp del: env_get_char_Some)
  with Cons.IH [of "pre @ entry e @ [0]"] Cons.prems d show ?case by (auto simp: e)
qed

text \<open>No two adjacent NULs, none at the end: where the shift and the end search do not stop.\<close>

fun no_gap :: "byte list \<Rightarrow> bool" where
  "no_gap [] \<longleftrightarrow> True"
| "no_gap [c] \<longleftrightarrow> c \<noteq> 0"
| "no_gap (c # c' # cs) \<longleftrightarrow> (c = 0 \<longrightarrow> c' \<noteq> 0) \<and> no_gap (c' # cs)"

lemma no_gap_append:
  "0 \<notin> set e \<Longrightarrow> no_gap ys \<Longrightarrow> no_gap (e @ ys)"
proof (induction e)
  case (Cons c e)
  then show ?case by (cases "e @ ys") auto
qed simp

lemma env_body_hd: "list_all wf_var es \<Longrightarrow> es \<noteq> [] \<Longrightarrow> env_body es \<noteq> [] \<and> hd (env_body es) \<noteq> 0"
proof (induction es rule: env_body.induct)
  case (2 e)
  then show ?case using wf_entry [of e] by (cases "entry e") auto
next
  case (3 e e' es)
  then show ?case using wf_entry [of e] by (cases "entry e") auto
qed simp

lemma no_gap_body: "list_all wf_var es \<Longrightarrow> no_gap (env_body es)"
proof (induction es rule: env_body.induct)
  case (2 e)
  then show ?case using no_gap_append [of "entry e" "[]"] wf_entry [of e] by simp
next
  case (3 e e' es)
  then have "no_gap (0 # env_body (e' # es))"
    using env_body_hd [of "e' # es"] by (cases "env_body (e' # es)") auto
  with 3 show ?case using no_gap_append [of "entry e"] wf_entry [of e] by simp
qed simp

lemma no_gap_ConsD: "no_gap (c # cs) \<Longrightarrow> no_gap cs \<and> (c = 0 \<longrightarrow> cs \<noteq> [] \<and> hd cs \<noteq> 0)"
  by (cases cs) auto

lemma env_put_nth: "env_put (pre @ a # rest) (length pre) c = Some (pre @ c # rest)"
  by (simp add: env_put_def)

lemma env_shift_body:
  assumes "no_gap ys" and "mid \<noteq> []"
  shows "\<exists>junk. env_shift (pre @ mid @ ys @ 0 # 0 # rest) (length pre) (length pre + length mid) =
     Some (pre @ ys @ 0 # junk, length pre + length ys) \<and> length junk = length mid + 1 + length rest"
  using assms
proof (induction ys arbitrary: pre mid)
  case Nil
  then obtain a mid' where mid: "mid = a # mid'" by (cases mid) auto
  let ?d = "pre @ mid @ 0 # 0 # rest" and ?d' = "pre @ 0 # mid' @ 0 # 0 # rest"
  have "env_get_char ?d (length pre + length mid) = Some 0"
    using nth_pre [of "pre @ mid" 0 "0 # rest"] by (simp add: env_get_char_def)
  moreover have "env_put ?d (length pre) 0 = Some ?d'" by (simp add: mid env_put_nth)
  moreover have "env_get_char ?d' (length pre + length mid + 1) = Some 0"
    using nth_pre [of "pre @ 0 # mid' @ [0]" 0 rest] by (simp add: env_get_char_def mid)
  ultimately show ?case
    by (subst env_shift.simps) (simp add: mid del: env_get_char_Some)
next
  case (Cons y ys)
  then obtain a mid' where mid: "mid = a # mid'" by (cases mid) auto
  let ?tl = "ys @ 0 # 0 # rest"
  let ?d = "pre @ mid @ y # ?tl" and ?d' = "pre @ y # mid' @ y # ?tl"
  have get: "env_get_char ?d (length pre + length mid) = Some y"
    using nth_pre [of "pre @ mid" y ?tl] by (simp add: env_get_char_def)
  have put: "env_put ?d (length pre) y = Some ?d'" by (simp add: mid env_put_nth)
  have nx: "env_get_char ?d' (length pre + length mid + 1) = Some (hd ?tl)"
    using nth_pre [of "pre @ y # mid' @ [y]" "hd ?tl" "tl ?tl"] by (cases ys) (simp_all add: env_get_char_def mid)
  have ng: "no_gap ys" "y = 0 \<Longrightarrow> hd ?tl \<noteq> 0" using no_gap_ConsD [OF Cons.prems(1)] by auto
  have "env_shift ?d (length pre) (length pre + length mid) =
      env_shift ?d' (length pre + 1) (length pre + length mid + 1)"
    using get put nx ng(2)
    by (subst env_shift.simps) (auto simp: mid simp del: env_get_char_Some)
  with Cons.IH [of "mid' @ [y]" "pre @ [y]"] ng(1) show ?case by (simp add: mid)
qed

lemma env_end_body:
  "no_gap ys \<Longrightarrow> env_end (pre @ ys @ 0 # 0 # rest) (length pre) = Some (length pre + length ys)"
proof (induction ys arbitrary: pre)
  case Nil
  have "(pre @ 0 # 0 # rest) ! (Suc (length pre)) = 0"
    using nth_pre [of "pre @ [0]" 0 rest] by simp
  then show ?case by (subst env_end.simps) (simp add: env_get_char_def)
next
  case (Cons y ys)
  let ?tl = "ys @ 0 # 0 # rest"
  have nx: "env_get_char (pre @ y # ?tl) (Suc (length pre)) = Some (hd ?tl)"
    using nth_pre [of "pre @ [y]" "hd ?tl" "tl ?tl"] by (cases ys) (simp_all add: env_get_char_def)
  have get: "env_get_char (pre @ y # ?tl) (length pre) = Some y" by (simp add: env_get_char_def)
  have ng: "no_gap ys" "y = 0 \<Longrightarrow> hd ?tl \<noteq> 0" using no_gap_ConsD [OF Cons.prems(1)] by auto
  with Cons.IH [of "pre @ [y]"] nx get show ?case
    by (subst env_end.simps) (auto simp del: env_get_char_Some)
qed

lemma env_body_append:
  "es \<noteq> [] \<Longrightarrow> fs \<noteq> [] \<Longrightarrow> env_body (es @ fs) = env_body es @ 0 # env_body fs"
proof (induction es rule: env_body.induct)
  case (2 e)
  then show ?case by (cases fs) auto
qed auto

lemma env_delete_models:
  assumes "env_models d (es1 @ e # es2)"
  shows "\<exists>d'. env_delete d (length (env_bytes es1)) (length (env_bytes es1) + length (entry e)) = Some d' \<and>
     env_models d' (es1 @ es2) \<and> length d' = length d"
proof -
  obtain pad where d: "d = env_body (es1 @ e # es2) @ 0 # 0 # pad"
    and wf: "list_all wf_var (es1 @ e # es2)" using assms by (auto simp: env_models_def)
  let ?i = "length (env_bytes es1)" and ?j = "length (env_bytes es1) + length (entry e)"
  show ?thesis
  proof (cases "es2 = []")
    case True
    have d1: "d = env_bytes es1 @ entry e @ 0 # 0 # pad"
      using d True by (cases "es1 = []") (auto simp: env_body_append env_body_bytes)
    have c: "env_get_char d (?j + 1) = Some 0"
      using nth_pre [of "env_bytes es1 @ entry e @ [0]" 0 pad] by (simp add: d1 env_get_char_def)
    obtain a as where ea: "entry e = a # as" by (cases "entry e") auto
    show ?thesis
    proof (cases "es1 = []")
      case True
      obtain b r where br: "as @ 0 # 0 # pad = b # r" by (cases as) auto
      then have "length r = length as + length pad + 1" by (metis add_Suc_right length_Cons length_append nat.inject plus_1_eq_Suc add.commute)
      with True \<open>es2 = []\<close> c br show ?thesis
        by (auto simp: env_delete_def env_models_def d1 ea env_put_def simp del: env_get_char_Some)
    next
      case False
      have i: "?i > 0" "env_bytes es1 = env_body es1 @ [0]" using False by (auto simp: env_body_bytes)
      have "env_put d ?i 0 = Some (env_bytes es1 @ 0 # as @ 0 # 0 # pad)"
        by (simp add: d1 ea env_put_nth)
      with False c \<open>es2 = []\<close> i wf show ?thesis
        by (auto simp: env_delete_def env_models_def d1 ea simp del: env_get_char_Some)
    qed
  next
    case False
    then have d1: "d = env_bytes es1 @ (entry e @ [0]) @ env_body es2 @ 0 # 0 # pad"
      using d by (cases "es1 = []"; cases es2) (auto simp: env_body_append env_body_bytes)
    have ng: "no_gap (env_body es2)" and hd: "env_body es2 \<noteq> []" "hd (env_body es2) \<noteq> 0"
      using no_gap_body env_body_hd False wf by auto
    obtain junk where sh: "env_shift d ?i (?j + 1) =
        Some (env_bytes es1 @ env_body es2 @ 0 # junk, ?i + length (env_body es2))"
      and junk: "length junk = length (entry e) + 2 + length pad"
      using env_shift_body [OF ng, of "entry e @ [0]" "env_bytes es1" pad] by (auto simp: d1)
    obtain b bs where jb: "junk = b # bs" using junk by (cases junk) auto
    have "env_put (env_bytes es1 @ env_body es2 @ 0 # junk) (?i + length (env_body es2) + 1) 0 =
        Some (env_bytes es1 @ env_body es2 @ 0 # 0 # bs)"
      using env_put_nth [of "env_bytes es1 @ env_body es2 @ [0]" b bs 0] by (simp add: jb)
    moreover have "env_get_char d (?j + 1) = Some (hd (env_body es2))"
      using hd(1) nth_pre [of "env_bytes es1 @ entry e @ [0]" _ "tl (env_body es2) @ 0 # 0 # pad"]
      by (cases "env_body es2") (simp_all add: d1 env_get_char_def)
    moreover have "env_bytes es1 @ env_body es2 @ 0 # 0 # bs = env_body (es1 @ es2) @ 0 # 0 # bs"
      using False by (cases "es1 = []") (auto simp: env_body_append env_body_bytes)
    moreover have "length (env_body (es1 @ es2)) = length (env_bytes es1) + length (env_body es2)"
      using False by (cases "es1 = []") (auto simp: env_body_append env_body_bytes)
    ultimately show ?thesis using wf hd(2) sh junk jb
      by (simp add: env_delete_def env_models_def d1 del: env_get_char_Some)
  qed
qed

section \<open>Appending\<close>

text \<open>The values after their separators.\<close>

fun args_text :: "byte \<Rightarrow> byte list list \<Rightarrow> byte list" where
  "args_text sep [] = []"
| "args_text sep (v # vs) = sep # v @ args_text (ch CHR '' '') vs"

lemma env_copy_string_at:
  "length old = length s + 1 \<Longrightarrow>
   env_copy_string (pre @ old @ rest) (length pre) s = Some (pre @ s @ 0 # rest, length pre + length s)"
proof (induction s arbitrary: pre old)
  case Nil
  then obtain a where "old = [a]" by (auto simp: length_Suc_conv)
  then show ?case by (simp add: env_put_nth)
next
  case (Cons c s)
  then obtain a old' where old: "old = a # old'" by (cases old) auto
  have "env_put (pre @ old @ rest) (length pre) c = Some ((pre @ [c]) @ old' @ rest)"
    by (simp add: old env_put_nth)
  with Cons.IH [of old' "pre @ [c]"] Cons.prems old show ?case by simp
qed

lemma env_copy_args_at:
  "length old = length (args_text sep vals) \<Longrightarrow>
   env_copy_args (pre @ 0 # old @ rest) (length pre) sep vals =
     Some (pre @ args_text sep vals @ 0 # rest, length pre + length (args_text sep vals))"
proof (induction vals arbitrary: pre old sep)
  case (Cons v vals)
  define o1 where "o1 = take (length v + 1) old"
  define o2 where "o2 = drop (length v + 1) old"
  have old: "old = o1 @ o2" "length o1 = length v + 1" "length o2 = length (args_text (ch CHR '' '') vals)"
    using Cons.prems by (simp_all add: o1_def o2_def)
  have "env_put (pre @ 0 # old @ rest) (length pre) sep = Some ((pre @ [sep]) @ o1 @ (o2 @ rest))"
    by (simp add: env_put_nth old)
  moreover have "env_copy_string ((pre @ [sep]) @ o1 @ (o2 @ rest)) (length pre + 1) v =
      Some ((pre @ sep # v) @ 0 # o2 @ rest, length (pre @ sep # v))"
    using env_copy_string_at [of o1 v "pre @ [sep]" "o2 @ rest"] old by simp
  ultimately show ?case using Cons.IH [of o2 "ch CHR '' ''" "pre @ sep # v"] old by simp
qed simp

lemma args_length_text: "args_length name vals = length name + length (args_text (ch CHR ''='') vals) + 2"
proof -
  have len: "length (args_text sep vals) = sum_list (map (\<lambda>v. length v + 1) vals)" for sep
    by (induction vals arbitrary: sep) simp_all
  have all: "foldl (\<lambda>len v. len + (length v + 1)) n vals = n + length (args_text sep vals)" for n sep
    unfolding len by (induction vals arbitrary: n) simp_all
  show ?thesis unfolding args_length_def all [of "length name + 2" "ch CHR ''=''"] by simp
qed

lemma env_append_models:
  assumes m: "env_models d es" and wf: "wf_name name" "\<forall>v \<in> set (v1 # vals). 0 \<notin> set v"
    and fits: "length (env_bytes es) + args_length name (v1 # vals) \<le> length d"
  shows "\<exists>d'. env_append d (length (env_bytes es)) name (v1 # vals) = Some d' \<and>
     env_models d' (es @ [(name, v1 @ args_text (ch CHR '' '') vals)]) \<and> length d' = length d"
proof -
  let ?txt = "args_text (ch CHR ''='') (v1 # vals)" and ?pre = "env_bytes es"
  obtain pad where d: "d = ?pre @ 0 # pad" using m by (rule env_models_bytes)
  define x where "x = take (length name + 1) (0 # pad)"
  define y where "y = take (length ?txt) (drop (length name + 1) (0 # pad))"
  define z where "z = drop (length ?txt) (drop (length name + 1) (0 # pad))"
  have xyz: "0 # pad = x @ y @ z" by (simp only: x_def y_def z_def append_take_drop_id)
  have len: "length x = length name + 1" "length y = length ?txt" "z \<noteq> []"
    using fits by (auto simp: x_def y_def z_def d args_length_text)
  then obtain a r where z: "z = a # r" by (cases z) auto
  have "env_copy_string d (length ?pre) name = Some (?pre @ name @ 0 # y @ z, length (?pre @ name))"
    using env_copy_string_at [OF len(1), of ?pre "y @ z"] by (simp add: d xyz)
  moreover have "env_copy_args (?pre @ name @ 0 # y @ z) (length (?pre @ name)) (ch CHR ''='') (v1 # vals) =
      Some (?pre @ name @ ?txt @ 0 # z, length (?pre @ name @ ?txt))"
    using env_copy_args_at [OF len(2), of "?pre @ name" z] by simp
  moreover have "env_put (?pre @ name @ ?txt @ 0 # z) (length (?pre @ name @ ?txt) + 1) 0 =
      Some (?pre @ name @ ?txt @ 0 # 0 # r)"
    using env_put_nth [of "?pre @ name @ ?txt @ [0]" a r 0] by (simp add: z)
  ultimately have app: "env_append d (length ?pre) name (v1 # vals) = Some (?pre @ name @ ?txt @ 0 # 0 # r)"
    by (simp add: env_append_def del: env_copy_args.simps args_text.simps)
  have img: "?pre @ name @ ?txt @ 0 # 0 # r = env_body (es @ [(name, v1 @ args_text (ch CHR '' '') vals)]) @ 0 # 0 # r"
    by (cases "es = []") (simp_all add: env_body_append env_body_bytes entry_def)
  have "0 \<notin> set (args_text (ch CHR '' '') vals)" using wf(2)
    by (induction vals) auto
  moreover have len': "length (?pre @ name @ ?txt @ 0 # 0 # r) = length d"
    using len xyz by (simp add: d z)
  ultimately have "env_models (?pre @ name @ ?txt @ 0 # 0 # r) (es @ [(name, v1 @ args_text (ch CHR '' '') vals)])"
    unfolding img using m wf by (auto simp: env_models_def wf_var_def)
  with app len' show ?thesis by blast
qed

section \<open>What \<open>_do_setenv\<close> does to the list of variables\<close>

lemma env_end_models:
  assumes "env_models d es"
  obtains env where "env_end d 0 = Some env" and "(if env > 0 then env + 1 else env) = length (env_bytes es)"
proof
  obtain pad where d: "d = env_body es @ 0 # 0 # pad" and wf: "list_all wf_var es"
    using assms by (auto simp: env_models_def)
  show "env_end d 0 = Some (length (env_body es))"
    using env_end_body [OF no_gap_body [OF wf], of "[]" pad] by (simp add: d)
  show "(if length (env_body es) > 0 then length (env_body es) + 1 else length (env_body es)) = length (env_bytes es)"
    using env_body_hd [OF wf] by (cases "es = []") (auto simp: env_body_bytes)
qed

lemma drop_var_notin: "n \<notin> fst ` set es \<Longrightarrow> drop_var n es = es"
  by (induction es) auto

lemma drop_var_split: "n \<notin> fst ` set es1 \<Longrightarrow> drop_var n (es1 @ (n, v) # es2) = es1 @ es2"
  by (induction es1) auto

lemma first_var_split:
  "n \<in> fst ` set es \<Longrightarrow> \<exists>es1 v es2. es = es1 @ (n, v) # es2 \<and> n \<notin> fst ` set es1"
proof (induction es)
  case (Cons e es)
  show ?case
  proof (cases "fst e = n")
    case True
    then show ?thesis by (intro exI [of _ "[]"] exI [of _ "snd e"] exI [of _ es]) auto
  next
    case False
    with Cons obtain es1 v es2 where "es = es1 @ (n, v) # es2" "n \<notin> fst ` set es1" by auto
    with False show ?thesis by (intro exI [of _ "e # es1"] exI [of _ v] exI [of _ es2]) auto
  qed
qed simp

lemma env_search_models:
  assumes m: "env_models d es" and name: "wf_name name"
  shows "(name \<notin> fst ` set es \<and> (\<exists>env nxt. env_search d name 0 0 None = Some (None, env, nxt))) \<or>
    (name \<in> fst ` set es \<and> (\<exists>old env nxt d'. env_search d name 0 0 None = Some (Some old, env, nxt) \<and>
        env_delete d env nxt = Some d' \<and> env_models d' (drop_var name es) \<and> length d' = length d))"
proof -
  obtain pad where d: "d = env_bytes es @ 0 # pad" using m by (rule env_models_bytes)
  have wf: "list_all wf_var es" using m by (simp add: env_models_def)
  show ?thesis
  proof (cases "name \<in> fst ` set es")
    case False
    with env_search_none [OF wf name, of d "[]" pad 0] d show ?thesis by simp
  next
    case True
    then obtain es1 v es2 where es: "es = es1 @ (name, v) # es2" "name \<notin> fst ` set es1"
      using first_var_split [OF True] by blast
    have v: "0 \<notin> set v" "list_all wf_var es1" using wf unfolding es(1) by (simp_all add: wf_var_def)
    have "d = [] @ env_bytes es1 @ entry (name, v) @ 0 # (env_bytes es2 @ 0 # pad)"
      by (simp add: d es(1))
    from env_search_some [OF v(2) name name v(1) this es(2), of 0]
    obtain old where "env_search d name 0 0 None = Some (Some old, length (env_bytes es1),
        length (env_bytes es1) + length (entry (name, v)))"
      by (auto simp only: append_Nil list.size)
    moreover have "\<exists>d'. env_delete d (length (env_bytes es1)) (length (env_bytes es1) + length (entry (name, v))) = Some d' \<and>
        env_models d' (drop_var name es) \<and> length d' = length d"
      using env_delete_models [of d es1 "(name, v)" es2] m es by (simp add: drop_var_split)
    ultimately show ?thesis using True by blast
  qed
qed

text \<open>The checks for the variables with a side effect succeed; nothing is known of the others.\<close>

definition plain_name :: "byte list \<Rightarrow> bool" where
  "plain_name name \<longleftrightarrow> name \<notin> {str ''serial#'', str ''ethaddr'', str ''stdin'', str ''stdout'',
     str ''stderr'', str ''baudrate''}"

lemma setenv_console_data:
  "setenv_console cfg name argv s = Some (go, s') \<Longrightarrow> env_data s' = env_data s \<and> env_crc s' = env_crc s"
  by (auto simp: setenv_console_def bind_eq_Some_conv case_prod_beta Let_def split: if_splits option.splits)

lemma setenv_baudrate_data:
  "setenv_baudrate cfg name argv s = Some (go, s') \<Longrightarrow> env_data s' = env_data s \<and> env_crc s' = env_crc s"
  by (auto simp: setenv_baudrate_def bind_eq_Some_conv Let_def split: if_splits)

lemma setenv_replace_data:
  assumes "setenv_replace cfg name argv env nxt s = Some (go, s')"
  shows "env_crc s' = env_crc s \<and>
     (if go then env_delete (env_data s) env nxt = Some (env_data s') else env_data s' = env_data s)"
  using assms
  by (auto simp: setenv_replace_def bind_eq_Some_conv case_prod_beta split: if_splits
      dest!: setenv_console_data setenv_baudrate_data)

lemma setenv_replace_plain:
  "plain_name name \<Longrightarrow> setenv_replace cfg name argv env nxt s =
     map_option (\<lambda>d. (True, s\<lparr>env_data := d\<rparr>)) (env_delete (env_data s) env nxt)"
  by (cases "env_delete (env_data s) env nxt")
    (auto simp: setenv_replace_def setenv_console_def setenv_baudrate_def plain_name_def)

lemma setenv_special_data [simp]:
  "env_data (setenv_special n v s) = env_data s" "env_crc (setenv_special n v s) = env_crc s"
  by (simp_all add: setenv_special_def)

lemma those_map_Some [simp]: "those (map Some xs) = Some xs"
  by (induction xs) simp_all

lemma setenv_append_models:
  assumes "env_models (env_data s) es" and "wf_name name" and "\<forall>v \<in> set (v1 # vals). 0 \<notin> set v"
  shows "\<exists>d'. setenv_append name (v1 # vals) s =
     (if length (env_bytes es) + args_length name (v1 # vals) > length (env_data s) then Some (1, s)
      else Some (0, setenv_special name v1 (env_crc_update (s\<lparr>env_data := d'\<rparr>)))) \<and>
     length d' = length (env_data s) \<and>
     (length (env_bytes es) + args_length name (v1 # vals) \<le> length (env_data s) \<longrightarrow>
      env_models d' (es @ [(name, v1 @ args_text (ch CHR '' '') vals)]))"
proof -
  obtain env where e: "env_end (env_data s) 0 = Some env"
    and i: "(if env > 0 then env + 1 else env) = length (env_bytes es)"
    using env_end_models [OF assms(1)] by blast
  have step: "setenv_append name (v1 # vals) s =
      (if int (args_length name (v1 # vals)) > int (length (env_data s)) - int (length (env_bytes es))
       then Some (1, s)
       else do { d \<leftarrow> env_append (env_data s) (length (env_bytes es)) name (v1 # vals);
                 Some (0, setenv_special name v1 (env_crc_update (s\<lparr>env_data := d\<rparr>))) })"
    unfolding setenv_append_def e Let_def bind.bind_lunit i by simp
  show ?thesis
  proof (cases "length (env_bytes es) + args_length name (v1 # vals) > length (env_data s)")
    case True
    then have "int (args_length name (v1 # vals)) > int (length (env_data s)) - int (length (env_bytes es))"
      by simp
    with True step show ?thesis by (intro exI [of _ "env_data s"]) simp
  next
    case False
    then have "\<not> int (args_length name (v1 # vals)) > int (length (env_data s)) - int (length (env_bytes es))"
      by simp
    moreover obtain d' where "env_append (env_data s) (length (env_bytes es)) name (v1 # vals) = Some d'"
      "env_models d' (es @ [(name, v1 @ args_text (ch CHR '' '') vals)])" "length d' = length (env_data s)"
      using env_append_models [OF assms] False by fastforce
    ultimately show ?thesis using step False
      by (intro exI [of _ d']) simp
  qed
qed

definition env_crc_ok :: "env_state \<Rightarrow> bool" where
  "env_crc_ok s \<longleftrightarrow> env_crc s = crc32 0 (Some (env_data s))"

text \<open>The arguments as C strings.\<close>

definition wf_args :: "byte list option list \<Rightarrow> bool" where
  "wf_args argv \<longleftrightarrow> (\<forall>v. Some v \<in> set argv \<longrightarrow> 0 \<notin> set v)"

definition setenv_text :: "byte list option list \<Rightarrow> byte list" where
  "setenv_text argv = (case those (drop 2 argv) of Some (v # vals) \<Rightarrow> v @ args_text (ch CHR '' '') vals | _ \<Rightarrow> [])"

lemma those_SomeD: "those xs = Some ys \<Longrightarrow> xs = map Some ys"
  by (induction xs arbitrary: ys) (auto split: option.splits)

lemma setenv_search_phase:
  assumes m: "env_models (env_data s) es" and name: "wf_name name"
    and run: "env_search (env_data s) name 0 0 None = Some (oldval, env, nxt)"
      "(if oldval \<noteq> None then setenv_replace cfg name argv env nxt s else Some (True, s)) = Some (go, s1)"
  shows "env_crc s1 = env_crc s \<and> length (env_data s1) = length (env_data s) \<and>
    (if go then env_models (env_data s1) (drop_var name es) else env_data s1 = env_data s)"
  using env_search_models [OF m name]
proof
  assume "name \<notin> fst ` set es \<and> (\<exists>env nxt. env_search (env_data s) name 0 0 None = Some (None, env, nxt))"
  with run m show ?thesis by (auto simp: drop_var_notin)
next
  assume "name \<in> fst ` set es \<and> (\<exists>old env nxt d'. env_search (env_data s) name 0 0 None = Some (Some old, env, nxt) \<and>
        env_delete (env_data s) env nxt = Some d' \<and> env_models d' (drop_var name es) \<and> length d' = length (env_data s))"
  with run have "setenv_replace cfg name argv env nxt s = Some (go, s1)"
    and "\<exists>d'. env_delete (env_data s) env nxt = Some d' \<and> env_models d' (drop_var name es) \<and> length d' = length (env_data s)"
    by auto
  with setenv_replace_data [of cfg name argv env nxt s go s1] show ?thesis
    by (auto split: if_splits)
qed

lemma setenv_main_cases:
  assumes m: "env_models (env_data s) es" and arg: "argv_at argv 1 = Some name" and name: "wf_name name"
    and args: "wf_args argv" and run: "setenv_main cfg argv s = Some (r, s')"
  shows "length (env_data s') = length (env_data s) \<and>
    (r = 1 \<and> env_data s' = env_data s \<and> env_crc s' = env_crc s \<or>
     r = 1 \<and> env_models (env_data s') (drop_var name es) \<and> env_crc s' = env_crc s \<or>
     r = 0 \<and> env_models (env_data s') (drop_var name es) \<and> env_crc_ok s' \<and> (length argv < 3 \<or> argv_at argv 2 = None) \<or>
     r = 0 \<and> env_models (env_data s') (drop_var name es @ [(name, setenv_text argv)]) \<and> env_crc_ok s' \<and>
       \<not> (length argv < 3 \<or> argv_at argv 2 = None))"
proof -
  obtain oldval env nxt go s1
    where search: "env_search (env_data s) name 0 0 None = Some (oldval, env, nxt)"
      and repl: "(if oldval \<noteq> None then setenv_replace cfg name argv env nxt s else Some (True, s)) = Some (go, s1)"
      and rest: "(if \<not> go then Some (1, s1)
          else if length argv < 3 \<or> argv_at argv 2 = None then Some (0, env_crc_update s1)
          else do { vals \<leftarrow> those (drop 2 argv); setenv_append name vals s1 }) = Some (r, s')"
    using run arg by (auto simp: setenv_main_def bind_eq_Some_conv)
  note ph = setenv_search_phase [OF m name search repl]
  consider "\<not> go" | "go" "length argv < 3 \<or> argv_at argv 2 = None" | "go" "\<not> (length argv < 3 \<or> argv_at argv 2 = None)"
    by (cases go) auto
  then show ?thesis
  proof cases
    case 1
    with ph rest show ?thesis by auto
  next
    case 2
    with ph rest show ?thesis by (auto simp: env_crc_update_def env_crc_ok_def)
  next
    case 3
    then obtain vals where vals: "those (drop 2 argv) = Some vals" and app: "setenv_append name vals s1 = Some (r, s')"
      using rest by (auto simp: bind_eq_Some_conv)
    have "drop 2 argv = map Some vals" using vals by (rule those_SomeD)
    moreover have "drop 2 argv \<noteq> []" using 3 by simp
    ultimately obtain v1 vs where vs: "vals = v1 # vs" and argv: "drop 2 argv = map Some (v1 # vs)"
      by (cases vals) auto
    have nz: "\<forall>v \<in> set (v1 # vs). 0 \<notin> set v"
      using args in_set_dropD [of _ 2 argv] argv by (auto simp: wf_args_def)
    have joined: "setenv_text argv = v1 @ args_text (ch CHR '' '') vs"
      using vals by (simp add: setenv_text_def vs)
    show ?thesis
      using setenv_append_models [OF _ name nz, of s1 "drop_var name es"] ph 3 app
      by (auto simp: vs joined env_crc_update_def env_crc_ok_def split: if_splits)
  qed
qed

lemma distinct_drop_var:
  "distinct (map fst es) \<Longrightarrow> distinct (map fst (drop_var n es)) \<and> n \<notin> fst ` set (drop_var n es)"
proof (induction es)
  case (Cons e es)
  have "fst ` set (drop_var n es) \<subseteq> fst ` set es"
    by (induction es) auto
  with Cons show ?case by (cases "fst e = n") auto
qed simp

lemma map_of_drop_var: "n' \<noteq> n \<Longrightarrow> map_of (drop_var n es) n' = map_of es n'"
  by (induction es) (auto split: if_splits)

lemma map_of_drop_var_same: "distinct (map fst es) \<Longrightarrow> map_of (drop_var n es) n = None"
  using distinct_drop_var by (simp add: map_of_eq_None_iff)

text \<open>The value \<open>getenv\<close> finds, as the string it points to.\<close>

definition env_lookup :: "byte list \<Rightarrow> byte list \<Rightarrow> byte list option" where
  "env_lookup d name = (case getenv d name of Some (Some i) \<Rightarrow> Some (env_string d i) | _ \<Rightarrow> None)"

lemma getenv_models:
  assumes "env_models d es" and "wf_name name"
  shows "\<exists>r. getenv d name = Some r \<and> map_option (env_string d) r = map_of es name \<and>
    (\<forall>i. r = Some i \<longrightarrow> (\<exists>p q. d = p @ the (map_of es name) @ 0 # q \<and> length p = i))"
proof -
  obtain pad where d: "d = env_bytes es @ 0 # pad" using assms(1) by (rule env_models_bytes)
  show ?thesis
    using getenv_loop_models [of es name d "[]" pad] assms d by (simp add: getenv_def env_models_def)
qed

lemma env_lookup_models: "env_models d es \<Longrightarrow> wf_name name \<Longrightarrow> env_lookup d name = map_of es name"
  using getenv_models [of d es name] by (auto simp: env_lookup_def split: option.splits)

lemma map_of_set_var:
  "distinct (map fst es) \<Longrightarrow>
   map_of (drop_var n es @ [(n, v)]) k = (if k = n then Some v else map_of es k)"
  by (auto simp: map_add_def map_of_drop_var map_of_drop_var_same split: option.splits)

lemma distinct_set_var: "distinct (map fst es) \<Longrightarrow> distinct (map fst (drop_var n es @ [(n, v)]))"
  using distinct_drop_var [of es n] by auto

text \<open>A well-formed environment: distinct names, terminated by two NULs.\<close>

definition env_wf :: "env_state \<Rightarrow> bool" where
  "env_wf s \<longleftrightarrow> (\<exists>es. env_models (env_data s) es \<and> distinct (map fst es))"

text \<open>Setting through \<open>setenv\<close> as a state transformer, and when it reports success.\<close>

definition setenv_state :: "env_config \<Rightarrow> byte list \<Rightarrow> byte list \<Rightarrow> env_state \<Rightarrow> env_state" where
  "setenv_state cfg name v s = (case setenv cfg name (Some v) s of Some (r, s') \<Rightarrow> s' | None \<Rightarrow> s)"

definition setenv_ok :: "env_config \<Rightarrow> byte list \<Rightarrow> byte list \<Rightarrow> env_state \<Rightarrow> bool" where
  "setenv_ok cfg name v s \<longleftrightarrow> wf_name name \<and> 0 \<notin> set v \<and>
     (case setenv cfg name (Some v) s of Some (r, _) \<Rightarrow> r = 0 | None \<Rightarrow> False)"

lemma setenv_ok_models:
  assumes "env_models (env_data s) es" and "setenv_ok cfg name v s"
  shows "env_models (env_data (setenv_state cfg name v s)) (drop_var name es @ [(name, v)]) \<and>
    env_crc_ok (setenv_state cfg name v s)"
proof -
  let ?argv = "[Some (str ''setenv''), Some name, Some v]"
  have "0 \<notin> set (str ''setenv'')" by simp
  then have "wf_args ?argv" using assms(2) by (auto simp: wf_args_def setenv_ok_def wf_name_def)
  moreover have "argv_at ?argv 1 = Some name" "argv_at ?argv 2 = Some v" "setenv_text ?argv = v"
    by (simp_all add: argv_at_def setenv_text_def)
  ultimately show ?thesis using assms setenv_main_cases [OF assms(1), of ?argv name cfg]
    by (fastforce simp: setenv_ok_def setenv_state_def setenv_def split: option.splits prod.splits)
qed

section \<open>The environment as a store\<close>

text \<open>
  What the rest of the program relies on: after a successful store the value is found
  under its name and every other name is found as before.
\<close>

fun run_updates :: "('k \<Rightarrow> 'v \<Rightarrow> 's \<Rightarrow> 's) \<Rightarrow> ('k \<times> 'v) list \<Rightarrow> 's \<Rightarrow> 's" where
  "run_updates upd [] s = s"
| "run_updates upd (kv # kvs) s = run_updates upd kvs (upd (fst kv) (snd kv) s)"

fun run_ok :: "('k \<Rightarrow> 'v \<Rightarrow> 's \<Rightarrow> bool) \<Rightarrow> ('k \<Rightarrow> 'v \<Rightarrow> 's \<Rightarrow> 's) \<Rightarrow> ('k \<times> 'v) list \<Rightarrow> 's \<Rightarrow> bool" where
  "run_ok ok upd [] s \<longleftrightarrow> True"
| "run_ok ok upd (kv # kvs) s \<longleftrightarrow> ok (fst kv) (snd kv) s \<and> run_ok ok upd kvs (upd (fst kv) (snd kv) s)"

locale var_store =
  fixes inv :: "'s \<Rightarrow> bool"
    and key :: "'k \<Rightarrow> bool"
    and ok :: "'k \<Rightarrow> 'v \<Rightarrow> 's \<Rightarrow> bool"
    and upd :: "'k \<Rightarrow> 'v \<Rightarrow> 's \<Rightarrow> 's"
    and lookup :: "'s \<Rightarrow> 'k \<Rightarrow> 'v option"
  assumes inv_upd: "inv s \<Longrightarrow> ok k v s \<Longrightarrow> inv (upd k v s)"
    and lookup_upd: "inv s \<Longrightarrow> ok k v s \<Longrightarrow> key k' \<Longrightarrow>
      lookup (upd k v s) k' = (if k' = k then Some v else lookup s k')"
begin

lemma inv_run: "inv s \<Longrightarrow> run_ok ok upd kvs s \<Longrightarrow> inv (run_updates upd kvs s)"
  by (induction kvs arbitrary: s) (auto simp: inv_upd)

lemma lookup_run:
  "inv s \<Longrightarrow> run_ok ok upd kvs s \<Longrightarrow> key k \<Longrightarrow>
   lookup (run_updates upd kvs s) k = (case map_of (rev kvs) k of Some v \<Rightarrow> Some v | None \<Rightarrow> lookup s k)"
proof (induction kvs arbitrary: s)
  case (Cons kv kvs)
  then show ?case
    by (cases kv) (auto simp: inv_upd lookup_upd map_of_append map_add_def split: option.splits)
qed simp

end

interpretation env: var_store env_wf wf_name "setenv_ok cfg" "setenv_state cfg" "\<lambda>s. env_lookup (env_data s)"
  for cfg
proof unfold_locales
  fix s k v
  assume "env_wf s" and ok: "setenv_ok cfg k v s"
  then obtain es where es: "env_models (env_data s) es" "distinct (map fst es)" by (auto simp: env_wf_def)
  note m = setenv_ok_models [OF es(1) ok, THEN conjunct1]
  show "env_wf (setenv_state cfg k v s)"
    using m distinct_set_var [OF es(2)] by (auto simp: env_wf_def)
  fix k' assume "wf_name k'"
  then show "env_lookup (env_data (setenv_state cfg k v s)) k' = (if k' = k then Some v else env_lookup (env_data s) k')"
    using es m by (simp add: env_lookup_models [OF m] env_lookup_models [OF es(1)] map_of_set_var del: map_of_append)
qed

section \<open>Copying a value out\<close>

lemma getenv_copy_value:
  assumes "0 \<notin> set v" and "n \<le> len"
  shows "getenv_copy (pre @ v @ 0 # rest) (length pre) n len out =
    Some (if len - n > length v then (n + length v + 1, out @ v @ [0]) else (len + 1, out @ take (len - n) v))"
  using assms
proof (induction v arbitrary: pre n out)
  case Nil
  then show ?case by (subst getenv_copy.simps) (simp add: env_get_char_def)
next
  case (Cons c v)
  show ?case
  proof (cases "n < len")
    case False
    with Cons.prems show ?thesis by (subst getenv_copy.simps) simp
  next
    case True
    then have "take (len - n) (c # v) = c # take (len - Suc n) v"
      by (cases "len - n") (simp_all add: Suc_diff_Suc [symmetric])
    with True Cons.IH [of "n + 1" "pre @ [c]" "out @ [c]"] Cons.prems show ?thesis
      by (subst getenv_copy.simps) (auto simp: env_get_char_def)
  qed
qed

lemma getenv_r_loop_getenv:
  "getenv_r_loop d name len i =
     do { r \<leftarrow> getenv_loop d name i;
          case r of None \<Rightarrow> Some (-1, [])
          | Some v \<Rightarrow> do { (n, out) \<leftarrow> getenv_copy d v 0 len [];
                           Some (int n, if len = n then out @ [0] else out) } }"
proof (induction d name i rule: getenv_loop.induct)
  case (1 d name i)
  show ?case
  proof (cases "env_get_char d i")
    case None
    then show ?thesis by (subst getenv_loop.simps, subst getenv_r_loop.simps) (simp del: env_get_char_Some)
  next
    case (Some c)
    note c = this
    show ?thesis
    proof (cases "c = 0")
      case True
      with c show ?thesis by (subst getenv_loop.simps, subst getenv_r_loop.simps) (simp del: env_get_char_Some)
    next
      case False
      note c0 = this
      show ?thesis
      proof (cases "env_scan d i")
        case None
        with c c0 show ?thesis by (subst getenv_loop.simps, subst getenv_r_loop.simps) (simp del: env_get_char_Some)
      next
        case (Some scan)
        note sc = this
        show ?thesis
        proof (cases scan)
          case None
          with c c0 sc show ?thesis by (subst getenv_loop.simps, subst getenv_r_loop.simps) (simp del: env_get_char_Some)
        next
          case (Some nxt)
          note nx = this
          show ?thesis
          proof (cases "envmatch d name i = Some None")
            case True
            with 1 [OF c c0 sc nx True] c c0 sc nx show ?thesis
              by (subst getenv_loop.simps, subst getenv_r_loop.simps) (simp del: env_get_char_Some)
          next
            case False
            with c c0 sc nx show ?thesis
              by (subst getenv_loop.simps, subst getenv_r_loop.simps)
                (cases "envmatch d name i"; auto simp del: env_get_char_Some split: option.splits)
          qed
        qed
      qed
    qed
  qed
qed

lemma env_wf_lookup:
  assumes "env_models d es" and "wf_name name" and "map_of es name = Some v"
  shows "0 \<notin> set v"
proof -
  have "(name, v) \<in> set es" using assms(3) by (rule map_of_SomeD)
  moreover have "list_all wf_var es" using assms(1) by (simp add: env_models_def)
  ultimately show ?thesis by (force simp: list_all_iff wf_var_def)
qed

lemma getenv_r_models:
  assumes m: "env_models d es" and name: "wf_name name"
  shows "getenv_r d name len = Some (case map_of es name of
      None \<Rightarrow> (-1, [])
    | Some v \<Rightarrow> (if length v + 1 < len then (int (length v + 1), v @ [0])
                else if len = length v + 1 then (int len, v @ [0, 0])
                else (int (len + 1), take len v)))"
proof -
  obtain r where r: "getenv d name = Some r" "map_option (env_string d) r = map_of es name"
    "\<forall>i. r = Some i \<longrightarrow> (\<exists>p q. d = p @ the (map_of es name) @ 0 # q \<and> length p = i)"
    using getenv_models [OF m name] by blast
  show ?thesis
  proof (cases r)
    case None
    with r show ?thesis by (simp add: getenv_r_def getenv_r_loop_getenv getenv_def)
  next
    case (Some i)
    with r(2) obtain v where v: "map_of es name = Some v" by (cases "map_of es name") simp_all
    then obtain p q where d: "d = p @ v @ 0 # q" "length p = i" using r(3) Some by auto
    have "0 \<notin> set v" using env_wf_lookup [OF m name v] .
    from getenv_copy_value [OF this, of 0 len p q "[]"] d
    show ?thesis using r(1) Some v by (auto simp: getenv_r_def getenv_r_loop_getenv getenv_def)
  qed
qed

section \<open>Printing\<close>

lemma map_nth_between: "map ((!) (pre @ xs @ ys)) [length pre..<length pre + length xs] = xs"
  by (rule nth_equalityI) (simp_all add: nth_append)

lemma printenv_all_models:
  assumes "list_all wf_var es" and d: "d = pre @ env_bytes es @ 0 # rest"
  shows "printenv_all d (length pre) [] out =
    Some (False, length pre + length (env_bytes es), out @ concat (map (\<lambda>e. entry e @ [10]) es))"
  using assms
proof (induction es arbitrary: pre out)
  case Nil
  then show ?case by (subst printenv_all.simps) (simp add: env_get_char_def)
next
  case (Cons e es)
  have wf: "wf_var e" using Cons.prems by simp
  have d: "d = pre @ entry e @ 0 # (env_bytes es @ 0 # rest)" using Cons.prems by simp
  have "env_get_char d (length pre) = Some (hd (entry e))" and "hd (entry e) \<noteq> 0"
    using wf_entry [OF wf] by (cases "entry e"; simp add: d env_get_char_def)+
  then have "printenv_all d (length pre) [] out =
      printenv_all d (length (pre @ entry e @ [0])) [] (out @ entry e @ [10])"
    using env_nul_entry [OF wf_entry [OF wf], of pre "env_bytes es @ 0 # rest", folded d]
      map_nth_between [of pre "entry e" "0 # env_bytes es @ 0 # rest", folded d]
    by (subst printenv_all.simps) (simp del: env_get_char_Some)
  with Cons.IH [of "pre @ entry e @ [0]" "out @ entry e @ [10]"] Cons.prems show ?case by simp
qed

section \<open>Properties\<close>

text \<open>
  C15: \<open>getenv\<close> after any sequence of successful \<open>setenv\<close> calls: a name that was set finds the
  value of the last call for it, every other name what it found before; a lookup never
  leaves the data area.
\<close>

theorem setenv_sequence:
  assumes "env_wf s" and "run_ok (setenv_ok cfg) (setenv_state cfg) kvs s" and "wf_name name"
  shows "env_lookup (env_data (run_updates (setenv_state cfg) kvs s)) name =
    (case map_of (rev kvs) name of Some v \<Rightarrow> Some v | None \<Rightarrow> env_lookup (env_data s) name)"
  using assms by (rule env.lookup_run)

definition env_example :: env_state where
  "env_example = \<lparr>env_data = str ''a=1'' @ replicate 9 0, env_crc = 0,
     gd_baudrate = 0, bi_enetaddr = [], bi_ip_addr = 0, load_addr = 0, BootFile = [],
     stdio_devices = [], con_in = []\<rparr>"

definition cfg_example :: env_config where
  "cfg_example = \<lparr>cfg_overwrite = False, baudrate_table = [9600], devlist = []\<rparr>"

lemma env_example_models: "env_models (env_data env_example) [(str ''a'', str ''1'')]"
proof -
  have "env_data env_example = env_body [(str ''a'', str ''1'')] @ 0 # 0 # replicate 7 0"
    by code_simp
  then show ?thesis by (auto simp: env_models_def wf_var_def wf_name_def)
qed

lemma env_example_wf: "env_wf env_example"
  using env_example_models by (auto simp: env_wf_def)

theorem setenv_sequence_witness:
  "env_lookup (env_data (run_updates (setenv_state cfg_example)
      [(str ''c'', []), (str ''a'', str ''xyz'')] env_example)) (str ''a'') = Some (str ''xyz'')"
proof -
  have "run_ok (setenv_ok cfg_example) (setenv_state cfg_example)
      [(str ''c'', []), (str ''a'', str ''xyz'')] env_example"
    by code_simp
  from setenv_sequence [OF env_example_wf this, of "str ''a''"] show ?thesis
    by (simp add: wf_name_def)
qed

text \<open>A call that has room for the new value.\<close>

lemma setenv_room:
  assumes "env_models (env_data s) es" and "wf_name name" and "plain_name name" and "0 \<notin> set v"
    and "length (env_bytes (drop_var name es)) + length name + length v + 3 \<le> length (env_data s)"
  shows "\<exists>s'. setenv cfg name (Some v) s = Some (0, s') \<and>
     env_models (env_data s') (drop_var name es @ [(name, v)]) \<and>
     env_crc s' = crc32 0 (Some (env_data s')) \<and> length (env_data s') = length (env_data s)"
proof -
  obtain s1 old env nxt where search: "env_search (env_data s) name 0 0 None = Some (old, env, nxt)"
    and repl: "(if old \<noteq> None then setenv_replace cfg name [Some (str ''setenv''), Some name, Some v] env nxt s
         else Some (True, s)) = Some (True, s1)"
    using env_search_models [OF assms(1,2)] setenv_replace_plain [OF assms(3), of cfg _ _ _ s]
    by fastforce
  have s1: "env_models (env_data s1) (drop_var name es)" "length (env_data s1) = length (env_data s)"
    using setenv_search_phase [OF assms(1,2) search repl] by auto
  have "args_length name [v] = length name + length v + 3" by (simp add: args_length_def)
  then show ?thesis
    using setenv_append_models [OF s1(1) assms(2), of v "[]"] search repl s1(2) assms(4,5)
    by (auto simp: setenv_def setenv_main_def argv_at_def env_crc_update_def)
qed

text \<open>
  C17: \<open>setenv\<close> succeeds and does what it should: for a name without side effects and a value
  that fits behind what is left when the old value is gone, the call returns 0, the data
  area holds the other variables in their order followed by the new one, and the CRC is the
  one of the new data.
\<close>

theorem setenv_succeeds:
  assumes "env_models (env_data s) es" and "wf_name name" and "plain_name name" and "0 \<notin> set v"
    and "length (env_bytes (drop_var name es)) + length name + length v + 3 \<le> length (env_data s)"
  shows "\<exists>s'. setenv cfg name (Some v) s = Some (0, s') \<and>
     env_models (env_data s') (drop_var name es @ [(name, v)]) \<and>
     env_crc s' = crc32 0 (Some (env_data s'))"
  using setenv_room [OF assms] by blast

theorem setenv_succeeds_witness:
  "\<exists>s'. setenv cfg_example (str ''a'') (Some (str ''567'')) env_example = Some (0, s') \<and>
     env_models (env_data s') [(str ''a'', str ''567'')] \<and> env_crc s' = crc32 0 (Some (env_data s'))"
  using setenv_succeeds [OF env_example_models, of "str ''a''" "str ''567''" cfg_example]
  by (simp add: wf_name_def plain_name_def env_example_def)

text \<open>
  C18: \<open>_do_setenv\<close> keeps the environment well formed (distinct names, every entry a
  \<^verbatim>\<open>name=value\<close>, a double NUL at the end, the size unchanged) on every path, for any number
  of arguments and whatever it returns, provided the name contains no \<^verbatim>\<open>=\<close>.
\<close>

theorem setenv_keeps_wf:
  assumes "env_wf s" and "argv_at argv 1 = Some name" and "wf_name name" and "wf_args argv"
    and "setenv_main cfg argv s = Some (r, s')"
  shows "env_wf s' \<and> length (env_data s') = length (env_data s)"
proof -
  obtain es where es: "env_models (env_data s) es" "distinct (map fst es)"
    using assms(1) by (auto simp: env_wf_def)
  note c = setenv_main_cases [OF es(1) assms(2-5)]
  then have "\<exists>es'. env_models (env_data s') es' \<and>
      es' \<in> {es, drop_var name es, drop_var name es @ [(name, setenv_text argv)]}"
    using es(1) by auto
  with c es(2) distinct_drop_var [OF es(2)] distinct_set_var [OF es(2)] show ?thesis
    by (auto simp: env_wf_def)
qed

theorem setenv_keeps_wf_witness:
  "env_wf (setenv_state cfg_example (str ''b'') (str ''2'') env_example) \<and>
   length (env_data (setenv_state cfg_example (str ''b'') (str ''2'') env_example)) = 12"
proof -
  let ?argv = "[Some (str ''setenv''), Some (str ''b''), Some (str ''2'')]"
  obtain r s' where run: "setenv_main cfg_example ?argv env_example = Some (r, s')"
    and st: "setenv_state cfg_example (str ''b'') (str ''2'') env_example = s'"
    using setenv_room [OF env_example_models, of "str ''b''" "str ''2''" cfg_example]
    by (auto simp: setenv_state_def setenv_def wf_name_def plain_name_def env_example_def entry_def)
  have "wf_args ?argv" by (auto simp: wf_args_def)
  moreover have "length (env_data env_example) = 12" by (simp add: env_example_def)
  ultimately show ?thesis
    unfolding st using setenv_keeps_wf [OF env_example_wf _ _ _ run, of "str ''b''"]
    by (simp add: wf_name_def argv_at_def)
qed

text \<open>
  C40: when the new value does not fit, the old one is already gone and the CRC is not
  updated: \<open>setenv\<close> returns 1, the variable is deleted from the data area, and the CRC stored
  beside it is still the one of the old data.
\<close>

theorem setenv_overflow_stale_crc:
  assumes "env_models (env_data s) es" and "wf_name name" and "plain_name name" and "0 \<notin> set v"
    and "length (env_bytes (drop_var name es)) + length name + length v + 3 > length (env_data s)"
  shows "\<exists>s'. setenv cfg name (Some v) s = Some (1, s') \<and>
     env_models (env_data s') (drop_var name es) \<and> env_crc s' = env_crc s"
proof -
  obtain s1 old env nxt where search: "env_search (env_data s) name 0 0 None = Some (old, env, nxt)"
    and repl: "(if old \<noteq> None then setenv_replace cfg name [Some (str ''setenv''), Some name, Some v] env nxt s
         else Some (True, s)) = Some (True, s1)"
    using env_search_models [OF assms(1,2)] setenv_replace_plain [OF assms(3), of cfg _ _ _ s]
    by fastforce
  have s1: "env_models (env_data s1) (drop_var name es)" "length (env_data s1) = length (env_data s)"
    "env_crc s1 = env_crc s"
    using setenv_search_phase [OF assms(1,2) search repl] by auto
  have "args_length name [v] = length name + length v + 3" by (simp add: args_length_def)
  then show ?thesis
    using setenv_append_models [OF s1(1) assms(2), of v "[]"] search repl s1 assms(4,5)
    by (auto simp: setenv_def setenv_main_def argv_at_def)
qed

theorem setenv_overflow_stale_crc_witness:
  "\<exists>s'. setenv cfg_example (str ''a'') (Some (str ''123456789'')) env_example = Some (1, s') \<and>
     env_models (env_data s') [] \<and> env_crc s' = env_crc env_example"
  using setenv_overflow_stale_crc [OF env_example_models, of "str ''a''" "str ''123456789''" cfg_example]
  by (simp add: wf_name_def plain_name_def env_example_def)

text \<open>
  what \<open>getenv_r\<close> stores and returns, for every buffer length. A value shorter than the
  buffer is copied with its NUL. When value and NUL fill the buffer exactly, a second NUL is
  stored one byte behind it; when the value does not fit, the buffer is left without NUL
  and the result is \<^verbatim>\<open>len + 1\<close>.
\<close>

theorem getenv_r_stores:
  assumes "env_models d es" and "wf_name name"
  shows "getenv_r d name len = Some (case map_of es name of
      None \<Rightarrow> (-1, [])
    | Some v \<Rightarrow> (if length v + 1 < len then (int (length v + 1), v @ [0])
                else if len = length v + 1 then (int len, v @ [0, 0])
                else (int (len + 1), take len v)))"
  using assms by (rule getenv_r_models)

theorem getenv_r_stores_witness:
  "getenv_r (env_data env_example) (str ''a'') 2 = Some (2, str ''1'' @ [0, 0])"
  using getenv_r_stores [OF env_example_models, of "str ''a''" 2] by (simp add: wf_name_def)

text \<open>
  \<open>printenv\<close> without arguments and without interruption prints the variables in order,
  one \<^verbatim>\<open>name=value\<close> per line, then the number of bytes they use and the size of the area.
\<close>

theorem printenv_lists:
  assumes "env_models d es"
  shows "do_printenv d [str ''printenv''] [] =
    do { size_line \<leftarrow> sprintf ([10] @ str ''Environment size: %d/%d bytes'' @ [10])
           [VaWord (of_nat (length (env_bytes es))), VaWord (of_nat (length d))];
         Some (0, concat (map (\<lambda>e. fst e @ [ch CHR ''=''] @ snd e @ [10]) es) @ size_line) }"
proof -
  obtain pad where d: "d = env_bytes es @ 0 # pad" using assms by (rule env_models_bytes)
  show ?thesis
    using printenv_all_models [of es d "[]" pad "[]"] assms d
    by (simp add: do_printenv_def env_models_def entry_def)
qed

theorem printenv_lists_witness:
  "do_printenv (env_data env_example) [str ''printenv''] [] =
    Some (0, str ''a=1'' @ [10, 10] @ str ''Environment size: 4/12 bytes'' @ [10])"
proof -
  have "sprintf ([10] @ str ''Environment size: %d/%d bytes'' @ [10]) [VaWord 4, VaWord 12] =
      Some ([10] @ str ''Environment size: 4/12 bytes'' @ [10])" by code_simp
  then show ?thesis
    using printenv_lists [OF env_example_models]
    by (simp add: env_example_def entry_def)
qed

text \<open>
  Deleting \<^verbatim>\<open>baudrate\<close> (\<^verbatim>\<open>setenv baudrate\<close> without a value) parses a null pointer: the
  code reads \<^verbatim>\<open>argv[2]\<close> before it looks at \<^verbatim>\<open>argc\<close>.
\<close>

theorem setenv_delete_baudrate:
  assumes "env_models (env_data s) es" and "str ''baudrate'' \<in> fst ` set es"
  shows "do_setenv cfg [Some (str ''setenv''), Some (str ''baudrate'')] s = None"
  using env_search_models [OF assms(1), of "str ''baudrate''"] assms(2)
  by (auto simp: wf_name_def do_setenv_def setenv_main_def argv_at_def setenv_replace_def
      setenv_console_def setenv_baudrate_def)

theorem setenv_delete_baudrate_witness:
  "do_setenv cfg_example [Some (str ''setenv''), Some (str ''baudrate'')]
     (env_example\<lparr>env_data := str ''baudrate=9600'' @ [0, 0]\<rparr>) = None"
proof (rule setenv_delete_baudrate)
  show "env_models (env_data (env_example\<lparr>env_data := str ''baudrate=9600'' @ [0, 0]\<rparr>))
      [(str ''baudrate'', str ''9600'')]"
    by (auto simp: env_models_def wf_var_def wf_name_def entry_def)
qed simp

end
