(* ===== verification/LineEdit.thy ===== *)
theory LineEdit
  imports Vsprintf
begin

text \<open>
  Console input of \<^verbatim>\<open>common/main.c\<close>: the line editor \<open>readline\<close> with \<open>delete_char\<close>, and the two
  versions of \<open>abortboot\<close>. Keys are given as the list of what \<^verbatim>\<open>getc\<close> will return; where it is
  exhausted the code waits for ever and the result is \<open>None\<close>.
\<close>

section \<open>The line editor\<close>

definition erase_seq :: "byte list" where "erase_seq = [8, 32, 8]"
definition tab_seq :: "byte list" where "tab_seq = replicate 8 32"

text \<open>
  \<open>rl_buf\<close> is \<^verbatim>\<open>console_buffer\<close> up to \<^verbatim>\<open>p\<close>, \<open>rl_n\<close> the index \<^verbatim>\<open>n\<close>, \<open>rl_col\<close> the output column and
  \<open>rl_out\<close> all that was printed.
\<close>

record rl_state =
  rl_buf :: "byte list"
  rl_n :: nat
  rl_col :: int
  rl_out :: "byte list"

text \<open>\<^verbatim>\<open>while (col > plen) { puts (erase_seq); --col; }\<close>\<close>

definition erase_to :: "int \<Rightarrow> rl_state \<Rightarrow> rl_state" where
  "erase_to plen s =
     s\<lparr>rl_out := rl_out s @ concat (replicate (nat (rl_col s - plen)) erase_seq),
       rl_col := min (rl_col s) plen\<rparr>"

text \<open>Output of one character at a column: a tab goes to the next multiple of eight.\<close>

definition type_char :: "byte \<Rightarrow> rl_state \<Rightarrow> rl_state" where
  "type_char c s =
     (if c = 9 then s\<lparr>rl_out := rl_out s @ drop (nat (rl_col s mod 8)) tab_seq,
                      rl_col := rl_col s + (8 - rl_col s mod 8)\<rparr>
      else s\<lparr>rl_col := rl_col s + 1, rl_out := rl_out s @ [c]\<rparr>)"

definition delete_char :: "int \<Rightarrow> rl_state \<Rightarrow> rl_state" where
  "delete_char plen s =
     (if rl_n s = 0 then s
      else
        let c = last (rl_buf s);
            s = s\<lparr>rl_buf := butlast (rl_buf s)\<rparr>;
            s = (if c = 9 then fold type_char (rl_buf s) (erase_to plen s)
                 else s\<lparr>rl_out := rl_out s @ erase_seq, rl_col := rl_col s - 1\<rparr>)
        in s\<lparr>rl_n := rl_n s - 1\<rparr>)"

lemma type_char_n [simp]: "rl_n (type_char c s) = rl_n s" "rl_buf (type_char c s) = rl_buf s"
  by (simp_all add: type_char_def)

lemma fold_type_char_n [simp]:
  "rl_n (fold type_char cs s) = rl_n s" "rl_buf (fold type_char cs s) = rl_buf s"
  by (induction cs arbitrary: s) simp_all

lemma delete_char_n [simp]: "rl_n (delete_char plen s) = rl_n s - 1"
  by (simp add: delete_char_def Let_def erase_to_def)

text \<open>
  \<^verbatim>\<open>^W\<close>: after a deletion \<^verbatim>\<open>*p\<close> is the character just deleted, so the loop goes on until it has
  deleted a blank.
\<close>

function erase_word :: "int \<Rightarrow> rl_state \<Rightarrow> rl_state" where
  "erase_word plen s =
     (let s' = delete_char plen s
      in if rl_n s' > 0 \<and> last (rl_buf s) \<noteq> 32 then erase_word plen s' else s')"
  by pat_completeness auto
termination by (relation "measure (\<lambda>(plen, s). rl_n s)") auto

declare erase_word.simps [simp del]

text \<open>
  \<open>readline\<close>: the value returned (length, -1 for a break, -2 for a time-out) and the final
  state. An input \<open>None\<close> is the expiry of the command time-out of \<^verbatim>\<open>CONFIG_BOOT_RETRY_TIME\<close>.
  \<open>cbsize\<close> is \<^verbatim>\<open>CFG_CBSIZE\<close>.
\<close>

fun readline_loop :: "nat \<Rightarrow> int \<Rightarrow> rl_state \<Rightarrow> byte option list \<Rightarrow> (int \<times> rl_state \<times> byte option list) option" where
  "readline_loop cbsize plen s [] = None"
| "readline_loop cbsize plen s (None # input) = Some (-2, s, input)"
| "readline_loop cbsize plen s (Some c # input) =
     (if c = 13 \<or> c = 10 then
        Some (int (length (rl_buf s)), s\<lparr>rl_out := rl_out s @ [13, 10]\<rparr>, input)
      else if c = 3 then Some (-1, s\<lparr>rl_buf := []\<rparr>, input)
      else if c = 0x15 then readline_loop cbsize plen ((erase_to plen s)\<lparr>rl_buf := [], rl_n := 0\<rparr>) input
      else if c = 0x17 then readline_loop cbsize plen (erase_word plen s) input
      else if c = 8 \<or> c = 0x7f then readline_loop cbsize plen (delete_char plen s) input
      else if int (rl_n s) < int cbsize - 2 then
        (let s = type_char c s
         in readline_loop cbsize plen (s\<lparr>rl_buf := rl_buf s @ [c], rl_n := rl_n s + 1\<rparr>) input)
      else readline_loop cbsize plen (s\<lparr>rl_out := rl_out s @ [7]\<rparr>) input)"

definition readline :: "nat \<Rightarrow> byte list option \<Rightarrow> byte option list \<Rightarrow> (int \<times> rl_state \<times> byte option list) option" where
  "readline cbsize prompt input =
     (let p = (case prompt of None \<Rightarrow> [] | Some p \<Rightarrow> p); plen = int (length p)
      in readline_loop cbsize plen \<lparr>rl_buf = [], rl_n = 0, rl_col = plen, rl_out = p\<rparr> input)"

section \<open>Stopping the automatic boot\<close>

text \<open>
  The plain version: \<open>tstc\<close> are the answers of the polls, in order; a poll beyond them finds no
  key. One second is a hundred polls. The result is \<^verbatim>\<open>abort\<close> and the answers left.
\<close>

fun poll_key :: "nat \<Rightarrow> bool list \<Rightarrow> bool \<times> bool list" where
  "poll_key 0 tstc = (False, tstc)"
| "poll_key (Suc i) [] = (False, [])"
| "poll_key (Suc i) (b # tstc) = (if b then (True, tstc) else poll_key i tstc)"

fun abort_wait :: "nat \<Rightarrow> bool list \<Rightarrow> bool \<times> bool list" where
  "abort_wait 0 tstc = (False, tstc)"
| "abort_wait (Suc bootdelay) tstc =
     (let (key, tstc) = poll_key 100 tstc in if key then (True, tstc) else abort_wait bootdelay tstc)"

definition abortboot :: "bool \<Rightarrow> int \<Rightarrow> bool list \<Rightarrow> bool \<times> bool list" where
  "abortboot zero_check bootdelay tstc =
     (if zero_check \<and> bootdelay \<ge> 0 then
        (let (key, tstc) = poll_key 1 tstc
         in if key then (True, tstc) else abort_wait (nat bootdelay) tstc)
      else abort_wait (nat bootdelay) tstc)"

text \<open>
  The keyed version. The four strings are those of the environment or, where it has none,
  of the configuration; \<open>None\<close> is a null string.
\<close>

definition MAX_DELAY_STOP_STR :: nat where "MAX_DELAY_STOP_STR = 32"

definition key_len :: "byte list option \<Rightarrow> nat" where
  "key_len k = (let len = (case k of None \<Rightarrow> 0 | Some s \<Rightarrow> length s)
                in if len > MAX_DELAY_STOP_STR then MAX_DELAY_STOP_STR else len)"

definition presskey_max :: "byte list option list \<Rightarrow> nat" where
  "presskey_max keys = foldl (\<lambda>m k. if m > key_len k then m else key_len k) 0 keys"

text \<open>\<^verbatim>\<open>memcmp (presskey + presskey_len - len, str, len) == 0\<close>\<close>

definition key_pressed :: "byte list \<Rightarrow> byte list option \<Rightarrow> bool" where
  "key_pressed presskey k =
     (case k of
        None \<Rightarrow> False
      | Some s \<Rightarrow> key_len k > 0 \<and> length presskey \<ge> key_len k \<and>
                 drop (length presskey - key_len k) presskey = take (key_len k) s)"

text \<open>
  One entry of the input per turn of the loop: the value of \<^verbatim>\<open>get_ticks()\<close> and the key that is
  waiting, if any. With \<^verbatim>\<open>presskey_max\<close> 0 the bound \<^verbatim>\<open>presskey_max - 1\<close> of the shifting loop wraps
  round to \<^verbatim>\<open>0xffffffff\<close> and the loop runs over all of memory: \<open>None\<close>. Input that ends before
  the time is over is \<open>None\<close> too.
\<close>

fun abortboot_keyed_loop ::
    "byte list option list \<Rightarrow> nat \<Rightarrow> byte list \<Rightarrow> (nat \<times> byte option) list \<Rightarrow> bool option" where
  "abortboot_keyed_loop keys etime presskey [] = None"
| "abortboot_keyed_loop keys etime presskey ((ticks, key) # input) =
     (if ticks > etime then Some False
      else
        let abort = (\<exists>k \<in> set keys. key_pressed presskey k);
            presskey' =
              (case key of
                 None \<Rightarrow> Some presskey
               | Some c \<Rightarrow>
                   if length presskey < presskey_max keys then Some (presskey @ [c])
                   else if presskey_max keys = 0 then None
                   else Some (tl presskey @ [c]))
        in case presskey' of
             None \<Rightarrow> None
           | Some presskey \<Rightarrow>
               if abort then Some True else abortboot_keyed_loop keys etime presskey input)"

definition abortboot_keyed :: "byte list option list \<Rightarrow> nat \<Rightarrow> (nat \<times> byte option) list \<Rightarrow> bool option" where
  "abortboot_keyed keys etime input = abortboot_keyed_loop keys etime [] input"

end
