(* ===== verification/LineEditCorrect.thy ===== *)
theory LineEditCorrect
  imports LineEdit "HOL-Library.Sublist"
begin

text \<open>
  Correctness of console input: the line editor against the editing operations on a line,
  the column it tracks, and when the two versions of \<open>abortboot\<close> stop the boot.
\<close>



section \<open>The editor\<close>

text \<open>The column after typing a text from a column on.\<close>

definition text_col :: "int \<Rightarrow> byte list \<Rightarrow> int" where
  "text_col col cs = foldl (\<lambda>col c. if c = 9 then col + (8 - col mod 8) else col + 1) col cs"

definition rl_inv :: "int \<Rightarrow> rl_state \<Rightarrow> bool" where
  "rl_inv plen s \<longleftrightarrow> rl_n s = length (rl_buf s) \<and> rl_col s = text_col plen (rl_buf s)"

definition kill_word :: "byte list \<Rightarrow> byte list" where
  "kill_word buf = rev (tl (dropWhile (\<lambda>c. c \<noteq> 32) (rev buf)))"

text \<open>What one key does to the line.\<close>

definition edit :: "nat \<Rightarrow> byte list \<Rightarrow> byte \<Rightarrow> byte list" where
  "edit cbsize buf c =
     (if c = 0x15 then []
      else if c = 0x17 then kill_word buf
      else if c = 8 \<or> c = 0x7f then butlast buf
      else if length buf + 2 < cbsize then buf @ [c] else buf)"

lemma text_col_snoc: "text_col col (cs @ [c]) =
   (if c = 9 then text_col col cs + (8 - text_col col cs mod 8) else text_col col cs + 1)"
  by (simp add: text_col_def)

lemma text_col_ge: "col \<le> text_col col cs"
proof (induction cs rule: rev_induct)
  case (snoc c cs)
  obtain k where "text_col col cs mod 8 = k" "k < 8" by simp
  with snoc show ?case by (simp add: text_col_snoc)
qed (simp add: text_col_def)

lemma fold_type_char_col: "rl_col (fold type_char cs s) = text_col (rl_col s) cs"
  by (induction cs arbitrary: s) (simp_all add: text_col_def type_char_def)

lemma rl_inv_delete_char:
  assumes "rl_inv plen s"
  shows "rl_inv plen (delete_char plen s) \<and> rl_buf (delete_char plen s) = butlast (rl_buf s)"
proof (cases "rl_buf s" rule: rev_cases)
  case Nil
  with assms show ?thesis by (simp add: rl_inv_def delete_char_def)
next
  case (snoc bs c)
  have "plen \<le> rl_col s" using assms text_col_ge by (simp add: rl_inv_def)
  with assms snoc show ?thesis
    by (auto simp: rl_inv_def delete_char_def Let_def fold_type_char_col erase_to_def text_col_snoc)
qed

lemma kill_word_step:
  "buf \<noteq> [] \<Longrightarrow> kill_word buf = (if butlast buf \<noteq> [] \<and> last buf \<noteq> 32 then kill_word (butlast buf) else butlast buf)"
  by (cases buf rule: rev_cases) (auto simp: kill_word_def)

lemma rl_inv_erase_word:
  "rl_inv plen s \<Longrightarrow> rl_inv plen (erase_word plen s) \<and> rl_buf (erase_word plen s) = kill_word (rl_buf s)"
proof (induction plen s rule: erase_word.induct)
  case (1 plen s)
  note d = rl_inv_delete_char [OF 1(2)]
  show ?case
  proof (cases "rl_buf s = []")
    case True
    then have "rl_n s = 0" using 1(2) by (simp add: rl_inv_def)
    then show ?thesis using True 1(2)
      by (subst (1 2) erase_word.simps) (simp add: kill_word_def Let_def delete_char_def)
  next
    case False
    have n: "rl_n (delete_char plen s) = length (butlast (rl_buf s))" using d by (simp add: rl_inv_def)
    show ?thesis
    proof (cases "rl_n (delete_char plen s) > 0 \<and> last (rl_buf s) \<noteq> 32")
      case True
      then have "erase_word plen s = erase_word plen (delete_char plen s)"
        by (subst erase_word.simps) (simp add: Let_def)
      moreover have "kill_word (rl_buf s) = kill_word (butlast (rl_buf s))"
        using kill_word_step [OF False] True n by (metis list.size(3) less_numeral_extra(3))
      ultimately show ?thesis using 1(1) [OF refl True] d by simp
    next
      case stop: False
      then have "erase_word plen s = delete_char plen s"
        by (subst erase_word.simps) (auto simp: Let_def)
      moreover have "kill_word (rl_buf s) = butlast (rl_buf s)"
        using kill_word_step [OF False] stop n by (metis length_greater_0_conv)
      ultimately show ?thesis using d by simp
    qed
  qed
qed

lemma readline_loop_edit:
  assumes "rl_inv plen s" and "set keys \<inter> {3, 10, 13} = {}"
  shows "\<exists>s'. rl_inv plen s' \<and> rl_buf s' = foldl (edit cbsize) (rl_buf s) keys \<and>
    readline_loop cbsize plen s (map Some keys @ input) = readline_loop cbsize plen s' input"
  using assms
proof (induction keys arbitrary: s)
  case Nil
  then show ?case by auto
next
  case (Cons c keys)
  have "\<exists>s1. rl_inv plen s1 \<and> rl_buf s1 = edit cbsize (rl_buf s) c \<and>
    readline_loop cbsize plen s (map Some (c # keys) @ input) = readline_loop cbsize plen s1 (map Some keys @ input)"
  proof -
    have c: "c \<noteq> 13" "c \<noteq> 10" "c \<noteq> 3" using Cons.prems by auto
    have inv: "rl_inv plen s" by fact
    consider "c = 0x15" | "c = 0x17" | "c = 8 \<or> c = 0x7f"
      | "c \<notin> {0x15, 0x17, 8, 0x7f}" "length (rl_buf s) + 2 < cbsize"
      | "c \<notin> {0x15, 0x17, 8, 0x7f}" "\<not> length (rl_buf s) + 2 < cbsize" by blast
    then show ?thesis
    proof cases
      case 1
      have "rl_inv plen ((erase_to plen s)\<lparr>rl_buf := [], rl_n := 0\<rparr>)"
        using inv text_col_ge [of plen "rl_buf s"]
        by (simp add: rl_inv_def erase_to_def) (simp add: text_col_def)
      with 1 show ?thesis by (intro exI [of _ "(erase_to plen s)\<lparr>rl_buf := [], rl_n := 0\<rparr>"]) (simp add: edit_def)
    next
      case 2
      with rl_inv_erase_word [OF inv] show ?thesis
        by (intro exI [of _ "erase_word plen s"]) (simp add: edit_def)
    next
      case 3
      with rl_inv_delete_char [OF inv] show ?thesis
        by (intro exI [of _ "delete_char plen s"]) (auto simp: edit_def)
    next
      case 4
      let ?s1 = "(type_char c s)\<lparr>rl_buf := rl_buf s @ [c], rl_n := rl_n s + 1\<rparr>"
      have "rl_inv plen ?s1" using inv by (auto simp: rl_inv_def text_col_snoc type_char_def)
      moreover have "int (rl_n s) < int cbsize - 2" using 4 inv by (simp add: rl_inv_def)
      ultimately show ?thesis using 4 c by (intro exI [of _ ?s1]) (simp add: edit_def Let_def)
    next
      case 5
      let ?s1 = "s\<lparr>rl_out := rl_out s @ [7]\<rparr>"
      have "rl_inv plen ?s1" using inv by (simp add: rl_inv_def)
      moreover have "\<not> int (rl_n s) < int cbsize - 2" using 5 inv by (simp add: rl_inv_def)
      ultimately show ?thesis using 5 c by (intro exI [of _ ?s1]) (simp add: edit_def)
    qed
  qed
  with Cons.IH Cons.prems show ?case by fastforce
qed

lemma length_edit: "2 \<le> cbsize \<Longrightarrow> length buf + 2 \<le> cbsize \<Longrightarrow> length (edit cbsize buf c) + 2 \<le> cbsize"
proof -
  have "length (kill_word buf) \<le> length buf"
    unfolding kill_word_def using length_dropWhile_le [of "\<lambda>c. c \<noteq> 32" "rev buf"] by simp
  then show "2 \<le> cbsize \<Longrightarrow> length buf + 2 \<le> cbsize \<Longrightarrow> length (edit cbsize buf c) + 2 \<le> cbsize"
    by (auto simp: edit_def)
qed

lemma length_foldl_edit:
  "2 \<le> cbsize \<Longrightarrow> length buf + 2 \<le> cbsize \<Longrightarrow> length (foldl (edit cbsize) buf keys) + 2 \<le> cbsize"
proof (induction keys arbitrary: buf)
  case (Cons c keys)
  from Cons.IH [OF Cons.prems(1) length_edit [OF Cons.prems]] show ?case by simp
qed simp

section \<open>The boot keys\<close>












lemma poll_key_iff: "fst (poll_key n tstc) \<longleftrightarrow> True \<in> set (take n tstc)"
  by (induction n tstc rule: poll_key.induct) auto

lemma poll_key_rest: "\<not> fst (poll_key n tstc) \<Longrightarrow> snd (poll_key n tstc) = drop n tstc"
  by (induction n tstc rule: poll_key.induct) (auto split: if_splits)

lemma abort_wait_iff: "fst (abort_wait n tstc) \<longleftrightarrow> True \<in> set (take (100 * n) tstc)"
proof (induction n arbitrary: tstc)
  case (Suc n)
  have split: "take (100 * Suc n) tstc = take 100 tstc @ take (100 * n) (drop 100 tstc)"
    by (simp only: mult_Suc_right take_add)
  obtain key rest where p: "poll_key 100 tstc = (key, rest)" by (cases "poll_key 100 tstc")
  have "key \<longleftrightarrow> True \<in> set (take 100 tstc)" using poll_key_iff [of 100 tstc] p by simp
  moreover have "\<not> key \<Longrightarrow> rest = drop 100 tstc" using poll_key_rest [of 100 tstc] p by simp
  moreover have "fst (abort_wait (Suc n) tstc) = (key \<or> fst (abort_wait n rest))"
    by (simp add: p)
  ultimately show ?case unfolding split by (auto simp: Suc.IH)
qed simp

section \<open>Properties\<close>

text \<open>
  C20: \<open>readline\<close> is a line editor. Whatever is typed before Enter, the line returned is the one
  that the editing keys describe (append, backspace, \<^verbatim>\<open>^U\<close>, \<^verbatim>\<open>^W\<close>), its length is the return
  value and leaves room for the NUL in \<^verbatim>\<open>console_buffer[CFG_CBSIZE]\<close>, and the output column the
  code tracks is the one where the prompt and the line end on the screen, tabs expanded.
\<close>

theorem readline_edits:
  assumes "2 \<le> cbsize" and "set keys \<inter> {3, 10, 13} = {}" and "c = 13 \<or> c = 10"
  shows "\<exists>s. readline cbsize prompt (map Some keys @ Some c # rest) = Some (int (length (rl_buf s)), s, rest) \<and>
     rl_buf s = foldl (edit cbsize) [] keys \<and> length (rl_buf s) + 2 \<le> cbsize \<and>
     rl_col s = text_col (int (length (case prompt of None \<Rightarrow> [] | Some p \<Rightarrow> p))) (rl_buf s)"
proof -
  define p where "p = (case prompt of None \<Rightarrow> [] | Some p \<Rightarrow> p)"
  have "rl_inv (int (length p)) \<lparr>rl_buf = [], rl_n = 0, rl_col = int (length p), rl_out = p\<rparr>"
    by (simp add: rl_inv_def text_col_def)
  from readline_loop_edit [OF this assms(2), of cbsize "Some c # rest"] obtain s' where
    "rl_inv (int (length p)) s'" "rl_buf s' = foldl (edit cbsize) [] keys"
    "readline cbsize prompt (map Some keys @ Some c # rest) = readline_loop cbsize (int (length p)) s' (Some c # rest)"
    by (auto simp: readline_def p_def Let_def)
  with assms length_foldl_edit [of cbsize "[]" keys] show ?thesis
    by (intro exI [of _ "s'\<lparr>rl_out := rl_out s' @ [13, 10]\<rparr>"]) (auto simp: rl_inv_def p_def)
qed

theorem readline_edits_witness:
  "\<exists>s. readline 32 (Some (str ''=> '')) (map Some (str ''help x'' @ [0x17] @ [9, 8] @ str ''me'') @ Some 13 # []) =
     Some (int (length (rl_buf s)), s, []) \<and> rl_buf s = str ''helpme'' \<and> length (rl_buf s) + 2 \<le> 32 \<and>
     rl_col s = 9"
proof -
  have "set (str ''help x'' @ [0x17] @ [9, 8] @ str ''me'') \<inter> {3, 10, 13} = {}" by simp
  from readline_edits [of 32, OF _ this, of 13 "Some (str ''=> '')" "[]"]
  show ?thesis by (auto simp: edit_def kill_word_def text_col_def)
qed



text \<open>
  With no key configured at all, a key typed during the delay makes the code shift an
  empty window: the unsigned bound \<^verbatim>\<open>presskey_max - 1\<close> wraps and the loop overwrites memory.
\<close>

theorem abortboot_keyed_no_keys:
  "tk \<le> etime \<Longrightarrow> abortboot_keyed [None, None, None, None] etime ((tk, Some c) # input) = None"
  by (simp add: abortboot_keyed_def presskey_max_def key_len_def)

theorem abortboot_keyed_no_keys_witness:
  "abortboot_keyed [None, None, None, None] 10 [(3, Some 32), (11, None)] = None"
  by (rule abortboot_keyed_no_keys) simp

text \<open>
  the plain \<open>abortboot\<close> stops the boot exactly when one of the first hundred polls per
  second of delay (one more with the zero-delay check) finds a key.
\<close>

theorem abortboot_iff:
  "fst (abortboot zero_check bootdelay tstc) \<longleftrightarrow>
   True \<in> set (take (100 * nat bootdelay + (if zero_check \<and> bootdelay \<ge> 0 then 1 else 0)) tstc)"
proof (cases "zero_check \<and> bootdelay \<ge> 0")
  case True
  then show ?thesis
    by (cases tstc) (auto simp: abortboot_def abort_wait_iff Let_def)
qed (auto simp: abortboot_def abort_wait_iff)

end
