(* ===== verification/CmdLine.thy ===== *)
theory CmdLine
  imports Environment LineEdit
begin

text \<open>
  Command lines: \<open>parse_line\<close>, \<open>process_macros\<close>, \<open>run_command\<close>, \<open>do_run\<close> and the command loop of
  \<^verbatim>\<open>common/main.c\<close>, and the command table of \<^verbatim>\<open>common/command.c\<close> (\<open>find_cmd\<close>, \<open>do_echo\<close>,
  \<open>do_help\<close>). \<open>cbsize\<close> is \<^verbatim>\<open>CFG_CBSIZE\<close>, \<open>maxargs\<close> is \<^verbatim>\<open>CFG_MAXARGS\<close>; both are arguments, since
  every board sets its own.
\<close>

section \<open>Arguments\<close>

definition is_blank :: "byte \<Rightarrow> bool" where
  "is_blank c \<longleftrightarrow> c = ch CHR '' '' \<or> c = 9"

text \<open>
  The arguments found from \<open>line\<close> on, with \<open>nargs\<close> already there. The flag tells whether
  \<^verbatim>\<open>argv[nargs] = NULL\<close> was stored; it is not after ``Too many args''.
\<close>

function parse_line_loop :: "nat \<Rightarrow> nat \<Rightarrow> byte list \<Rightarrow> byte list list \<times> bool" where
  "parse_line_loop maxargs nargs line =
     (if nargs < maxargs then
        (let line = dropWhile is_blank line
         in if line = [] then ([], True)
            else
              let arg = takeWhile (\<lambda>c. \<not> is_blank c) line; rest = dropWhile (\<lambda>c. \<not> is_blank c) line
              in if rest = [] then ([arg], True)
                 else let (args, nul) = parse_line_loop maxargs (nargs + 1) (tl rest)
                      in (arg # args, nul))
      else ([], False))"
  by pat_completeness auto
termination by (relation "measure (\<lambda>(m, n, line). m - n)") auto

declare parse_line_loop.simps [simp del]

definition parse_line :: "nat \<Rightarrow> byte list \<Rightarrow> byte list list \<times> bool" where
  "parse_line maxargs line = parse_line_loop maxargs 0 line"

section \<open>Variables in the command line\<close>

abbreviation backslash :: byte where "backslash \<equiv> 92"

text \<open>
  The loop of \<open>process_macros\<close>. \<open>state\<close> is the code's: 0 waiting for a dollar sign, 1 for an opening and
  2 for a closing bracket; \<open>var\<close> are the characters from \<^verbatim>\<open>varname_start\<close> to \<^verbatim>\<open>input\<close>; \<open>room\<close> is
  \<^verbatim>\<open>outputcnt\<close>. The result is the output and the room left.
\<close>

definition emit :: "byte list \<Rightarrow> nat \<Rightarrow> byte list \<Rightarrow> byte list \<times> nat" where
  "emit out room cs = (out @ take room cs, room - length cs)"

definition macro_char ::
    "byte list \<Rightarrow> byte \<Rightarrow> byte \<Rightarrow> byte list \<Rightarrow> nat \<Rightarrow> byte list \<Rightarrow> byte list \<Rightarrow> nat \<Rightarrow>
       (nat \<times> byte list \<times> byte list \<times> nat) option" where
  "macro_char d c prev raw state var out room =
     (if state = 0 then
        (if c = ch CHR ''$'' \<and> prev \<noteq> backslash then Some (1, var, out, room)
         else let (out, room) = emit out room [c] in Some (0, var, out, room))
      else if state = 1 then
        (if c = ch CHR ''('' then Some (2, [], out, room)
         else let (out, room) = emit out room [ch CHR ''$''];
                  (out, room) = emit out room [c]
              in Some (0, var, out, room))
      else
        (let var = var @ raw
         in if c = ch CHR '')'' then
              do { val \<leftarrow> getenv_str d (takeWhile (\<lambda>c. c \<noteq> 0) (butlast var));
                   (let (out, room) = (case val of None \<Rightarrow> (out, room) | Some v \<Rightarrow> emit out room v)
                    in Some (0, var, out, room)) }
            else Some (2, var, out, room)))"

function macro_loop ::
    "byte list \<Rightarrow> byte list \<Rightarrow> byte \<Rightarrow> nat \<Rightarrow> byte list \<Rightarrow> byte list \<Rightarrow> nat \<Rightarrow> (byte list \<times> nat) option" where
  "macro_loop d input prev state var out room =
     (if input = [] \<or> room = 0 then Some (out, room)
      else
        let c = hd input; rest = tl input in
        if c = backslash \<and> prev \<noteq> backslash then
          (if rest = [] then Some (out, room)
           else do { (state, var, out, room) \<leftarrow> macro_char d (hd rest) c [c, hd rest] state var out room;
                     macro_loop d (tl rest) (hd rest) state var out room })
        else do { (state, var, out, room) \<leftarrow> macro_char d c prev [c] state var out room;
                  macro_loop d rest c state var out room })"
  by pat_completeness auto
termination
  by (relation "measure (\<lambda>(d, input, _). length input)") (auto simp: neq_Nil_conv)

declare macro_loop.simps [simp del]

text \<open>The string left in the output buffer; the flag is false when it has no NUL.\<close>

definition process_macros :: "nat \<Rightarrow> byte list \<Rightarrow> byte list \<Rightarrow> (byte list \<times> bool) option" where
  "process_macros cbsize d input =
     map_option (\<lambda>(out, room). (out, room > 0)) (macro_loop d input 0 0 [] [] cbsize)"

section \<open>The command table\<close>

record cmd_tbl =
  cmd_name :: "byte list"
  cmd_lmin :: nat
  cmd_maxargs :: nat
  cmd_repeatable :: bool
  cmd_is_bootd :: bool
  cmd_usage :: "byte list option"
  cmd_help :: "byte list option"

text \<open>\<^verbatim>\<open>strncmp (cs, ct, count) == 0\<close> on C strings.\<close>

fun strncmp_eq :: "byte list \<Rightarrow> byte list \<Rightarrow> nat \<Rightarrow> bool" where
  "strncmp_eq cs ct 0 \<longleftrightarrow> True"
| "strncmp_eq cs ct (Suc n) \<longleftrightarrow> peek cs = peek ct \<and> (peek cs = 0 \<or> strncmp_eq (tl cs) (tl ct) n)"

fun find_cmd :: "cmd_tbl list \<Rightarrow> byte list \<Rightarrow> cmd_tbl option" where
  "find_cmd [] cmd = None"
| "find_cmd (t # ts) cmd = (if strncmp_eq cmd (cmd_name t) (cmd_lmin t) then Some t else find_cmd ts cmd)"

fun echo_arg :: "byte list \<Rightarrow> byte list \<times> bool" where
  "echo_arg [] = ([], True)"
| "echo_arg (c # p) =
     (if c = backslash \<and> peek p = ch CHR ''c'' then (let (out, nl) = echo_arg (tl p) in (out, False))
      else (let (out, nl) = echo_arg p in (c # out, nl)))"

text \<open>The arguments after \<^verbatim>\<open>argv[0]\<close>: each after a blank except the first, then a newline unless
  some argument had a \<^verbatim>\<open>\c\<close>.\<close>

fun echo_args :: "byte list list \<Rightarrow> byte list \<times> bool" where
  "echo_args [] = ([], True)"
| "echo_args (a # as) =
     (let (out, nl) = echo_arg a; (out', nl') = echo_args as
      in (out @ (if as = [] then [] else ch CHR '' '' # out'), nl \<and> nl'))"

definition do_echo :: "byte list list \<Rightarrow> byte list" where
  "do_echo argv = (let (out, putnl) = echo_args (tl argv) in if putnl then out @ [10] else out)"

text \<open>\<open>do_help\<close> with \<^verbatim>\<open>CFG_LONGHELP\<close>: the return value and the text. \<open>polls\<close> answer \<^verbatim>\<open>ctrlc()\<close>.\<close>

fun help_all :: "cmd_tbl list \<Rightarrow> bool list \<Rightarrow> int \<times> byte list" where
  "help_all [] polls = (0, [])"
| "help_all (t # ts) polls =
     (if polls \<noteq> [] \<and> hd polls then (1, [])
      else let (rc, out) = help_all ts (tl polls)
           in (rc, (case cmd_usage t of None \<Rightarrow> [] | Some u \<Rightarrow> u) @ out))"

fun help_cmds :: "cmd_tbl list \<Rightarrow> byte list list \<Rightarrow> int \<times> byte list" where
  "help_cmds tbl [] = (0, [])"
| "help_cmds tbl (a # as) =
     (let (rc, out) = help_cmds tbl as
      in case find_cmd tbl a of
           Some t \<Rightarrow>
             (case cmd_help t of
                Some h \<Rightarrow> (rc, cmd_name t @ [32] @ h @ [10] @ out)
              | None \<Rightarrow> (1, cmd_name t @ [32] @ str ''- No help available.'' @ [10, 10] @ out))
         | None \<Rightarrow>
             (1, str ''Unknown command '' @ [39] @ a @ [39] @
                 str '' - try '' @ [39] @ str ''help'' @ [39] @
                 str '' without arguments for list of all known commands'' @ [10, 10] @ out))"

definition do_help :: "cmd_tbl list \<Rightarrow> byte list list \<Rightarrow> bool list \<Rightarrow> int \<times> byte list" where
  "do_help tbl argv polls = (if length argv = 1 then help_all tbl polls else help_cmds tbl (tl argv))"

section \<open>Running commands\<close>

text \<open>
  The part of the program a command line works on: \<open>sh_exec\<close> calls the function of a table
  entry with flag and arguments (its result and the new state, \<open>None\<close> if it does not
  return), \<open>sh_env\<close> is the environment's data area, \<open>sh_had_ctrlc\<close> and \<open>sh_clear_ctrlc\<close> are the
  functions of \<^verbatim>\<open>common/console.c\<close>. The commands themselves are an argument.
\<close>

record 's shell =
  sh_tbl :: "cmd_tbl list"
  sh_exec :: "cmd_tbl \<Rightarrow> u32 \<Rightarrow> byte list list \<Rightarrow> 's \<Rightarrow> (int \<times> 's) option"
  sh_env :: "'s \<Rightarrow> byte list"
  sh_had_ctrlc :: "'s \<Rightarrow> bool"
  sh_clear_ctrlc :: "'s \<Rightarrow> 's"

definition CMD_FLAG_REPEAT :: u32 where "CMD_FLAG_REPEAT = 1"
definition CMD_FLAG_BOOTD :: u32 where "CMD_FLAG_BOOTD = 2"

text \<open>
  The token up to the next separator: a semicolon that is neither the first character nor
  preceded by a backslash. The second component is what follows it.
\<close>

fun find_sep :: "byte \<Rightarrow> byte list \<Rightarrow> byte list \<times> byte list" where
  "find_sep prev [] = ([], [])"
| "find_sep prev (c # cs) =
     (if c = ch CHR '';'' \<and> prev \<noteq> backslash then ([], cs)
      else let (token, rest) = find_sep c cs in (c # token, rest))"

definition next_token :: "byte list \<Rightarrow> byte list \<times> byte list" where
  "next_token line = (let (token, rest) = find_sep (hd line) (tl line) in (hd line # token, rest))"

lemma find_sep_length: "length (snd (find_sep prev cs)) \<le> length cs"
  by (induction prev cs rule: find_sep.induct) (auto simp: Let_def split: prod.splits)

lemma next_token_length: "line \<noteq> [] \<Longrightarrow> next_token line = (token, rest) \<Longrightarrow> length rest < length line"
  using find_sep_length [of "hd line" "tl line"] by (cases line) (auto simp: next_token_def split: prod.splits)

text \<open>
  One token: the value returned if \<open>run_command\<close> returns there, the table entry's
  \<^verbatim>\<open>repeatable\<close>, the flag and the new state. \<open>None\<close> where \<^verbatim>\<open>finaltoken\<close> has no NUL (the parser
  then reads behind it) or holds no argument (\<^verbatim>\<open>find_cmd(NULL)\<close> dereferences null).
\<close>

definition run_token ::
    "nat \<Rightarrow> nat \<Rightarrow> 's shell \<Rightarrow> byte list \<Rightarrow> u32 \<Rightarrow> 's \<Rightarrow> (int option \<times> bool \<times> u32 \<times> 's) option" where
  "run_token cbsize maxargs sh token flag s =
     do { (finaltoken, nul) \<leftarrow> process_macros cbsize (sh_env sh s) token;
          if \<not> nul then None
          else
            let args = fst (parse_line maxargs finaltoken) in
            if args = [] then None
            else
              case find_cmd (sh_tbl sh) (hd args) of
                None \<Rightarrow> Some (Some (-1), False, flag, s)
              | Some t \<Rightarrow>
                  if length args > cmd_maxargs t then Some (Some (-1), False, flag, s)
                  else if cmd_is_bootd t \<and> flag AND CMD_FLAG_BOOTD \<noteq> 0 then Some (Some (-1), False, flag, s)
                  else
                    let flag = (if cmd_is_bootd t then flag OR CMD_FLAG_BOOTD else flag) in
                    do { (rc, s) \<leftarrow> sh_exec sh t flag args s;
                         if rc \<noteq> 0 then Some (Some (-1), False, flag, s)
                         else if sh_had_ctrlc sh s then Some (Some 0, False, flag, s)
                         else Some (None, cmd_repeatable t, flag, s) } }"

function run_tokens ::
    "nat \<Rightarrow> nat \<Rightarrow> 's shell \<Rightarrow> byte list \<Rightarrow> u32 \<Rightarrow> bool \<Rightarrow> 's \<Rightarrow> (int \<times> 's) option" where
  "run_tokens cbsize maxargs sh line flag repeatable s =
     (if line = [] then Some (if repeatable then 1 else 0, s)
      else
        do { (ret, rep, flag, s) \<leftarrow> run_token cbsize maxargs sh (fst (next_token line)) flag s;
             case ret of
               Some rc \<Rightarrow> Some (rc, s)
             | None \<Rightarrow> run_tokens cbsize maxargs sh (snd (next_token line)) flag (repeatable \<and> rep) s })"
  by pat_completeness auto
termination
  by (relation "measure (\<lambda>(cb, ma, sh, line, _). length line)")
    (auto intro: next_token_length [OF _ surjective_pairing])

declare run_tokens.simps [simp del]

definition run_command ::
    "nat \<Rightarrow> nat \<Rightarrow> 's shell \<Rightarrow> byte list option \<Rightarrow> u32 \<Rightarrow> 's \<Rightarrow> (int \<times> 's) option" where
  "run_command cbsize maxargs sh cmd flag s =
     (let s = sh_clear_ctrlc sh s in
      case cmd of
        None \<Rightarrow> Some (-1, s)
      | Some line \<Rightarrow>
          if line = [] then Some (-1, s)
          else if length line \<ge> cbsize then Some (-1, s)
          else run_tokens cbsize maxargs sh line flag True s)"

text \<open>
  \<open>do_run\<close>: every named variable is run, also after a failure; \<open>rcode\<close> counts the successes.
\<close>

fun run_vars ::
    "nat \<Rightarrow> nat \<Rightarrow> 's shell \<Rightarrow> byte list list \<Rightarrow> u32 \<Rightarrow> nat \<Rightarrow> 's \<Rightarrow> (nat \<times> 's) option" where
  "run_vars cbsize maxargs sh [] flag rcode s = Some (rcode, s)"
| "run_vars cbsize maxargs sh (a # as) flag rcode s =
     do { cmd \<leftarrow> getenv_str (sh_env sh s) a;
          (rc, s) \<leftarrow> run_command cbsize maxargs sh cmd flag s;
          run_vars cbsize maxargs sh as flag (if rc \<noteq> -1 then rcode + 1 else rcode) s }"

definition do_run :: "nat \<Rightarrow> nat \<Rightarrow> 's shell \<Rightarrow> u32 \<Rightarrow> byte list list \<Rightarrow> 's \<Rightarrow> (int \<times> 's) option" where
  "do_run cbsize maxargs sh flag argv s =
     (if length argv < 2 then Some (1, s)
      else do { (rcode, s) \<leftarrow> run_vars cbsize maxargs sh (tl argv) flag 1 s;
                Some (if rcode = length argv then 0 else 1, s) })"

section \<open>The command loop\<close>

text \<open>The static \<^verbatim>\<open>lastcommand\<close> and the local \<^verbatim>\<open>rc\<close> of \<open>main_loop\<close>.\<close>

record loop_state =
  ml_last :: "byte list"
  ml_rc :: int

text \<open>
  One turn of the loop after \<open>readline\<close> returned \<open>len\<close> with \<open>line\<close> in \<^verbatim>\<open>console_buffer\<close>. With a
  time-out (-2) \<open>main_loop\<close> returns: the inner \<open>None\<close>.
\<close>

definition main_turn ::
    "nat \<Rightarrow> nat \<Rightarrow> 's shell \<Rightarrow> int \<Rightarrow> byte list \<Rightarrow> loop_state \<Rightarrow> 's \<Rightarrow> (loop_state \<times> 's) option option" where
  "main_turn cbsize maxargs sh len line l s =
     (if len = -2 then Some None
      else
        let flag = (if len = 0 then CMD_FLAG_REPEAT else 0);
            last = (if len > 0 then takeWhile (\<lambda>c. c \<noteq> 0) line else ml_last l)
        in do { (rc, s) \<leftarrow> (if len = -1 then Some (ml_rc l, s)
                             else run_command cbsize maxargs sh (Some last) flag s);
                Some (Some (\<lparr>ml_last = (if rc \<le> 0 then [] else last), ml_rc = rc\<rparr>, s)) })"

text \<open>
  The automatic boot at the start of \<open>main_loop\<close>: \<open>abort\<close> is the answer of \<open>abortboot\<close> to the
  delay, \<open>default_delay\<close> is \<^verbatim>\<open>CONFIG_BOOTDELAY\<close>.
\<close>

definition autoboot ::
    "nat \<Rightarrow> nat \<Rightarrow> 's shell \<Rightarrow> int \<Rightarrow> (int \<Rightarrow> bool) \<Rightarrow> 's \<Rightarrow> 's option" where
  "autoboot cbsize maxargs sh default_delay abort s =
     do { d \<leftarrow> getenv_str (sh_env sh s) (str ''bootdelay'');
          cmd \<leftarrow> getenv_str (sh_env sh s) (str ''bootcmd'');
          (let bootdelay = (case d of None \<Rightarrow> default_delay | Some v \<Rightarrow> sint (fst (simple_strtol v 10)))
           in if bootdelay \<ge> 0 \<and> cmd \<noteq> None \<and> \<not> abort bootdelay
              then map_option snd (run_command cbsize maxargs sh cmd 0 s)
              else Some s) }"

end
