(* ===== verification/CmdLineCorrect.thy ===== *)
theory CmdLineCorrect
  imports CmdLine EnvironmentCorrect
begin

text \<open>
  Correctness of the command line: splitting into arguments, variable expansion as a
  function on text and references, command sequences, and the repetition rule of the
  command loop.
\<close>



section \<open>Arguments\<close>

text \<open>The blank-separated words of a line.\<close>

function words :: "byte list \<Rightarrow> byte list list" where
  "words line =
     (if dropWhile is_blank line = [] then []
      else takeWhile (\<lambda>c. \<not> is_blank c) (dropWhile is_blank line) #
           words (dropWhile (\<lambda>c. \<not> is_blank c) (dropWhile is_blank line)))"
  by pat_completeness auto
termination
proof (relation "measure length")
  fix line :: "byte list"
  assume ne: "dropWhile is_blank line \<noteq> []"
  then obtain c cs where cs: "dropWhile is_blank line = c # cs" by (cases "dropWhile is_blank line") auto
  then have "\<not> is_blank c" using hd_dropWhile [OF ne] by simp
  moreover have "length (c # cs) \<le> length line" by (metis cs length_dropWhile_le)
  moreover have "length (dropWhile (\<lambda>c. \<not> is_blank c) cs) \<le> length cs" by (rule length_dropWhile_le)
  ultimately show "(dropWhile (\<lambda>c. \<not> is_blank c) (dropWhile is_blank line), line) \<in> measure length"
    by (simp add: cs)
qed simp

declare words.simps [simp del]

lemma words_Nil [simp]: "words [] = []"
  by (simp add: words.simps)

lemma words_blank: "is_blank c \<Longrightarrow> words (c # cs) = words cs"
  by (subst (1 2) words.simps) simp

lemma parse_line_loop_words:
  "fst (parse_line_loop maxargs nargs line) = take (maxargs - nargs) (words line)"
proof (induction maxargs nargs line rule: parse_line_loop.induct)
  case (1 maxargs nargs line)
  let ?l = "dropWhile is_blank line"
  let ?r = "dropWhile (\<lambda>c. \<not> is_blank c) ?l"
  consider "\<not> nargs < maxargs" | "nargs < maxargs" "?l = []" | "nargs < maxargs" "?l \<noteq> []" "?r = []"
    | "nargs < maxargs" "?l \<noteq> []" "?r \<noteq> []" by blast
  then show ?case
  proof cases
    case 1
    then show ?thesis by (subst parse_line_loop.simps) simp
  next
    case 2
    then show ?thesis by (subst parse_line_loop.simps, subst words.simps) (simp add: Let_def)
  next
    case 3
    have "words ?r = []" by (simp only: 3 words_Nil)
    with 3 show ?thesis
      by (subst parse_line_loop.simps, subst words.simps) (simp add: Let_def Suc_diff_Suc [symmetric])
  next
    case 4
    have "words ?r = words (tl ?r)"
      using 4(3) hd_dropWhile [OF 4(3)] words_blank [of "hd ?r" "tl ?r"] by simp
    moreover have "fst (parse_line_loop maxargs (nargs + 1) (tl ?r)) = take (maxargs - (nargs + 1)) (words (tl ?r))"
      using 1 4 by simp
    moreover have "maxargs - nargs = Suc (maxargs - (nargs + 1))" using 4 by simp
    ultimately show ?thesis using 4
      by (subst parse_line_loop.simps, subst words.simps) (auto simp: Let_def split_def)
  qed
qed

text \<open>
  \<open>parse_line\<close> splits at blanks and tabs: the arguments are the first \<^verbatim>\<open>CFG_MAXARGS\<close> words of
  the line, in order.
\<close>

theorem parse_line_words: "fst (parse_line maxargs line) = take maxargs (words line)"
  using parse_line_loop_words [of maxargs 0 line] by (simp add: parse_line_def)

lemma takeWhile_word: "\<forall>c \<in> set w. \<not> is_blank c \<Longrightarrow> rest = [] \<or> is_blank (hd rest) \<Longrightarrow>
    takeWhile (\<lambda>c. \<not> is_blank c) (w @ rest) = w \<and> dropWhile (\<lambda>c. \<not> is_blank c) (w @ rest) = rest"
  by (induction w) (cases rest; auto)+

text \<open>A line from its arguments: one blank between them.\<close>

fun join_args :: "byte list list \<Rightarrow> byte list" where
  "join_args [] = []"
| "join_args [a] = a"
| "join_args (a # as) = a @ 32 # join_args as"

definition is_word :: "byte list \<Rightarrow> bool" where
  "is_word w \<longleftrightarrow> w \<noteq> [] \<and> (\<forall>c \<in> set w. \<not> is_blank c)"

lemma is_blank_space [simp]: "is_blank 32"
  by (simp add: is_blank_def)

lemma parse_line_loop_join:
  "list_all is_word args \<Longrightarrow> nargs + length args \<le> maxargs \<Longrightarrow> nargs < maxargs \<Longrightarrow>
   parse_line_loop maxargs nargs (join_args args) = (args, True)"
proof (induction args arbitrary: nargs rule: join_args.induct)
  case 1
  then show ?case by (subst parse_line_loop.simps) simp
next
  case (2 a)
  then have d: "dropWhile is_blank a = a" by (cases a) (auto simp: is_word_def)
  have "takeWhile (\<lambda>c. \<not> is_blank c) a = a" "dropWhile (\<lambda>c. \<not> is_blank c) a = []"
    using takeWhile_word [of a "[]"] 2 by (auto simp: is_word_def)
  with 2 d show ?case
    by (subst parse_line_loop.simps) (simp add: Let_def is_word_def)
next
  case (3 a b bs)
  then have d: "dropWhile is_blank (join_args (a # b # bs)) = join_args (a # b # bs)" by (cases a) (auto simp: is_word_def)
  have "takeWhile (\<lambda>c. \<not> is_blank c) (join_args (a # b # bs)) = a"
    "dropWhile (\<lambda>c. \<not> is_blank c) (join_args (a # b # bs)) = 32 # join_args (b # bs)"
    using takeWhile_word [of a "32 # join_args (b # bs)"] 3 by (auto simp: is_word_def)
  moreover have "parse_line_loop maxargs (nargs + 1) (join_args (b # bs)) = (b # bs, True)"
    using 3 by simp
  moreover have "a \<noteq> []" using 3 by (simp add: is_word_def)
  ultimately show ?case using d 3
    by (subst parse_line_loop.simps) (simp add: Let_def)
qed

section \<open>Variables\<close>

text \<open>A command line in parts: literal text, where a dollar sign is escaped, and variables.\<close>

datatype segment = Lit "byte list" | Var "byte list"

definition escape :: "byte list \<Rightarrow> byte list" where
  "escape t = concat (map (\<lambda>c. if c = ch CHR ''$'' then [backslash, c] else [c]) t)"

fun render :: "segment \<Rightarrow> byte list" where
  "render (Lit t) = escape t"
| "render (Var n) = str ''$('' @ n @ str '')''"

fun wf_segment :: "segment \<Rightarrow> bool" where
  "wf_segment (Lit t) \<longleftrightarrow> backslash \<notin> set t"
| "wf_segment (Var n) \<longleftrightarrow> wf_name n \<and> backslash \<notin> set n \<and> ch CHR '')'' \<notin> set n"

fun expand :: "var list \<Rightarrow> segment \<Rightarrow> byte list" where
  "expand es (Lit t) = t"
| "expand es (Var n) = (case map_of es n of Some v \<Rightarrow> v | None \<Rightarrow> [])"

lemma getenv_str_models:
  assumes "env_models d es" and "wf_name name"
  shows "getenv_str d name = Some (map_of es name)"
  using getenv_models [OF assms] by (auto simp: getenv_str_def)

lemma macro_loop_Nil [simp]: "macro_loop d [] prev state var out room = Some (out, room)"
  by (subst macro_loop.simps) simp

lemma macro_loop_lit:
  assumes "backslash \<notin> set t" and "length t < room" and "prev \<noteq> backslash"
  shows "\<exists>prev'. prev' \<noteq> backslash \<and>
    macro_loop d (escape t @ rest) prev 0 var out room = macro_loop d rest prev' 0 var (out @ t) (room - length t)"
  using assms
proof (induction t arbitrary: prev out room)
  case Nil
  then show ?case by (auto simp: escape_def)
next
  case (Cons c t)
  have "macro_loop d (escape (c # t) @ rest) prev 0 var out room =
      macro_loop d (escape t @ rest) c 0 var (out @ [c]) (room - 1)"
    using Cons.prems by (subst macro_loop.simps) (simp add: escape_def macro_char_def emit_def)
  moreover have "length t < room - 1" "c \<noteq> backslash" "backslash \<notin> set t" using Cons.prems by auto
  ultimately show ?case using Cons.IH [of "room - 1" c "out @ [c]"] by simp
qed

lemma macro_loop_name:
  assumes "backslash \<notin> set n" and "ch CHR '')'' \<notin> set n" and "0 < room" and "prev \<noteq> backslash"
    and "getenv_str d (takeWhile (\<lambda>c. c \<noteq> 0) (var @ n)) = Some val"
  shows "\<exists>var'. macro_loop d (n @ ch CHR '')'' # rest) prev 2 var out room =
    (let (out, room) = (case val of None \<Rightarrow> (out, room) | Some v \<Rightarrow> emit out room v)
     in macro_loop d rest (ch CHR '')'') 0 var' out room)"
  using assms
proof (induction n arbitrary: prev var)
  case Nil
  then have "macro_loop d (ch CHR '')'' # rest) prev 2 var out room =
    (let (out, room) = (case val of None \<Rightarrow> (out, room) | Some v \<Rightarrow> emit out room v)
     in macro_loop d rest (ch CHR '')'') 0 (var @ [ch CHR '')'']) out room)"
    by (subst macro_loop.simps) (simp add: macro_char_def split: option.splits prod.splits)
  then show ?case by auto
next
  case (Cons c n)
  then have "macro_loop d ((c # n) @ ch CHR '')'' # rest) prev 2 var out room =
      macro_loop d (n @ ch CHR '')'' # rest) c 2 (var @ [c]) out room"
    by (subst macro_loop.simps) (auto simp: macro_char_def)
  with Cons.IH [of c "var @ [c]"] Cons.prems show ?case by auto
qed

lemma macro_loop_var:
  assumes m: "env_models d es" and wf: "wf_segment (Var n)" and "length (expand es (Var n)) < room"
    and "prev \<noteq> backslash"
  shows "\<exists>var'. macro_loop d (render (Var n) @ rest) prev 0 var out room =
    macro_loop d rest (ch CHR '')'') 0 var' (out @ expand es (Var n)) (room - length (expand es (Var n)))"
proof -
  have n: "wf_name n" "backslash \<notin> set n" "ch CHR '')'' \<notin> set n" using wf by auto
  have "takeWhile (\<lambda>c. c \<noteq> 0) n = n" using n(1) by (auto simp: wf_name_def takeWhile_eq_all_conv)
  then have val: "getenv_str d (takeWhile (\<lambda>c. c \<noteq> 0) ([] @ n)) = Some (map_of es n)"
    using getenv_str_models [OF m n(1)] by (simp only: append_Nil)
  have "macro_loop d (render (Var n) @ rest) prev 0 var out room =
      macro_loop d (n @ ch CHR '')'' # rest) (ch CHR ''('') 2 [] out room"
    using assms(3,4) by (subst macro_loop.simps, simp add: macro_char_def,
        subst macro_loop.simps, simp add: macro_char_def)
  with macro_loop_name [OF n(2,3) _ _ val, of room "ch CHR ''(''" rest out] assms(3)
  show ?thesis by (auto simp: emit_def split: option.splits)
qed

lemma macro_loop_segments:
  assumes m: "env_models d es" and "list_all wf_segment segs"
    and "length (concat (map (expand es) segs)) < room" and "prev \<noteq> backslash"
  shows "macro_loop d (concat (map render segs)) prev 0 var out room =
    Some (out @ concat (map (expand es) segs), room - length (concat (map (expand es) segs)))"
  using assms(2-)
proof (induction segs arbitrary: prev var out room)
  case (Cons s segs)
  let ?rest = "concat (map render segs)"
  have "\<exists>prev' var'. prev' \<noteq> backslash \<and> macro_loop d (render s @ ?rest) prev 0 var out room =
      macro_loop d ?rest prev' 0 var' (out @ expand es s) (room - length (expand es s))"
  proof (cases s)
    case (Lit t)
    with macro_loop_lit [of t room prev d ?rest var out] Cons.prems show ?thesis by fastforce
  next
    case (Var n)
    with macro_loop_var [OF m, of n room prev ?rest var out] Cons.prems show ?thesis
      by (intro exI [of _ "ch CHR '')''"]) simp
  qed
  then obtain prev' var' where "prev' \<noteq> backslash" "macro_loop d (render s @ ?rest) prev 0 var out room =
      macro_loop d ?rest prev' 0 var' (out @ expand es s) (room - length (expand es s))" by blast
  with Cons.IH [of "room - length (expand es s)" prev' var' "out @ expand es s"] Cons.prems
  show ?case by (simp add: diff_diff_left)
qed simp

lemma macro_char_room:
  "macro_char d c prev raw st var out room = Some (st', var', out', room') \<Longrightarrow> 0 < room \<Longrightarrow>
   length out' + room' = length out + room"
  by (auto simp: macro_char_def emit_def Let_def bind_eq_Some_conv min_def split: if_splits option.splits)

lemma macro_loop_room:
  "macro_loop d input prev st var out room = Some (out', room') \<Longrightarrow> length out' + room' = length out + room"
proof (induction d input prev st var out room rule: macro_loop.induct)
  case (1 d input prev st var out room)
  show ?case
  proof (cases "input = [] \<or> room = 0")
    case True
    with 1(3) show ?thesis by (subst (asm) macro_loop.simps) auto
  next
    case False
    obtain c rest where i: "input = c # rest" using False by (cases input) auto
    show ?thesis
    proof (cases "c = backslash \<and> prev \<noteq> backslash")
      case True
      show ?thesis
      proof (cases rest)
        case Nil
        with 1(3) True i False show ?thesis by (subst (asm) macro_loop.simps) auto
      next
        case (Cons c' rest')
        with 1(3) True i False obtain st1 v1 o1 r1
          where "macro_char d c' c [c, c'] st var out room = Some (st1, v1, o1, r1)"
            "macro_loop d rest' c' st1 v1 o1 r1 = Some (out', room')"
          by (subst (asm) macro_loop.simps) (auto simp: bind_eq_Some_conv)
        with 1(1) [OF False refl refl, of "(st1, v1, o1, r1)"] True i Cons False macro_char_room show ?thesis
          by fastforce
      qed
    next
      case nb: False
      with 1(3) i False obtain st1 v1 o1 r1
          where "macro_char d c prev [c] st var out room = Some (st1, v1, o1, r1)"
            "macro_loop d rest c st1 v1 o1 r1 = Some (out', room')"
          by (subst (asm) macro_loop.simps) (auto simp: bind_eq_Some_conv)
      with 1(2) [OF False refl refl, of "(st1, v1, o1, r1)"] nb i False macro_char_room show ?thesis
        by fastforce
    qed
  qed
qed


section \<open>Command sequences\<close>

definition is_cmd :: "byte list \<Rightarrow> bool" where
  "is_cmd t \<longleftrightarrow> t \<noteq> [] \<and> ch CHR '';'' \<notin> set t \<and> last t \<noteq> backslash"

fun join_cmds :: "byte list list \<Rightarrow> byte list" where
  "join_cmds [] = []"
| "join_cmds [t] = t"
| "join_cmds (t # ts) = t @ ch CHR '';'' # join_cmds ts"

text \<open>The loop of \<open>run_command\<close> over the commands instead of the text of the line.\<close>

fun run_list ::
    "nat \<Rightarrow> nat \<Rightarrow> 's shell \<Rightarrow> byte list list \<Rightarrow> u32 \<Rightarrow> bool \<Rightarrow> 's \<Rightarrow> (int \<times> 's) option" where
  "run_list cb ma sh [] flag repeatable s = Some (if repeatable then 1 else 0, s)"
| "run_list cb ma sh (t # ts) flag repeatable s =
     do { (ret, rep, flag, s) \<leftarrow> run_token cb ma sh t flag s;
          case ret of
            Some rc \<Rightarrow> Some (rc, s)
          | None \<Rightarrow> run_list cb ma sh ts flag (repeatable \<and> rep) s }"

lemma find_sep_cmd:
  assumes "ch CHR '';'' \<notin> set t" and "last (prev # t) \<noteq> backslash"
  shows "find_sep prev (t @ ch CHR '';'' # rest) = (t, rest)"
  using assms by (induction t arbitrary: prev) auto

lemma find_sep_end: "ch CHR '';'' \<notin> set t \<Longrightarrow> find_sep prev t = (t, [])"
  by (induction t arbitrary: prev) auto

lemma next_token_cmd:
  assumes "is_cmd t"
  shows "next_token (t @ ch CHR '';'' # rest) = (t, rest)" and "next_token t = (t, [])"
proof -
  obtain c cs where t: "t = c # cs" using assms by (cases t) (auto simp: is_cmd_def)
  have "ch CHR '';'' \<notin> set cs" "last (c # cs) \<noteq> backslash" using assms by (auto simp: t is_cmd_def)
  from find_sep_cmd [OF this, of rest] find_sep_end [OF this(1), of c]
  show "next_token (t @ ch CHR '';'' # rest) = (t, rest)" and "next_token t = (t, [])"
    by (simp_all add: next_token_def t)
qed

lemma run_tokens_list:
  "list_all is_cmd ts \<Longrightarrow> run_tokens cb ma sh (join_cmds ts) flag rep s = run_list cb ma sh ts flag rep s"
proof (induction ts arbitrary: flag rep s rule: join_cmds.induct)
  case 1
  then show ?case by (subst run_tokens.simps) simp
next
  case (2 t)
  then have "t \<noteq> []" by (simp add: is_cmd_def)
  with 2 show ?case
    by (subst run_tokens.simps) (auto simp: next_token_cmd run_tokens.simps [of _ _ _ "[]"] intro!: Option.bind_cong split: option.splits)
next
  case (3 t t' ts)
  then have "t \<noteq> []" by (simp add: is_cmd_def)
  with 3 show ?case
    by (subst run_tokens.simps) (auto simp: next_token_cmd [simplified] intro!: Option.bind_cong split: option.splits)
qed

subsection \<open>Runs\<close>

text \<open>What \<open>run_command\<close> makes of one command: its variables are expanded and its words are its arguments.\<close>

definition command_args :: "nat \<Rightarrow> nat \<Rightarrow> byte list \<Rightarrow> byte list \<Rightarrow> byte list list \<Rightarrow> bool" where
  "command_args cb ma env t args \<longleftrightarrow>
     (\<exists>text. process_macros cb env t = Some (text, True) \<and> args = take ma (words text) \<and> args \<noteq> [])"

text \<open>
  The reference semantics of a command line, a big-step relation that knows nothing of how \<open>run_command\<close>
  steps through the line.

  The run of a list of commands, one rule for each way it can go on or end: flag, commands, state and
  whether all commands so far may be repeated; then the result and the state at the end.
\<close>

inductive runs ::
    "nat \<Rightarrow> nat \<Rightarrow> 's shell \<Rightarrow> u32 \<Rightarrow> byte list list \<Rightarrow> 's \<Rightarrow> bool \<Rightarrow> int \<Rightarrow> 's \<Rightarrow> bool"
  for cb :: nat and ma :: nat and sh :: "'s shell" where
  runs_all_repeatable: "runs cb ma sh flag [] s True 1 s"
| runs_some_not_repeatable: "runs cb ma sh flag [] s False 0 s"
| runs_unknown:
    "command_args cb ma (sh_env sh s) t args \<Longrightarrow> find_cmd (sh_tbl sh) (hd args) = None \<Longrightarrow>
     runs cb ma sh flag (t # ts) s rep (- 1) s"
| runs_usage:
    "command_args cb ma (sh_env sh s) t args \<Longrightarrow> find_cmd (sh_tbl sh) (hd args) = Some c \<Longrightarrow>
     cmd_maxargs c < length args \<Longrightarrow> runs cb ma sh flag (t # ts) s rep (- 1) s"
| runs_recursion:
    "command_args cb ma (sh_env sh s) t args \<Longrightarrow> find_cmd (sh_tbl sh) (hd args) = Some c \<Longrightarrow>
     cmd_is_bootd c \<Longrightarrow> flag AND CMD_FLAG_BOOTD \<noteq> 0 \<Longrightarrow> runs cb ma sh flag (t # ts) s rep (- 1) s"
| runs_failed:
    "command_args cb ma (sh_env sh s) t args \<Longrightarrow> find_cmd (sh_tbl sh) (hd args) = Some c \<Longrightarrow>
     length args \<le> cmd_maxargs c \<Longrightarrow> \<not> cmd_is_bootd c \<or> flag AND CMD_FLAG_BOOTD = 0 \<Longrightarrow>
     sh_exec sh c (if cmd_is_bootd c then flag OR CMD_FLAG_BOOTD else flag) args s = Some (rc, s') \<Longrightarrow>
     rc \<noteq> 0 \<Longrightarrow> runs cb ma sh flag (t # ts) s rep (- 1) s'"
| runs_interrupted:
    "command_args cb ma (sh_env sh s) t args \<Longrightarrow> find_cmd (sh_tbl sh) (hd args) = Some c \<Longrightarrow>
     length args \<le> cmd_maxargs c \<Longrightarrow> \<not> cmd_is_bootd c \<or> flag AND CMD_FLAG_BOOTD = 0 \<Longrightarrow>
     sh_exec sh c (if cmd_is_bootd c then flag OR CMD_FLAG_BOOTD else flag) args s = Some (0, s') \<Longrightarrow>
     sh_had_ctrlc sh s' \<Longrightarrow> runs cb ma sh flag (t # ts) s rep 0 s'"
| runs_next:
    "command_args cb ma (sh_env sh s) t args \<Longrightarrow> find_cmd (sh_tbl sh) (hd args) = Some c \<Longrightarrow>
     length args \<le> cmd_maxargs c \<Longrightarrow> \<not> cmd_is_bootd c \<or> flag AND CMD_FLAG_BOOTD = 0 \<Longrightarrow>
     flag' = (if cmd_is_bootd c then flag OR CMD_FLAG_BOOTD else flag) \<Longrightarrow>
     sh_exec sh c flag' args s = Some (0, s') \<Longrightarrow> \<not> sh_had_ctrlc sh s' \<Longrightarrow>
     runs cb ma sh flag' ts s' (rep \<and> cmd_repeatable c) r s'' \<Longrightarrow>
     runs cb ma sh flag (t # ts) s rep r s''"

inductive_cases runs_NilE: "runs cb ma sh flag [] s rep r s'"
inductive_cases runs_ConsE: "runs cb ma sh flag (t # ts) s rep r s'"

lemma runs_Nil: "runs cb ma sh flag [] s rep r s' \<longleftrightarrow> (r, s') = (if rep then 1 else 0, s)"
  by (cases rep) (auto elim: runs_NilE intro: runs.intros)

lemma command_args_eq:
  "command_args cb ma env t args \<longleftrightarrow>
     (\<exists>text. process_macros cb env t = Some (text, True) \<and> fst (parse_line ma text) = args \<and> args \<noteq> [])"
  by (auto simp: command_args_def parse_line_words)

lemma run_token_args:
  "run_token cb ma sh t flag s = Some x \<Longrightarrow> \<exists>args. command_args cb ma (sh_env sh s) t args"
  by (auto simp: run_token_def command_args_eq bind_eq_Some_conv Let_def split: if_splits)

lemma run_token_eq:
  assumes "command_args cb ma (sh_env sh s) t args"
  shows "run_token cb ma sh t flag s =
    (case find_cmd (sh_tbl sh) (hd args) of
       None \<Rightarrow> Some (Some (-1), False, flag, s)
     | Some c \<Rightarrow>
         if length args > cmd_maxargs c then Some (Some (-1), False, flag, s)
         else if cmd_is_bootd c \<and> flag AND CMD_FLAG_BOOTD \<noteq> 0 then Some (Some (-1), False, flag, s)
         else
           let flag = (if cmd_is_bootd c then flag OR CMD_FLAG_BOOTD else flag) in
           do { (rc, s) \<leftarrow> sh_exec sh c flag args s;
                if rc \<noteq> 0 then Some (Some (-1), False, flag, s)
                else if sh_had_ctrlc sh s then Some (Some 0, False, flag, s)
                else Some (None, cmd_repeatable c, flag, s) })"
  using assms unfolding command_args_eq by (elim exE conjE) (simp add: run_token_def)

lemma command_args_unique:
  "command_args cb ma env t args \<Longrightarrow> command_args cb ma env t args' \<Longrightarrow> args' = args"
  by (auto simp: command_args_def)

lemma run_token_executes:
  assumes "command_args cb ma (sh_env sh s) t args" and "find_cmd (sh_tbl sh) (hd args) = Some c"
    and "length args \<le> cmd_maxargs c" and "\<not> cmd_is_bootd c \<or> flag AND CMD_FLAG_BOOTD = 0"
  shows "run_token cb ma sh t flag s =
    (let flag = (if cmd_is_bootd c then flag OR CMD_FLAG_BOOTD else flag) in
     do { (rc, s) \<leftarrow> sh_exec sh c flag args s;
          if rc \<noteq> 0 then Some (Some (-1), False, flag, s)
          else if sh_had_ctrlc sh s then Some (Some 0, False, flag, s)
          else Some (None, cmd_repeatable c, flag, s) })"
proof -
  have "(cmd_maxargs c < length args) = False" "(cmd_is_bootd c \<and> flag AND CMD_FLAG_BOOTD \<noteq> 0) = False"
    using assms(3,4) by auto
  then show ?thesis by (simp only: run_token_eq [OF assms(1)] assms(2) option.case if_False)
qed

lemma runs_imp_run_list:
  "runs cb ma sh flag ts s rep r s' \<Longrightarrow> run_list cb ma sh ts flag rep s = Some (r, s')"
proof (induction rule: runs.induct)
  case (runs_next s t args c flag flag' s' ts rep r s'')
  from runs_next.hyps(5-7) runs_next.IH show ?case
    by (simp add: run_token_executes [OF runs_next.hyps(1-4)] Let_def)
qed (auto simp: run_token_executes run_token_eq Let_def)

lemma run_list_imp_runs:
  "run_list cb ma sh ts flag rep s = Some (r, s') \<Longrightarrow> runs cb ma sh flag ts s rep r s'"
proof (induction ts arbitrary: flag rep s)
  case Nil
  then show ?case by (simp add: runs_Nil)
next
  case (Cons t ts)
  obtain x where "run_token cb ma sh t flag s = Some x"
    using Cons.prems by (auto simp: bind_eq_Some_conv)
  from run_token_args [OF this] obtain args where a: "command_args cb ma (sh_env sh s) t args" ..
  note p = Cons.prems [unfolded run_list.simps]
  show ?case
  proof (cases "find_cmd (sh_tbl sh) (hd args)")
    case None
    with p a show ?thesis by (auto simp: run_token_eq [OF a] intro: runs_unknown)
  next
    case (Some c)
    show ?thesis
    proof (cases "cmd_maxargs c < length args \<or> cmd_is_bootd c \<and> flag AND CMD_FLAG_BOOTD \<noteq> 0")
      case True
      with p Some have "r = - 1" "s' = s" by (auto simp: run_token_eq [OF a] split: if_splits)
      with True a Some show ?thesis by (auto intro: runs_usage runs_recursion)
    next
      case False
      let ?f = "if cmd_is_bootd c then flag OR CMD_FLAG_BOOTD else flag"
      from False have g: "length args \<le> cmd_maxargs c" "\<not> cmd_is_bootd c \<or> flag AND CMD_FLAG_BOOTD = 0" by auto
      note q = p [unfolded run_token_executes [OF a Some g] Let_def]
      obtain rc s1 where e: "sh_exec sh c ?f args s = Some (rc, s1)"
        using q by (cases "sh_exec sh c ?f args s") auto
      consider "rc \<noteq> 0" | "rc = 0" "sh_had_ctrlc sh s1" | "rc = 0" "\<not> sh_had_ctrlc sh s1" by blast
      then show ?thesis
      proof cases
        case 1
        with q e have "r = - 1" "s' = s1" by simp_all
        with runs_failed [OF a Some g e 1] show ?thesis by simp
      next
        case 2
        with q e have "r = 0" "s' = s1" by simp_all
        with runs_interrupted [OF a Some g e [unfolded 2(1)] 2(2)] show ?thesis by simp
      next
        case 3
        with q e have "run_list cb ma sh ts ?f (rep \<and> cmd_repeatable c) s1 = Some (r, s')" by simp
        from runs_next [OF a Some g refl e [unfolded 3(1)] 3(2) Cons.IH [OF this]] show ?thesis .
      qed
    qed
  qed
qed

lemma runs_iff: "runs cb ma sh flag ts s rep r s' \<longleftrightarrow> run_list cb ma sh ts flag rep s = Some (r, s')"
  by (rule iffI [OF runs_imp_run_list run_list_imp_runs])

subsection \<open>Results and long variables\<close>

lemma macro_loop_too_long:
  assumes m: "env_models d es" and wf: "wf_segment (Var n)" and "cb \<le> length (expand es (Var n))" and "0 < cb"
  shows "process_macros cb d (render (Var n)) = Some (take cb (expand es (Var n)), False)"
proof -
  have n: "wf_name n" "backslash \<notin> set n" "ch CHR '')'' \<notin> set n" using wf by auto
  have "takeWhile (\<lambda>c. c \<noteq> 0) n = n" using n(1) by (auto simp: wf_name_def takeWhile_eq_all_conv)
  then have val: "getenv_str d (takeWhile (\<lambda>c. c \<noteq> 0) ([] @ n)) = Some (map_of es n)"
    using getenv_str_models [OF m n(1)] by (simp only: append_Nil)
  have "macro_loop d (render (Var n)) 0 0 [] [] cb = macro_loop d (n @ ch CHR '')'' # []) (ch CHR ''('') 2 [] [] cb"
    using assms(4) by (subst macro_loop.simps, simp add: macro_char_def,
        subst macro_loop.simps, simp add: macro_char_def)
  with macro_loop_name [OF n(2,3) assms(4) _ val, of "ch CHR ''(''" "[]" "[]"] assms(3,4)
  show ?thesis by (auto simp: emit_def process_macros_def split: option.splits)
qed

lemma run_command_range:
  "run_command cb ma sh cmd flag s = Some (rc, s') \<Longrightarrow> rc \<in> {-1, 0, 1}"
proof -
  have "run_tokens cb ma sh line flag rep s = Some (rc, s') \<Longrightarrow> rc \<in> {-1, 0, 1}" for line flag rep s
  proof (induction cb ma sh line flag rep s rule: run_tokens.induct)
    case (1 cb ma sh line flag rep s)
    show ?case
    proof (cases "line = []")
      case True
      with 1(2) show ?thesis by (subst (asm) run_tokens.simps) (auto split: if_splits)
    next
      case False
      with 1(2) obtain ret r f s1
        where t: "run_token cb ma sh (fst (next_token line)) flag s = Some (ret, r, f, s1)"
          and rest: "(case ret of Some rc \<Rightarrow> Some (rc, s1)
            | None \<Rightarrow> run_tokens cb ma sh (snd (next_token line)) f (rep \<and> r) s1) = Some (rc, s')"
        by (subst (asm) run_tokens.simps) (auto simp: bind_eq_Some_conv)
      show ?thesis
      proof (cases ret)
        case None
        with 1(1) [OF False t refl refl refl] rest show ?thesis by simp
      next
        case (Some c)
        with t rest show ?thesis
          by (auto simp: run_token_def bind_eq_Some_conv Let_def split: if_splits option.splits)
      qed
    qed
  qed
  then show "run_command cb ma sh cmd flag s = Some (rc, s') \<Longrightarrow> rc \<in> {-1, 0, 1}"
    by (auto simp: run_command_def Let_def split: option.splits if_splits)
qed

section \<open>Properties\<close>

text \<open>
  C16: variable expansion. A line made of literal text (dollar signs escaped) and \<^verbatim>\<open>$(name)\<close>
  references becomes the text with every reference replaced by the variable's value, nothing
  for an undefined one, as long as the result leaves room for its NUL.
\<close>

theorem process_macros_expands:
  assumes "env_models d es" and "list_all wf_segment segs"
    and "length (concat (map (expand es) segs)) < cbsize"
  shows "process_macros cbsize d (concat (map render segs)) = Some (concat (map (expand es) segs), True)"
  using macro_loop_segments [OF assms(1,2), of cbsize 0 "[]" "[]"] assms(3)
  by (simp add: process_macros_def)

theorem process_macros_expands_witness:
  "process_macros 32 (env_data env_example) ([backslash] @ str ''$(a)=$(a)$(b)'') = Some (str ''$(a)=1'', True)"
proof -
  let ?segs = "[Lit (str ''$(a)=''), Var (str ''a''), Var (str ''b'')]"
  have "concat (map render ?segs) = [backslash] @ str ''$(a)=$(a)$(b)''" by (simp add: escape_def)
  then show ?thesis
    using process_macros_expands [OF env_example_models, of ?segs 32] by (simp add: wf_name_def)
qed

text \<open>
  \<open>process_macros\<close> never writes more than \<^verbatim>\<open>CFG_CBSIZE\<close> bytes to its output, for any input and
  environment, and the output has its NUL exactly when it is shorter.
\<close>

theorem process_macros_bound:
  assumes "process_macros cbsize d input = Some (out, nul)"
  shows "length out \<le> cbsize \<and> (nul \<longleftrightarrow> length out < cbsize)"
proof -
  obtain room where "macro_loop d input 0 0 [] [] cbsize = Some (out, room)" "nul = (room > 0)"
    using assms by (auto simp: process_macros_def)
  with macro_loop_room [of d input 0 0 "[]" "[]" cbsize out room] show ?thesis by auto
qed

theorem process_macros_bound_witness:
  "length (str ''ab'') \<le> 2 \<and> (False \<longleftrightarrow> length (str ''ab'') < 2)"
proof -
  have "process_macros 2 [0, 0] (str ''abc'') = Some (str ''ab'', False)" by code_simp
  from process_macros_bound [OF this] show ?thesis .
qed

text \<open>
  A reference to a variable whose value does not fit fills the output without a NUL, and
  \<open>run_command\<close> then parses bytes behind its local buffer.
\<close>

theorem run_command_long_variable:
  assumes "env_models (sh_env sh (sh_clear_ctrlc sh s)) es" and "wf_segment (Var n)"
    and "map_of es n = Some v" and "cbsize \<le> length v" and "length n + 3 < cbsize"
    and "ch CHR '';'' \<notin> set n"
  shows "run_command cbsize maxargs sh (Some (render (Var n))) flag s = None"
proof -
  have "is_cmd (render (Var n))" using assms(6) by (simp add: is_cmd_def)
  from run_tokens_list [of "[render (Var n)]" cbsize maxargs sh flag True "sh_clear_ctrlc sh s"] this
  have "run_tokens cbsize maxargs sh (render (Var n)) flag True (sh_clear_ctrlc sh s) =
      run_list cbsize maxargs sh [render (Var n)] flag True (sh_clear_ctrlc sh s)" by simp
  moreover have "process_macros cbsize (sh_env sh (sh_clear_ctrlc sh s)) (render (Var n)) = Some (take cbsize v, False)"
    using macro_loop_too_long [OF assms(1,2), of cbsize] assms(3-5) by simp
  ultimately show ?thesis using assms(5)
    by (simp add: run_command_def run_token_def)
qed

definition shell_example :: "byte list shell" where
  "shell_example = \<lparr>sh_tbl = [\<lparr>cmd_name = str ''echo'', cmd_lmin = 4, cmd_maxargs = 8, cmd_repeatable = True,
       cmd_is_bootd = False, cmd_usage = None, cmd_help = None\<rparr>],
     sh_exec = (\<lambda>t flag argv d. Some (0, d)), sh_env = (\<lambda>d. d), sh_had_ctrlc = (\<lambda>d. False),
     sh_clear_ctrlc = (\<lambda>d. d)\<rparr>"

theorem run_command_long_variable_witness:
  "run_command 8 4 shell_example (Some (render (Var (str ''a'')))) 0 (str ''a=12345678'' @ [0, 0]) = None"
proof (rule run_command_long_variable)
  show "env_models (sh_env shell_example (sh_clear_ctrlc shell_example (str ''a=12345678'' @ [0, 0])))
      [(str ''a'', str ''12345678'')]"
    by (auto simp: shell_example_def env_models_def wf_var_def wf_name_def entry_def)
  show "8 \<le> length (str ''12345678'')" by code_simp
qed (simp_all add: wf_name_def)

text \<open>
  arguments without blanks survive being joined into a line and parsed again, and their
  array is terminated by a null pointer.
\<close>

theorem parse_line_join:
  "list_all is_word args \<Longrightarrow> length args \<le> maxargs \<Longrightarrow> 0 < maxargs \<Longrightarrow>
   parse_line maxargs (join_args args) = (args, True)"
  unfolding parse_line_def by (rule parse_line_loop_join) auto

theorem parse_line_join_witness:
  "parse_line 3 (join_args [str ''cp'', str ''100'', str ''200'']) = ([str ''cp'', str ''100'', str ''200''], True)"
  by (rule parse_line_join) (simp_all add: is_word_def is_blank_def)

lemma joined_nonempty: "list_all is_cmd ts \<Longrightarrow> ts \<noteq> [] \<Longrightarrow> join_cmds ts \<noteq> []"
  by (cases ts rule: join_cmds.cases) (auto simp: is_cmd_def)

text \<open>
  C19: a line of commands separated by semicolons that fits the buffer is run as the relation \<open>runs\<close> says, with
  the same result and state, and returns if and only if there is such a run. Each command's variables are
  expanded with the environment its predecessors left and the first \<^verbatim>\<open>CFG_MAXARGS\<close> words are its arguments. The
  line ends with -1 at the first command that is unknown, has more arguments than its table entry allows, is a
  second \<^verbatim>\<open>bootd\<close> or fails, and with 0 when control-C was typed during it; otherwise the result is 1 if every
  command may be repeated and 0 if not. (The comment in front of \<open>run_command\<close> does not mention the -1 of a command
  that fails.)
\<close>

theorem run_command_sequence:
  assumes "list_all is_cmd ts" and "ts \<noteq> []" and "length (join_cmds ts) < cbsize"
  shows "run_command cbsize maxargs sh (Some (join_cmds ts)) flag s = Some (r, s') \<longleftrightarrow>
     runs cbsize maxargs sh flag ts (sh_clear_ctrlc sh s) True r s'"
  using assms joined_nonempty [OF assms(1,2)]
  by (simp add: run_command_def run_tokens_list [OF assms(1)] runs_iff)

theorem run_command_sequence_witness:
  "runs 32 4 shell_example 0 [str ''echo a'', str ''echo'', str ''x''] [0, 0] True (- 1) [0, 0]"
proof -
  let ?ts = "[str ''echo a'', str ''echo'', str ''x'']"
  have "run_command 32 4 shell_example (Some (join_cmds ?ts)) 0 [0, 0] = Some (- 1, [0, 0])"
    by code_simp
  moreover have "sh_clear_ctrlc shell_example [0, 0] = [0, 0]" by (simp add: shell_example_def)
  ultimately show ?thesis using run_command_sequence [of ?ts 32 4 shell_example 0 "[0, 0]" "- 1" "[0, 0]"]
    by (simp add: is_cmd_def)
qed

text \<open>
  A line with nothing but blanks makes \<open>run_command\<close> look up a null pointer.
\<close>

theorem run_command_blank_line: 
  assumes "1 < cbsize"
  shows "run_command cbsize maxargs sh (Some (str '' '')) flag s = None"
proof -
  have "process_macros cbsize d (str '' '') = Some (str '' '', True)" for d
    using assms by (simp add: process_macros_def macro_loop.simps macro_char_def emit_def)
  moreover have "fst (parse_line maxargs (str '' '')) = []"
    unfolding parse_line_words by (simp add: words_blank)
  ultimately have "run_token cbsize maxargs sh (str '' '') flag s = None" for s
    by (simp add: run_token_def)
  then show ?thesis using assms
    by (simp add: run_command_def run_tokens.simps next_token_def)
qed

theorem run_command_blank_line_witness:
  "run_command 256 16 shell_example (Some (str '' '')) 0 [0, 0] = None"
  by (rule run_command_blank_line) simp

text \<open>
  the command loop keeps a line for repetition only while its last run returned 1, that
  is, while all its commands ran, succeeded and may be repeated; after anything else Enter
  on an empty line runs nothing.
\<close>

theorem main_turn_repeat:
  assumes "ml_last l = [] \<or> ml_rc l = 1"
    and "main_turn cbsize maxargs sh len line l s = Some (Some (l', s'))"
  shows "ml_last l' = [] \<or> ml_rc l' = 1"
proof (cases "len = -1")
  case True
  with assms show ?thesis by (auto simp: main_turn_def Let_def split: if_splits)
next
  case False
  with assms(2) obtain rc where r: "run_command cbsize maxargs sh
      (Some (if len > 0 then takeWhile (\<lambda>c. c \<noteq> 0) line else ml_last l))
      (if len = 0 then CMD_FLAG_REPEAT else 0) s = Some (rc, s')"
    and l': "ml_last l' = (if rc \<le> 0 then [] else (if len > 0 then takeWhile (\<lambda>c. c \<noteq> 0) line else ml_last l))"
      "ml_rc l' = rc"
    by (auto simp: main_turn_def Let_def bind_eq_Some_conv split: if_splits)
  from run_command_range [OF r] l' show ?thesis by auto
qed

theorem main_turn_repeat_witness:
  "ml_last \<lparr>ml_last = str ''echo'', ml_rc = 1\<rparr> = [] \<or> ml_rc \<lparr>ml_last = str ''echo'', ml_rc = 1\<rparr> = (1 :: int)"
proof (rule main_turn_repeat)
  show "main_turn 32 4 shell_example 4 (str ''echo'') \<lparr>ml_last = [], ml_rc = 1\<rparr> [0, 0] =
    Some (Some (\<lparr>ml_last = str ''echo'', ml_rc = 1\<rparr>, [0, 0]))"
    by code_simp
qed simp

end
