(* ===== verification/Image.thy ===== *)
theory Image
  imports Vsprintf Crc32
begin

text \<open>
  Boot images: the header of \<^verbatim>\<open>include/image.h\<close>, as a record and as the 64 bytes it takes in
  network byte order, and the tool that makes images, \<^verbatim>\<open>tools/mkimage.c\<close>, for a host whose
  \<^verbatim>\<open>unsigned long\<close> has 32 bits. Files are byte lists; the file system is an argument (a name's
  contents, if it can be opened).
\<close>

section \<open>The header\<close>

definition IH_OS_INVALID :: byte where "IH_OS_INVALID = 0"
definition IH_OS_OPENBSD :: byte where "IH_OS_OPENBSD = 1"
definition IH_OS_NETBSD :: byte where "IH_OS_NETBSD = 2"
definition IH_OS_FREEBSD :: byte where "IH_OS_FREEBSD = 3"
definition IH_OS_4_4BSD :: byte where "IH_OS_4_4BSD = 4"
definition IH_OS_LINUX :: byte where "IH_OS_LINUX = 5"
definition IH_OS_SVR4 :: byte where "IH_OS_SVR4 = 6"
definition IH_OS_ESIX :: byte where "IH_OS_ESIX = 7"
definition IH_OS_SOLARIS :: byte where "IH_OS_SOLARIS = 8"
definition IH_OS_IRIX :: byte where "IH_OS_IRIX = 9"
definition IH_OS_SCO :: byte where "IH_OS_SCO = 10"
definition IH_OS_DELL :: byte where "IH_OS_DELL = 11"
definition IH_OS_NCR :: byte where "IH_OS_NCR = 12"
definition IH_OS_LYNXOS :: byte where "IH_OS_LYNXOS = 13"
definition IH_OS_VXWORKS :: byte where "IH_OS_VXWORKS = 14"
definition IH_OS_PSOS :: byte where "IH_OS_PSOS = 15"
definition IH_OS_QNX :: byte where "IH_OS_QNX = 16"
definition IH_OS_PPCBOOT :: byte where "IH_OS_PPCBOOT = 17"

definition IH_CPU_INVALID :: byte where "IH_CPU_INVALID = 0"
definition IH_CPU_ALPHA :: byte where "IH_CPU_ALPHA = 1"
definition IH_CPU_ARM :: byte where "IH_CPU_ARM = 2"
definition IH_CPU_I386 :: byte where "IH_CPU_I386 = 3"
definition IH_CPU_IA64 :: byte where "IH_CPU_IA64 = 4"
definition IH_CPU_MIPS :: byte where "IH_CPU_MIPS = 5"
definition IH_CPU_MIPS64 :: byte where "IH_CPU_MIPS64 = 6"
definition IH_CPU_PPC :: byte where "IH_CPU_PPC = 7"
definition IH_CPU_S390 :: byte where "IH_CPU_S390 = 8"
definition IH_CPU_SH :: byte where "IH_CPU_SH = 9"
definition IH_CPU_SPARC :: byte where "IH_CPU_SPARC = 10"
definition IH_CPU_SPARC64 :: byte where "IH_CPU_SPARC64 = 11"

definition IH_TYPE_INVALID :: byte where "IH_TYPE_INVALID = 0"
definition IH_TYPE_STANDALONE :: byte where "IH_TYPE_STANDALONE = 1"
definition IH_TYPE_KERNEL :: byte where "IH_TYPE_KERNEL = 2"
definition IH_TYPE_RAMDISK :: byte where "IH_TYPE_RAMDISK = 3"
definition IH_TYPE_MULTI :: byte where "IH_TYPE_MULTI = 4"
definition IH_TYPE_FIRMWARE :: byte where "IH_TYPE_FIRMWARE = 5"
definition IH_TYPE_SCRIPT :: byte where "IH_TYPE_SCRIPT = 6"

definition IH_COMP_NONE :: byte where "IH_COMP_NONE = 0"
definition IH_COMP_GZIP :: byte where "IH_COMP_GZIP = 1"
definition IH_COMP_BZIP2 :: byte where "IH_COMP_BZIP2 = 2"

lemmas IH_OS_defs = IH_OS_INVALID_def IH_OS_OPENBSD_def IH_OS_NETBSD_def IH_OS_FREEBSD_def IH_OS_4_4BSD_def
  IH_OS_LINUX_def IH_OS_SVR4_def IH_OS_ESIX_def IH_OS_SOLARIS_def IH_OS_IRIX_def IH_OS_SCO_def IH_OS_DELL_def
  IH_OS_NCR_def IH_OS_LYNXOS_def IH_OS_VXWORKS_def IH_OS_PSOS_def IH_OS_QNX_def IH_OS_PPCBOOT_def
lemmas IH_CPU_defs = IH_CPU_INVALID_def IH_CPU_ALPHA_def IH_CPU_ARM_def IH_CPU_I386_def IH_CPU_IA64_def
  IH_CPU_MIPS_def IH_CPU_MIPS64_def IH_CPU_PPC_def IH_CPU_S390_def IH_CPU_SH_def IH_CPU_SPARC_def IH_CPU_SPARC64_def
lemmas IH_TYPE_defs = IH_TYPE_INVALID_def IH_TYPE_STANDALONE_def IH_TYPE_KERNEL_def IH_TYPE_RAMDISK_def
  IH_TYPE_MULTI_def IH_TYPE_FIRMWARE_def IH_TYPE_SCRIPT_def
lemmas IH_COMP_defs = IH_COMP_NONE_def IH_COMP_GZIP_def IH_COMP_BZIP2_def

definition IH_MAGIC :: u32 where "IH_MAGIC = 0x27051956"
definition IH_NMLEN :: nat where "IH_NMLEN = 32"
definition IH_SIZE :: nat where "IH_SIZE = 64"

record image_header =
  ih_magic :: u32
  ih_hcrc :: u32
  ih_time :: u32
  ih_size :: u32
  ih_load :: u32
  ih_ep :: u32
  ih_dcrc :: u32
  ih_os :: byte
  ih_arch :: byte
  ih_type :: byte
  ih_comp :: byte
  ih_name :: "byte list"

definition header_bytes :: "image_header \<Rightarrow> byte list" where
  "header_bytes h = be32 (ih_magic h) @ be32 (ih_hcrc h) @ be32 (ih_time h) @ be32 (ih_size h) @
     be32 (ih_load h) @ be32 (ih_ep h) @ be32 (ih_dcrc h) @
     [ih_os h, ih_arch h, ih_type h, ih_comp h] @ ih_name h"

text \<open>The fields as \<^verbatim>\<open>ntohl(hdr->...)\<close> reads them.\<close>

definition header_of :: "byte list \<Rightarrow> image_header" where
  "header_of bs =
     \<lparr>ih_magic = be32_dec bs, ih_hcrc = be32_dec (drop 4 bs), ih_time = be32_dec (drop 8 bs),
      ih_size = be32_dec (drop 12 bs), ih_load = be32_dec (drop 16 bs), ih_ep = be32_dec (drop 20 bs),
      ih_dcrc = be32_dec (drop 24 bs), ih_os = bs ! 28, ih_arch = bs ! 29, ih_type = bs ! 30,
      ih_comp = bs ! 31, ih_name = take IH_NMLEN (drop 32 bs)\<rparr>"

lemma length_header_bytes [simp]: "length (ih_name h) = IH_NMLEN \<Longrightarrow> length (header_bytes h) = IH_SIZE"
  by (simp add: header_bytes_def IH_NMLEN_def IH_SIZE_def)

lemma drop_be32 [simp]: "drop 4 (be32 w @ xs) = xs"
  by simp

lemma header_of_bytes:
  assumes "length (ih_name h) = IH_NMLEN"
  shows "header_of (header_bytes h @ rest) = h"
proof -
  have "drop (4 + n) xs = drop n (drop 4 xs)" for n and xs :: "byte list" by (simp add: add.commute)
  from this [of 4] this [of 8] this [of 12] this [of 16] this [of 20] this [of 24] this [of 28]
  have d: "drop 8 xs = drop 4 (drop 4 xs)" "drop 12 xs = drop 8 (drop 4 xs)" "drop 16 xs = drop 12 (drop 4 xs)"
    "drop 20 xs = drop 16 (drop 4 xs)" "drop 24 xs = drop 20 (drop 4 xs)" "drop 28 xs = drop 24 (drop 4 xs)"
    "drop 32 xs = drop 28 (drop 4 xs)" for xs :: "byte list" by simp_all
  have n: "xs ! (28 + i) = drop 28 xs ! i" if "length xs \<ge> 28" for i and xs :: "byte list"
    using that by simp
  have len: "28 \<le> length (header_bytes h @ rest)" using assms by (simp add: IH_SIZE_def)
  have tl: "drop 28 (header_bytes h @ rest) = [ih_os h, ih_arch h, ih_type h, ih_comp h] @ ih_name h @ rest"
    by (simp only: header_bytes_def append_assoc d drop_be32)
  show ?thesis
    using n [OF len, of 0] n [OF len, of 1] n [OF len, of 2] n [OF len, of 3] assms
    unfolding header_of_def tl
    by (simp add: d header_bytes_def del: nth_append_length)
qed

section \<open>Names of the codes\<close>

text \<open>A row of the tables: value, short name (null for none) and long name.\<close>

type_synonym table_entry = "byte \<times> string option \<times> string"

definition arch_name :: "table_entry list" where
  "arch_name =
     [(IH_CPU_INVALID, None, ''Invalid CPU''), (IH_CPU_ALPHA, Some ''alpha'', ''Alpha''),
      (IH_CPU_ARM, Some ''arm'', ''ARM''), (IH_CPU_I386, Some ''x86'', ''Intel x86''),
      (IH_CPU_IA64, Some ''ia64'', ''IA64''), (IH_CPU_MIPS, Some ''mips'', ''MIPS''),
      (IH_CPU_MIPS64, Some ''mips64'', ''MIPS 64 Bit''), (IH_CPU_PPC, Some ''ppc'', ''PowerPC''),
      (IH_CPU_S390, Some ''s390'', ''IBM S390''), (IH_CPU_SH, Some ''sh'', ''SuperH''),
      (IH_CPU_SPARC, Some ''sparc'', ''SPARC''), (IH_CPU_SPARC64, Some ''sparc64'', ''SPARC 64 Bit'')]"

definition os_name :: "table_entry list" where
  "os_name =
     [(IH_OS_INVALID, None, ''Invalid OS''), (IH_OS_OPENBSD, Some ''openbsd'', ''OpenBSD''),
      (IH_OS_NETBSD, Some ''netbsd'', ''NetBSD''), (IH_OS_FREEBSD, Some ''freebsd'', ''FreeBSD''),
      (IH_OS_4_4BSD, Some ''4_4bsd'', ''4_4BSD''), (IH_OS_LINUX, Some ''linux'', ''Linux''),
      (IH_OS_SVR4, Some ''svr4'', ''SVR4''), (IH_OS_ESIX, Some ''esix'', ''Esix''),
      (IH_OS_SOLARIS, Some ''solaris'', ''Solaris''), (IH_OS_IRIX, Some ''irix'', ''Irix''),
      (IH_OS_SCO, Some ''sco'', ''SCO''), (IH_OS_DELL, Some ''dell'', ''Dell''),
      (IH_OS_NCR, Some ''ncr'', ''NCR''), (IH_OS_LYNXOS, Some ''lynxos'', ''LynxOS''),
      (IH_OS_VXWORKS, Some ''vxworks'', ''VxWorks''), (IH_OS_PSOS, Some ''psos'', ''pSOS''),
      (IH_OS_QNX, Some ''qnx'', ''QNX''), (IH_OS_PPCBOOT, Some ''ppcboot'', ''PPCBoot'')]"

definition type_name :: "table_entry list" where
  "type_name =
     [(IH_TYPE_INVALID, None, ''Invalid Image''), (IH_TYPE_STANDALONE, Some ''standalone'', ''Standalone Program''),
      (IH_TYPE_KERNEL, Some ''kernel'', ''Kernel Image''), (IH_TYPE_RAMDISK, Some ''ramdisk'', ''RAMDisk Image''),
      (IH_TYPE_MULTI, Some ''multi'', ''Multi-File Image''), (IH_TYPE_FIRMWARE, Some ''firmware'', ''Firmware''),
      (IH_TYPE_SCRIPT, Some ''script'', ''Script'')]"

definition comp_name :: "table_entry list" where
  "comp_name =
     [(IH_COMP_NONE, Some ''none'', ''uncompressed''), (IH_COMP_GZIP, Some ''gzip'', ''gzip compressed''),
      (IH_COMP_BZIP2, Some ''bzip2'', ''bzip2 compressed'')]"

fun put_table_entry :: "table_entry list \<Rightarrow> string \<Rightarrow> byte \<Rightarrow> string" where
  "put_table_entry [] msg v = msg"
| "put_table_entry ((val, sname, lname) # table) msg v =
     (if val = v then lname else put_table_entry table msg v)"

text \<open>\<^verbatim>\<open>strcasecmp (a, b) == 0\<close> in the C locale; the result \<open>None\<close> of a search is -1.\<close>

definition ascii_lower :: "byte \<Rightarrow> byte" where
  "ascii_lower c = (if ch CHR ''A'' \<le> c \<and> c \<le> ch CHR ''Z'' then c + 32 else c)"

definition strcasecmp_eq :: "byte list \<Rightarrow> byte list \<Rightarrow> bool" where
  "strcasecmp_eq a b \<longleftrightarrow> map ascii_lower a = map ascii_lower b"

fun get_table_entry :: "table_entry list \<Rightarrow> byte list \<Rightarrow> byte option" where
  "get_table_entry [] name = None"
| "get_table_entry ((val, sname, lname) # table) name =
     (if sname \<noteq> None \<and> strcasecmp_eq (str (the sname)) name then Some val
      else get_table_entry table name)"

text \<open>The words of \<^verbatim>\<open>print_type\<close> in the tool: architecture, system, type, compression.\<close>

definition mk_print_type :: "image_header \<Rightarrow> string list" where
  "mk_print_type h =
     [put_table_entry arch_name ''Unknown Architecture'' (ih_arch h),
      put_table_entry os_name ''Unknown OS'' (ih_os h),
      put_table_entry type_name ''Unknown Image'' (ih_type h),
      put_table_entry comp_name ''Unknown Compression'' (ih_comp h)]"

section \<open>Making an image\<close>

record mk_opts =
  opt_os :: byte
  opt_arch :: byte
  opt_type :: byte
  opt_comp :: byte
  opt_addr :: u32
  opt_ep :: "u32 option"
  opt_xip :: bool
  opt_name :: "byte list"

text \<open>The entry point after the options are read; \<open>None\<close> is the exit for a bad XIP entry.\<close>

definition mk_entry :: "mk_opts \<Rightarrow> u32 option" where
  "mk_entry opts =
     (let ep = (case opt_ep opts of
                  Some e \<Rightarrow> e
                | None \<Rightarrow> if opt_xip opts then opt_addr opts + of_nat IH_SIZE else opt_addr opts)
      in if opt_xip opts \<and> ep \<noteq> opt_addr opts + of_nat IH_SIZE then None else Some ep)"

text \<open>
  \<open>copy_file\<close>: the bytes appended to the image; \<open>None\<close> is an exit with an error. With \<^verbatim>\<open>-x\<close> the
  file must start with the 64 bytes of \<^verbatim>\<open>0xff\<close> that the header replaces. An empty file cannot be
  mapped (\<^verbatim>\<open>mmap\<close> of no bytes fails).
\<close>

definition copy_file :: "bool \<Rightarrow> byte list option \<Rightarrow> bool \<Rightarrow> byte list option" where
  "copy_file xip file pad =
     (case file of
        None \<Rightarrow> None
      | Some bs \<Rightarrow>
          if bs = [] then None
          else if xip \<and> (length bs < IH_SIZE \<or> \<not> list_all (\<lambda>b. b = 0xff) (take IH_SIZE bs)) then None
          else
            let data = (if xip then drop IH_SIZE bs else bs); tail = length data mod 4
            in Some (data @ (if pad \<and> tail \<noteq> 0 then replicate (4 - tail) 0 else [])))"

text \<open>\<^verbatim>\<open>strchr (file, ':')\<close>: the name before the separator and what follows it, if there is one.\<close>

definition split_file :: "byte list \<Rightarrow> byte list \<times> byte list option" where
  "split_file file =
     (let rest = dropWhile (\<lambda>c. c \<noteq> ch CHR '':'') file
      in (takeWhile (\<lambda>c. c \<noteq> ch CHR '':'') file, if rest = [] then None else Some (tl rest)))"

lemma split_file_length: "split_file file = (name, Some rest) \<Longrightarrow> length rest < length file"
proof -
  assume "split_file file = (name, Some rest)"
  then have r: "dropWhile (\<lambda>c. c \<noteq> ch CHR '':'') file \<noteq> []"
    and t: "rest = tl (dropWhile (\<lambda>c. c \<noteq> ch CHR '':'') file)"
    by (auto simp: split_file_def Let_def split: if_splits)
  then have "length rest < length (dropWhile (\<lambda>c. c \<noteq> ch CHR '':'') file)"
    by (cases "dropWhile (\<lambda>c. c \<noteq> ch CHR '':'') file") auto
  also have "\<dots> \<le> length file" by (rule length_dropWhile_le)
  finally show ?thesis .
qed

text \<open>
  The two loops over the file list of a multi-file image: the table of sizes, ended by a
  zero, and the files, all but the last padded to a multiple of four.
\<close>

function size_table :: "(byte list \<Rightarrow> byte list option) \<Rightarrow> byte list option \<Rightarrow> byte list option" where
  "size_table fs None = Some (be32 0)"
| "size_table fs (Some file) =
     (case fs (fst (split_file file)) of
        None \<Rightarrow> None
      | Some bs \<Rightarrow> map_option (\<lambda>t. be32 (of_nat (length bs)) @ t) (size_table fs (snd (split_file file))))"
  by pat_completeness auto
termination
  by (relation "measure (\<lambda>(fs, f). case f of None \<Rightarrow> 0 | Some f \<Rightarrow> Suc (length f))")
    (auto split: option.split intro: split_file_length [OF prod_eqI])

function copy_files :: "bool \<Rightarrow> (byte list \<Rightarrow> byte list option) \<Rightarrow> byte list \<Rightarrow> byte list option" where
  "copy_files xip fs file =
     (case snd (split_file file) of
        None \<Rightarrow> copy_file xip (fs (fst (split_file file))) False
      | Some rest \<Rightarrow>
          (case copy_file xip (fs (fst (split_file file))) True of
             None \<Rightarrow> None
           | Some bs \<Rightarrow> map_option (\<lambda>t. bs @ t) (copy_files xip fs rest)))"
  by pat_completeness auto
termination
  by (relation "measure (\<lambda>(x, fs, f). length f)") (auto intro: split_file_length [OF prod_eqI])

declare size_table.simps [simp del] copy_files.simps [simp del]

definition mk_data :: "mk_opts \<Rightarrow> (byte list \<Rightarrow> byte list option) \<Rightarrow> byte list \<Rightarrow> byte list option" where
  "mk_data opts fs datafile =
     (if opt_type opts = IH_TYPE_MULTI \<or> opt_type opts = IH_TYPE_SCRIPT then
        (case size_table fs (Some datafile) of
           None \<Rightarrow> None
         | Some t \<Rightarrow> map_option (\<lambda>d. t @ d) (copy_files (opt_xip opts) fs datafile))
      else copy_file (opt_xip opts) (fs datafile) False)"

text \<open>\<^verbatim>\<open>strncpy (hdr->ih_name, name, IH_NMLEN)\<close> into a zeroed field.\<close>

definition name_field :: "byte list \<Rightarrow> byte list" where
  "name_field name = take IH_NMLEN (name @ replicate IH_NMLEN 0)"

definition mk_header :: "mk_opts \<Rightarrow> u32 \<Rightarrow> u32 \<Rightarrow> byte list \<Rightarrow> image_header" where
  "mk_header opts ep mtime data =
     (let h = \<lparr>ih_magic = IH_MAGIC, ih_hcrc = 0, ih_time = mtime, ih_size = of_nat (length data),
               ih_load = opt_addr opts, ih_ep = ep, ih_dcrc = crc32 0 (Some data), ih_os = opt_os opts,
               ih_arch = opt_arch opts, ih_type = opt_type opts, ih_comp = opt_comp opts,
               ih_name = name_field (opt_name opts)\<rparr>
      in h\<lparr>ih_hcrc := crc32 0 (Some (header_bytes h))\<rparr>)"

definition mkimage :: "mk_opts \<Rightarrow> (byte list \<Rightarrow> byte list option) \<Rightarrow> byte list \<Rightarrow> u32 \<Rightarrow> byte list option" where
  "mkimage opts fs datafile mtime =
     (case mk_entry opts of
        None \<Rightarrow> None
      | Some ep \<Rightarrow>
          map_option (\<lambda>data. header_bytes (mk_header opts ep mtime data) @ data) (mk_data opts fs datafile))"

text \<open>
  \<^verbatim>\<open>mkimage -l\<close>: \<open>None\<close> when the file is refused (too short, bad magic number), else whether the
  header checksum and the data checksum agree.
\<close>

definition mk_list :: "byte list \<Rightarrow> (bool \<times> bool) option" where
  "mk_list file =
     (if length file < IH_SIZE then None
      else
        let h = header_of file in
        if ih_magic h \<noteq> IH_MAGIC then None
        else Some (crc32 0 (Some (header_bytes (h\<lparr>ih_hcrc := 0\<rparr>))) = ih_hcrc h,
                   crc32 0 (Some (drop IH_SIZE file)) = ih_dcrc h))"

text \<open>
  The contents list of \<open>print_header\<close>: size and printed offset of each image, from the sizes
  before the terminating zero. The offset starts at \<^verbatim>\<open>sizeof(header) + ptrs * sizeof(long)\<close>.
\<close>

fun content_list :: "u32 list \<Rightarrow> u32 \<Rightarrow> (u32 \<times> u32) list" where
  "content_list [] pos = []"
| "content_list (sz # szs) pos = (sz, pos) # content_list szs (pos + ((sz + 3) AND NOT 3))"

definition mk_contents :: "u32 list \<Rightarrow> (u32 \<times> u32) list" where
  "mk_contents szs = content_list szs (of_nat IH_SIZE + of_nat (length szs) * 4)"

section \<open>The command line of the tool\<close>

text \<open>
  \<open>strtoul\<close> is the host's \<^verbatim>\<open>strtoul (s, &ptr, 16)\<close>: the value and what is left of the string. \<open>None\<close> is an exit
  with an error or the usage message.
\<close>

record mk_args =
  arg_opts :: mk_opts
  arg_list :: bool
  arg_data :: "byte list option"

definition mk_args_init :: mk_args where
  "mk_args_init =
     \<lparr>arg_opts = \<lparr>opt_os = IH_OS_LINUX, opt_arch = IH_CPU_PPC, opt_type = IH_TYPE_KERNEL, opt_comp = IH_COMP_GZIP,
        opt_addr = 0, opt_ep = None, opt_xip = False, opt_name = []\<rparr>,
      arg_list = False, arg_data = None\<rparr>"

definition set_number ::
    "(byte list \<Rightarrow> u32 \<times> byte list) \<Rightarrow> byte list \<Rightarrow> (u32 \<Rightarrow> mk_opts \<Rightarrow> mk_opts) \<Rightarrow> mk_args \<Rightarrow> mk_args option" where
  "set_number strtoul a upd st =
     (case strtoul a of (n, rest) \<Rightarrow> if rest = [] then Some (st\<lparr>arg_opts := upd n (arg_opts st)\<rparr>) else None)"

definition set_code :: "table_entry list \<Rightarrow> byte list \<Rightarrow> (byte \<Rightarrow> mk_opts \<Rightarrow> mk_opts) \<Rightarrow> mk_args \<Rightarrow> mk_args option" where
  "set_code table a upd st =
     map_option (\<lambda>v. st\<lparr>arg_opts := upd v (arg_opts st)\<rparr>) (get_table_entry table a)"

text \<open>An option letter that takes an argument.\<close>

definition option_arg :: "(byte list \<Rightarrow> u32 \<times> byte list) \<Rightarrow> byte \<Rightarrow> byte list \<Rightarrow> mk_args \<Rightarrow> mk_args option" where
  "option_arg strtoul c a st =
     (if c = ch CHR ''A'' then set_code arch_name a (\<lambda>v opts. opts\<lparr>opt_arch := v\<rparr>) st
      else if c = ch CHR ''C'' then set_code comp_name a (\<lambda>v opts. opts\<lparr>opt_comp := v\<rparr>) st
      else if c = ch CHR ''O'' then set_code os_name a (\<lambda>v opts. opts\<lparr>opt_os := v\<rparr>) st
      else if c = ch CHR ''T'' then set_code type_name a (\<lambda>v opts. opts\<lparr>opt_type := v\<rparr>) st
      else if c = ch CHR ''a'' then set_number strtoul a (\<lambda>n opts. opts\<lparr>opt_addr := n\<rparr>) st
      else if c = ch CHR ''d'' then Some (st\<lparr>arg_data := Some a\<rparr>)
      else if c = ch CHR ''e'' then set_number strtoul a (\<lambda>n opts. opts\<lparr>opt_ep := Some n\<rparr>) st
      else if c = ch CHR ''n'' then Some (st\<lparr>arg_opts := (arg_opts st)\<lparr>opt_name := a\<rparr>\<rparr>)
      else None)"

text \<open>The letters of one word; a letter with an argument takes the next word and ends this one.\<close>

fun option_letters ::
    "(byte list \<Rightarrow> u32 \<times> byte list) \<Rightarrow> byte list \<Rightarrow> byte list list \<Rightarrow> mk_args \<Rightarrow> (mk_args \<times> byte list list) option" where
  "option_letters strtoul [] argv st = Some (st, argv)"
| "option_letters strtoul (c # cs) argv st =
     (if c = ch CHR ''l'' then option_letters strtoul cs argv (st\<lparr>arg_list := True\<rparr>)
      else if c = ch CHR ''v'' then option_letters strtoul cs argv st
      else if c = ch CHR ''x'' then option_letters strtoul cs argv (st\<lparr>arg_opts := (arg_opts st)\<lparr>opt_xip := True\<rparr>\<rparr>)
      else case argv of
             [] \<Rightarrow> None
           | a # argv \<Rightarrow> map_option (\<lambda>st. (st, argv)) (option_arg strtoul c a st))"

lemma option_letters_length:
  "option_letters strtoul cs argv st = Some (st', argv') \<Longrightarrow> length argv' \<le> length argv"
  by (induction cs argv st rule: option_letters.induct[where ?a0.0 = strtoul]) (auto split: if_splits list.splits)

function mk_options ::
    "(byte list \<Rightarrow> u32 \<times> byte list) \<Rightarrow> byte list list \<Rightarrow> mk_args \<Rightarrow> (mk_args \<times> byte list list) option" where
  "mk_options strtoul [] st = Some (st, [])"
| "mk_options strtoul (a # argv) st =
     (if peek a = ch CHR ''-'' then
        (case option_letters strtoul (tl a) argv st of
           None \<Rightarrow> None
         | Some (st, argv) \<Rightarrow> mk_options strtoul argv st)
      else Some (st, a # argv))"
  by pat_completeness auto
termination
  by (relation "measure (\<lambda>(s, argv, st). length argv)") (auto dest: option_letters_length)

text \<open>\<open>main\<close> up to the file accesses: the options and the name of the image file.\<close>

definition mk_command_line ::
    "(byte list \<Rightarrow> u32 \<times> byte list) \<Rightarrow> byte list list \<Rightarrow> (mk_args \<times> byte list) option" where
  "mk_command_line strtoul argv =
     (case mk_options strtoul argv mk_args_init of
        Some (st, [imagefile]) \<Rightarrow> if arg_list st = (arg_data st \<noteq> None) then None else Some (st, imagefile)
      | _ \<Rightarrow> None)"

end
