(* ===== verification/ImageCorrect.thy ===== *)
theory ImageCorrect
  imports Image
begin

text \<open>
  Correctness of the image tool: what it writes is what it accepts, the layout of multi-file
  images, the names of the codes.
\<close>

section \<open>Headers\<close>

lemma length_name_field [simp]: "length (name_field name) = IH_NMLEN"
  by (simp add: name_field_def)

lemma mk_header_simps [simp]:
  "ih_magic (mk_header opts ep t d) = IH_MAGIC" "ih_time (mk_header opts ep t d) = t"
  "ih_size (mk_header opts ep t d) = of_nat (length d)" "ih_load (mk_header opts ep t d) = opt_addr opts"
  "ih_ep (mk_header opts ep t d) = ep" "ih_dcrc (mk_header opts ep t d) = crc32 0 (Some d)"
  "ih_os (mk_header opts ep t d) = opt_os opts" "ih_arch (mk_header opts ep t d) = opt_arch opts"
  "ih_type (mk_header opts ep t d) = opt_type opts" "ih_comp (mk_header opts ep t d) = opt_comp opts"
  "ih_name (mk_header opts ep t d) = name_field (opt_name opts)"
  by (simp_all add: mk_header_def Let_def)

lemma mk_header_hcrc:
  "crc32 0 (Some (header_bytes ((mk_header opts ep t d)\<lparr>ih_hcrc := 0\<rparr>))) = ih_hcrc (mk_header opts ep t d)"
  by (simp add: mk_header_def Let_def)

lemma length_mk_header [simp]: "length (header_bytes (mk_header opts ep t d)) = IH_SIZE"
  by simp

lemma mkimage_parts:
  assumes "mkimage opts fs datafile mtime = Some img"
  obtains ep data where "mk_entry opts = Some ep" "mk_data opts fs datafile = Some data"
    "img = header_bytes (mk_header opts ep mtime data) @ data"
  using assms by (auto simp: mkimage_def split: option.splits)

text \<open>
  C29: an image that the tool writes is one that it accepts (\<^verbatim>\<open>mkimage -l\<close>): the file is long enough, has the
  magic number, and both checksums agree; and its header reads back as the options given.
\<close>

theorem mkimage_listed:
  assumes "mkimage opts fs datafile mtime = Some img"
  shows "mk_list img = Some (True, True) \<and> ih_load (header_of img) = opt_addr opts \<and>
     Some (ih_ep (header_of img)) = mk_entry opts \<and> ih_os (header_of img) = opt_os opts \<and>
     ih_arch (header_of img) = opt_arch opts \<and> ih_type (header_of img) = opt_type opts \<and>
     ih_comp (header_of img) = opt_comp opts \<and> ih_time (header_of img) = mtime \<and>
     Some (drop IH_SIZE img) = mk_data opts fs datafile"
proof -
  from assms obtain ep data where "mk_entry opts = Some ep" "mk_data opts fs datafile = Some data"
    and img: "img = header_bytes (mk_header opts ep mtime data) @ data"
    by (rule mkimage_parts)
  moreover have "header_of img = mk_header opts ep mtime data"
    unfolding img by (rule header_of_bytes) simp
  moreover have "IH_SIZE \<le> length img" by (simp add: img)
  ultimately show ?thesis
    by (simp add: mk_list_def mk_header_hcrc Let_def)
qed

definition demo_opts :: mk_opts where
  "demo_opts = \<lparr>opt_os = IH_OS_LINUX, opt_arch = IH_CPU_PPC, opt_type = IH_TYPE_KERNEL, opt_comp = IH_COMP_NONE,
     opt_addr = 0x10000, opt_ep = None, opt_xip = False, opt_name = []\<rparr>"

lemma demo_image:
  "mkimage demo_opts (\<lambda>_. Some [1, 2, 3]) [] 5 =
     Some (header_bytes (mk_header demo_opts 0x10000 5 [1, 2, 3]) @ [1, 2, 3])"
  by (simp add: mkimage_def mk_entry_def mk_data_def copy_file_def demo_opts_def IH_TYPE_defs)

theorem mkimage_listed_witness:
  "mk_list (header_bytes (mk_header demo_opts 0x10000 5 [1, 2, 3]) @ [1, 2, 3]) = Some (True, True)"
  using mkimage_listed [OF demo_image] by blast

section \<open>Names\<close>

definition table_ok :: "table_entry list \<Rightarrow> bool" where
  "table_ok t \<longleftrightarrow>
     list_all (\<lambda>(v, s, l). put_table_entry t [] v = l \<and>
       (case s of None \<Rightarrow> True | Some n \<Rightarrow> get_table_entry t (str n) = Some v)) t"

lemma get_table_entry_case: "map ascii_lower a = map ascii_lower b \<Longrightarrow> get_table_entry t a = get_table_entry t b"
  by (induction t a rule: get_table_entry.induct) (auto simp: strcasecmp_eq_def)

definition lower_names :: "table_entry list \<Rightarrow> bool" where
  "lower_names t \<longleftrightarrow> list_all (\<lambda>(v, s, l). case s of None \<Rightarrow> True | Some n \<Rightarrow> map ascii_lower (str n) = str n) t"

lemma get_table_entry_lookup:
  "lower_names t \<Longrightarrow> map ascii_lower (str n) = str n \<Longrightarrow>
   get_table_entry t (str n) = map_of (concat (map (\<lambda>(v, s, l). case s of None \<Rightarrow> [] | Some n \<Rightarrow> [(n, v)]) t)) n"
  by (induction t) (auto simp: strcasecmp_eq_def lower_names_def split: option.splits)

lemma table_okI:
  assumes "lower_names t"
    and "list_all (\<lambda>(v, s, l). put_table_entry t [] v = l \<and>
       (case s of None \<Rightarrow> True | Some n \<Rightarrow>
          map_of (concat (map (\<lambda>(v, s, l). case s of None \<Rightarrow> [] | Some n \<Rightarrow> [(n, v)]) t)) n = Some v)) t"
  shows "table_ok t"
proof -
  have "get_table_entry t (str n) = map_of (concat (map (\<lambda>(v, s, l). case s of None \<Rightarrow> [] | Some n \<Rightarrow> [(n, v)]) t)) n"
    if "(v, Some n, l) \<in> set t" for v n l
    using that assms(1) by (intro get_table_entry_lookup) (auto simp: lower_names_def list_all_iff)
  with assms(2) show ?thesis by (auto simp: table_ok_def list_all_iff split: option.splits)
qed

text \<open>
  in each of the four tables, the short name of a row is read as the row's value,
  and the value is printed as the row's long name.
\<close>

theorem table_names:
  "table_ok arch_name \<and> table_ok os_name \<and> table_ok type_name \<and> table_ok comp_name"
proof (intro conjI)
  show "table_ok arch_name"
    by (rule table_okI) (simp_all add: arch_name_def lower_names_def ascii_lower_def IH_CPU_defs)
  show "table_ok os_name"
    by (rule table_okI) (simp_all add: os_name_def lower_names_def ascii_lower_def IH_OS_defs)
  show "table_ok type_name"
    by (rule table_okI) (simp_all add: type_name_def lower_names_def ascii_lower_def IH_TYPE_defs)
  show "table_ok comp_name"
    by (rule table_okI) (simp_all add: comp_name_def lower_names_def ascii_lower_def IH_COMP_defs)
qed

section \<open>Multi-file images\<close>

text \<open>The names between the separators.\<close>

function file_names :: "byte list \<Rightarrow> byte list list" where
  "file_names file = fst (split_file file) # (case snd (split_file file) of None \<Rightarrow> [] | Some rest \<Rightarrow> file_names rest)"
  by pat_completeness auto
termination
  by (relation "measure length") (auto intro: split_file_length [OF prod_eqI])

declare file_names.simps [simp del]

text \<open>The table of sizes, and the files one after the other, padded but for the last.\<close>

definition size_words :: "byte list list \<Rightarrow> byte list" where
  "size_words files = concat (map (\<lambda>f. be32 (of_nat (length f))) files) @ be32 0"

definition pad4 :: "byte list \<Rightarrow> byte list" where
  "pad4 f = f @ replicate ((4 - length f mod 4) mod 4) 0"

fun join_files :: "byte list list \<Rightarrow> byte list" where
  "join_files [] = []"
| "join_files [f] = f"
| "join_files (f # fs) = pad4 f @ join_files fs"

lemma copy_file_pad: "f \<noteq> [] \<Longrightarrow> copy_file False (Some f) pad = Some (if pad then pad4 f else f)"
  by (auto simp: copy_file_def pad4_def Let_def)

lemma size_table_files:
  "map fs (file_names nm) = map Some files \<Longrightarrow> size_table fs (Some nm) = Some (size_words files)"
proof (induction nm arbitrary: files rule: file_names.induct)
  case (1 nm)
  from 1(2) obtain f files' where files: "files = f # files'" and f: "fs (fst (split_file nm)) = Some f"
    by (subst (asm) file_names.simps) (cases files; auto)
  show ?case
  proof (cases "snd (split_file nm)")
    case None
    then have "files' = []" using 1(2) files by (subst (asm) file_names.simps) auto
    then show ?thesis by (simp add: size_table.simps None files f size_words_def)
  next
    case (Some rest)
    then have "map fs (file_names rest) = map Some files'"
      using 1(2) files by (subst (asm) file_names.simps) auto
    from 1(1) [OF Some this] show ?thesis
      by (subst size_table.simps) (simp add: Some files f size_words_def)
  qed
qed

lemma copy_files_files:
  "map fs (file_names nm) = map Some files \<Longrightarrow> [] \<notin> set files \<Longrightarrow>
   copy_files False fs nm = Some (join_files files)"
proof (induction nm arbitrary: files rule: file_names.induct)
  case (1 nm)
  from 1(2) obtain f files' where files: "files = f # files'" and f: "fs (fst (split_file nm)) = Some f"
    by (subst (asm) file_names.simps) (cases files; auto)
  then have ne: "f \<noteq> []" using 1(3) by auto
  show ?case
  proof (cases "snd (split_file nm)")
    case None
    then have "files' = []" using 1(2) files by (subst (asm) file_names.simps) auto
    then show ?thesis by (subst copy_files.simps) (simp add: None files f copy_file_pad [OF ne])
  next
    case (Some rest)
    then have m: "map fs (file_names rest) = map Some files'"
      using 1(2) files by (subst (asm) file_names.simps) auto
    moreover have "files' \<noteq> []" using m by (subst (asm) file_names.simps) auto
    ultimately show ?thesis using 1(1) [OF Some m] 1(3) files
      by (subst copy_files.simps) (cases files'; simp add: Some f copy_file_pad [OF ne])
  qed
qed

lemma mk_data_multi:
  assumes "opt_type opts = IH_TYPE_MULTI" and "\<not> opt_xip opts"
    and "map fs (file_names datafile) = map Some files" and "[] \<notin> set files"
  shows "mk_data opts fs datafile = Some (size_words files @ join_files files)"
  using assms size_table_files [OF assms(3)] copy_files_files [OF assms(3,4)] by (simp add: mk_data_def)

end
