(* ===== verification/Bootm.thy ===== *)
theory Bootm
  imports Image Memory CmdLine
begin

text \<open>
  \<^verbatim>\<open>common/cmd_bootm.c\<close> and \<open>print_size\<close> of \<^verbatim>\<open>lib_generic/display_options.c\<close>: checking an image in
  memory (\<open>image_info\<close>), loading and starting it (\<open>do_bootm\<close> with \<open>do_bootm_linux\<close> and
  \<open>do_bootm_netbsd\<close>), printing its header, \<open>gunzip\<close>, \<open>do_bootd\<close>. The configuration is a PowerPC board
  without the ELF loaders, without time stamps and without \<^verbatim>\<open>SHOW_BOOT_PROGRESS\<close>. The global
  \<^verbatim>\<open>header\<close> lies outside the memory the commands touch, so it is a value. What a command prints is
  left out, except by \<open>print_image_hdr\<close>. A loop that finds no zero word or byte in the whole address
  space is \<open>None\<close>.
\<close>

section \<open>Printing a header\<close>

definition print_size :: "u32 \<Rightarrow> byte list \<Rightarrow> byte list option" where
  "print_size sz s =
     (let (c, d) = (if sz < push_bit 20 1 then (ch CHR ''k'', push_bit 10 1) else (ch CHR ''M'', push_bit 20 1));
          n = sz div d;
          m = (10 * (sz - n * d) + d div 2) div d
      in Option.bind (sprintf (str ''%2ld'') [VaWord n]) (\<lambda>a.
         Option.bind (if m \<noteq> 0 then sprintf (str ''.%ld'') [VaWord m] else Some []) (\<lambda>b.
         Option.bind (sprintf (str '' %cB%s'') [VaWord (ucast c), VaStr (Some s)]) (\<lambda>e.
         Some (a @ b @ e)))))"

definition boot_os_name :: "byte \<Rightarrow> string" where
  "boot_os_name v =
     (if v = IH_OS_INVALID then ''Invalid OS''
      else if v = IH_OS_NETBSD then ''NetBSD''
      else if v = IH_OS_LINUX then ''Linux''
      else if v = IH_OS_VXWORKS then ''VxWorks''
      else if v = IH_OS_QNX then ''QNX''
      else if v = IH_OS_PPCBOOT then ''PPCBoot''
      else ''Unknown OS'')"

definition boot_arch_name :: "byte \<Rightarrow> string" where
  "boot_arch_name v =
     (if v = IH_CPU_INVALID then ''Invalid CPU''
      else if v = IH_CPU_ALPHA then ''Alpha''
      else if v = IH_CPU_ARM then ''ARM''
      else if v = IH_CPU_I386 then ''Intel x86''
      else if v = IH_CPU_IA64 then ''IA64''
      else if v = IH_CPU_MIPS then ''MIPS''
      else if v = IH_CPU_MIPS64 then ''MIPS 64 Bit''
      else if v = IH_CPU_PPC then ''PowerPC''
      else if v = IH_CPU_S390 then ''IBM S390''
      else if v = IH_CPU_SH then ''SuperH''
      else if v = IH_CPU_SPARC then ''SPARC''
      else if v = IH_CPU_SPARC64 then ''SPARC 64 Bit''
      else ''Unknown Architecture'')"

definition boot_type_name :: "byte \<Rightarrow> string" where
  "boot_type_name v =
     (if v = IH_TYPE_INVALID then ''Invalid Image''
      else if v = IH_TYPE_STANDALONE then ''Standalone Program''
      else if v = IH_TYPE_KERNEL then ''Kernel Image''
      else if v = IH_TYPE_RAMDISK then ''RAMDisk Image''
      else if v = IH_TYPE_MULTI then ''Multi-File Image''
      else if v = IH_TYPE_FIRMWARE then ''Firmware''
      else if v = IH_TYPE_SCRIPT then ''Script''
      else ''Unknown Image'')"

definition boot_comp_name :: "byte \<Rightarrow> string" where
  "boot_comp_name v =
     (if v = IH_COMP_NONE then ''uncompressed''
      else if v = IH_COMP_GZIP then ''gzip compressed''
      else if v = IH_COMP_BZIP2 then ''bzip2 compressed''
      else ''unknown compression'')"

definition print_type :: "image_header \<Rightarrow> byte list" where
  "print_type h =
     str (boot_arch_name (ih_arch h)) @ str '' '' @ str (boot_os_name (ih_os h)) @ str '' '' @
     str (boot_type_name (ih_type h)) @ str '' ('' @ str (boot_comp_name (ih_comp h)) @ str '')''"

text \<open>The length words of a multi-file image from \<open>p\<close> to the zero word, printed with their number.\<close>

partial_function (option) print_contents :: "mem \<Rightarrow> nat \<Rightarrow> u32 \<Rightarrow> byte list option" where
  "print_contents m i p =
     (if mem_be32 m p = 0 then Some []
      else Option.bind (sprintf (str ''   Image %d: %8ld Bytes = '') [VaWord (of_nat i), VaWord (mem_be32 m p)]) (\<lambda>a.
           Option.bind (print_size (mem_be32 m p) [10]) (\<lambda>b.
           Option.bind (print_contents m (i + 1) (p + 4)) (\<lambda>rest. Some (a @ b @ rest)))))"

definition print_image_hdr :: "mem \<Rightarrow> image_header \<Rightarrow> u32 \<Rightarrow> byte list option" where
  "print_image_hdr m h data =
     Option.bind (sprintf (str ''   Image Name:   %.*s'' @ [10]) [VaWord (of_nat IH_NMLEN), VaStr (Some (ih_name h))]) (\<lambda>a.
     Option.bind (sprintf (str ''   Data Size:    %d Bytes = '') [VaWord (ih_size h)]) (\<lambda>b.
     Option.bind (print_size (ih_size h) [10]) (\<lambda>c.
     Option.bind (sprintf (str ''   Load Address: %08x'' @ [10]) [VaWord (ih_load h)]) (\<lambda>d.
     Option.bind (sprintf (str ''   Entry Point:  %08x'' @ [10]) [VaWord (ih_ep h)]) (\<lambda>e.
     Option.bind (if ih_type h = IH_TYPE_MULTI
                  then Option.bind (print_contents m 0 data) (\<lambda>t. Some (str ''   Contents:'' @ [10] @ t))
                  else Some []) (\<lambda>f.
     Some (a @ (str ''   Image Type:   '' @ print_type h @ [10]) @ b @ c @ d @ e @ f)))))))"

section \<open>Checking\<close>

datatype boot_error = Bad_Magic | Bad_Header_Checksum | Bad_Data_CRC | Unsupported_Architecture
  | Wrong_Image_Type | Gunzip_Error | Unimplemented_Compression | No_Ramdisk

text \<open>The copy of the header at \<open>addr\<close> with the checksum field cleared, or the error.\<close>

definition check_header :: "mem \<Rightarrow> u32 \<Rightarrow> boot_error + image_header" where
  "check_header m addr =
     (let h = header_of (mread m addr IH_SIZE) in
      if ih_magic h \<noteq> IH_MAGIC then Inl Bad_Magic
      else let checksum = ih_hcrc h; h = h\<lparr>ih_hcrc := 0\<rparr> in
           if crc32 0 (Some (header_bytes h)) \<noteq> checksum then Inl Bad_Header_Checksum
           else Inr h)"

definition check_data :: "mem \<Rightarrow> u32 \<Rightarrow> image_header \<Rightarrow> bool" where
  "check_data m data h \<longleftrightarrow> crc32 0 (Some (mread m data (unat (ih_size h)))) = ih_dcrc h"

definition image_info :: "mem \<Rightarrow> u32 \<Rightarrow> int option" where
  "image_info m addr =
     (case check_header m addr of
        Inl err \<Rightarrow> Some 1
      | Inr h \<Rightarrow>
          Option.bind (print_image_hdr m (header_of (mread m addr IH_SIZE)) (addr + of_nat IH_SIZE)) (\<lambda>_.
            Some (if check_data m (addr + of_nat IH_SIZE) h then 0 else 1)))"

fun iminfo_args :: "mem \<Rightarrow> byte list list \<Rightarrow> int \<Rightarrow> int option" where
  "iminfo_args m [] rcode = Some rcode"
| "iminfo_args m (a # args) rcode =
     Option.bind (image_info m (fst (simple_strtoul a 16))) (\<lambda>r.
       iminfo_args m args (if r \<noteq> 0 then 1 else rcode))"

definition do_iminfo :: "mem \<Rightarrow> u32 \<Rightarrow> byte list list \<Rightarrow> int option" where
  "do_iminfo m laddr argv =
     (if length argv < 2 then image_info m laddr else iminfo_args m (tl argv) 0)"

section \<open>Moving data\<close>

definition memmove :: "mem \<Rightarrow> u32 \<Rightarrow> u32 \<Rightarrow> nat \<Rightarrow> mem" where
  "memmove m to from n = mwrite m to (mread m from n)"

definition CHUNKSZ :: u32 where "CHUNKSZ = 64 * 1024"

lemma chunk_less: "l > 0 \<Longrightarrow> unat (l - (if l > CHUNKSZ then CHUNKSZ else l)) < unat l"
proof (cases "l > CHUNKSZ")
  case True
  then have "unat (l - CHUNKSZ) = unat l - unat CHUNKSZ" by (intro unat_sub) simp
  moreover have "0 < unat CHUNKSZ" by (simp add: CHUNKSZ_def)
  moreover have "unat CHUNKSZ < unat l" using True by (simp add: word_less_nat_alt)
  ultimately show ?thesis using True by simp
qed (simp add: unat_gt_0 word_neq_0_conv)

text \<open>The copy and the checksum in pieces, with the watchdog served in between.\<close>

function copy_chunks :: "mem \<Rightarrow> u32 \<Rightarrow> u32 \<Rightarrow> u32 \<Rightarrow> mem" where
  "copy_chunks m to from l =
     (if l > 0 then
        let tail = (if l > CHUNKSZ then CHUNKSZ else l)
        in copy_chunks (memmove m to from (unat tail)) (to + tail) (from + tail) (l - tail)
      else m)"
  by pat_completeness auto

termination
proof (relation "measure (\<lambda>(m, t, f, l). unat l)")
  fix m :: mem and to "from" l tail :: u32
  assume "0 < l" and "tail = (if CHUNKSZ < l then CHUNKSZ else l)"
  then show "((memmove m to from (unat tail), to + tail, from + tail, l - tail), (m, to, from, l))
      \<in> measure (\<lambda>(m, t, f, l). unat l)"
    using chunk_less [of l] by simp
qed simp

function crc_chunks :: "mem \<Rightarrow> u32 \<Rightarrow> u32 \<Rightarrow> u32 \<Rightarrow> u32" where
  "crc_chunks m csum cdata edata =
     (if cdata < edata then
        let chunk = (if edata - cdata > CHUNKSZ then CHUNKSZ else edata - cdata)
        in crc_chunks m (crc32 csum (Some (mread m cdata (unat chunk)))) (cdata + chunk) edata
      else csum)"
  by pat_completeness auto

termination
proof (relation "measure (\<lambda>(m, c, a, e). unat (e - a))")
  fix m :: mem and csum cdata edata chunk :: u32
  assume less: "cdata < edata" and "chunk = (if CHUNKSZ < edata - cdata then CHUNKSZ else edata - cdata)"
  then have "unat (edata - cdata - chunk) < unat (edata - cdata)"
    using chunk_less [of "edata - cdata"] by (simp add: word_neq_0_conv [symmetric])
  then show "((m, crc32 csum (Some (mread m cdata (unat chunk))), cdata + chunk, edata), (m, csum, cdata, edata))
      \<in> measure (\<lambda>(m, c, a, e). unat (e - a))"
    by (simp add: diff_diff_eq)
qed simp

declare copy_chunks.simps [simp del] crc_chunks.simps [simp del]

section \<open>gunzip\<close>

text \<open>
  \<open>inflate\<close> of the vendored zlib is an argument: the code \<^verbatim>\<open>inflateInit2\<close> returns, and the code and the
  output of \<^verbatim>\<open>inflate\<close> on the input with so much room.
\<close>

record zlib =
  z_init :: int
  z_inflate :: "byte list \<Rightarrow> u32 \<Rightarrow> int \<times> byte list"

definition Z_OK :: int where "Z_OK = 0"
definition Z_STREAM_END :: int where "Z_STREAM_END = 1"

partial_function (option) skip_string :: "mem \<Rightarrow> u32 \<Rightarrow> nat \<Rightarrow> nat option" where
  "skip_string m src i = (if m (src + of_nat i) \<noteq> 0 then skip_string m src (i + 1) else Some (i + 1))"

text \<open>The index behind the gzip header.\<close>

definition gunzip_skip :: "mem \<Rightarrow> u32 \<Rightarrow> nat option" where
  "gunzip_skip m src =
     (let flags = m (src + 3);
          i = (if flags AND 4 \<noteq> 0 then 12 + unat (m (src + 10)) + unat (m (src + 11)) * 256 else 10)
      in Option.bind (if flags AND 8 \<noteq> 0 then skip_string m src i else Some i) (\<lambda>i.
         Option.bind (if flags AND 0x10 \<noteq> 0 then skip_string m src i else Some i) (\<lambda>i.
         Some (if flags AND 2 \<noteq> 0 then i + 2 else i))))"

text \<open>The return code, the memory and \<^verbatim>\<open>*lenp\<close>.\<close>

definition gunzip :: "zlib \<Rightarrow> mem \<Rightarrow> u32 \<Rightarrow> u32 \<Rightarrow> u32 \<Rightarrow> u32 \<Rightarrow> (int \<times> mem \<times> u32) option" where
  "gunzip z m dst dstlen src len =
     (if m (src + 2) \<noteq> 8 \<or> m (src + 3) AND 0xe0 \<noteq> 0 then Some (-1, m, len)
      else Option.bind (gunzip_skip m src) (\<lambda>i.
        if int i \<ge> sint len then Some (-1, m, len)
        else if z_init z \<noteq> Z_OK then Some (-1, m, len)
        else let (r, out) = z_inflate z (mread m (src + of_nat i) (unat len - i)) dstlen;
                 m' = mwrite m dst out
             in if r \<noteq> Z_OK \<and> r \<noteq> Z_STREAM_END then Some (-1, m', len)
                else Some (0, m', of_nat (length out))))"

section \<open>Starting an operating system\<close>

text \<open>The board information of \<^verbatim>\<open>include/asm-ppc/ppcboot.h\<close> without the fields of special boards.\<close>

record bd_info =
  bi_memstart :: u32
  bi_memsize :: u32
  bi_flashstart :: u32
  bi_flashsize :: u32
  bi_flashoffset :: u32
  bi_sramstart :: u32
  bi_sramsize :: u32
  bi_bootflags :: u32
  bi_ip_addr :: u32
  bi_enetaddr :: "byte list"
  bi_ethspeed :: u16
  bi_intfreq :: u32
  bi_busfreq :: u32
  bi_baudrate :: u32

definition bd_bytes :: "bd_info \<Rightarrow> byte list" where
  "bd_bytes bd =
     be32 (bi_memstart bd) @ be32 (bi_memsize bd) @ be32 (bi_flashstart bd) @ be32 (bi_flashsize bd) @
     be32 (bi_flashoffset bd) @ be32 (bi_sramstart bd) @ be32 (bi_sramsize bd) @ be32 (bi_bootflags bd) @
     be32 (bi_ip_addr bd) @ bi_enetaddr bd @ be16 (bi_ethspeed bd) @ be32 (bi_intfreq bd) @
     be32 (bi_busfreq bd) @ be32 (bi_baudrate bd)"

definition BD_SIZE :: nat where "BD_SIZE = 56"

text \<open>
  The board's part of the configuration: whether a watchdog is served, the stack pointer, the limits
  for the kernel's parameters, the board information (\<^verbatim>\<open>*gd->bd\<close> and its address), the console device of
  NetBSD, whether interrupts were on.
\<close>

record boot_config =
  bc_watchdog :: bool
  bc_sp :: u32
  bc_bootmapsz :: u32
  bc_bargsize :: u32
  bc_bd :: bd_info
  bc_bd_addr :: u32
  bc_consdev :: "byte list"

text \<open>Where control goes, with the memory as it is then.\<close>

datatype transfer =
    Start_Application u32 "byte list list" mem
  | Start_Linux u32 u32 u32 u32 u32 u32 mem
      \<comment> \<open>entry point, board information, initrd start and end, command line start and end\<close>
  | Start_NetBSD u32 u32 u32 "byte list" "byte list" mem
      \<comment> \<open>entry point, board information, image header, console, command line\<close>

datatype boot_end = Returned boot_error | Reset boot_error | Started

partial_function (option) skip_lens :: "mem \<Rightarrow> u32 \<Rightarrow> nat \<Rightarrow> u32 \<Rightarrow> u32 option" where
  "skip_lens m len_ptr i data =
     (if mem_be32 m (len_ptr + of_nat (4 * i)) \<noteq> 0 then skip_lens m len_ptr (i + 1) (data + 4)
      else Some data)"

definition boot_copy :: "boot_config \<Rightarrow> mem \<Rightarrow> u32 \<Rightarrow> u32 \<Rightarrow> u32 \<Rightarrow> mem" where
  "boot_copy cfg m to from len =
     (if bc_watchdog cfg then copy_chunks m to from len else memmove m to from (unat len))"

definition boot_crc :: "boot_config \<Rightarrow> mem \<Rightarrow> u32 \<Rightarrow> u32 \<Rightarrow> u32" where
  "boot_crc cfg m data len =
     (if bc_watchdog cfg then crc_chunks m 0 data (data + len) else crc32 0 (Some (mread m data (unat len))))"

text \<open>
  The initrd of \<open>do_bootm_linux\<close>: where it is and how long (both 0 for none). \<open>Inl\<close> is an error after
  which the board is reset.
\<close>

definition find_initrd ::
    "boot_config \<Rightarrow> mem \<Rightarrow> image_header \<Rightarrow> byte list list \<Rightarrow> u32 \<Rightarrow> bool \<Rightarrow> (boot_error + u32 \<times> u32) option" where
  "find_initrd cfg m hdr argv len_ptr verify =
     (if length argv \<ge> 3 then
        let addr = fst (simple_strtoul (argv ! 2) 16)
        in case check_header m addr of
             Inl err \<Rightarrow> Some (Inl err)
           | Inr h \<Rightarrow>
               let data = addr + of_nat IH_SIZE
               in if verify \<and> boot_crc cfg m data (ih_size h) \<noteq> ih_dcrc h then Some (Inl Bad_Data_CRC)
                  else if ih_os h \<noteq> IH_OS_LINUX \<or> ih_arch h \<noteq> IH_CPU_PPC \<or> ih_type h \<noteq> IH_TYPE_RAMDISK
                  then Some (Inl No_Ramdisk)
                  else Some (Inr (data, ih_size h))
      else if ih_type hdr = IH_TYPE_MULTI \<and> mem_be32 m (len_ptr + 4) \<noteq> 0 then
        let tail = mem_be32 m len_ptr mod 4
        in Option.bind (skip_lens m len_ptr 1 (len_ptr + 8)) (\<lambda>data.
             let data = data + mem_be32 m len_ptr
             in Some (Inr (if tail \<noteq> 0 then data + (4 - tail) else data, mem_be32 m (len_ptr + 4))))
      else Some (Inr (0, 0)))"

text \<open>Where the initrd goes: below the board information, or below the stack if it may be high.\<close>

definition place_initrd :: "boot_config \<Rightarrow> u32 \<Rightarrow> u32 \<Rightarrow> u32 \<Rightarrow> u32 \<Rightarrow> u32" where
  "place_initrd cfg initrd_high sp kbd len =
     (let low = (kbd - len) AND NOT (4096 - 1)
      in if initrd_high \<noteq> 0 then
           let nsp = (bc_sp cfg - 2048) AND NOT 0xF;
               nsp = (if nsp > initrd_high then initrd_high else nsp);
               nsp = (nsp - len) AND NOT (4096 - 1)
           in if nsp \<ge> sp then nsp else low
         else low)"

text \<open>The limit for the kernel's parameters, the command line and the board information below it.\<close>

definition boot_limit :: "boot_config \<Rightarrow> u32" where
  "boot_limit cfg =
     (let sp = bc_sp cfg - 2048
      in (if sp > bc_bootmapsz cfg then bc_bootmapsz cfg else sp) AND NOT 0xF)"

definition boot_cmdline :: "boot_config \<Rightarrow> u32" where
  "boot_cmdline cfg = (boot_limit cfg - bc_bargsize cfg) AND NOT 0xF"

definition boot_kbd :: "boot_config \<Rightarrow> u32" where
  "boot_kbd cfg = (boot_cmdline cfg - of_nat BD_SIZE) AND NOT 0xF"

definition kernel_bd :: "bool \<Rightarrow> bd_info \<Rightarrow> bd_info" where
  "kernel_bd in_mhz bd =
     (if in_mhz then bd\<lparr>bi_intfreq := bi_intfreq bd div 1000000, bi_busfreq := bi_busfreq bd div 1000000\<rparr>
      else bd)"

text \<open>\<open>ev\<close> is \<open>getenv\<close>: the value of a variable, if it is set.\<close>

definition do_bootm_linux ::
    "boot_config \<Rightarrow> (byte list \<Rightarrow> byte list option) \<Rightarrow> mem \<Rightarrow> image_header \<Rightarrow> byte list list \<Rightarrow> u32 \<Rightarrow> bool \<Rightarrow>
     (transfer list \<times> boot_end) option" where
  "do_bootm_linux cfg ev m hdr argv len_ptr verify =
     (let initrd_high = (case ev (str ''initrd_high'') of
                           Some s \<Rightarrow> fst (simple_strtoul s 16) | None \<Rightarrow> NOT 0);
          cmdline = boot_cmdline cfg;
          kbd = boot_kbd cfg;
          s = (case ev (str ''bootargs'') of None \<Rightarrow> [] | Some s \<Rightarrow> s);
          m = mwrite m cmdline (s @ [0]);
          cmd_end = cmdline + of_nat (length s);
          m = mwrite m kbd (bd_bytes (kernel_bd (ev (str ''clocks_in_mhz'') \<noteq> None) (bc_bd cfg)))
      in Option.bind (find_initrd cfg m hdr argv len_ptr verify) (\<lambda>r.
           case r of
             Inl err \<Rightarrow> Some ([], Reset err)
           | Inr (data, len) \<Rightarrow>
               if data \<noteq> 0 then
                 let initrd_start = place_initrd cfg initrd_high (boot_limit cfg) kbd len
                 in Some ([Start_Linux (ih_ep hdr) kbd initrd_start (initrd_start + len) cmdline cmd_end
                             (boot_copy cfg m initrd_start data len)], Started)
               else Some ([Start_Linux (ih_ep hdr) kbd 0 0 cmdline cmd_end m], Started)))"

text \<open>The arguments from the third on, with a blank between them.\<close>

fun join_args :: "byte list list \<Rightarrow> byte list" where
  "join_args [] = []"
| "join_args [a] = a"
| "join_args (a # args) = a @ ch CHR '' '' # join_args args"

definition do_bootm_netbsd ::
    "boot_config \<Rightarrow> (byte list \<Rightarrow> byte list option) \<Rightarrow> mem \<Rightarrow> image_header \<Rightarrow> byte list list \<Rightarrow> u32 \<Rightarrow> u32 \<Rightarrow>
     transfer list \<times> boot_end" where
  "do_bootm_netbsd cfg ev m hdr argv addr len_ptr =
     (let img_addr = (if ih_type hdr = IH_TYPE_MULTI \<and> mem_be32 m (len_ptr + 4) \<noteq> 0 then addr else 0);
          cmdline = (if length argv > 2 then join_args (drop 2 argv)
                     else case ev (str ''bootargs'') of None \<Rightarrow> [] | Some s \<Rightarrow> s)
      in ([Start_NetBSD (ih_ep hdr) (bc_bd_addr cfg) img_addr (bc_consdev cfg) cmdline m], Started))"

section \<open>bootm\<close>

text \<open>The kernel of the image: its place and length, or the error.\<close>

definition boot_kernel :: "mem \<Rightarrow> image_header \<Rightarrow> u32 \<Rightarrow> (boot_error + u32 \<times> u32) option" where
  "boot_kernel m hdr data =
     (if ih_arch hdr \<noteq> IH_CPU_PPC \<and> ih_arch hdr \<noteq> IH_CPU_ARM then Some (Inl Unsupported_Architecture)
      else if ih_type hdr = IH_TYPE_STANDALONE \<or> ih_type hdr = IH_TYPE_KERNEL then Some (Inr (data, ih_size hdr))
      else if ih_type hdr = IH_TYPE_MULTI then
        Option.bind (skip_lens m data 1 (data + 8)) (\<lambda>d. Some (Inr (d, mem_be32 m data)))
      else Some (Inl Wrong_Image_Type))"

text \<open>The memory with the kernel at its load address.\<close>

definition boot_load :: "boot_config \<Rightarrow> zlib \<Rightarrow> mem \<Rightarrow> image_header \<Rightarrow> u32 \<Rightarrow> u32 \<Rightarrow> u32 \<Rightarrow> (boot_end + mem) option" where
  "boot_load cfg z m hdr addr data len =
     (if ih_comp hdr = IH_COMP_NONE then
        Some (Inr (if ih_load hdr = addr then m else boot_copy cfg m (ih_load hdr) data len))
      else if ih_comp hdr = IH_COMP_GZIP then
        Option.bind (gunzip z m (ih_load hdr) 0x400000 data len) (\<lambda>(r, m, len).
          Some (if r \<noteq> 0 then Inl (Reset Gunzip_Error) else Inr m))
      else Some (Inl (Returned Unimplemented_Compression)))"

text \<open>
  \<open>appl\<close> is a standalone application: the memory it leaves when it returns. A kernel that is started
  does not return.
\<close>

definition boot_os ::
    "boot_config \<Rightarrow> (byte list \<Rightarrow> byte list option) \<Rightarrow> mem \<Rightarrow> image_header \<Rightarrow> byte list list \<Rightarrow> u32 \<Rightarrow> u32 \<Rightarrow> bool \<Rightarrow>
     (transfer list \<times> boot_end) option" where
  "boot_os cfg ev m hdr argv addr len_ptr verify =
     (if ih_os hdr = IH_OS_NETBSD then Some (do_bootm_netbsd cfg ev m hdr argv addr len_ptr)
      else do_bootm_linux cfg ev m hdr argv len_ptr verify)"

definition do_bootm ::
    "boot_config \<Rightarrow> zlib \<Rightarrow> (u32 \<Rightarrow> byte list list \<Rightarrow> mem \<Rightarrow> mem option) \<Rightarrow> (byte list \<Rightarrow> byte list option) \<Rightarrow>
     u32 \<Rightarrow> mem \<Rightarrow> byte list list \<Rightarrow> (transfer list \<times> boot_end) option" where
  "do_bootm cfg z appl ev laddr m argv =
     (let verify = (case ev (str ''verify'') of Some (c # _) \<Rightarrow> c \<noteq> ch CHR ''n'' | _ \<Rightarrow> True);
          addr = (if length argv < 2 then laddr else fst (simple_strtoul (argv ! 1) 16));
          data = addr + of_nat IH_SIZE
      in case check_header m addr of
           Inl err \<Rightarrow> Some ([], Returned err)
         | Inr hdr \<Rightarrow>
             Option.bind (print_image_hdr m (header_of (mread m addr IH_SIZE)) data) (\<lambda>_.
             if verify \<and> \<not> check_data m data hdr then Some ([], Returned Bad_Data_CRC)
             else Option.bind (boot_kernel m hdr data) (\<lambda>k.
               case k of
                 Inl err \<Rightarrow> Some ([], Returned err)
               | Inr (kdata, len) \<Rightarrow>
                   Option.bind (boot_load cfg z m hdr addr kdata len) (\<lambda>l.
                     case l of
                       Inl e \<Rightarrow> Some ([], e)
                     | Inr m \<Rightarrow>
                         if ih_type hdr = IH_TYPE_STANDALONE then
                           (case appl (ih_ep hdr) (tl argv) m of
                              None \<Rightarrow> Some ([Start_Application (ih_ep hdr) (tl argv) m], Started)
                            | Some m' \<Rightarrow>
                                map_option (\<lambda>(ts, e). (Start_Application (ih_ep hdr) (tl argv) m # ts, e))
                                  (boot_os cfg ev m' hdr argv addr data verify))
                         else boot_os cfg ev m hdr argv addr data verify))))"

definition do_bootd ::
    "nat \<Rightarrow> nat \<Rightarrow> 's shell \<Rightarrow> (byte list \<Rightarrow> byte list option) \<Rightarrow> u32 \<Rightarrow> 's \<Rightarrow> (int \<times> 's) option" where
  "do_bootd cbsize maxargs sh ev flag s =
     map_option (\<lambda>(r, s). (if r < 0 then 1 else 0, s))
       (run_command cbsize maxargs sh (ev (str ''bootcmd'')) flag s)"

end
