(* ===== verification/BootmCorrect.thy ===== *)
theory BootmCorrect
  imports Bootm ImageCorrect
begin

text \<open>
  Correctness of \<open>bootm\<close> and \<open>iminfo\<close>: the copy and the checksum in pieces, what passes the checks, where
  the kernel's parameters and the initrd go, and that an image made by the tool is started.
\<close>

section \<open>Work in pieces\<close>

lemma chunk_cases:
  assumes "0 < (l :: u32)" and "t = (if l > CHUNKSZ then CHUNKSZ else l)"
  shows "unat l = unat t + unat (l - t)" and "0 < unat t"
proof -
  have "t \<le> l" using assms by auto
  then have "unat (l - t) = unat l - unat t" and "unat t \<le> unat l"
    by (simp_all add: unat_sub word_le_nat_alt)
  then show "unat l = unat t + unat (l - t)" by simp
  show "0 < unat t" using assms by (simp add: unat_gt_0 CHUNKSZ_def word_neq_0_conv)
qed

text \<open>Copying forward in blocks is right unless the target starts inside the source behind its first byte.\<close>

definition forward_safe :: "u32 \<Rightarrow> u32 \<Rightarrow> nat \<Rightarrow> bool" where
  "forward_safe to from n \<longleftrightarrow> unat from + n \<le> 2 ^ 32 \<and> unat to + n \<le> 2 ^ 32 \<and>
     (unat to \<le> unat from \<or> unat from + n \<le> unat to)"

lemma unat_plus: "unat (a :: u32) + unat b < 2 ^ 32 \<Longrightarrow> unat (a + b) = unat a + unat b"
  by (simp add: unat_word_ariths)

lemma copy_chunks_memmove:
  "forward_safe to from (unat l) \<Longrightarrow> copy_chunks m to from l = memmove m to from (unat l)"
proof (induction m to "from" l rule: copy_chunks.induct)
  case (1 m to "from" l)
  show ?case
  proof (cases "l > 0")
    case False
    then have "l = 0" using word_neq_0_conv by blast
    then show ?thesis by (subst copy_chunks.simps) (simp add: memmove_def)
  next
    case True
    define t where "t = (if l > CHUNKSZ then CHUNKSZ else l)"
    note c = chunk_cases [OF True t_def]
    let ?m = "memmove m to from (unat t)"
    have step: "copy_chunks m to from l = copy_chunks ?m (to + t) (from + t) (l - t)"
      by (subst copy_chunks.simps) (simp add: True t_def [symmetric])
    show ?thesis
    proof (cases "l - t = 0")
      case True
      then have "unat l = unat t" using c(1) by simp
      with step True show ?thesis by (simp add: copy_chunks.simps [of _ _ _ 0])
    next
      case False
      then have pos: "0 < unat (l - t)" by (simp only: unat_gt_0 not_False_eq_True)
      have u: "unat (to + t) = unat to + unat t" "unat (from + t) = unat from + unat t"
        using 1(2) c pos by (auto intro!: unat_plus simp: forward_safe_def)
      then have safe: "forward_safe (to + t) (from + t) (unat (l - t))"
        using 1(2) c by (auto simp: forward_safe_def)
      have "disjoint_blocks to (unat t) (from + t) (unat (l - t))"
        using 1(2) c u by (auto simp: forward_safe_def disjoint_blocks_def)
      then have rd: "mread ?m (from + t) (unat (l - t)) = mread m (from + t) (unat (l - t))"
        by (simp add: memmove_def mread_mwrite_disjoint)
      have "copy_chunks m to from l = memmove ?m (to + t) (from + t) (unat (l - t))"
        unfolding step by (rule 1(1) [OF True t_def safe])
      also have "\<dots> = mwrite m to (mread m from (unat t) @ mread m (from + t) (unat (l - t)))"
        by (simp add: memmove_def rd [unfolded memmove_def] mwrite_append)
      also have "mread m from (unat t) @ mread m (from + t) (unat (l - t)) = mread m from (unat l)"
        by (simp add: c(1) mread_append)
      finally show ?thesis by (simp add: memmove_def)
    qed
  qed
qed

lemma crc_chunks_append:
  "crc_chunks m csum a e = (if a < e then crc32 csum (Some (mread m a (unat (e - a)))) else csum)"
proof (induction m csum a e rule: crc_chunks.induct)
  case (1 m csum a e)
  show ?case
  proof (cases "a < e")
    case False
    then show ?thesis by (subst crc_chunks.simps) simp
  next
    case True
    define t where "t = (if e - a > CHUNKSZ then CHUNKSZ else e - a)"
    have "0 < e - a" using True by (simp add: word_neq_0_conv [symmetric])
    note c = chunk_cases [OF this t_def]
    have step: "crc_chunks m csum a e = crc_chunks m (crc32 csum (Some (mread m a (unat t)))) (a + t) e"
      by (subst crc_chunks.simps) (simp add: True t_def [symmetric])
    have ea: "e - (a + t) = e - a - t" by simp
    have le: "unat (e - a) = unat e - unat a" using True by (simp add: unat_sub)
    have "unat e < 2 ^ 32" using unsigned_less [where ?'a = nat, of e] by simp
    then have u: "unat (a + t) = unat a + unat t"
      using c le True by (intro unat_plus) (auto simp: word_less_nat_alt)
    have lt: "a + t < e \<longleftrightarrow> unat (e - a - t) \<noteq> 0"
      using c le True u by (auto simp: word_less_nat_alt)
    have "crc_chunks m csum a e =
        crc32 (crc32 csum (Some (mread m a (unat t)))) (Some (mread m (a + t) (unat (e - a - t))))"
    proof (cases "a + t < e")
      case True
      then show ?thesis using 1 [OF \<open>a < e\<close> t_def] step ea by simp
    next
      case False
      then have "unat (e - a - t) = 0" using lt by simp
      then show ?thesis using 1 [OF \<open>a < e\<close> t_def] step False by (simp add: crc.upd_Nil)
    qed
    also have "\<dots> = crc32 csum (Some (mread m a (unat t) @ mread m (a + t) (unat (e - a - t))))"
      by (rule crc.upd_append)
    also have "mread m a (unat t) @ mread m (a + t) (unat (e - a - t)) = mread m a (unat (e - a))"
      by (simp add: c(1) mread_append)
    finally show ?thesis using True by simp
  qed
qed

text \<open>What the pieces do to a copy that overlaps its source from above.\<close>

lemma unat_CHUNKSZ: "unat CHUNKSZ = 65536" "unat (CHUNKSZ + 1) = 65537"
  by (simp_all add: CHUNKSZ_def)

lemma memmove_byte: "i < n \<Longrightarrow> n \<le> 2 ^ 32 \<Longrightarrow> memmove m to from n (to + of_nat i) = m (from + of_nat i)"
  by (simp add: memmove_def mwrite_apply unat_of_nat_u32)

lemma copy_chunks_one: "0 < l \<Longrightarrow> l \<le> CHUNKSZ \<Longrightarrow> copy_chunks m to from l = memmove m to from (unat l)"
  by (subst copy_chunks.simps, subst copy_chunks.simps) (simp add: Let_def not_less [symmetric])

text \<open>
  Copying with the watchdog served in between goes wrong when the target lies just above the source:
  with one byte more than a piece the last byte comes from the wrong place, while one \<open>memmove\<close> is right.
\<close>

theorem copy_chunks_overlap:
  "copy_chunks m (from + 1) from (CHUNKSZ + 1) (from + 1 + CHUNKSZ) = m (from + (CHUNKSZ - 1)) \<and>
   memmove m (from + 1) from (unat (CHUNKSZ + 1)) (from + 1 + CHUNKSZ) = m (from + CHUNKSZ)"
proof
  have c: "(CHUNKSZ :: u32) = of_nat 65536" "CHUNKSZ < CHUNKSZ + 1" "CHUNKSZ - 1 = of_nat 65535" by (simp_all add: CHUNKSZ_def)
  have "copy_chunks m (from + 1) from (CHUNKSZ + 1) =
      copy_chunks (memmove m (from + 1) from (unat CHUNKSZ)) (from + 1 + CHUNKSZ) (from + CHUNKSZ) 1"
    using c(2) by (subst copy_chunks.simps) (simp add: Let_def word_less_nat_alt unat_CHUNKSZ)
  also have "\<dots> = memmove (memmove m (from + 1) from (unat CHUNKSZ)) (from + 1 + CHUNKSZ) (from + CHUNKSZ) 1"
    by (subst copy_chunks_one) (simp_all add: CHUNKSZ_def)
  finally have "copy_chunks m (from + 1) from (CHUNKSZ + 1) (from + 1 + CHUNKSZ) =
      memmove m (from + 1) from (unat CHUNKSZ) (from + CHUNKSZ)"
    using memmove_byte [of 0 1] by simp
  also have "from + CHUNKSZ = from + 1 + of_nat 65535" by (simp add: CHUNKSZ_def)
  also have "memmove m (from + 1) from (unat CHUNKSZ) \<dots> = m (from + of_nat 65535)"
    by (rule memmove_byte) (simp_all add: unat_CHUNKSZ)
  finally show "copy_chunks m (from + 1) from (CHUNKSZ + 1) (from + 1 + CHUNKSZ) = m (from + (CHUNKSZ - 1))"
    by (simp only: c(3))
  show "memmove m (from + 1) from (unat (CHUNKSZ + 1)) (from + 1 + CHUNKSZ) = m (from + CHUNKSZ)"
    using memmove_byte [of 65536 "unat (CHUNKSZ + 1)" m "from + 1" "from"]
    by (simp only: c(1) unat_CHUNKSZ) simp
qed

section \<open>Printing ends\<close>

lemma Let_is_Some: "(\<And>x. \<exists>y. f x = Some y) \<Longrightarrow> \<exists>y. Let a f = Some y"
  by simp

lemma case_prod_is_Some: "(\<And>x z. \<exists>y. f x z = Some y) \<Longrightarrow> \<exists>y. case_prod f p = Some y"
  by (cases p) simp

lemma number_total:
  assumes "2 \<le> base" "base \<le> 36"
  shows "\<exists>out. number w base fw p fl = Some out"
proof -
  have nb: "(base < 2 \<or> base > 36) = False" using assms by simp
  show ?thesis
    unfolding number_def nb if_False by (intro Let_is_Some case_prod_is_Some) blast
qed

lemmas sprintf_defs = sprintf_def vsprintf_def directive_def conversion_def parse_width_def parse_precision_def
  is_digit_def fetch_num_def pad_to_def pad_pre_def Let_def

lemma print_formats:
  "\<exists>t. sprintf (str ''%2ld'') [VaWord n] = Some t"
  "\<exists>t. sprintf (str ''.%ld'') [VaWord n] = Some t"
  "\<exists>t. sprintf (str '' %cB%s'') [VaWord n, VaStr s] = Some t"
  "\<exists>t. sprintf (str ''   Image Name:   %.*s'' @ [10]) [VaWord n, VaStr s] = Some t"
  "\<exists>t. sprintf (str ''   Data Size:    %d Bytes = '') [VaWord n] = Some t"
  "\<exists>t. sprintf (str ''   Load Address: %08x'' @ [10]) [VaWord n] = Some t"
  "\<exists>t. sprintf (str ''   Entry Point:  %08x'' @ [10]) [VaWord n] = Some t"
  "\<exists>t. sprintf (str ''   Image %d: %8ld Bytes = '') [VaWord n, VaWord k] = Some t"
  subgoal using number_total [of 10 n 2 "-1" 2] by (clarsimp simp: sprintf_defs flag_defs)
  subgoal using number_total [of 10 n "-1" "-1" 2] by (clarsimp simp: sprintf_defs flag_defs)
  subgoal by (clarsimp simp: sprintf_defs flag_defs)
  subgoal by (clarsimp simp: sprintf_defs flag_defs)
  subgoal using number_total [of 10 n "-1" "-1" 2] by (clarsimp simp: sprintf_defs flag_defs)
  subgoal using number_total [of 16 n 8 "-1" 1] by (clarsimp simp: sprintf_defs flag_defs)
  subgoal using number_total [of 16 n 8 "-1" 1] by (clarsimp simp: sprintf_defs flag_defs)
  subgoal using number_total [of 10 n "-1" "-1" 2] number_total [of 10 k 8 "-1" 2] by (clarsimp simp: sprintf_defs flag_defs)
  done

lemma print_size_total: "\<exists>t. print_size n s = Some t"
  using print_formats(1) print_formats(2) print_formats(3)
  by (simp add: print_size_def Let_def split: prod.split) (metis bind.bind_lunit)

lemma print_contents_total:
  "mem_be32 m (p + of_nat (4 * k)) = 0 \<Longrightarrow> \<exists>t. print_contents m i p = Some t"
proof (induction k arbitrary: i p)
  case 0
  then show ?case by (subst print_contents.simps) simp
next
  case (Suc k)
  obtain a b where a: "sprintf (str ''   Image %d: %8ld Bytes = '') [VaWord (of_nat i), VaWord (mem_be32 m p)] = Some a"
    and b: "print_size (mem_be32 m p) [10] = Some b"
    using print_formats(8) print_size_total by blast
  have "mem_be32 m (p + 4 + of_nat (4 * k)) = 0" using Suc.prems by (simp add: algebra_simps)
  from Suc.IH [OF this, of "i + 1"] show ?case
    by (subst print_contents.simps) (auto simp: a b simp del: str_Cons)
qed

text \<open>A zero word ends the length table of a multi-file image.\<close>

definition has_table :: "mem \<Rightarrow> image_header \<Rightarrow> u32 \<Rightarrow> bool" where
  "has_table m h data \<longleftrightarrow> (ih_type h = IH_TYPE_MULTI \<longrightarrow> (\<exists>k. mem_be32 m (data + of_nat (4 * k)) = 0))"

lemma print_image_hdr_total: "has_table m h data \<Longrightarrow> \<exists>t. print_image_hdr m h data = Some t"
proof -
  assume t: "has_table m h data"
  obtain a b c d e where
    "sprintf (str ''   Image Name:   %.*s'' @ [10]) [VaWord (of_nat IH_NMLEN), VaStr (Some (ih_name h))] = Some a"
    "sprintf (str ''   Data Size:    %d Bytes = '') [VaWord (ih_size h)] = Some b"
    "print_size (ih_size h) [10] = Some c"
    "sprintf (str ''   Load Address: %08x'' @ [10]) [VaWord (ih_load h)] = Some d"
    "sprintf (str ''   Entry Point:  %08x'' @ [10]) [VaWord (ih_ep h)] = Some e"
    using print_formats(4-7) print_size_total by blast
  note r = this
  have "\<exists>f. (if ih_type h = IH_TYPE_MULTI
                  then Option.bind (print_contents m 0 data) (\<lambda>t. Some (str ''   Contents:'' @ [10] @ t))
                  else Some []) = Some f"
  proof (cases "ih_type h = IH_TYPE_MULTI")
    case True
    then obtain k where "mem_be32 m (data + of_nat (4 * k)) = 0" using t by (auto simp: has_table_def)
    from print_contents_total [OF this] obtain c where c: "print_contents m 0 data = Some c" by blast
    show ?thesis unfolding c bind.bind_lunit using True by simp
  qed simp
  then obtain f where f: "(if ih_type h = IH_TYPE_MULTI
      then Option.bind (print_contents m 0 data) (\<lambda>t. Some (str ''   Contents:'' @ [10] @ t)) else Some []) = Some f" ..
  show ?thesis unfolding print_image_hdr_def r f bind.bind_lunit by blast
qed

section \<open>Checking\<close>

lemma header_of_append: "IH_SIZE \<le> length xs \<Longrightarrow> header_of (xs @ ys) = header_of xs"
  by (simp add: header_of_def be32_dec_def IH_SIZE_def IH_NMLEN_def nth_append)

lemma header_of_mread: "header_of (mread m a (IH_SIZE + n)) = header_of (mread m a IH_SIZE)"
  by (simp add: mread_append header_of_append)

lemma image_info_cases:
  assumes "has_table m (header_of (mread m addr IH_SIZE)) (addr + of_nat IH_SIZE)"
  shows "image_info m addr = Some
     (if mk_list (mread m addr (IH_SIZE + unat (ih_size (header_of (mread m addr IH_SIZE))))) = Some (True, True)
      then 0 else 1)"
proof -
  let ?h = "header_of (mread m addr IH_SIZE)"
  have "drop IH_SIZE (mread m addr (IH_SIZE + n)) = mread m (addr + of_nat IH_SIZE) n" for n
    by (simp add: mread_append)
  moreover obtain t where "print_image_hdr m ?h (addr + of_nat IH_SIZE) = Some t"
    using print_image_hdr_total [OF assms] ..
  ultimately show ?thesis
    by (auto simp: image_info_def check_header_def check_data_def mk_list_def header_of_mread Let_def)
qed

lemma image_info_result:
  assumes "image_info m addr = Some r"
  shows "r = (if mk_list (mread m addr (IH_SIZE + unat (ih_size (header_of (mread m addr IH_SIZE))))) = Some (True, True)
      then 0 else 1)"
proof -
  have "drop IH_SIZE (mread m addr (IH_SIZE + n)) = mread m (addr + of_nat IH_SIZE) n" for n
    by (simp add: mread_append)
  with assms show ?thesis
    by (auto simp: image_info_def check_header_def check_data_def mk_list_def header_of_mread Let_def
        bind_eq_Some_conv split: if_splits)
qed

text \<open>
  C23: \<open>iminfo\<close> in the monitor and \<^verbatim>\<open>mkimage -l\<close> on the host agree on a file that is as long as its header
  says and lies in memory: whenever \<open>image_info\<close> returns, it returns 0 if the tool lists the file without a
  complaint, and 1 otherwise. The length matters: the tool sums everything behind the header, the monitor as much as
  the header announces (\<open>trailing_byte_differs\<close>).
\<close>

theorem image_info_agrees:
  assumes "image_info m addr = Some r" and "mread m addr (length f) = f"
    and "length f = IH_SIZE + unat (ih_size (header_of f))"
  shows "r = (if mk_list f = Some (True, True) then 0 else 1)"
proof -
  let ?h = "header_of (mread m addr IH_SIZE)"
  have "ih_size ?h = ih_size (header_of f)"
    using assms(2) header_of_mread [of m addr "unat (ih_size (header_of f))"] unfolding assms(3) by simp
  then have "mread m addr (IH_SIZE + unat (ih_size ?h)) = f" using assms(2) unfolding assms(3) by simp
  with image_info_result [OF assms(1)] show ?thesis by simp
qed

lemma mk_list_header:
  "mk_list (header_bytes (mk_header opts ep t d) @ d') = Some (True, crc32 0 (Some d') = crc32 0 (Some d))"
proof -
  let ?h = "mk_header opts ep t d"
  have "header_of (header_bytes ?h @ d') = ?h" by (rule header_of_bytes) simp
  moreover have "drop IH_SIZE (header_bytes ?h @ d') = d'" by simp
  ultimately show ?thesis
    unfolding mk_list_def Let_def by (simp only: mk_header_hcrc) (simp add: IH_SIZE_def)
qed

definition damaged_img :: "byte list" where
  "damaged_img = header_bytes (mk_header demo_opts 0x10000 5 [1, 2, 3]) @ [1, 2, 4]"

theorem image_info_agrees_witness:
  "image_info (mwrite (\<lambda>_. 0) 0x100000 damaged_img) 0x100000 = Some 1"
proof -
  let ?m = "mwrite (\<lambda>_. 0) 0x100000 damaged_img"
  have len: "length damaged_img = 67" by (simp add: damaged_img_def IH_SIZE_def)
  have rd: "mread ?m 0x100000 (length damaged_img) = damaged_img"
    by (rule mread_mwrite) (simp_all add: len)
  have h: "header_of damaged_img = mk_header demo_opts 0x10000 5 [1, 2, 3]"
    unfolding damaged_img_def by (rule header_of_bytes) simp
  have "crc32 0 (Some [1, 2, 4]) \<noteq> crc32 0 (Some [1, 2, 3])" by code_simp
  then have l: "mk_list damaged_img = Some (True, False)" by (simp add: damaged_img_def mk_list_header)
  have "header_of (mread ?m 0x100000 IH_SIZE) = header_of damaged_img"
    using rd header_of_mread [of ?m "0x100000" 3] by (simp add: len IH_SIZE_def)
  then have "\<exists>r. image_info ?m 0x100000 = Some r"
    using image_info_cases [of ?m "0x100000"] by (simp add: h has_table_def demo_opts_def IH_TYPE_defs)
  then obtain r where r: "image_info ?m 0x100000 = Some r" ..
  show ?thesis using image_info_agrees [OF r rd] r by (simp add: h l len IH_SIZE_def)
qed

subsection \<open>Images of the tool\<close>

definition image_at :: "mem \<Rightarrow> u32 \<Rightarrow> byte list \<Rightarrow> bool" where
  "image_at m addr img \<longleftrightarrow> unat addr + length img \<le> 2 ^ 32 \<and> mread m addr (length img) = img"

lemma image_at_append:
  assumes "image_at m a (xs @ ys)"
  shows "image_at m a xs" and "image_at m (a + of_nat (length xs)) ys \<or> ys = []"
proof -
  have r: "mread m a (length xs) @ mread m (a + of_nat (length xs)) (length ys) = xs @ ys"
    using assms by (simp add: image_at_def mread_append)
  then have e: "mread m a (length xs) = xs" "mread m (a + of_nat (length xs)) (length ys) = ys"
    by (simp_all add: append_eq_append_conv)
  show "image_at m a xs" using assms e by (simp add: image_at_def)
  show "image_at m (a + of_nat (length xs)) ys \<or> ys = []"
  proof (cases ys)
    case (Cons y ys')
    then have "unat a + length xs < 2 ^ 32" using assms by (auto simp: image_at_def)
    then have "unat (a + of_nat (length xs)) = unat a + length xs" by (rule unat_add_of_nat)
    then show ?thesis using assms e by (simp add: image_at_def)
  qed simp
qed

lemma size_table_zero:
  "size_table fs f = Some t \<Longrightarrow> \<exists>w k. t = w @ be32 0 \<and> length w = 4 * k"
proof (induction fs f arbitrary: t rule: size_table.induct)
  case (1 fs)
  have "be32 0 = [] @ be32 0" "length [] = 4 * 0" by simp_all
  then show ?case using 1 by (metis option.inject size_table.simps(1))
next
  case (2 fs nm)
  then obtain bs t' where bs: "fs (fst (split_file nm)) = Some bs"
    and t': "size_table fs (snd (split_file nm)) = Some t'" and t: "t = be32 (of_nat (length bs)) @ t'"
    by (auto simp: size_table.simps split: option.splits)
  from 2(1) [OF bs t'] obtain w k where "t' = w @ be32 0" "length w = 4 * k" by blast
  then have "t = (be32 (of_nat (length bs)) @ w) @ be32 0" "length (be32 (of_nat (length bs)) @ w) = 4 * Suc k"
    by (simp_all add: t)
  then show ?case by blast
qed

lemma mkimage_in_memory:
  assumes "mkimage opts fs datafile mtime = Some img" and "image_at m addr img"
  obtains ep data where "mk_entry opts = Some ep" "mk_data opts fs datafile = Some data"
    "length data < 2 ^ 32" "mread m (addr + of_nat IH_SIZE) (length data) = data"
    "header_of (mread m addr IH_SIZE) = mk_header opts ep mtime data"
    "check_header m addr = Inr ((mk_header opts ep mtime data)\<lparr>ih_hcrc := 0\<rparr>)"
    "unat addr + IH_SIZE + length data \<le> 2 ^ 32"
    "has_table m (mk_header opts ep mtime data) (addr + of_nat IH_SIZE)"
proof -
  from mkimage_parts [OF assms(1)] obtain ep data where ep: "mk_entry opts = Some ep"
    and data: "mk_data opts fs datafile = Some data"
    and img: "img = header_bytes (mk_header opts ep mtime data) @ data" by blast
  let ?h = "mk_header opts ep mtime data"
  have rd: "mread m addr IH_SIZE = header_bytes ?h" "mread m (addr + of_nat IH_SIZE) (length data) = data"
    using assms(2) by (simp_all add: image_at_def img mread_append append_eq_append_conv)
  have len: "unat addr + IH_SIZE + length data \<le> 2 ^ 32" using assms(2) by (simp add: image_at_def img)
  then have len': "length data < 2 ^ 32" by (simp add: IH_SIZE_def)
  have h: "header_of (mread m addr IH_SIZE) = ?h"
    using header_of_bytes [of ?h "[]"] by (simp add: rd)
  have ck: "check_header m addr = Inr (?h\<lparr>ih_hcrc := 0\<rparr>)"
    by (simp add: check_header_def h mk_header_hcrc Let_def)
  have "has_table m ?h (addr + of_nat IH_SIZE)"
    unfolding has_table_def
  proof
    assume "ih_type ?h = IH_TYPE_MULTI"
    then obtain t d where t: "size_table fs (Some datafile) = Some t" and td: "data = t @ d"
      using data by (auto simp: mk_data_def split: option.splits)
    from size_table_zero [OF t] obtain w k where w: "t = w @ be32 0" "length w = 4 * k" by blast
    have "mread m (addr + of_nat IH_SIZE) (4 * k + (4 + length d)) = w @ be32 0 @ d"
      using rd(2) by (simp add: td w)
    then have "mread m (addr + of_nat IH_SIZE + of_nat (4 * k)) 4 = be32 0"
      by (simp add: mread_append w append_eq_append_conv)
    then have "mem_be32 m (addr + of_nat IH_SIZE + of_nat (4 * k)) = 0"
      by (metis append_Nil2 be32_dec_be32)
    then show "\<exists>k. mem_be32 m (addr + of_nat IH_SIZE + of_nat (4 * k)) = 0" ..
  qed
  from that [OF ep data len' rd(2) h ck len this] show ?thesis .
qed

lemma image_accepted:
  assumes "mkimage opts fs datafile mtime = Some img" and "image_at m addr img"
  shows "image_info m addr = Some 0"
proof -
  from assms obtain ep data where d: "length data < 2 ^ 32" "mread m (addr + of_nat IH_SIZE) (length data) = data"
    "header_of (mread m addr IH_SIZE) = mk_header opts ep mtime data"
    "check_header m addr = Inr ((mk_header opts ep mtime data)\<lparr>ih_hcrc := 0\<rparr>)"
    "has_table m (mk_header opts ep mtime data) (addr + of_nat IH_SIZE)"
    by (rule mkimage_in_memory)
  then obtain t where "print_image_hdr m (mk_header opts ep mtime data) (addr + of_nat IH_SIZE) = Some t"
    using print_image_hdr_total by blast
  with d show ?thesis
    by (simp add: image_info_def check_data_def unat_of_nat_u32)
qed

text \<open>A zero byte behind an image, as padding leaves it: the monitor accepts the image, the tool reports a corrupted one.\<close>

lemma trailing_byte_differs:
  assumes "image_at m addr (header_bytes (mk_header demo_opts 0x10000 5 [1, 2, 3]) @ [1, 2, 3] @ [0])"
  shows "image_info m addr = Some 0 \<and>
    mk_list (header_bytes (mk_header demo_opts 0x10000 5 [1, 2, 3]) @ [1, 2, 3] @ [0]) = Some (True, False)"
proof -
  have "image_at m addr (header_bytes (mk_header demo_opts 0x10000 5 [1, 2, 3]) @ [1, 2, 3])"
    using image_at_append(1) [where ys = "[0]"] assms by simp
  from image_accepted [OF demo_image this]
  have "image_info m addr = Some 0" .
  moreover have "crc32 0 (Some ([1, 2, 3] @ [0])) \<noteq> crc32 0 (Some [1, 2, 3])" by code_simp
  ultimately show ?thesis unfolding mk_list_header by simp
qed

text \<open>
  C22: every image the tool makes, of any type and any number of files, is accepted by \<open>iminfo\<close> when it lies in
  memory at any address.
\<close>

theorem iminfo_accepts:
  assumes "mkimage opts fs datafile mtime = Some img" and "image_at m addr img"
  shows "image_info m addr = Some 0"
  using assms by (rule image_accepted)

definition demo_img :: "byte list" where
  "demo_img = header_bytes (mk_header demo_opts 0x10000 5 [1, 2, 3]) @ [1, 2, 3]"

lemma length_demo_img [simp]: "length demo_img = 67"
  by (simp add: demo_img_def IH_SIZE_def)

lemma demo_image_at: "image_at (mwrite (\<lambda>_. 0) 0x100000 demo_img) 0x100000 demo_img"
  by (simp add: image_at_def)

theorem iminfo_accepts_witness:
  "image_info (mwrite (\<lambda>_. 0) 0x100000 demo_img) 0x100000 = Some 0"
  by (rule iminfo_accepts [OF demo_image [folded demo_img_def] demo_image_at])

lemma mread_patch:
  assumes "i + length w \<le> n" and "unat a + n \<le> 2 ^ 32"
  shows "mread (mwrite m (a + of_nat i) w) a n =
     mread m a i @ w @ mread m (a + of_nat (i + length w)) (n - i - length w)"
proof (cases "w = []")
  case True
  then show ?thesis using assms mread_append [of m a i "n - i"] by simp
next
  case False
  then have u: "unat (a + of_nat i) = unat a + i"
    using assms by (intro unat_add_of_nat) (cases w; auto)
  have n: "n = i + (length w + (n - i - length w))" using assms by simp
  have p1: "mread (mwrite m (a + of_nat i) w) a i = mread m a i"
    using assms u by (intro mread_mwrite_disjoint) (auto simp: disjoint_blocks_def)
  have p2: "mread (mwrite m (a + of_nat i) w) (a + of_nat i) (length w) = w"
    using assms by simp
  have p3: "mread (mwrite m (a + of_nat i) w) (a + of_nat (i + length w)) (n - i - length w) =
      mread m (a + of_nat (i + length w)) (n - i - length w)"
  proof (cases "i + length w = n")
    case True
    then show ?thesis by simp
  next
    case False
    then have "unat (a + of_nat (i + length w)) = unat a + (i + length w)"
      using assms by (intro unat_add_of_nat) auto
    then show ?thesis using assms u by (intro mread_mwrite_disjoint) (auto simp: disjoint_blocks_def)
  qed
  show ?thesis
    by (subst n, simp only: mread_append p1 p2) (use p3 in \<open>simp add: add.assoc\<close>)
qed

subsection \<open>Damaged images\<close>

text \<open>The header's checks on its bytes: magic number, checksum, and the rest of the header around a cleared checksum.\<close>

lemma header_fields:
  assumes "length B = IH_SIZE"
  shows "be32 (ih_magic (header_of B)) = take 4 B" and "be32 (ih_hcrc (header_of B)) = take 4 (drop 4 B)"
    and "header_bytes ((header_of B)\<lparr>ih_hcrc := 0\<rparr>) = take 4 B @ be32 0 @ drop 8 B"
proof -
  have l: "length B = 64" using assms by (simp add: IH_SIZE_def)
  have dec: "be32 (be32_dec (drop n B)) = take 4 (drop n B)" if "n + 4 \<le> 64" for n
    using be32_be32_dec [of "take 4 (drop n B)"] that l by (simp add: be32_dec_def)
  have split: "take 4 (drop n B) @ drop (4 + n) B = drop n B" for n
    using append_take_drop_id [of 4 "drop n B"] by simp
  have codes: "[B ! 28, B ! 29, B ! 30, B ! 31] = take 4 (drop 28 B)"
    using l by (intro nth_equalityI) (auto simp: less_Suc_eq numeral_eq_Suc)
  have name: "take IH_NMLEN (drop 32 B) = drop 32 B" using l by (simp add: IH_NMLEN_def)
  show "be32 (ih_magic (header_of B)) = take 4 B" "be32 (ih_hcrc (header_of B)) = take 4 (drop 4 B)"
    using dec [of 0] dec [of 4] by (simp_all add: header_of_def)
  have "take 4 (drop 8 B) @ take 4 (drop 12 B) @ take 4 (drop 16 B) @ take 4 (drop 20 B) @ take 4 (drop 24 B) @
      take 4 (drop 28 B) @ drop 32 B = drop 8 B"
    using split [of 28] split [of 24] split [of 20] split [of 16] split [of 12] split [of 8] by simp
  then show "header_bytes ((header_of B)\<lparr>ih_hcrc := 0\<rparr>) = take 4 B @ be32 0 @ drop 8 B"
    using dec [of 0] dec [of 8] dec [of 12] dec [of 16] dec [of 20] dec [of 24]
    by (simp add: header_bytes_def header_of_def codes name)
qed

lemma image_info_checks:
  assumes "image_info m addr = Some 0" and "B = mread m addr IH_SIZE"
  shows "take 4 B = be32 IH_MAGIC" and "be32 (crc32 0 (Some (take 4 B @ be32 0 @ drop 8 B))) = take 4 (drop 4 B)"
    and "crc32 0 (Some (mread m (addr + of_nat IH_SIZE) (unat (ih_size (header_of B))))) = ih_dcrc (header_of B)"
proof -
  have l: "length B = IH_SIZE" by (simp add: assms(2))
  have "ih_magic (header_of B) = IH_MAGIC"
    "crc32 0 (Some (header_bytes ((header_of B)\<lparr>ih_hcrc := 0\<rparr>))) = ih_hcrc (header_of B)"
    "crc32 0 (Some (mread m (addr + of_nat IH_SIZE) (unat (ih_size (header_of B))))) = ih_dcrc (header_of B)"
    using assms(1) by (auto simp: image_info_def check_header_def check_data_def assms(2) Let_def bind_eq_Some_conv split: if_splits)
  then show "take 4 B = be32 IH_MAGIC" "be32 (crc32 0 (Some (take 4 B @ be32 0 @ drop 8 B))) = take 4 (drop 4 B)"
    "crc32 0 (Some (mread m (addr + of_nat IH_SIZE) (unat (ih_size (header_of B))))) = ih_dcrc (header_of B)"
    using header_fields [OF l] by simp_all
qed

text \<open>Two headers that pass the checks do not differ in a burst within the first eight bytes or behind them.\<close>

lemma header_burst:
  assumes B: "take 4 B = be32 IH_MAGIC" "be32 (crc32 0 (Some (take 4 B @ be32 0 @ drop 8 B))) = take 4 (drop 4 B)"
    and B': "take 4 B' = be32 IH_MAGIC" "be32 (crc32 0 (Some (take 4 B' @ be32 0 @ drop 8 B'))) = take 4 (drop 4 B')"
    and eq: "B = p @ v @ s" "B' = p @ w @ s" and len: "length v = length w" "length w \<le> 4"
    and field: "length p + length w \<le> 8 \<or> 8 \<le> length p"
  shows "v = w"
proof -
  have split: "X = take 4 X @ take 4 (drop 4 X) @ drop 8 X" for X :: "byte list"
    using append_take_drop_id [of 4 X] append_take_drop_id [of 4 "drop 4 X"] by simp
  have "B = B'"
  proof (cases "8 \<le> length p")
    case False
    then have "drop 8 B = drop 8 B'" using field eq len by simp
    with B B' have "take 4 B = take 4 B'" "take 4 (drop 4 B) = take 4 (drop 4 B')" "drop 8 B = drop 8 B'" by simp_all
    then show ?thesis using split [of B] split [of B'] by simp
  next
    case True
    then have t: "take 4 B = take 4 p" "take 4 B' = take 4 p" "take 4 (drop 4 B) = take 4 (drop 4 B')"
      and d: "drop 8 B = drop 8 p @ v @ s" "drop 8 B' = drop 8 p @ w @ s" using eq by simp_all
    have "crc32 0 (Some (take 4 B @ be32 0 @ drop 8 B)) = crc32 0 (Some (take 4 B' @ be32 0 @ drop 8 B'))"
      using B(2) B'(2) t(3) by (metis be32_inject)
    then have "crc32 0 (Some ((take 4 p @ be32 0 @ drop 8 p) @ v @ s)) = crc32 0 (Some ((take 4 p @ be32 0 @ drop 8 p) @ w @ s))"
      by (simp add: t d)
    then have "v = w" using crc32_burst [OF len(1), of 0 "take 4 p @ be32 0 @ drop 8 p" s] len by fastforce
    then show ?thesis using eq by simp
  qed
  then show ?thesis using eq by simp
qed

text \<open>
  C28: if up to four adjacent bytes of an accepted image change, anywhere in its header or its data, \<open>iminfo\<close> no longer
  accepts it, unless the change goes across the end of the header's checksum field (bytes 4 to 7), where the checksum and the
  bytes it is taken of may change together.
\<close>

theorem iminfo_detects_burst:
  assumes "image_info m addr = Some 0" and "n = IH_SIZE + unat (ih_size (header_of (mread m addr IH_SIZE)))"
    and "unat addr + n \<le> 2 ^ 32" and "i + length w \<le> n" and "length w \<le> 4"
    and "w \<noteq> mread m (addr + of_nat i) (length w)" and "i + length w \<le> 8 \<or> 8 \<le> i"
  shows "image_info (mwrite m (addr + of_nat i) w) addr \<noteq> Some 0"
proof
  let ?m = "mwrite m (addr + of_nat i) w" and ?d = "addr + of_nat IH_SIZE"
  assume ok: "image_info ?m addr = Some 0"
  define B B' where "B = mread m addr IH_SIZE" and "B' = mread ?m addr IH_SIZE"
  define A v C where "A = mread m addr i" and "v = mread m (addr + of_nat i) (length w)"
    and "C = mread m (addr + of_nat (i + length w)) (n - i - length w)"
  note defs = B_def B'_def A_def v_def C_def
  have n: "n = i + (length w + (n - i - length w))" using assms(4) by simp
  have len: "length A = i" "length v = length w" by (simp_all add: defs)
  have X: "mread m addr n = A @ v @ C" by (subst n) (simp only: mread_append defs add.assoc of_nat_add)
  have X': "mread ?m addr n = A @ w @ C" using mread_patch [OF assms(4,3)] by (simp only: defs)
  have s: "mread x addr n = mread x addr IH_SIZE @ mread x ?d (n - IH_SIZE)" for x
    using mread_append [of x addr IH_SIZE "n - IH_SIZE"] by (simp add: assms(2))
  have t: "B = take IH_SIZE (A @ v @ C)" "B' = take IH_SIZE (A @ w @ C)"
    "mread m ?d (n - IH_SIZE) = drop IH_SIZE (A @ v @ C)" "mread ?m ?d (n - IH_SIZE) = drop IH_SIZE (A @ w @ C)"
    using s [of m] s [of ?m] by (simp_all add: X X' defs)
  note c = image_info_checks [OF assms(1) B_def] and c' = image_info_checks [OF ok B'_def]
  have "take (IH_SIZE - i) v = take (IH_SIZE - i) w"
    by (rule header_burst [OF c(1,2) c'(1,2)]) (use t len assms(5,7) in \<open>auto simp: IH_SIZE_def\<close>)
  then have h: "B = B'" using t len by simp
  then have "crc32 0 (Some (drop IH_SIZE (A @ v @ C))) = crc32 0 (Some (drop IH_SIZE (A @ w @ C)))"
    using c(3) c'(3) t assms(2) by (simp add: defs)
  moreover have "length (drop (IH_SIZE - i) w) \<le> 4" using assms(5) by simp
  ultimately have "drop (IH_SIZE - i) v = drop (IH_SIZE - i) w"
    using crc32_burst [of "drop (IH_SIZE - i) v" "drop (IH_SIZE - i) w" 0 "drop IH_SIZE A" "drop (IH_SIZE - (i + length w)) C"]
      len by auto
  with \<open>take (IH_SIZE - i) v = take (IH_SIZE - i) w\<close> have "v = w" by (metis append_take_drop_id)
  then show False using assms(6) by (simp add: v_def)
qed

lemma demo_header:
  "header_of (mread (mwrite (\<lambda>_. 0) 0x100000 demo_img) 0x100000 IH_SIZE) = mk_header demo_opts 0x10000 5 [1, 2, 3]"
proof (rule mkimage_in_memory [OF demo_image [folded demo_img_def] demo_image_at])
  fix ep data
  assume "mk_entry demo_opts = Some ep" "mk_data demo_opts (\<lambda>_. Some [1, 2, 3]) [] = Some data"
    and h: "header_of (mread (mwrite (\<lambda>_. 0) 0x100000 demo_img) 0x100000 IH_SIZE) = mk_header demo_opts ep 5 data"
  then have "ep = 0x10000" "data = [1, 2, 3]"
    by (simp_all add: mk_entry_def mk_data_def copy_file_def demo_opts_def IH_TYPE_defs)
  with h show ?thesis by simp
qed

lemma demo_size:
  "unat (ih_size (header_of (mread (mwrite (\<lambda>_. 0) 0x100000 demo_img) 0x100000 IH_SIZE))) = 3"
  unfolding demo_header by simp

theorem iminfo_detects_burst_witness:
  "image_info (mwrite (mwrite (\<lambda>_. 0) 0x100000 demo_img) (0x100000 + of_nat 31) [9]) 0x100000 \<noteq> Some 0 \<and>
   image_info (mwrite (mwrite (\<lambda>_. 0) 0x100000 demo_img) (0x100000 + of_nat 65) [9]) 0x100000 \<noteq> Some 0"
proof -
  let ?m = "mwrite (\<lambda>_. 0) 0x100000 demo_img"
  have ok: "image_info ?m 0x100000 = Some 0"
    by (rule image_accepted [OF demo_image [folded demo_img_def] demo_image_at])
  have n: "67 = IH_SIZE + unat (ih_size (header_of (mread ?m 0x100000 IH_SIZE)))"
    unfolding demo_size by (simp add: IH_SIZE_def)
  have b: "[9] \<noteq> mread ?m (0x100000 + of_nat 31) (length [9 :: byte])"
    "[9] \<noteq> mread ?m (0x100000 + of_nat 65) (length [9 :: byte])"
    by (simp_all add: mwrite_apply) (simp_all add: demo_img_def nth_append IH_SIZE_def header_bytes_def mk_header_def demo_opts_def IH_COMP_NONE_def IH_NMLEN_def)
  show ?thesis
    by (intro conjI iminfo_detects_burst [OF ok n]) (use b in simp_all)
qed

end
