(* ===== verification/BootImage.thy ===== *)
theory BootImage
  imports BootmCorrect
begin

text \<open>
  From the tool to the kernel: where \<open>do_bootm_linux\<close> puts the command line, the board information and the
  initrd, and that an image made by the tool is loaded and started by \<open>do_bootm\<close>.
\<close>

section \<open>Places\<close>

lemma and_not_mask_le: "unat ((x :: u32) AND NOT m) \<le> unat x"
proof -
  have "x AND NOT m \<le> x" by (rule word_and_le2)
  then show ?thesis by (simp add: word_le_nat_alt)
qed

lemma page_aligned: "((x :: u32) AND NOT (4096 - 1)) AND (4096 - 1) = 0"
  by (simp add: and.assoc)

lemma minus_le: "unat b \<le> unat a \<Longrightarrow> unat ((a :: u32) - b) = unat a - unat b"
  by (simp add: unat_sub word_le_nat_alt)

text \<open>
  The configuration leaves room below the stack: 2048 bytes, the command line and the board information,
  each with the bytes lost to its alignment.
\<close>

definition roomy :: "boot_config \<Rightarrow> bool" where
  "roomy cfg \<longleftrightarrow> 2048 \<le> unat (bc_sp cfg) \<and> unat (bc_bargsize cfg) \<le> unat (boot_limit cfg) \<and>
     BD_SIZE \<le> unat (boot_cmdline cfg)"

lemma boot_places:
  assumes "roomy cfg"
  shows "unat (boot_kbd cfg) + BD_SIZE \<le> unat (boot_cmdline cfg)"
    and "unat (boot_cmdline cfg) + unat (bc_bargsize cfg) \<le> unat (boot_limit cfg)"
    and "unat (boot_limit cfg) + 2048 \<le> unat (bc_sp cfg)" and "boot_limit cfg \<le> bc_bootmapsz cfg"
proof -
  have r: "2048 \<le> unat (bc_sp cfg)" "unat (bc_bargsize cfg) \<le> unat (boot_limit cfg)" "BD_SIZE \<le> unat (boot_cmdline cfg)"
    using assms by (simp_all add: roomy_def)
  have "unat (of_nat BD_SIZE :: u32) = BD_SIZE" by (simp add: BD_SIZE_def)
  then have "unat (boot_cmdline cfg - of_nat BD_SIZE) = unat (boot_cmdline cfg) - BD_SIZE"
    using r(3) by (subst minus_le) simp_all
  then show "unat (boot_kbd cfg) + BD_SIZE \<le> unat (boot_cmdline cfg)"
    using and_not_mask_le [of "boot_cmdline cfg - of_nat BD_SIZE" "0xF"] r(3) by (simp add: boot_kbd_def)
  show "unat (boot_cmdline cfg) + unat (bc_bargsize cfg) \<le> unat (boot_limit cfg)"
    using and_not_mask_le [of "boot_limit cfg - bc_bargsize cfg" "0xF"] minus_le [OF r(2)] r(2)
    by (simp add: boot_cmdline_def)
  have sp: "unat (bc_sp cfg - 2048) = unat (bc_sp cfg) - 2048" using r(1) by (subst minus_le) simp_all
  let ?l = "if bc_sp cfg - 2048 > bc_bootmapsz cfg then bc_bootmapsz cfg else bc_sp cfg - 2048"
  have l: "boot_limit cfg = ?l AND NOT 0xF" by (simp add: boot_limit_def Let_def)
  have "?l \<le> bc_sp cfg - 2048" "?l \<le> bc_bootmapsz cfg" by auto
  then show "unat (boot_limit cfg) + 2048 \<le> unat (bc_sp cfg)" and "boot_limit cfg \<le> bc_bootmapsz cfg"
    using and_not_mask_le [of ?l "0xF"] r(1) sp unfolding l word_le_nat_alt by linarith+
qed

text \<open>The end of the area below the stack that an initrd may be moved into.\<close>

definition initrd_limit :: "boot_config \<Rightarrow> u32 \<Rightarrow> u32" where
  "initrd_limit cfg initrd_high =
     (let nsp = (bc_sp cfg - 2048) AND NOT 0xF in if nsp > initrd_high then initrd_high else nsp)"

text \<open>
  C32: the initrd starts on a page, and it lies either below the board information, or (only if
  \<open>initrd_high\<close> is not 0) above the kernel's parameters and below both the stack and \<open>initrd_high\<close>. It must
  not be larger than the space it is put into: the code does not check that.
\<close>

theorem initrd_placed:
  assumes "roomy cfg" and "unat len \<le> unat (boot_kbd cfg)"
    and "initrd_high = 0 \<or> unat len \<le> unat (initrd_limit cfg initrd_high)"
  shows "place_initrd cfg initrd_high (boot_limit cfg) (boot_kbd cfg) len AND (4096 - 1) = 0 \<and>
     (unat (place_initrd cfg initrd_high (boot_limit cfg) (boot_kbd cfg) len) + unat len \<le> unat (boot_kbd cfg) \<or>
      initrd_high \<noteq> 0 \<and>
      unat (boot_limit cfg) \<le> unat (place_initrd cfg initrd_high (boot_limit cfg) (boot_kbd cfg) len) \<and>
      unat (place_initrd cfg initrd_high (boot_limit cfg) (boot_kbd cfg) len) + unat len + 2048 \<le> unat (bc_sp cfg) \<and>
      unat (place_initrd cfg initrd_high (boot_limit cfg) (boot_kbd cfg) len) + unat len \<le> unat initrd_high)"
proof -
  let ?low = "(boot_kbd cfg - len) AND NOT (4096 - 1)"
  let ?nsp = "(initrd_limit cfg initrd_high - len) AND NOT (4096 - 1)"
  have p: "place_initrd cfg initrd_high (boot_limit cfg) (boot_kbd cfg) len =
      (if initrd_high \<noteq> 0 \<and> boot_limit cfg \<le> ?nsp then ?nsp else ?low)"
    by (simp add: place_initrd_def initrd_limit_def Let_def)
  have low: "unat ?low + unat len \<le> unat (boot_kbd cfg)"
    using and_not_mask_le [of "boot_kbd cfg - len" "4096 - 1"] minus_le [OF assms(2)] assms(2) by linarith
  show ?thesis
  proof (cases "initrd_high \<noteq> 0 \<and> boot_limit cfg \<le> ?nsp")
    case False
    then show ?thesis unfolding p if_not_P [OF False] using low page_aligned by blast
  next
    case True
    then have le: "unat len \<le> unat (initrd_limit cfg initrd_high)" using assms(3) by simp
    have n: "unat ?nsp + unat len \<le> unat (initrd_limit cfg initrd_high)"
      using and_not_mask_le [of "initrd_limit cfg initrd_high - len" "4096 - 1"] minus_le [OF le] le by linarith
    have "2048 \<le> unat (bc_sp cfg)" using assms(1) by (simp add: roomy_def)
    then have sp: "unat (bc_sp cfg - 2048) = unat (bc_sp cfg) - 2048" by (subst minus_le) simp_all
    let ?a = "(bc_sp cfg - 2048) AND NOT 0xF"
    have "initrd_limit cfg initrd_high \<le> ?a" "initrd_limit cfg initrd_high \<le> initrd_high"
      by (auto simp: initrd_limit_def Let_def)
    then have b: "unat (initrd_limit cfg initrd_high) + 2048 \<le> unat (bc_sp cfg)"
      "unat (initrd_limit cfg initrd_high) \<le> unat initrd_high"
      using and_not_mask_le [of "bc_sp cfg - 2048" "0xF"] sp \<open>2048 \<le> unat (bc_sp cfg)\<close>
      unfolding word_le_nat_alt by linarith+
    have "unat (boot_limit cfg) \<le> unat ?nsp" using True by (simp only: word_le_nat_alt)
    moreover have "unat ?nsp + unat len + 2048 \<le> unat (bc_sp cfg)" "unat ?nsp + unat len \<le> unat initrd_high"
      using n b by linarith+
    ultimately show ?thesis unfolding p if_P [OF True] using True page_aligned by blast
  qed
qed

definition demo_bd :: bd_info where
  "demo_bd = \<lparr>bi_memstart = 0, bi_memsize = 0x1000000, bi_flashstart = 0xfff00000, bi_flashsize = 0x100000,
     bi_flashoffset = 0, bi_sramstart = 0, bi_sramsize = 0, bi_bootflags = 0, bi_ip_addr = 0,
     bi_enetaddr = [0, 1, 2, 3, 4, 5], bi_ethspeed = 10, bi_intfreq = 50000000, bi_busfreq = 50000000,
     bi_baudrate = 9600\<rparr>"

definition demo_cfg :: boot_config where
  "demo_cfg = \<lparr>bc_watchdog = True, bc_sp = 0xF80000, bc_bootmapsz = 0x800000, bc_bargsize = 0x100, bc_bd = demo_bd,
     bc_bd_addr = 0xFFF000, bc_consdev = []\<rparr>"

lemma demo_places: "boot_limit demo_cfg = 0x800000" "boot_cmdline demo_cfg = 0x7FFF00" "boot_kbd demo_cfg = 0x7FFEC0"
  "roomy demo_cfg"
proof -
  show l: "boot_limit demo_cfg = 0x800000" by (simp add: boot_limit_def demo_cfg_def)
  show c: "boot_cmdline demo_cfg = 0x7FFF00" by (simp add: boot_cmdline_def l) (simp add: demo_cfg_def)
  show "boot_kbd demo_cfg = 0x7FFEC0" by (simp add: boot_kbd_def c BD_SIZE_def)
  show "roomy demo_cfg" by (simp add: roomy_def l c BD_SIZE_def) (simp add: demo_cfg_def)
qed

theorem initrd_placed_witness:
  "place_initrd demo_cfg 0x700000 (boot_limit demo_cfg) (boot_kbd demo_cfg) 0x2000 AND (4096 - 1) = 0"
  by (rule initrd_placed [OF demo_places(4), THEN conjunct1])
    (simp_all only: demo_places initrd_limit_def Let_def, simp_all add: demo_cfg_def)

section \<open>Reading the table of a multi-file image\<close>

lemma skip_lens_words:
  assumes "\<And>j. j < n \<Longrightarrow> mem_be32 m (p + of_nat (4 * (i + j))) \<noteq> 0"
    and "mem_be32 m (p + of_nat (4 * (i + n))) = 0"
  shows "skip_lens m p i data = Some (data + of_nat (4 * n))"
  using assms
proof (induction n arbitrary: i data)
  case 0
  then show ?case by (subst skip_lens.simps) simp
next
  case (Suc n)
  have "mem_be32 m (p + of_nat (4 * (i + 1 + j))) \<noteq> 0" if "j < n" for j
    using Suc.prems(1) [of "Suc j"] that by simp
  moreover have "mem_be32 m (p + of_nat (4 * (i + 1 + n))) = 0" using Suc.prems(2) by simp
  ultimately have "skip_lens m p (i + 1) (data + 4) = Some (data + 4 + of_nat (4 * n))"
    by (rule Suc.IH)
  moreover have "mem_be32 m (p + of_nat (4 * i)) \<noteq> 0" using Suc.prems(1) [of 0] by simp
  ultimately show ?case by (subst skip_lens.simps) (simp add: algebra_simps)
qed

lemma length_size_words [simp]: "length (size_words files) = 4 * length files + 4"
  by (induction files) (simp_all add: size_words_def)

lemma mread_be32:
  assumes "mread m a (4 + n) = be32 w @ rest"
  shows "mem_be32 m a = w" and "mread m (a + 4) n = rest"
proof -
  have "mread m a 4 @ mread m (a + of_nat 4) n = be32 w @ rest"
    using assms by (simp only: mread_append)
  then have "mread m a 4 = be32 w \<and> mread m (a + of_nat 4) n = rest"
    by (subst (asm) append_eq_append_conv) simp_all
  then show "mem_be32 m a = w" and "mread m (a + 4) n = rest"
    using be32_dec_be32 [of w "[]"] by simp_all
qed

lemma size_words_nth:
  "mread m a (4 * length files + 4 + n) = size_words files @ rest \<Longrightarrow> i \<le> length files \<Longrightarrow>
   mem_be32 m (a + of_nat (4 * i)) = (if i < length files then of_nat (length (files ! i)) else 0)"
proof (induction files arbitrary: a i)
  case Nil
  then have "mread m a (4 + n) = be32 0 @ rest" by (simp add: size_words_def)
  from mread_be32(1) [OF this] show ?case using Nil(2) by simp
next
  case (Cons f files)
  have "mread m a (4 + (4 * length files + 4 + n)) = be32 (of_nat (length f)) @ size_words files @ rest"
    using Cons.prems(1) by (simp add: size_words_def add.assoc)
  note r = mread_be32 [OF this]
  show ?case
  proof (cases i)
    case 0
    then show ?thesis using r(1) by simp
  next
    case (Suc j)
    then have "mem_be32 m (a + 4 + of_nat (4 * j)) = (if j < length files then of_nat (length (files ! j)) else 0)"
      using Cons.prems(2) by (intro Cons.IH [OF r(2)]) simp
    then show ?thesis by (simp add: Suc algebra_simps)
  qed
qed

section \<open>Loading and starting\<close>

definition boot_addr :: "u32 \<Rightarrow> byte list list \<Rightarrow> u32" where
  "boot_addr laddr argv = (if length argv < 2 then laddr else fst (simple_strtoul (argv ! 1) 16))"

definition boot_verify :: "(byte list \<Rightarrow> byte list option) \<Rightarrow> bool" where
  "boot_verify ev = (case ev (str ''verify'') of Some (c # _) \<Rightarrow> c \<noteq> ch CHR ''n'' | _ \<Rightarrow> True)"

definition boot_args :: "(byte list \<Rightarrow> byte list option) \<Rightarrow> byte list" where
  "boot_args ev = (case ev (str ''bootargs'') of None \<Rightarrow> [] | Some s \<Rightarrow> s)"

definition boot_bd :: "boot_config \<Rightarrow> (byte list \<Rightarrow> byte list option) \<Rightarrow> bd_info" where
  "boot_bd cfg ev = kernel_bd (ev (str ''clocks_in_mhz'') \<noteq> None) (bc_bd cfg)"

definition boot_high :: "(byte list \<Rightarrow> byte list option) \<Rightarrow> u32" where
  "boot_high ev = (case ev (str ''initrd_high'') of Some s \<Rightarrow> fst (simple_strtoul s 16) | None \<Rightarrow> NOT 0)"

text \<open>An image of the tool passes the checks, and its kernel is loaded.\<close>

lemma do_bootm_image:
  assumes "mkimage opts fs datafile mtime = Some img" and "image_at m (boot_addr laddr argv) img"
    and "opt_type opts \<noteq> IH_TYPE_STANDALONE" and "opt_comp opts = IH_COMP_NONE"
    and "boot_kernel m ((mk_header opts ep mtime (drop IH_SIZE img))\<lparr>ih_hcrc := 0\<rparr>) (boot_addr laddr argv + of_nat IH_SIZE) =
           Some (Inr (kdata, len))"
    and "mk_entry opts = Some ep"
  shows "do_bootm cfg z appl ev laddr m argv =
    boot_os cfg ev (if opt_addr opts = boot_addr laddr argv then m else boot_copy cfg m (opt_addr opts) kdata len)
      ((mk_header opts ep mtime (drop IH_SIZE img))\<lparr>ih_hcrc := 0\<rparr>) argv (boot_addr laddr argv)
      (boot_addr laddr argv + of_nat IH_SIZE) (boot_verify ev)"
proof -
  let ?addr = "boot_addr laddr argv"
  from assms(1,2) obtain ep' data where e: "mk_entry opts = Some ep'" and "mk_data opts fs datafile = Some data"
    and d: "length data < 2 ^ 32" "mread m (?addr + of_nat IH_SIZE) (length data) = data"
      "header_of (mread m ?addr IH_SIZE) = mk_header opts ep' mtime data"
      "check_header m ?addr = Inr ((mk_header opts ep' mtime data)\<lparr>ih_hcrc := 0\<rparr>)"
      "has_table m (mk_header opts ep' mtime data) (?addr + of_nat IH_SIZE)"
    by (rule mkimage_in_memory)
  have data: "drop IH_SIZE img = data"
    using assms(1) e \<open>mk_data opts fs datafile = Some data\<close> by (auto simp: mkimage_def)
  have ep: "ep' = ep" using e assms(6) by simp
  obtain t where t: "print_image_hdr m (mk_header opts ep mtime data) (?addr + of_nat IH_SIZE) = Some t"
    using print_image_hdr_total d(5) ep by blast
  have ck: "check_data m (?addr + of_nat IH_SIZE) ((mk_header opts ep mtime data)\<lparr>ih_hcrc := 0\<rparr>)"
    using d(1,2) by (simp add: check_data_def unat_of_nat_u32)
  show ?thesis
    using assms(3-5) t ck d(3,4) unfolding do_bootm_def boot_addr_def [symmetric] boot_verify_def [symmetric] Let_def data ep
    by (simp add: boot_load_def cong: if_cong)
qed

lemma length_bd_bytes [simp]: "length (bi_enetaddr bd) = 6 \<Longrightarrow> length (bd_bytes bd) = BD_SIZE"
  by (simp add: bd_bytes_def BD_SIZE_def)

lemma boot_bd_enet [simp]: "bi_enetaddr (boot_bd cfg ev) = bi_enetaddr (bc_bd cfg)"
  by (simp add: boot_bd_def kernel_bd_def)

text \<open>The kernel's parameters do not touch a block of memory.\<close>

definition params_clear :: "boot_config \<Rightarrow> byte list \<Rightarrow> u32 \<Rightarrow> nat \<Rightarrow> bool" where
  "params_clear cfg s a n \<longleftrightarrow>
     disjoint_blocks (boot_cmdline cfg) (Suc (length s)) a n \<and> disjoint_blocks (boot_kbd cfg) BD_SIZE a n"

definition put_params :: "boot_config \<Rightarrow> byte list \<Rightarrow> bd_info \<Rightarrow> mem \<Rightarrow> mem" where
  "put_params cfg s bd m = mwrite (mwrite m (boot_cmdline cfg) (s @ [0])) (boot_kbd cfg) (bd_bytes bd)"

lemma params_read:
  assumes "length (bi_enetaddr bd) = 6" and "disjoint_blocks (boot_kbd cfg) BD_SIZE (boot_cmdline cfg) (Suc (length s))"
  shows "mread (put_params cfg s bd m) (boot_cmdline cfg) (Suc (length s)) = s @ [0]"
    and "mread (put_params cfg s bd m) (boot_kbd cfg) BD_SIZE = bd_bytes bd"
    and "params_clear cfg s a n \<Longrightarrow> mread (put_params cfg s bd m) a n = mread m a n"
proof -
  have l: "length (s @ [0]) \<le> 2 ^ 32" using assms(2) by (simp add: disjoint_blocks_def)
  then show "mread (put_params cfg s bd m) (boot_cmdline cfg) (Suc (length s)) = s @ [0]"
    using assms by (simp only: put_params_def mread_mwrite_disjoint length_bd_bytes) (rule mread_mwrite; simp)
  show "mread (put_params cfg s bd m) (boot_kbd cfg) BD_SIZE = bd_bytes bd"
    using assms(1) by (simp add: put_params_def BD_SIZE_def)
  assume "params_clear cfg s a n"
  then show "mread (put_params cfg s bd m) a n = mread m a n"
    using assms(1) by (simp add: put_params_def params_clear_def mread_mwrite_disjoint)
qed

lemma do_bootm_linux_eq:
  "do_bootm_linux cfg ev m hdr argv len_ptr verify =
     (let m = put_params cfg (boot_args ev) (boot_bd cfg ev) m;
          cmd_end = boot_cmdline cfg + of_nat (length (boot_args ev))
      in Option.bind (find_initrd cfg m hdr argv len_ptr verify) (\<lambda>r.
           case r of
             Inl err \<Rightarrow> Some ([], Reset err)
           | Inr (data, len) \<Rightarrow>
               if data \<noteq> 0 then
                 let start = place_initrd cfg (boot_high ev) (boot_limit cfg) (boot_kbd cfg) len
                 in Some ([Start_Linux (ih_ep hdr) (boot_kbd cfg) start (start + len) (boot_cmdline cfg) cmd_end
                             (boot_copy cfg m start data len)], Started)
               else Some ([Start_Linux (ih_ep hdr) (boot_kbd cfg) 0 0 (boot_cmdline cfg) cmd_end m], Started)))"
  by (simp only: do_bootm_linux_def put_params_def Let_def boot_args_def boot_bd_def boot_high_def)

lemma boot_copy_memmove:
  "forward_safe to from (unat len) \<Longrightarrow> boot_copy cfg m to from len = memmove m to from (unat len)"
  by (simp add: boot_copy_def copy_chunks_memmove)

lemma kernel_starts:
  assumes "mkimage opts fs datafile mtime = Some img" and "image_at m (boot_addr laddr argv) img"
    and "opt_type opts = IH_TYPE_KERNEL" and "opt_comp opts = IH_COMP_NONE" and "opt_arch opts = IH_CPU_PPC"
    and "opt_os opts \<noteq> IH_OS_NETBSD" and "length argv \<le> 2" and "opt_addr opts \<noteq> boot_addr laddr argv"
    and "forward_safe (opt_addr opts) (boot_addr laddr argv + of_nat IH_SIZE) (length img - IH_SIZE)"
    and "length (bi_enetaddr (bc_bd cfg)) = 6"
    and "disjoint_blocks (boot_kbd cfg) BD_SIZE (boot_cmdline cfg) (Suc (length (boot_args ev)))"
    and "params_clear cfg (boot_args ev) (opt_addr opts) (length img - IH_SIZE)"
  shows "\<exists>ep m'. mk_entry opts = Some ep \<and>
     do_bootm cfg z appl ev laddr m argv =
       Some ([Start_Linux ep (boot_kbd cfg) 0 0 (boot_cmdline cfg)
                (boot_cmdline cfg + of_nat (length (boot_args ev))) m'], Started) \<and>
     mread m' (opt_addr opts) (length img - IH_SIZE) = drop IH_SIZE img \<and>
     mread m' (boot_cmdline cfg) (Suc (length (boot_args ev))) = boot_args ev @ [0] \<and>
     mread m' (boot_kbd cfg) BD_SIZE = bd_bytes (boot_bd cfg ev)"
proof -
  let ?addr = "boot_addr laddr argv"
  from assms(1,2) obtain ep data where e: "mk_entry opts = Some ep" and "mk_data opts fs datafile = Some data"
    and d: "length data < 2 ^ 32" "mread m (?addr + of_nat IH_SIZE) (length data) = data"
    by (rule mkimage_in_memory)
  then have data: "drop IH_SIZE img = data" and len: "length img - IH_SIZE = length data"
    using assms(1) by (auto simp: mkimage_def)
  let ?h = "(mk_header opts ep mtime data)\<lparr>ih_hcrc := 0\<rparr>"
  let ?m1 = "memmove m (opt_addr opts) (?addr + of_nat IH_SIZE) (length data)"
  let ?m2 = "put_params cfg (boot_args ev) (boot_bd cfg ev) ?m1"
  have u: "unat (of_nat (length data) :: u32) = length data" using d(1) by (rule unat_of_nat_u32)
  have k: "boot_kernel m ?h (?addr + of_nat IH_SIZE) = Some (Inr (?addr + of_nat IH_SIZE, of_nat (length data)))"
    using assms(3,5) by (simp add: boot_kernel_def IH_TYPE_defs)
  have cp: "boot_copy cfg m (opt_addr opts) (?addr + of_nat IH_SIZE) (of_nat (length data)) = ?m1"
    using assms(9) len u by (simp add: boot_copy_memmove)
  have "do_bootm cfg z appl ev laddr m argv =
      do_bootm_linux cfg ev ?m1 ?h argv (?addr + of_nat IH_SIZE) (boot_verify ev)"
    using do_bootm_image [OF assms(1,2) _ assms(4) k [folded data] e, of cfg z appl ev] assms(3,6,8)
    by (simp add: boot_os_def cp data IH_TYPE_defs)
  also have "\<dots> = Some ([Start_Linux ep (boot_kbd cfg) 0 0 (boot_cmdline cfg)
                (boot_cmdline cfg + of_nat (length (boot_args ev))) ?m2], Started)"
    using assms(3,7) by (simp add: do_bootm_linux_eq find_initrd_def Let_def IH_TYPE_defs)
  finally have r: "do_bootm cfg z appl ev laddr m argv = \<dots>" .
  have "mread ?m1 (opt_addr opts) (length data) = data" using d by (simp add: memmove_def)
  then have "mread ?m2 (opt_addr opts) (length data) = data"
    using params_read(3) [of "boot_bd cfg ev" cfg "boot_args ev" "opt_addr opts" "length data"] assms(10-12) len by simp
  then show ?thesis
    using r e params_read(1,2) [of "boot_bd cfg ev" cfg "boot_args ev" ?m1] assms(10,11) data len by auto
qed

text \<open>
  C21: \<open>bootm\<close> of a kernel image made by the tool jumps to its entry point, with the image's data at the load
  address, the boot arguments as a string where the command line starts, the board information where
  the kernel looks for it, and no initrd.
\<close>

theorem bootm_starts_kernel:
  assumes "mkimage opts fs datafile mtime = Some img" and "image_at m (boot_addr laddr argv) img"
    and "opt_type opts = IH_TYPE_KERNEL" and "opt_comp opts = IH_COMP_NONE" and "opt_arch opts = IH_CPU_PPC"
    and "opt_os opts \<noteq> IH_OS_NETBSD" and "length argv \<le> 2" and "opt_addr opts \<noteq> boot_addr laddr argv"
    and "forward_safe (opt_addr opts) (boot_addr laddr argv + of_nat IH_SIZE) (length img - IH_SIZE)"
    and "length (bi_enetaddr (bc_bd cfg)) = 6"
    and "disjoint_blocks (boot_kbd cfg) BD_SIZE (boot_cmdline cfg) (Suc (length (boot_args ev)))"
    and "params_clear cfg (boot_args ev) (opt_addr opts) (length img - IH_SIZE)"
  shows "\<exists>ep m'. mk_entry opts = Some ep \<and>
     do_bootm cfg z appl ev laddr m argv =
       Some ([Start_Linux ep (boot_kbd cfg) 0 0 (boot_cmdline cfg)
                (boot_cmdline cfg + of_nat (length (boot_args ev))) m'], Started) \<and>
     mread m' (opt_addr opts) (length img - IH_SIZE) = drop IH_SIZE img \<and>
     mread m' (boot_cmdline cfg) (Suc (length (boot_args ev))) = boot_args ev @ [0] \<and>
     mread m' (boot_kbd cfg) BD_SIZE = bd_bytes (boot_bd cfg ev)"
  using assms by (rule kernel_starts)

lemma demo_clear: "params_clear demo_cfg [] a n \<longleftrightarrow> disjoint_blocks 0x7FFF00 1 a n \<and> disjoint_blocks 0x7FFEC0 56 a n"
  by (simp add: params_clear_def demo_places BD_SIZE_def)

theorem bootm_starts_kernel_witness:
  "\<forall>z appl. \<exists>m'. do_bootm demo_cfg z appl (\<lambda>_. None) 0x100000 (mwrite (\<lambda>_. 0) 0x100000 demo_img) [str ''bootm''] =
       Some ([Start_Linux 0x10000 0x7FFEC0 0 0 0x7FFF00 0x7FFF00 m'], Started) \<and> mread m' 0x10000 3 = [1, 2, 3]"
proof (intro allI)
  fix z :: zlib and appl :: "u32 \<Rightarrow> byte list list \<Rightarrow> mem \<Rightarrow> mem option"
  let ?m = "mwrite (\<lambda>_. 0) 0x100000 demo_img"
  have a: "boot_addr 0x100000 [str ''bootm''] = 0x100000" by (simp add: boot_addr_def)
  have "opt_type demo_opts = IH_TYPE_KERNEL" "opt_comp demo_opts = IH_COMP_NONE" "opt_arch demo_opts = IH_CPU_PPC"
    "opt_os demo_opts \<noteq> IH_OS_NETBSD" "opt_addr demo_opts = 0x10000" "mk_entry demo_opts = Some 0x10000"
    "drop IH_SIZE demo_img = [1, 2, 3]" "length (bi_enetaddr (bc_bd demo_cfg)) = 6" "boot_args (\<lambda>_. None) = []"
    by (simp_all add: demo_opts_def IH_OS_defs mk_entry_def demo_img_def demo_cfg_def demo_bd_def boot_args_def)
  note d = this
  have "\<exists>ep m'. mk_entry demo_opts = Some ep \<and>
     do_bootm demo_cfg z appl (\<lambda>_. None) 0x100000 ?m [str ''bootm''] =
       Some ([Start_Linux ep (boot_kbd demo_cfg) 0 0 (boot_cmdline demo_cfg)
                (boot_cmdline demo_cfg + of_nat (length (boot_args (\<lambda>_. None)))) m'], Started) \<and>
     mread m' (opt_addr demo_opts) (length demo_img - IH_SIZE) = drop IH_SIZE demo_img \<and>
     mread m' (boot_cmdline demo_cfg) (Suc (length (boot_args (\<lambda>_. None)))) = boot_args (\<lambda>_. None) @ [0] \<and>
     mread m' (boot_kbd demo_cfg) BD_SIZE = bd_bytes (boot_bd demo_cfg (\<lambda>_. None))"
    by (rule bootm_starts_kernel [OF demo_image [folded demo_img_def]])
      (simp_all only: a d demo_image_at demo_places demo_clear,
       simp_all add: forward_safe_def disjoint_blocks_def IH_SIZE_def BD_SIZE_def)
  then show "\<exists>m'. do_bootm demo_cfg z appl (\<lambda>_. None) 0x100000 ?m [str ''bootm''] =
       Some ([Start_Linux 0x10000 0x7FFEC0 0 0 0x7FFF00 0x7FFF00 m'], Started) \<and> mread m' 0x10000 3 = [1, 2, 3]"
    unfolding d demo_places by (auto simp: IH_SIZE_def)
qed

section \<open>Kernel and initrd in one image\<close>

text \<open>The parts of a multi-file image in memory.\<close>

lemma length_pad4: "length (pad4 f) = length f + (4 - length f mod 4) mod 4"
  by (simp add: pad4_def)

lemma pad4_word:
  assumes "length f < 2 ^ 32"
  shows "(if of_nat (length f) mod 4 \<noteq> (0 :: u32) then a + of_nat (length f) + (4 - of_nat (length f) mod 4)
          else a + of_nat (length f)) = (a :: u32) + of_nat (length (pad4 f))"
proof -
  have m: "(of_nat (length f) :: u32) mod 4 = of_nat (length f mod 4)"
    using assms by (simp add: word_arith_nat_mod unat_of_nat_u32)
  have lt: "length f mod 4 < 4" by simp
  then consider "length f mod 4 = 0" | "length f mod 4 = 1" | "length f mod 4 = 2" | "length f mod 4 = 3" by linarith
  then show ?thesis by cases (simp_all add: m length_pad4)
qed

lemma multi_parts:
  assumes data: "mread m lp (length (size_words fs @ pad4 k @ r @ rest)) = size_words fs @ pad4 k @ r @ rest"
    and fs: "length fs = n"
  shows "mread m (lp + of_nat (4 * n + 4)) (length k) = k"
    and "mread m (lp + of_nat (4 * n + 4) + of_nat (length (pad4 k))) (length r) = r"
    and "\<And>i. i \<le> n \<Longrightarrow> mem_be32 m (lp + of_nat (4 * i)) = (if i < n then of_nat (length (fs ! i)) else 0)"
proof -
  have "mread m lp (4 * n + 4) @ mread m (lp + of_nat (4 * n + 4)) (length (pad4 k)) @
      mread m (lp + of_nat (4 * n + 4) + of_nat (length (pad4 k))) (length r) @
      mread m (lp + of_nat (4 * n + 4) + of_nat (length (pad4 k)) + of_nat (length r)) (length rest) =
      size_words fs @ pad4 k @ r @ rest"
    using data fs by (simp add: mread_append add.assoc)
  then have p: "mread m (lp + of_nat (4 * n + 4)) (length (pad4 k)) = pad4 k"
    and r: "mread m (lp + of_nat (4 * n + 4) + of_nat (length (pad4 k))) (length r) = r"
    using fs by (simp_all add: append_eq_append_conv)
  have "take (length k) (mread m (lp + of_nat (4 * n + 4)) (length (pad4 k))) = take (length k) (pad4 k)" by (simp only: p)
  then show "mread m (lp + of_nat (4 * n + 4)) (length k) = k"
    by (simp add: take_mread length_pad4) (simp add: pad4_def)
  show "mread m (lp + of_nat (4 * n + 4) + of_nat (length (pad4 k))) (length r) = r" by (rule r)
  fix i assume "i \<le> n"
  have "mread m lp (4 * length fs + 4 + (length (pad4 k) + (length r + length rest))) = size_words fs @ pad4 k @ r @ rest"
    using data by (simp add: add.assoc)
  from size_words_nth [OF this] \<open>i \<le> n\<close> fs
  show "mem_be32 m (lp + of_nat (4 * i)) = (if i < n then of_nat (length (fs ! i)) else 0)" by blast
qed

text \<open>The files of an image, the first two of which are a kernel and an initrd.\<close>

definition files_fit :: "byte list list \<Rightarrow> bool" where
  "files_fit files \<longleftrightarrow> [] \<notin> set files \<and> length (size_words files @ join_files files) < 2 ^ 32"

lemma join_rest: "\<exists>rest. join_files (k # r # fs) = pad4 k @ r @ rest"
  by (cases fs) (auto simp: pad4_def)

lemma file_length:
  assumes "files_fit files" and f: "f \<in> set files"
  shows "0 < length f \<and> length f < 2 ^ 32"
proof -
  have "length f \<le> length (join_files fs)" if "f \<in> set fs" for f and fs :: "byte list list"
    using that by (induction fs rule: join_files.induct) (auto simp: length_pad4)
  then have "length f \<le> length (join_files files)" using f by blast
  then show ?thesis using assms by (auto simp: files_fit_def simp del: join_files.simps)
qed

lemma file_word: "files_fit files \<Longrightarrow> f \<in> set files \<Longrightarrow> (of_nat (length f) :: u32) \<noteq> 0"
  using file_length [of files f] unat_of_nat_u32 [of "length f"] by auto

lemma multi_table:
  assumes fit: "files_fit (k # r # fs)" and n: "length (k # r # fs) = n" and rd: "mread m lp (length (size_words (k # r # fs) @ join_files (k # r # fs))) =
      size_words (k # r # fs) @ join_files (k # r # fs)"
  shows "mem_be32 m lp = of_nat (length k)" and "mem_be32 m (lp + 4) = of_nat (length r)"
    and "skip_lens m lp 1 (lp + 8) = Some (lp + of_nat (4 * n + 4))"
    and "mread m (lp + of_nat (4 * n + 4)) (length k) = k"
    and "mread m (lp + of_nat (4 * n + 4) + of_nat (length (pad4 k))) (length r) = r"
proof -
  obtain rest where j: "join_files (k # r # fs) = pad4 k @ r @ rest" using join_rest by blast
  note p = multi_parts [OF rd [unfolded j] n]
  show "mem_be32 m lp = of_nat (length k)" using p(3) [of 0] n by simp
  show "mem_be32 m (lp + 4) = of_nat (length r)" using p(3) [of 1] n by simp
  show "mread m (lp + of_nat (4 * n + 4)) (length k) = k" by (rule p(1))
  show "mread m (lp + of_nat (4 * n + 4) + of_nat (length (pad4 k))) (length r) = r" by (rule p(2))
  have "skip_lens m lp 1 (lp + 8) = Some (lp + 8 + of_nat (4 * (n - 1)))"
  proof (rule skip_lens_words)
    fix i assume "i < n - 1"
    then have l: "1 + i < n" by simp
    then have "mem_be32 m (lp + of_nat (4 * (1 + i))) = of_nat (length ((k # r # fs) ! (1 + i)))"
      using p(3) [OF less_imp_le [OF l]] by (simp only: if_True)
    moreover have "(k # r # fs) ! (1 + i) \<in> set (k # r # fs)"
      using \<open>i < n - 1\<close> n by (intro nth_mem) simp
    ultimately show "mem_be32 m (lp + of_nat (4 * (1 + i))) \<noteq> 0" using file_word [OF fit] by simp
  next
    show "mem_be32 m (lp + of_nat (4 * (1 + (n - 1)))) = 0" using p(3) [of n] n by simp
  qed
  then show "skip_lens m lp 1 (lp + 8) = Some (lp + of_nat (4 * n + 4))" using n by (simp add: algebra_simps)
qed

lemma disjoint_part:
  assumes "disjoint_blocks a n b k" and "unat c \<ge> unat b" and "unat c + j \<le> unat b + k"
  shows "disjoint_blocks a n c j"
  using assms by (auto simp: disjoint_blocks_def)

lemma disjoint_forward:
  "disjoint_blocks to n from n \<Longrightarrow> forward_safe to from n"
  by (auto simp: disjoint_blocks_def forward_safe_def)

text \<open>The address of the first two files behind the table at \<open>lp\<close>, within the data of the image.\<close>

lemma multi_layout:
  fixes lp :: u32
  assumes fit: "files_fit (k # r # fs)" and n: "length (k # r # fs) = n" and lp: "0 < unat lp"
    and L: "length (size_words (k # r # fs) @ join_files (k # r # fs)) = L" "unat lp + L \<le> 2 ^ 32"
  defines "kd \<equiv> lp + of_nat (4 * n + 4)"
  defines "rd \<equiv> kd + of_nat (length (pad4 k))"
  shows "unat lp \<le> unat kd" "unat kd + length k \<le> unat lp + L" "unat lp \<le> unat rd" "unat rd + length r \<le> unat lp + L" "rd \<noteq> 0"
proof -
  have r: "0 < length r" and k: "length k \<le> length (pad4 k)" using file_length [OF fit] by (simp_all add: length_pad4)
  obtain rest where j: "join_files (k # r # fs) = pad4 k @ r @ rest" using join_rest by blast
  have L': "L = 4 * n + 4 + length (pad4 k) + length r + length rest" using n unfolding L(1) [symmetric] j by simp
  have "unat kd = unat lp + (4 * n + 4)" unfolding kd_def by (rule unat_add_of_nat) (use L(2) L' r in linarith)
  moreover from this have "unat rd = unat kd + length (pad4 k)" unfolding rd_def by (rule_tac unat_add_of_nat) (use L(2) L' r in linarith)
  ultimately show "unat lp \<le> unat kd" "unat kd + length k \<le> unat lp + L" "unat lp \<le> unat rd" "unat rd + length r \<le> unat lp + L" "rd \<noteq> 0"
    using L' k lp by (auto simp: unat_gt_0)
qed

text \<open>The kernel of the image is loaded.\<close>

lemma multi_loaded:
  assumes mk: "mkimage opts files datafile mtime = Some img" and at: "image_at m (boot_addr laddr argv) img"
    and opts: "opt_type opts = IH_TYPE_MULTI" "opt_comp opts = IH_COMP_NONE" "opt_arch opts = IH_CPU_PPC" "opt_os opts \<noteq> IH_OS_NETBSD"
    and data: "drop IH_SIZE img = size_words (k # r # fs) @ join_files (k # r # fs)" "files_fit (k # r # fs)"
    and li: "disjoint_blocks (opt_addr opts) (length k) (boot_addr laddr argv) (length img)"
    and ep: "mk_entry opts = Some ep"
    and mem: "mread m (boot_addr laddr argv + of_nat IH_SIZE) (length (drop IH_SIZE img)) = drop IH_SIZE img"
    and lay: "unat (boot_addr laddr argv) \<le> unat kd" "unat kd + length k \<le> unat (boot_addr laddr argv) + length img"
    and kd: "kd = boot_addr laddr argv + of_nat IH_SIZE + of_nat (4 * length (k # r # fs) + 4)"
  shows "do_bootm cfg z appl ev laddr m argv = do_bootm_linux cfg ev (mwrite m (opt_addr opts) k)
    ((mk_header opts ep mtime (drop IH_SIZE img))\<lparr>ih_hcrc := 0\<rparr>) argv (boot_addr laddr argv + of_nat IH_SIZE) (boot_verify ev)"
proof -
  let ?addr = "boot_addr laddr argv" let ?lp = "boot_addr laddr argv + of_nat IH_SIZE"
  let ?h = "(mk_header opts ep mtime (drop IH_SIZE img))\<lparr>ih_hcrc := 0\<rparr>"
  note t = multi_table [OF data(2) refl mem [unfolded data(1)], folded kd]
  have k: "0 < length k" "unat (of_nat (length k) :: u32) = length k"
    using file_length [OF data(2), of k] by (simp_all add: unat_of_nat_u32)
  have bk: "boot_kernel m ?h ?lp = Some (Inr (kd, of_nat (length k)))"
    using opts t(1,3) by (simp add: boot_kernel_def IH_TYPE_defs)
  have "boot_copy cfg m (opt_addr opts) kd (of_nat (length k)) = mwrite m (opt_addr opts) k"
    using disjoint_forward [OF disjoint_part [OF li lay]] k t(4) by (simp add: boot_copy_memmove memmove_def)
  moreover have "length img \<ge> IH_SIZE + 12" using arg_cong [OF data(1), of length] by simp
  then have "0 < length img" by linarith
  then have "opt_addr opts \<noteq> ?addr" using li k(1) by (auto simp: disjoint_blocks_def)
  ultimately show ?thesis
    using do_bootm_image [OF mk at _ opts(2) bk ep, of cfg z appl ev] opts by (simp add: boot_os_def IH_TYPE_defs)
qed

text \<open>The initrd of the image is copied, and the kernel started; the image lies in the memory as it is after the parameters are stored.\<close>

lemma multi_started:
  assumes h: "ih_type h = IH_TYPE_MULTI" and argc: "length argv \<le> 2" and fit: "files_fit (k # r # fs)"
    and mem: "mread (put_params cfg (boot_args ev) (boot_bd cfg ev) m) lp (length (size_words (k # r # fs) @ join_files (k # r # fs))) =
      size_words (k # r # fs) @ join_files (k # r # fs)"
    and rd: "rd = lp + of_nat (4 * length (k # r # fs) + 4) + of_nat (length (pad4 k))" "rd \<noteq> 0"
    and start: "start = place_initrd cfg (boot_high ev) (boot_limit cfg) (boot_kbd cfg) (of_nat (length r))"
    and safe: "forward_safe start rd (length r)"
  shows "do_bootm_linux cfg ev m h argv lp v =
      Some ([Start_Linux (ih_ep h) (boot_kbd cfg) start (start + of_nat (length r)) (boot_cmdline cfg)
                (boot_cmdline cfg + of_nat (length (boot_args ev))) (mwrite (put_params cfg (boot_args ev) (boot_bd cfg ev) m) start r)], Started)"
proof -
  let ?m = "put_params cfg (boot_args ev) (boot_bd cfg ev) m"
  note t = multi_table [OF fit refl mem, folded rd(1)]
  have k: "length k < 2 ^ 32" and r: "unat (of_nat (length r) :: u32) = length r"
    using file_length [OF fit] by (simp_all add: unat_of_nat_u32)
  have fi: "find_initrd cfg ?m h argv lp v = Some (Inr (rd, of_nat (length r)))"
  proof -
    have "\<not> 3 \<le> length argv" using argc by simp
    moreover have "ih_type h = IH_TYPE_MULTI \<and> mem_be32 ?m (lp + 4) \<noteq> 0" using h t(2) file_word [OF fit, of r] by simp
    ultimately show ?thesis
      unfolding find_initrd_def Let_def t(1,3) bind.bind_lunit pad4_word [OF k] by (simp only: if_True if_False t(2) simp_thms rd(1))
  qed
  have "boot_copy cfg ?m start rd (of_nat (length r)) = mwrite ?m start r"
    using safe r t(5) by (simp add: boot_copy_memmove memmove_def)
  then show ?thesis
    unfolding do_bootm_linux_eq Let_def fi bind.bind_lunit sum.case prod.case if_P [OF rd(2)] start [symmetric] by simp
qed

text \<open>
  C3: \<open>bootm\<close> of a multi-file image made by the tool from a kernel and an initrd (and perhaps more files)
  jumps to the entry point with the kernel file at the load address, a copy of the initrd file at the
  address and of the length passed to the kernel, and the boot arguments and board information in
  place. The image, the load area, the kernel's parameters and the initrd must not overlap.
\<close>

theorem bootm_starts_multi:
  assumes mk: "mkimage opts files datafile mtime = Some img" and at: "image_at m (boot_addr laddr argv) img"
    and ty: "opt_type opts = IH_TYPE_MULTI" and "opt_comp opts = IH_COMP_NONE" and arch: "opt_arch opts = IH_CPU_PPC"
    and os: "opt_os opts \<noteq> IH_OS_NETBSD" and "\<not> opt_xip opts" and argc: "length argv \<le> 2"
    and fs: "map files (file_names datafile) = map Some (k # r # fs)" and ne: "[] \<notin> set (k # r # fs)"
    and enet: "length (bi_enetaddr (bc_bd cfg)) = 6"
    and par: "disjoint_blocks (boot_kbd cfg) BD_SIZE (boot_cmdline cfg) (Suc (length (boot_args ev)))"
    and li: "disjoint_blocks (opt_addr opts) (length k) (boot_addr laddr argv) (length img)"
    and pi: "params_clear cfg (boot_args ev) (boot_addr laddr argv) (length img)"
    and pl: "params_clear cfg (boot_args ev) (opt_addr opts) (length k)"
    and start: "start = place_initrd cfg (boot_high ev) (boot_limit cfg) (boot_kbd cfg) (of_nat (length r))"
    and ps: "params_clear cfg (boot_args ev) start (length r)"
    and sl: "disjoint_blocks start (length r) (opt_addr opts) (length k)"
    and si: "disjoint_blocks start (length r) (boot_addr laddr argv) (length img)"
  shows "\<exists>ep m'. mk_entry opts = Some ep \<and>
     do_bootm cfg z appl ev laddr m argv =
       Some ([Start_Linux ep (boot_kbd cfg) start (start + of_nat (length r)) (boot_cmdline cfg)
                (boot_cmdline cfg + of_nat (length (boot_args ev))) m'], Started) \<and>
     mread m' (opt_addr opts) (length k) = k \<and> mread m' start (length r) = r \<and>
     mread m' (boot_cmdline cfg) (Suc (length (boot_args ev))) = boot_args ev @ [0] \<and>
     mread m' (boot_kbd cfg) BD_SIZE = bd_bytes (boot_bd cfg ev)"
proof -
  let ?addr = "boot_addr laddr argv" let ?lp = "boot_addr laddr argv + of_nat IH_SIZE"
  let ?data = "size_words (k # r # fs) @ join_files (k # r # fs)"
  from mk at obtain ep data where e: "mk_entry opts = Some ep" and md: "mk_data opts files datafile = Some data"
    and d: "length data < 2 ^ 32" "mread m ?lp (length data) = data" "unat ?addr + IH_SIZE + length data \<le> 2 ^ 32"
    by (rule mkimage_in_memory)
  have data: "data = ?data" using md mk_data_multi [OF ty \<open>\<not> opt_xip opts\<close> fs ne] by simp
  have img: "drop IH_SIZE img = data" "length img = IH_SIZE + length data" using mk e md by (auto simp: mkimage_def)
  have fit: "files_fit (k # r # fs)" using d(1) ne unfolding files_fit_def data by blast
  have "0 < length data" using data by simp
  then have ulp: "unat ?lp = unat ?addr + IH_SIZE" using d(3) by (intro unat_add_of_nat) linarith
  then have lp: "0 < unat ?lp" "unat ?lp + length data \<le> 2 ^ 32" using d(3) by (simp_all add: IH_SIZE_def)
  define kd where "kd = ?lp + of_nat (4 * length (k # r # fs) + 4)"
  define rd where "rd = kd + of_nat (length (pad4 k))"
  note lay = multi_layout [OF fit refl lp(1) arg_cong [OF data [symmetric], of length] lp(2), folded kd_def, folded rd_def]
  have inimg: "unat ?addr \<le> unat kd" "unat kd + length k \<le> unat ?addr + length img"
    "unat ?addr \<le> unat rd" "unat rd + length r \<le> unat ?addr + length img"
    using lay(1-4) ulp img(2) by linarith+
  let ?m1 = "mwrite m (opt_addr opts) k"
  let ?m2 = "put_params cfg (boot_args ev) (boot_bd cfg ev) ?m1"
  let ?m3 = "mwrite ?m2 start r"
  have step1: "do_bootm cfg z appl ev laddr m argv =
      do_bootm_linux cfg ev ?m1 ((mk_header opts ep mtime data)\<lparr>ih_hcrc := 0\<rparr>) argv ?lp (boot_verify ev)"
    using multi_loaded [OF mk at ty assms(4) arch os img(1) [unfolded data] fit li e _ inimg(1,2) kd_def, of cfg z appl ev] d(2)
    unfolding img(1) by blast
  have pr: "\<And>a j. params_clear cfg (boot_args ev) a j \<Longrightarrow> mread ?m2 a j = mread ?m1 a j"
    using params_read(3) [OF _ par] enet by simp
  have "mread ?m2 ?addr (length img) = mread m ?addr (length img)" using pr [OF pi] mread_mwrite_disjoint [OF li] by simp
  then have m2: "mread ?m2 ?lp (length data) = data" using d(2) by (simp add: img(2) mread_append)
  have step2: "do_bootm_linux cfg ev ?m1 ((mk_header opts ep mtime data)\<lparr>ih_hcrc := 0\<rparr>) argv ?lp (boot_verify ev) =
      Some ([Start_Linux ep (boot_kbd cfg) start (start + of_nat (length r)) (boot_cmdline cfg)
                (boot_cmdline cfg + of_nat (length (boot_args ev))) ?m3], Started)"
    using multi_started [OF _ argc fit m2 [unfolded data] _ lay(5) start disjoint_forward [OF disjoint_part [OF si inimg(3,4)]],
        of "(mk_header opts ep mtime data)\<lparr>ih_hcrc := 0\<rparr>" "boot_verify ev"] ty
    by (simp add: rd_def kd_def)
  have m3: "mread ?m3 a j = mread ?m2 a j" if "disjoint_blocks start (length r) a j" for a j
    by (rule mread_mwrite_disjoint [OF that])
  have "mread ?m3 (opt_addr opts) (length k) = k" "mread ?m3 start (length r) = r"
    using m3 [OF sl] pr [OF pl] file_length [OF fit, of k] file_length [OF fit, of r] by simp_all
  moreover have "mread ?m3 (boot_cmdline cfg) (Suc (length (boot_args ev))) = boot_args ev @ [0]"
    "mread ?m3 (boot_kbd cfg) BD_SIZE = bd_bytes (boot_bd cfg ev)"
    using ps params_read(1,2) [OF _ par, of "boot_bd cfg ev" ?m1] enet m3
    by (simp_all only: params_clear_def disjoint_blocks_commute boot_bd_enet simp_thms)
  ultimately show ?thesis using step1 step2 e by auto
qed

definition demo_multi :: mk_opts where
  "demo_multi = demo_opts\<lparr>opt_type := IH_TYPE_MULTI\<rparr>"

definition demo_files :: "byte list \<Rightarrow> byte list option" where
  "demo_files name = (if name = [97] then Some [1, 2, 3] else Some [7, 8])"

lemma demo_names: "map demo_files (file_names [97, 58, 98]) = map Some ([1, 2, 3] # [7, 8] # [])"
proof -
  have f2: "file_names [98] = [[98]]" by (subst file_names.simps) (simp add: split_file_def)
  have "file_names [97, 58, 98] = [[97], [98]]"
    by (subst file_names.simps) (simp add: split_file_def f2)
  then show ?thesis by (simp add: demo_files_def)
qed

lemma demo_multi_opts:
  "opt_type demo_multi = IH_TYPE_MULTI" "opt_comp demo_multi = IH_COMP_NONE" "opt_arch demo_multi = IH_CPU_PPC"
  "opt_os demo_multi \<noteq> IH_OS_NETBSD" "\<not> opt_xip demo_multi" "opt_addr demo_multi = 0x10000"
  "mk_entry demo_multi = Some 0x10000"
  by (simp_all add: demo_multi_def demo_opts_def IH_OS_defs mk_entry_def)

lemma demo_multi_img:
  "\<exists>img. mkimage demo_multi demo_files [97, 58, 98] 5 = Some img \<and> length img = 82"
proof -
  have "mk_data demo_multi demo_files [97, 58, 98] = Some (size_words [[1, 2, 3], [7, 8]] @ join_files [[1, 2, 3], [7, 8]])"
    by (rule mk_data_multi [OF demo_multi_opts(1,5) demo_names]) simp
  then show ?thesis by (simp add: mkimage_def demo_multi_opts length_pad4 IH_SIZE_def)
qed

theorem bootm_starts_multi_witness:
  "\<forall>z appl. \<exists>img m'. do_bootm demo_cfg z appl (\<lambda>_. None) 0x100000 (mwrite (\<lambda>_. 0) 0x100000 img) [str ''bootm''] =
       Some ([Start_Linux 0x10000 0x7FFEC0 0xF7F000 0xF7F002 0x7FFF00 0x7FFF00 m'], Started) \<and>
     mread m' 0x10000 3 = [1, 2, 3] \<and> mread m' 0xF7F000 2 = [7, 8]"
proof (intro allI)
  fix z :: zlib and appl :: "u32 \<Rightarrow> byte list list \<Rightarrow> mem \<Rightarrow> mem option"
  obtain img where img: "mkimage demo_multi demo_files [97, 58, 98] 5 = Some img" "length img = 82"
    using demo_multi_img by blast
  let ?m = "mwrite (\<lambda>_. 0) 0x100000 img"
  have a: "boot_addr 0x100000 [str ''bootm''] = 0x100000" by (simp add: boot_addr_def)
  have at: "image_at ?m 0x100000 img" using img(2) by (simp add: image_at_def)
  have "length (bi_enetaddr (bc_bd demo_cfg)) = 6" "boot_args (\<lambda>_. None) = []" "boot_high (\<lambda>_. None) = NOT 0"
    by (simp_all add: demo_cfg_def demo_bd_def boot_args_def boot_high_def)
  note d = this
  have "length [1 :: byte, 2, 3] = 3" "0xF7F000 + of_nat 2 = (0xF7F002 :: u32)"
    "length [7 :: byte, 8] = 2" "0x7FFF00 + of_nat (length ([] :: byte list)) = (0x7FFF00 :: u32)" by simp_all
  note l = this
  have p: "place_initrd demo_cfg (NOT 0) (boot_limit demo_cfg) (boot_kbd demo_cfg) 2 = 0xF7F000"
    by (simp add: place_initrd_def demo_places Let_def) (simp add: demo_cfg_def)
  have "\<exists>ep m'. mk_entry demo_multi = Some ep \<and>
     do_bootm demo_cfg z appl (\<lambda>_. None) 0x100000 ?m [str ''bootm''] =
       Some ([Start_Linux ep (boot_kbd demo_cfg) 0xF7F000 (0xF7F000 + of_nat (length [7 :: byte, 8])) (boot_cmdline demo_cfg)
                (boot_cmdline demo_cfg + of_nat (length (boot_args (\<lambda>_. None)))) m'], Started) \<and>
     mread m' (opt_addr demo_multi) (length [1 :: byte, 2, 3]) = [1, 2, 3] \<and>
     mread m' 0xF7F000 (length [7 :: byte, 8]) = [7, 8] \<and>
     mread m' (boot_cmdline demo_cfg) (Suc (length (boot_args (\<lambda>_. None)))) = boot_args (\<lambda>_. None) @ [0] \<and>
     mread m' (boot_kbd demo_cfg) BD_SIZE = bd_bytes (boot_bd demo_cfg (\<lambda>_. None))"
    by (rule bootm_starts_multi [OF img(1) _ demo_multi_opts(1-5) _ demo_names])
      (simp_all only: a d at demo_places demo_clear demo_multi_opts img(2) p [unfolded demo_places],
       simp_all add: disjoint_blocks_def BD_SIZE_def p [unfolded demo_places, simplified])
  then obtain ep m' where "Some 0x10000 = Some ep"
    and m': "do_bootm demo_cfg z appl (\<lambda>_. None) 0x100000 ?m [str ''bootm''] =
       Some ([Start_Linux ep 0x7FFEC0 0xF7F000 0xF7F002 0x7FFF00 0x7FFF00 m'], Started)"
      "mread m' 0x10000 3 = [1, 2, 3]" "mread m' 0xF7F000 2 = [7, 8]"
    unfolding d demo_places demo_multi_opts l by blast
  from this(1) have "ep = 0x10000" by simp
  with m' show "\<exists>img m'. do_bootm demo_cfg z appl (\<lambda>_. None) 0x100000 (mwrite (\<lambda>_. 0) 0x100000 img) [str ''bootm''] =
       Some ([Start_Linux 0x10000 0x7FFEC0 0xF7F000 0xF7F002 0x7FFF00 0x7FFF00 m'], Started) \<and>
     mread m' 0x10000 3 = [1, 2, 3] \<and> mread m' 0xF7F000 2 = [7, 8]"
    by blast
qed

section \<open>Standalone applications\<close>

text \<open>
  when a standalone application that \<open>bootm\<close> has started returns, \<open>do_bootm\<close> does not return to the
  monitor: it goes on to start a Linux kernel at the application's entry point.
\<close>

theorem bootm_after_application:
  assumes mk: "mkimage opts fs datafile mtime = Some img" and at: "image_at m (boot_addr laddr argv) img"
    and ty: "opt_type opts = IH_TYPE_STANDALONE" and comp: "opt_comp opts = IH_COMP_NONE" and "opt_arch opts = IH_CPU_PPC"
    and os: "opt_os opts \<noteq> IH_OS_NETBSD" and argc: "length argv \<le> 2" and ep: "mk_entry opts = Some ep"
    and load: "opt_addr opts = boot_addr laddr argv" and ret: "appl ep (tl argv) m = Some m'"
  shows "do_bootm cfg z appl ev laddr m argv =
     Some ([Start_Application ep (tl argv) m,
            Start_Linux ep (boot_kbd cfg) 0 0 (boot_cmdline cfg) (boot_cmdline cfg + of_nat (length (boot_args ev)))
              (put_params cfg (boot_args ev) (boot_bd cfg ev) m')], Started)"
proof -
  let ?addr = "boot_addr laddr argv"
  from mk at obtain ep' data where e: "mk_entry opts = Some ep'"
    and d: "length data < 2 ^ 32" "mread m (?addr + of_nat IH_SIZE) (length data) = data"
      "header_of (mread m ?addr IH_SIZE) = mk_header opts ep' mtime data"
      "check_header m ?addr = Inr ((mk_header opts ep' mtime data)\<lparr>ih_hcrc := 0\<rparr>)"
      "has_table m (mk_header opts ep' mtime data) (?addr + of_nat IH_SIZE)"
    by (rule mkimage_in_memory)
  have ep': "ep' = ep" using e ep by simp
  let ?h = "(mk_header opts ep mtime data)\<lparr>ih_hcrc := 0\<rparr>"
  obtain t where t: "print_image_hdr m (mk_header opts ep mtime data) (?addr + of_nat IH_SIZE) = Some t"
    using print_image_hdr_total d(5) ep' by blast
  have ck: "check_data m (?addr + of_nat IH_SIZE) ?h"
    using d(1,2) by (simp add: check_data_def unat_of_nat_u32)
  have k: "boot_kernel m ?h (?addr + of_nat IH_SIZE) = Some (Inr (?addr + of_nat IH_SIZE, of_nat (length data)))"
    using ty assms(5) by (simp add: boot_kernel_def IH_TYPE_defs)
  have l: "boot_load cfg z m ?h ?addr (?addr + of_nat IH_SIZE) (of_nat (length data)) = Some (Inr m)"
    using comp load by (simp add: boot_load_def)
  have o: "boot_os cfg ev m' ?h argv ?addr (?addr + of_nat IH_SIZE) (boot_verify ev) =
     Some ([Start_Linux ep (boot_kbd cfg) 0 0 (boot_cmdline cfg) (boot_cmdline cfg + of_nat (length (boot_args ev)))
              (put_params cfg (boot_args ev) (boot_bd cfg ev) m')], Started)"
    using ty os argc by (simp add: boot_os_def do_bootm_linux_eq find_initrd_def Let_def IH_TYPE_defs)
  show ?thesis
    unfolding do_bootm_def boot_addr_def [symmetric] boot_verify_def [symmetric] Let_def d(3,4) ep' sum.case t bind.bind_lunit k prod.case l
    using ty ck ret by (simp add: o)
qed

definition demo_app :: mk_opts where
  "demo_app = demo_opts\<lparr>opt_type := IH_TYPE_STANDALONE, opt_addr := 0x100000, opt_ep := Some 0x100040\<rparr>"

theorem bootm_after_application_witness:
  "\<forall>z. \<exists>img m'. do_bootm demo_cfg z (\<lambda>_ _. Some) (\<lambda>_. None) 0x100000 (mwrite (\<lambda>_. 0) 0x100000 img) [str ''bootm''] =
     Some ([Start_Application 0x100040 [] (mwrite (\<lambda>_. 0) 0x100000 img), Start_Linux 0x100040 0x7FFEC0 0 0 0x7FFF00 0x7FFF00 m'], Started)"
proof
  fix z
  obtain img where img: "mkimage demo_app (\<lambda>_. Some [1, 2, 3]) [] 5 = Some img" "length img = 67"
    by (simp add: mkimage_def mk_entry_def mk_data_def copy_file_def demo_app_def demo_opts_def IH_TYPE_defs IH_SIZE_def)
  have a: "boot_addr 0x100000 [str ''bootm''] = 0x100000" by (simp add: boot_addr_def)
  have at: "image_at (mwrite (\<lambda>_. 0) 0x100000 img) (boot_addr 0x100000 [str ''bootm'']) img"
    using img(2) unfolding a by (simp add: image_at_def)
  have o: "opt_type demo_app = IH_TYPE_STANDALONE" "opt_comp demo_app = IH_COMP_NONE" "opt_arch demo_app = IH_CPU_PPC"
    "opt_os demo_app \<noteq> IH_OS_NETBSD" "length [str ''bootm''] \<le> 2" "mk_entry demo_app = Some 0x100040"
    by (simp_all add: demo_app_def demo_opts_def mk_entry_def IH_OS_defs)
  have l: "opt_addr demo_app = boot_addr 0x100000 [str ''bootm'']" unfolding a by (simp add: demo_app_def)
  have r: "(\<lambda>_ _. Some) (0x100040 :: u32) (tl [str ''bootm'']) (mwrite (\<lambda>_. 0) 0x100000 img) =
      Some (mwrite (\<lambda>_. 0) 0x100000 img)" by simp
  have "boot_args (\<lambda>_. None) = []" by (simp add: boot_args_def)
  then show "\<exists>img m'. do_bootm demo_cfg z (\<lambda>_ _. Some) (\<lambda>_. None) 0x100000 (mwrite (\<lambda>_. 0) 0x100000 img) [str ''bootm''] =
     Some ([Start_Application 0x100040 [] (mwrite (\<lambda>_. 0) 0x100000 img), Start_Linux 0x100040 0x7FFEC0 0 0 0x7FFF00 0x7FFF00 m'], Started)"
    using bootm_after_application [OF img(1) at o l, where appl = "\<lambda>_ _. Some", OF r, of demo_cfg z "\<lambda>_. None"] by (auto simp: demo_places)
qed

section \<open>Names\<close>

text \<open>
  the monitor and the tool print the same names for every architecture and type code; of the operating
  systems the monitor knows only six and calls the others unknown.
\<close>

theorem boot_names_agree:
  "boot_arch_name v = put_table_entry arch_name ''Unknown Architecture'' v \<and>
   boot_type_name v = put_table_entry type_name ''Unknown Image'' v \<and>
   boot_os_name v = (if v \<in> {IH_OS_INVALID, IH_OS_NETBSD, IH_OS_LINUX, IH_OS_VXWORKS, IH_OS_QNX, IH_OS_PPCBOOT}
                     then put_table_entry os_name ''Unknown OS'' v else ''Unknown OS'')"
proof (intro conjI)
  show "boot_arch_name v = put_table_entry arch_name ''Unknown Architecture'' v"
    by (simp add: boot_arch_name_def arch_name_def IH_CPU_defs)
  show "boot_type_name v = put_table_entry type_name ''Unknown Image'' v"
    by (simp add: boot_type_name_def type_name_def IH_TYPE_defs)
  show "boot_os_name v = (if v \<in> {IH_OS_INVALID, IH_OS_NETBSD, IH_OS_LINUX, IH_OS_VXWORKS, IH_OS_QNX, IH_OS_PPCBOOT}
                     then put_table_entry os_name ''Unknown OS'' v else ''Unknown OS'')"
    by (simp add: boot_os_name_def os_name_def IH_OS_defs)
qed

end
