(* ===== verification/GunzipCorrect.thy ===== *)
theory GunzipCorrect
  imports BootmCorrect
begin

text \<open>
  \<open>gunzip\<close> of \<^verbatim>\<open>common/cmd_bootm.c\<close>: the gzip header that it steps over, against its layout, and what it makes of the
  outcome of \<open>inflate\<close>.
\<close>

section \<open>The gzip header\<close>

text \<open>A gzip header with its optional parts (RFC 1952): extra field, file name, comment, header checksum.\<close>

record gzip_header =
  gz_mtime :: "byte list"
  gz_extra :: "byte list option"
  gz_name :: "byte list option"
  gz_comment :: "byte list option"
  gz_crc :: "byte list option"

definition gz_flag :: "'a option \<Rightarrow> byte \<Rightarrow> byte" where
  "gz_flag part flag = (if part = None then 0 else flag)"

definition gzip_header_bytes :: "gzip_header \<Rightarrow> byte list" where
  "gzip_header_bytes h =
     [0x1f, 0x8b, 8, gz_flag (gz_crc h) 2 OR gz_flag (gz_extra h) 4 OR gz_flag (gz_name h) 8 OR gz_flag (gz_comment h) 0x10]
     @ gz_mtime h @ [0, 3]
     @ (case gz_extra h of None \<Rightarrow> [] | Some x \<Rightarrow> [of_nat (length x mod 256), of_nat (length x div 256)] @ x)
     @ (case gz_name h of None \<Rightarrow> [] | Some s \<Rightarrow> s @ [0])
     @ (case gz_comment h of None \<Rightarrow> [] | Some s \<Rightarrow> s @ [0])
     @ (case gz_crc h of None \<Rightarrow> [] | Some c \<Rightarrow> c)"

definition gzip_wf :: "gzip_header \<Rightarrow> bool" where
  "gzip_wf h \<longleftrightarrow> length (gz_mtime h) = 4 \<and> (\<forall>x. gz_extra h = Some x \<longrightarrow> length x < 65536) \<and>
     (\<forall>s. gz_name h = Some s \<longrightarrow> 0 \<notin> set s) \<and> (\<forall>s. gz_comment h = Some s \<longrightarrow> 0 \<notin> set s) \<and>
     (\<forall>c. gz_crc h = Some c \<longrightarrow> length c = 2)"

lemma skip_string_ends:
  "(\<And>j. j < n \<Longrightarrow> m (src + of_nat (i + j)) \<noteq> 0) \<Longrightarrow> m (src + of_nat (i + n)) = 0 \<Longrightarrow>
   skip_string m src i = Some (i + n + 1)"
proof (induction n arbitrary: i)
  case 0
  then show ?case by (subst skip_string.simps) simp
next
  case (Suc n)
  have "skip_string m src (i + 1) = Some (i + 1 + n + 1)"
    using Suc.prems(1) [of "Suc _"] Suc.prems(2) by (intro Suc.IH) auto
  then show ?case using Suc.prems(1) [of 0] by (subst skip_string.simps) simp
qed

lemma gz_flags:
  "(gz_flag c 2 OR gz_flag x 4 OR gz_flag n 8 OR gz_flag k 0x10) AND 2 \<noteq> 0 \<longleftrightarrow> c \<noteq> None"
  "(gz_flag c 2 OR gz_flag x 4 OR gz_flag n 8 OR gz_flag k 0x10) AND 4 \<noteq> 0 \<longleftrightarrow> x \<noteq> None"
  "(gz_flag c 2 OR gz_flag x 4 OR gz_flag n 8 OR gz_flag k 0x10) AND 8 \<noteq> 0 \<longleftrightarrow> n \<noteq> None"
  "(gz_flag c 2 OR gz_flag x 4 OR gz_flag n 8 OR gz_flag k 0x10) AND 0x10 \<noteq> 0 \<longleftrightarrow> k \<noteq> None"
  "(gz_flag c 2 OR gz_flag x 4 OR gz_flag n 8 OR gz_flag k 0x10) AND 0xe0 = 0"
  by (simp_all add: gz_flag_def)

text \<open>A string in memory behind \<open>pre\<close>.\<close>

lemma skip_string_at:
  assumes "mread m src (length (pre @ s @ 0 # post)) = pre @ s @ 0 # post" and "0 \<notin> set s"
  shows "skip_string m src (length pre) = Some (length pre + length s + 1)"
proof (rule skip_string_ends)
  have b: "m (src + of_nat i) = (pre @ s @ 0 # post) ! i" if "i < length (pre @ s @ 0 # post)" for i
    using nth_mread [OF that, of m src] by (simp only: assms(1))
  show "m (src + of_nat (length pre + length s)) = 0"
    using b [of "length pre + length s"] by (simp add: nth_append)
  fix j assume "j < length s"
  then show "m (src + of_nat (length pre + j)) \<noteq> 0"
    using b [of "length pre + j"] assms(2) by (auto simp: nth_append) (metis nth_mem)
qed

text \<open>
  Whatever optional parts a gzip header has, \<open>gunzip\<close> accepts its method and flags and finds the compressed data right behind it.
\<close>

lemma gunzip_skips_header:
  assumes "gzip_wf h" and "mread m src (length (gzip_header_bytes h) + n) = gzip_header_bytes h @ data"
  shows "m (src + 2) = 8 \<and> m (src + 3) AND 0xe0 = 0 \<and> gunzip_skip m src = Some (length (gzip_header_bytes h))"
proof -
  define flags where "flags = gz_flag (gz_crc h) 2 OR gz_flag (gz_extra h) 4 OR gz_flag (gz_name h) 8 OR gz_flag (gz_comment h) 0x10"
  define A where "A = [0x1f, 0x8b, 8, flags] @ gz_mtime h @ [0, 3 :: byte]"
  define X where "X = (case gz_extra h of None \<Rightarrow> [] | Some x \<Rightarrow> [of_nat (length x mod 256), of_nat (length x div 256)] @ x)"
  define N where "N = (case gz_name h of None \<Rightarrow> [] | Some s \<Rightarrow> s @ [0])"
  define C where "C = (case gz_comment h of None \<Rightarrow> [] | Some s \<Rightarrow> s @ [0])"
  define R where "R = (case gz_crc h of None \<Rightarrow> [] | Some c \<Rightarrow> c)"
  have bs: "gzip_header_bytes h = A @ X @ N @ C @ R"
    by (simp add: gzip_header_bytes_def A_def X_def N_def C_def R_def flags_def)
  have A: "length A = 10" using assms(1) by (simp add: A_def gzip_wf_def)
  have rd: "mread m src (length (A @ X @ N @ C @ R)) = A @ X @ N @ C @ R"
    using assms(2) unfolding bs by (simp add: mread_append append_eq_append_conv)
  have b: "m (src + of_nat i) = (A @ X @ N @ C @ R) ! i" if "i < length (A @ X @ N @ C @ R)" for i
    using nth_mread [OF that, of m src] by (simp only: rd)
  have m2: "m (src + 2) = 8" and m3: "m (src + 3) = flags"
    using b [of 2] b [of 3] A by (simp_all add: A_def)
  have f: "flags AND 2 \<noteq> 0 \<longleftrightarrow> gz_crc h \<noteq> None" "flags AND 4 \<noteq> 0 \<longleftrightarrow> gz_extra h \<noteq> None"
    "flags AND 8 \<noteq> 0 \<longleftrightarrow> gz_name h \<noteq> None" "flags AND 0x10 \<noteq> 0 \<longleftrightarrow> gz_comment h \<noteq> None" "flags AND 0xe0 = 0"
    unfolding flags_def by (rule gz_flags)+
  have x: "(if flags AND 4 \<noteq> 0 then 12 + unat (m (src + 10)) + unat (m (src + 11)) * 256 else 10) = length (A @ X)"
  proof (cases "gz_extra h")
    case None
    then show ?thesis using f(2) by (simp add: X_def A)
  next
    case (Some e)
    then have "length e < 65536" using assms(1) by (simp add: gzip_wf_def)
    then have "length e div 256 < 256" by simp
    moreover have "m (src + 10) = of_nat (length e mod 256)" "m (src + 11) = of_nat (length e div 256)"
      using b [of 10] b [of 11] A Some by (simp_all add: X_def nth_append)
    ultimately have "unat (m (src + 10)) = length e mod 256" "unat (m (src + 11)) = length e div 256"
      by (simp_all add: unat_of_nat)
    moreover have "flags AND 4 \<noteq> 0" using f(2) Some by simp
    ultimately show ?thesis using Some A by (simp add: X_def)
  qed
  have nm: "(if flags AND 8 \<noteq> 0 then skip_string m src (length (A @ X)) else Some (length (A @ X))) = Some (length (A @ X @ N))"
  proof (cases "gz_name h")
    case None
    then show ?thesis using f(3) by (simp add: N_def)
  next
    case (Some s)
    then have "0 \<notin> set s" using assms(1) by (simp add: gzip_wf_def)
    then have "skip_string m src (length (A @ X)) = Some (length (A @ X) + length s + 1)"
      using rd Some by (intro skip_string_at [where post = "C @ R"]) (simp_all add: N_def)
    then show ?thesis using f(3) Some by (simp add: N_def)
  qed
  have cm: "(if flags AND 0x10 \<noteq> 0 then skip_string m src (length (A @ X @ N)) else Some (length (A @ X @ N))) = Some (length (A @ X @ N @ C))"
  proof (cases "gz_comment h")
    case None
    then show ?thesis using f(4) by (simp add: C_def)
  next
    case (Some s)
    then have "0 \<notin> set s" using assms(1) by (simp add: gzip_wf_def)
    then have "skip_string m src (length (A @ X @ N)) = Some (length (A @ X @ N) + length s + 1)"
      using rd Some by (intro skip_string_at [where post = "R"]) (simp_all add: C_def)
    then show ?thesis using f(4) Some by (simp add: C_def)
  qed
  have cr: "(if flags AND 2 \<noteq> 0 then length (A @ X @ N @ C) + 2 else length (A @ X @ N @ C)) = length (A @ X @ N @ C @ R)"
    using f(1) assms(1) by (cases "gz_crc h") (simp_all add: R_def gzip_wf_def)
  have "gunzip_skip m src = Some (length (A @ X @ N @ C @ R))"
    unfolding gunzip_skip_def Let_def m3 x nm cm bind.bind_lunit cr ..
  then show ?thesis unfolding bs m2 m3 using f(5) by simp
qed

definition demo_gz :: gzip_header where
  "demo_gz = \<lparr>gz_mtime = [0, 0, 0, 0], gz_extra = Some [9], gz_name = Some [65], gz_comment = None, gz_crc = Some [1, 2]\<rparr>"

lemma sint_of_nat_u32: "n < 2 ^ 31 \<Longrightarrow> sint (of_nat n :: u32) = int n"
  by (simp add: signed_take_bit_int_eq_self_iff signed_of_nat)

text \<open>
  C34: \<open>gunzip\<close> of a file in memory, whatever optional parts its gzip header has. \<open>inflate\<close> is given exactly what lies
  behind the header and the room at the destination. Its output is stored there; when \<open>inflate\<close> reports success \<open>gunzip\<close> returns 0
  and the length of the output, and otherwise -1 with the length as it was. When there is nothing behind the header or
  \<^verbatim>\<open>inflateInit2\<close> fails, \<open>gunzip\<close> returns -1 and stores nothing.
\<close>

theorem gunzip_inflates:
  assumes "gzip_wf h" and "mread m src n = gzip_header_bytes h @ data" and "n < 2 ^ 31"
  shows "gunzip z m dst dstlen src (of_nat n) =
    (if data = [] \<or> z_init z \<noteq> Z_OK then Some (-1, m, of_nat n)
     else let (r, out) = z_inflate z data dstlen
          in if r \<in> {Z_OK, Z_STREAM_END} then Some (0, mwrite m dst out, of_nat (length out))
             else Some (-1, mwrite m dst out, of_nat n))"
proof -
  let ?g = "length (gzip_header_bytes h)"
  have n: "n = ?g + length data" using arg_cong [OF assms(2), of length] by simp
  note skip = gunzip_skips_header [OF assms(1) assms(2) [unfolded n]]
  have d: "mread m (src + of_nat ?g) (length data) = data"
    using assms(2) unfolding n by (simp add: mread_append append_eq_append_conv)
  have u: "unat (of_nat n :: u32) - ?g = length data" using assms(3) by (simp add: n unat_of_nat_u32 del: of_nat_add)
  have s: "sint (of_nat n :: u32) \<le> int ?g \<longleftrightarrow> data = []" unfolding sint_of_nat_u32 [OF assms(3)] by (simp add: n)
  show ?thesis
    unfolding gunzip_def using skip by (simp add: u s d Let_def split: prod.split)
qed

text \<open>An \<open>inflate\<close> for stored blocks, as DEFLATE has them: one final block, its length, the complement of it and the bytes.\<close>

definition stored_zlib :: zlib where
  "stored_zlib = \<lparr>z_init = Z_OK, z_inflate = (\<lambda>data room. case data of
     t # a # b # c # d # bytes \<Rightarrow>
       (if t = 1 \<and> c = NOT a \<and> d = NOT b \<and> unat a + 256 * unat b \<le> min (length bytes) (unat room)
        then (Z_STREAM_END, take (unat a + 256 * unat b) bytes) else (-3, []))
     | _ \<Rightarrow> (-3, []))\<rparr>"

theorem gunzip_inflates_witness:
  "let m = mwrite (\<lambda>_. 0) 0x100 (gzip_header_bytes demo_gz @ [1, 2, 0, 0xFD, 0xFF, 55, 66, 0])
   in gunzip stored_zlib m 0x1000 0x400000 0x100 25 = Some (0, mwrite m 0x1000 [55, 66], 2)"
proof -
  let ?d = "[1, 2, 0, 0xFD, 0xFF, 55, 66, 0] :: byte list"
  let ?m = "mwrite (\<lambda>_. 0) 0x100 (gzip_header_bytes demo_gz @ ?d)"
  have l: "length (gzip_header_bytes demo_gz @ ?d) = 25" by (simp add: gzip_header_bytes_def demo_gz_def)
  have wf: "gzip_wf demo_gz" by (simp add: gzip_wf_def demo_gz_def)
  have rd: "mread ?m 0x100 25 = gzip_header_bytes demo_gz @ ?d"
    by (rule mread_mwrite) (simp_all only: l, simp_all)
  have z: "z_inflate stored_zlib ?d 0x400000 = (Z_STREAM_END, [55, 66])" "z_init stored_zlib = Z_OK"
    by (simp_all add: stored_zlib_def)
  show ?thesis
    using gunzip_inflates [OF wf rd, of stored_zlib "0x1000" "0x400000"] by (simp add: z Let_def)
qed

end
