(* ===== verification/Date.thy ===== *)
theory Date
  imports Prelude "HOL-Library.Signed_Division"
begin

text \<open>
  \<^verbatim>\<open>rtc/date.c\<close>: seconds since 1970 to a calendar date and back. \<^verbatim>\<open>int\<close> and \<^verbatim>\<open>long\<close> values that stay in
  range are integers, with C's division (\<open>sdiv\<close>, \<open>smod\<close>); \<open>mktime\<close> computes in unsigned words. \<open>None\<close> is an
  access outside a table.
\<close>

section \<open>The code\<close>

record rtc_time =
  tm_sec :: int
  tm_min :: int
  tm_hour :: int
  tm_mday :: int
  tm_mon :: int
  tm_year :: int
  tm_wday :: int

definition leapyear :: "int \<Rightarrow> bool" where
  "leapyear year \<longleftrightarrow> year smod 4 = 0"

definition days_in_year :: "int \<Rightarrow> int" where
  "days_in_year a = (if leapyear a then 366 else 365)"

text \<open>The table of the days of the months, with the entry of February as \<open>to_tm\<close> sets it.\<close>

definition month_days :: "int \<Rightarrow> int list" where
  "month_days february = [31, february, 31, 30, 31, 30, 31, 31, 30, 31, 30, 31]"

definition MonthOffset :: "int list" where
  "MonthOffset = [0, 31, 59, 90, 120, 151, 181, 212, 243, 273, 304, 334]"

definition GregorianDay :: "rtc_time \<Rightarrow> rtc_time option" where
  "GregorianDay tm =
     (let lastYear = tm_year tm - 1;
          leapsToDate = lastYear sdiv 4 - lastYear sdiv 100 + lastYear sdiv 400;
          day = (if tm_year tm smod 4 = 0 \<and> (tm_year tm smod 100 \<noteq> 0 \<or> tm_year tm smod 400 = 0) \<and> tm_mon tm > 2
                 then 1 else 0)
      in if 1 \<le> tm_mon tm \<and> tm_mon tm \<le> 12 then
           (let day = day + lastYear * 365 + leapsToDate + MonthOffset ! nat (tm_mon tm - 1) + tm_mday tm
            in Some (tm\<lparr>tm_wday := day smod 7\<rparr>))
         else None)"

text \<open>The loops over the years and over the months: where they stop and the days left.\<close>

function year_loop :: "int \<Rightarrow> int \<Rightarrow> int \<times> int" where
  "year_loop i day = (if day \<ge> days_in_year i then year_loop (i + 1) (day - days_in_year i) else (i, day))"
  by pat_completeness auto
termination
  by (relation "measure (\<lambda>(i, day). nat (day + 1))") (auto simp: days_in_year_def split: if_splits)

fun month_loop :: "int \<Rightarrow> int \<Rightarrow> int list \<Rightarrow> (int \<times> int) option" where
  "month_loop i day [] = None"
| "month_loop i day (d # ds) = (if day \<ge> d then month_loop (i + 1) (day - d) ds else Some (i, day))"

declare year_loop.simps [simp del]

definition to_tm :: "int \<Rightarrow> rtc_time option" where
  "to_tm tim =
     (let day = tim sdiv 86400; hms = tim smod 86400;
          (year, day) = year_loop 1970 day
      in case month_loop 1 day (month_days (if leapyear year then 29 else 28)) of
           None \<Rightarrow> None
         | Some (mon, day) \<Rightarrow>
             GregorianDay \<lparr>tm_sec = (hms smod 3600) smod 60, tm_min = (hms smod 3600) sdiv 60, tm_hour = hms sdiv 3600,
               tm_mday = day + 1, tm_mon = mon, tm_year = year, tm_wday = 0\<rparr>)"

definition mktime :: "u32 \<Rightarrow> u32 \<Rightarrow> u32 \<Rightarrow> u32 \<Rightarrow> u32 \<Rightarrow> u32 \<Rightarrow> u32" where
  "mktime year mon day hour minute sec =
     (let mon = mon - 2;
          (mon, year) = (if 0 \<ge> sint mon then (mon + 12, year - 1) else (mon, year))
      in ((((year div 4 - year div 100 + year div 400 + 367 * mon div 12 + day) + year * 365 - 719499) * 24 + hour) * 60 +
          minute) * 60 + sec)"

section \<open>Division\<close>

lemma sdiv_nonneg [simp]: "0 \<le> a \<Longrightarrow> 0 < b \<Longrightarrow> (a :: int) sdiv b = a div b"
  by (auto simp: signed_divide_int_def sgn_if)

lemma smod_nonneg [simp]: "0 \<le> a \<Longrightarrow> 0 < b \<Longrightarrow> (a :: int) smod b = a mod b"
  by (cases "a = 0") (auto simp: signed_modulo_int_def sgn_if)

lemma word_of_int_div:
  "0 \<le> a \<Longrightarrow> a < 2 ^ 32 \<Longrightarrow> 0 < b \<Longrightarrow> b < 2 ^ 32 \<Longrightarrow>
   (word_of_int a :: u32) div word_of_int b = word_of_int (a div b)"
  by (simp add: word_div_def unsigned_of_int take_bit_int_eq_self)

section \<open>Days\<close>

text \<open>The days before a year, counted from 1970.\<close>

definition year_start :: "int \<Rightarrow> int" where
  "year_start y = 365 * (y - 1970) + (y - 1969) div 4"

lemma leapyear_mod: "0 \<le> y \<Longrightarrow> leapyear y \<longleftrightarrow> y mod 4 = 0"
  by (simp add: leapyear_def)

lemma year_start_step: "0 \<le> y \<Longrightarrow> year_start (y + 1) = year_start y + days_in_year y"
  unfolding year_start_def days_in_year_def leapyear_mod by presburger

lemma year_loop_start:
  "0 \<le> day \<Longrightarrow> 0 \<le> i \<Longrightarrow> year_loop i day = (y, d) \<Longrightarrow>
   year_start y + d = year_start i + day \<and> 0 \<le> d \<and> d < days_in_year y \<and> i \<le> y"
proof (induction i day arbitrary: y d rule: year_loop.induct)
  case (1 i day)
  show ?case
  proof (cases "day \<ge> days_in_year i")
    case True
    then have "year_loop (i + 1) (day - days_in_year i) = (y, d)" using 1(4) by (subst (asm) year_loop.simps) simp
    from 1(1) [OF True _ _ this] show ?thesis using True 1(2,3) year_start_step by simp
  next
    case False
    then have "year_loop i day = (i, day)" by (subst year_loop.simps) simp
    then show ?thesis using False 1(2-4) by simp
  qed
qed

text \<open>The days before a month, and where the loop over the months stops.\<close>

definition month_start :: "bool \<Rightarrow> int \<Rightarrow> int" where
  "month_start leap m = MonthOffset ! nat (m - 1) + (if leap \<and> m > 2 then 1 else 0)"

lemma month_cases:
  assumes "0 \<le> d" and "d < (if leap then 366 else 365)"
    and "month_loop 1 d (month_days (if leap then 29 else 28)) = Some (m, r)"
  shows "1 \<le> m \<and> m \<le> 12 \<and> month_start leap m + r = d \<and> 0 \<le> r \<and>
    r < month_days (if leap then 29 else 28) ! nat (m - 1)"
  using assms unfolding month_days_def month_start_def MonthOffset_def
  by (cases leap) (auto split: if_splits)

lemma month_loop_stops:
  "0 \<le> d \<Longrightarrow> d < (if leap then 366 else 365) \<Longrightarrow>
   \<exists>m r. month_loop 1 d (month_days (if leap then 29 else 28)) = Some (m, r)"
  unfolding month_days_def by (cases leap) auto

section \<open>Seconds\<close>

text \<open>What \<open>mktime\<close> computes for the day, in integers.\<close>

definition gauss_days :: "int \<Rightarrow> int \<Rightarrow> int \<Rightarrow> int" where
  "gauss_days y m d =
     (let (m, y) = (if m \<le> 2 then (m + 10, y - 1) else (m - 2, y))
      in y div 4 - y div 100 + y div 400 + 367 * m div 12 + d + y * 365 - 719499)"

lemma century:
  assumes "1969 \<le> (y :: int)" "y \<le> 2099"
  shows "y div 400 - y div 100 = -15"
proof (cases "y < 2000")
  case True
  then have "y div 100 = 19" "y div 400 = 4"
    using assms int_div_pos_eq [of y 100 19 "y - 1900"] int_div_pos_eq [of y 400 4 "y - 1600"] by simp_all
  then show ?thesis by simp
next
  case False
  then have "y div 100 = 20" "y div 400 = 5"
    using assms int_div_pos_eq [of y 100 20 "y - 2000"] int_div_pos_eq [of y 400 5 "y - 2000"] by simp_all
  then show ?thesis by simp
qed

lemma month_numbers:
  assumes "1 \<le> (m :: int)" and "m \<le> 12"
  shows "(if m \<le> 2 then 367 * (m + 10) div 12 - 336 else 367 * (m - 2) div 12 + 29) = MonthOffset ! nat (m - 1)"
proof -
  have "m \<in> {1, 2, 3, 4, 5, 6, 7, 8, 9, 10, 11, 12}" using assms unfolding insert_iff empty_iff by presburger
  then show ?thesis by (elim insertE emptyE) (simp_all add: MonthOffset_def)
qed

lemma quarter:
  "(y :: int) div 4 = (y - 1969) div 4 + 492 + (if y mod 4 = 0 then 1 else 0)" "(y - 1) div 4 = (y - 1969) div 4 + 492"
  by presburger+

lemma gauss_sums:
  "(c2 :: int) - c1 = -15 \<Longrightarrow> t - 336 = off \<Longrightarrow> a = k + 492 \<Longrightarrow>
   a - c1 + c2 + t + d + (y - 1) * 365 - 719499 = 365 * (y - 1970) + k + (off + 0) + d - 1"
  "(c2 :: int) - c1 = -15 \<Longrightarrow> t + 29 = off \<Longrightarrow> a = k + 492 + b \<Longrightarrow>
   a - c1 + c2 + t + d + y * 365 - 719499 = 365 * (y - 1970) + k + (off + b) + d - 1"
  by (simp_all add: algebra_simps)

lemma gauss_days_start:
  assumes y: "1970 \<le> y" "y \<le> 2099" and m: "1 \<le> m" "m \<le> 12"
  shows "gauss_days y m d = year_start y + month_start (leapyear y) m + d - 1"
proof (cases "m \<le> 2")
  case True
  have "gauss_days y m d = (y - 1) div 4 - (y - 1) div 100 + (y - 1) div 400 + 367 * (m + 10) div 12 + d + (y - 1) * 365 - 719499"
    using True by (simp add: gauss_days_def)
  also have "\<dots> = 365 * (y - 1970) + (y - 1969) div 4 + (MonthOffset ! nat (m - 1) + 0) + d - 1"
  proof (rule gauss_sums(1))
    show "(y - 1) div 400 - (y - 1) div 100 = - 15" using y by (intro century) simp_all
    show "367 * (m + 10) div 12 - 336 = MonthOffset ! nat (m - 1)" using month_numbers [OF m] True by (simp only: if_True)
    show "(y - 1) div 4 = (y - 1969) div 4 + 492" by (rule quarter)
  qed
  finally show ?thesis using True by (simp only: year_start_def month_start_def not_less [symmetric] simp_thms if_False)
next
  case False
  have "gauss_days y m d = y div 4 - y div 100 + y div 400 + 367 * (m - 2) div 12 + d + y * 365 - 719499"
    using False by (simp add: gauss_days_def)
  also have "\<dots> = 365 * (y - 1970) + (y - 1969) div 4 +
      (MonthOffset ! nat (m - 1) + (if y mod 4 = 0 then 1 else 0)) + d - 1"
  proof (rule gauss_sums(2))
    show "y div 400 - y div 100 = - 15" using y by (intro century) simp_all
    show "367 * (m - 2) div 12 + 29 = MonthOffset ! nat (m - 1)" using month_numbers [OF m] False by (simp only: if_False)
    show "y div 4 = (y - 1969) div 4 + 492 + (if y mod 4 = 0 then 1 else 0)" by (rule quarter)
  qed
  also have "(if y mod 4 = 0 then 1 else 0) = (if leapyear y \<and> 2 < m then 1 else 0 :: int)"
    using False y by (simp add: leapyear_mod)
  finally show ?thesis by (simp only: year_start_def month_start_def)
qed

lemma mktime_int:
  assumes y: "1970 \<le> y" "y \<le> 2099" and m: "1 \<le> m" "m \<le> 12"
  shows "mktime (word_of_int y) (word_of_int m) (word_of_int d) (word_of_int h) (word_of_int mi) (word_of_int s) =
    word_of_int (((gauss_days y m d * 24 + h) * 60 + mi) * 60 + s)"
proof -
  define m' y' where "m' = (if m \<le> 2 then m + 10 else m - 2)" and "y' = (if m \<le> 2 then y - 1 else y)"
  have w: "(word_of_int m :: u32) - 2 = word_of_int (m - 2)" by simp
  have si: "sint (word_of_int (m - 2) :: u32) = m - 2"
    using m by (simp only: signed_of_int) (simp add: signed_take_bit_int_eq_self)
  have sel: "(if 0 \<ge> sint (word_of_int m - 2 :: u32) then (word_of_int m - 2 + 12, word_of_int y - 1) else (word_of_int m - 2, word_of_int y))
     = (word_of_int m' :: u32, word_of_int y' :: u32)"
    unfolding w si by (simp add: m'_def y'_def)
  have b: "0 \<le> y'" "y' < 2 ^ 32" "0 \<le> 367 * m'" "367 * m' < 2 ^ 32" using y m by (auto simp: m'_def y'_def)
  have n: "(4 :: u32) = word_of_int 4" "(100 :: u32) = word_of_int 100" "(400 :: u32) = word_of_int 400"
    "(12 :: u32) = word_of_int 12" "(367 :: u32) * word_of_int m' = word_of_int (367 * m')" by simp_all
  have dv: "(word_of_int y' :: u32) div 4 = word_of_int (y' div 4)" "(word_of_int y' :: u32) div 100 = word_of_int (y' div 100)"
    "(word_of_int y' :: u32) div 400 = word_of_int (y' div 400)"
    "(367 :: u32) * word_of_int m' div 12 = word_of_int (367 * m' div 12)"
    unfolding n by (rule word_of_int_div; use b in simp)+
  have g: "gauss_days y m d = y' div 4 - y' div 100 + y' div 400 + 367 * m' div 12 + d + y' * 365 - 719499"
    by (simp add: gauss_days_def m'_def y'_def)
  show ?thesis
    unfolding mktime_def Let_def sel prod.case dv g by simp
qed

section \<open>Dates\<close>

lemma weekday_sums:
  "(c2 :: int) - c1 = -15 \<Longrightarrow> a = k + 492 \<Longrightarrow>
   b + (y - 1) * 365 + (a - c1 + c2) + off + md = 365 * (y - 1970) + k + (off + b) + md + 3 + 7 * 102737"
  by (simp add: algebra_simps)

lemma weekday:
  assumes y: "1970 \<le> y" "y \<le> 2038" and m: "1 \<le> m" "m \<le> 12"
    and tm: "tm_year tm = y" "tm_mon tm = m" "0 \<le> tm_mday tm"
  shows "GregorianDay tm = Some (tm\<lparr>tm_wday := (year_start y + month_start (leapyear y) m + tm_mday tm + 3) mod 7\<rparr>)"
proof -
  have l: "leapyear y \<longleftrightarrow> y mod 4 = 0" using y by (simp add: leapyear_mod)
  have g: "y smod 4 = 0 \<and> (y smod 100 \<noteq> 0 \<or> y smod 400 = 0) \<longleftrightarrow> leapyear y"
  proof -
    have "y mod 100 = 0 \<longleftrightarrow> y = 2000"
    proof
      assume "y mod 100 = 0"
      moreover have "y mod 100 = (if y < 2000 then y - 1900 else y - 2000)"
        using y mod_pos_pos_trivial [of "y - 1900" 100] mod_pos_pos_trivial [of "y - 2000" 100]
          mod_mult_self1 [of "y - 1900" 19 100] mod_mult_self1 [of "y - 2000" 20 100] by auto
      ultimately show "y = 2000" using y by (simp split: if_splits)
    qed simp
    then show ?thesis using y l by auto
  qed
  have c: "(y - 1) div 400 - (y - 1) div 100 = -15" using century [of "y - 1"] y by simp
  define off where "off = MonthOffset ! nat (m - 1)"
  have "m \<in> {1, 2, 3, 4, 5, 6, 7, 8, 9, 10, 11, 12}" using m unfolding insert_iff empty_iff by presburger
  then have off: "0 \<le> off" by (elim insertE emptyE) (simp_all add: off_def MonthOffset_def)
  let ?b = "if leapyear y \<and> m > 2 then 1 else 0 :: int"
  let ?d = "?b + (y - 1) * 365 + ((y - 1) sdiv 4 - (y - 1) sdiv 100 + (y - 1) sdiv 400) + off + tm_mday tm"
  have s: "(y - 1) sdiv 4 = (y - 1) div 4" "(y - 1) sdiv 100 = (y - 1) div 100" "(y - 1) sdiv 400 = (y - 1) div 400"
    using y by simp_all
  have d: "?d = year_start y + month_start (leapyear y) m + tm_mday tm + 3 + 7 * 102737"
    unfolding s year_start_def month_start_def off_def [symmetric] by (rule weekday_sums [OF c quarter(2)])
  have "0 \<le> year_start y" using y by (simp add: year_start_def)
  then have nn: "0 \<le> year_start y + month_start (leapyear y) m + tm_mday tm + 3 + 7 * 102737"
    using off tm(3) by (simp add: month_start_def off_def [symmetric])
  have "?d smod 7 = (year_start y + month_start (leapyear y) m + tm_mday tm + 3 + 7 * 102737) mod 7"
    unfolding d by (rule smod_nonneg [OF nn]) simp
  also have "\<dots> = (year_start y + month_start (leapyear y) m + tm_mday tm + 3) mod 7" by (rule mod_mult_self2)
  finally have "?d smod 7 = \<dots>" .
  then show ?thesis
    using m g by (simp add: GregorianDay_def tm Let_def off_def conj_assoc [symmetric])
qed

text \<open>What \<open>to_tm\<close> finds for a time that is not negative.\<close>

lemma to_tm_parts:
  assumes t: "0 \<le> tim" "tim < 2 ^ 31"
  obtains y m r where "1970 \<le> y" "y \<le> 2038" "1 \<le> m" "m \<le> 12" "0 \<le> r"
    "r < month_days (if leapyear y then 29 else 28) ! nat (m - 1)"
    "year_start y + month_start (leapyear y) m + r = tim div 86400"
    "to_tm tim = Some \<lparr>tm_sec = tim mod 60, tm_min = tim mod 3600 div 60, tm_hour = tim mod 86400 div 3600,
               tm_mday = r + 1, tm_mon = m, tm_year = y, tm_wday = (tim div 86400 + 4) mod 7\<rparr>"
proof -
  let ?day = "tim div 86400"
  obtain y d where yd: "year_loop 1970 ?day = (y, d)" by (cases "year_loop 1970 ?day")
  have day: "0 \<le> ?day" "?day \<le> 24855" using t zdiv_mono1 [of tim "2 ^ 31 - 1" 86400] by simp_all
  from year_loop_start [OF day(1) _ yd] have y: "year_start y + d = ?day" "0 \<le> d" "d < days_in_year y" "1970 \<le> y"
    by (simp_all add: year_start_def)
  have y2: "y \<le> 2038"
  proof (rule ccontr)
    assume "\<not> y \<le> 2038"
    then have y9: "2039 \<le> y" by simp
    then have k: "0 \<le> (y - 1969) div 4" by simp
    have "365 * 69 \<le> 365 * (y - 1970)" using y9 by simp
    also have "\<dots> \<le> year_start y + d" using k y(2) by (simp add: year_start_def)
    also have "\<dots> \<le> 24855" using day(2) by (simp only: y(1))
    finally show False by simp
  qed
  have dl: "d < (if leapyear y then 366 else 365)" using y(3) by (simp add: days_in_year_def)
  from month_loop_stops [OF y(2) dl] obtain m r
    where mr: "month_loop 1 d (month_days (if leapyear y then 29 else 28)) = Some (m, r)" by blast
  note mc = month_cases [OF y(2) dl mr]
  have h: "tim sdiv 86400 = ?day" "tim smod 86400 = tim mod 86400" using t by simp_all
  have n: "0 \<le> tim mod 86400" "0 \<le> tim mod 3600" by (rule pos_mod_sign; simp)+
  have h2: "(tim mod 86400) smod 3600 = tim mod 3600" "(tim mod 86400) sdiv 3600 = tim mod 86400 div 3600"
    "(tim mod 3600) smod 60 = tim mod 60" "(tim mod 3600) sdiv 60 = tim mod 3600 div 60"
    by (rule smod_nonneg [OF n(1), THEN trans] smod_nonneg [OF n(2), THEN trans] sdiv_nonneg [OF n(1)] sdiv_nonneg [OF n(2)];
        (rule mod_mod_cancel)?; simp)+
  have sum: "year_start y + month_start (leapyear y) m + r = ?day" using mc y(1) by linarith
  let ?tm = "\<lparr>tm_sec = tim mod 60, tm_min = tim mod 3600 div 60, tm_hour = tim mod 86400 div 3600,
               tm_mday = r + 1, tm_mon = m, tm_year = y, tm_wday = 0\<rparr>"
  have "to_tm tim = GregorianDay ?tm"
    unfolding to_tm_def Let_def h yd prod.case mr option.case h2 ..
  also have "\<dots> = Some (?tm\<lparr>tm_wday := (year_start y + month_start (leapyear y) m + tm_mday ?tm + 3) mod 7\<rparr>)"
    using y(4) y2 mc by (intro weekday) simp_all
  also have "year_start y + month_start (leapyear y) m + tm_mday ?tm + 3 = ?day + 4"
    using sum by simp
  finally have tm: "to_tm tim = Some (?tm\<lparr>tm_wday := (?day + 4) mod 7\<rparr>)" .
  show ?thesis
    by (rule that [OF y(4) y2 _ _ _ _ sum]) (simp_all only: mc tm rtc_time.simps)
qed

lemma clock:
  "(tim :: int) mod 86400 = tim mod 86400 div 3600 * 3600 + tim mod 3600 div 60 * 60 + tim mod 60"
proof -
  have m: "tim mod 86400 mod 3600 = tim mod 3600" "tim mod 3600 mod 60 = tim mod 60"
    by (rule mod_mod_cancel; simp)+
  have "tim mod 86400 = tim mod 86400 div 3600 * 3600 + tim mod 86400 mod 3600" by (rule div_mult_mod_eq [symmetric])
  also have "tim mod 86400 mod 3600 = tim mod 3600 div 60 * 60 + tim mod 3600 mod 60"
    unfolding m(1) by (rule div_mult_mod_eq [symmetric])
  finally show ?thesis by (simp only: m(2) add.assoc)
qed

text \<open>
  C33: for every time that fits a signed \<^verbatim>\<open>time_t\<close>, \<open>to_tm\<close> finds a date and \<open>mktime\<close> turns that date back into
  the time.
\<close>

theorem mktime_to_tm:
  assumes "0 \<le> tim" and "tim < 2 ^ 31"
  shows "\<exists>tm. to_tm tim = Some tm \<and>
     mktime (word_of_int (tm_year tm)) (word_of_int (tm_mon tm)) (word_of_int (tm_mday tm))
       (word_of_int (tm_hour tm)) (word_of_int (tm_min tm)) (word_of_int (tm_sec tm)) = word_of_int tim"
proof -
  obtain y m r where p: "1970 \<le> y" "y \<le> 2038" "1 \<le> m" "m \<le> 12" "0 \<le> r"
    "r < month_days (if leapyear y then 29 else 28) ! nat (m - 1)"
    "year_start y + month_start (leapyear y) m + r = tim div 86400"
    "to_tm tim = Some \<lparr>tm_sec = tim mod 60, tm_min = tim mod 3600 div 60, tm_hour = tim mod 86400 div 3600,
               tm_mday = r + 1, tm_mon = m, tm_year = y, tm_wday = (tim div 86400 + 4) mod 7\<rparr>" by (rule to_tm_parts [OF assms])
  have "gauss_days y m (r + 1) = tim div 86400" using gauss_days_start [of y m "r + 1"] p by simp
  moreover have "((d * 24 + h) * 60 + mi) * 60 + sec = d * 86400 + (h * 3600 + mi * 60 + sec)" for d h mi sec :: int
    by simp
  ultimately have g: "((gauss_days y m (r + 1) * 24 + tim mod 86400 div 3600) * 60 + tim mod 3600 div 60) * 60 + tim mod 60 = tim"
    by (simp only: clock [of tim, symmetric] div_mult_mod_eq)
  have y2: "y \<le> 2099" using p(2) by simp
  have "mktime (word_of_int y) (word_of_int m) (word_of_int (r + 1)) (word_of_int (tim mod 86400 div 3600))
      (word_of_int (tim mod 3600 div 60)) (word_of_int (tim mod 60)) = word_of_int tim"
    using mktime_int [OF p(1) y2 p(3,4), of "r + 1" "tim mod 86400 div 3600" "tim mod 3600 div 60" "tim mod 60"]
    by (simp only: g)
  then show ?thesis unfolding p(8) by simp
qed

theorem mktime_to_tm_witness:
  "\<exists>tm. to_tm 951868799 = Some tm \<and>
     mktime (word_of_int (tm_year tm)) (word_of_int (tm_mon tm)) (word_of_int (tm_mday tm))
       (word_of_int (tm_hour tm)) (word_of_int (tm_min tm)) (word_of_int (tm_sec tm)) = 951868799"
  using mktime_to_tm [of 951868799] by simp

text \<open>
  the date \<open>to_tm\<close> finds is a date of the calendar, its time of the day is the remainder of the seconds, and its day
  of the week counts on from the first day of 1970, a Thursday.
\<close>

theorem to_tm_date:
  assumes "0 \<le> tim" and "tim < 2 ^ 31"
  shows "\<exists>tm. to_tm tim = Some tm \<and> tm_year tm \<in> {1970..2038} \<and> tm_mon tm \<in> {1..12} \<and>
     1 \<le> tm_mday tm \<and> tm_mday tm \<le> month_days (if leapyear (tm_year tm) then 29 else 28) ! nat (tm_mon tm - 1) \<and>
     tm_hour tm * 3600 + tm_min tm * 60 + tm_sec tm = tim mod 86400 \<and>
     tm_hour tm \<in> {0..23} \<and> tm_min tm \<in> {0..59} \<and> tm_sec tm \<in> {0..59} \<and>
     tm_wday tm = (tim div 86400 + 4) mod 7"
proof -
  obtain y m r where p: "1970 \<le> y" "y \<le> 2038" "1 \<le> m" "m \<le> 12" "0 \<le> r"
    "r < month_days (if leapyear y then 29 else 28) ! nat (m - 1)"
    "year_start y + month_start (leapyear y) m + r = tim div 86400"
    "to_tm tim = Some \<lparr>tm_sec = tim mod 60, tm_min = tim mod 3600 div 60, tm_hour = tim mod 86400 div 3600,
               tm_mday = r + 1, tm_mon = m, tm_year = y, tm_wday = (tim div 86400 + 4) mod 7\<rparr>" by (rule to_tm_parts [OF assms])
  have h: "tim mod 86400 div 3600 \<le> 23" using zdiv_mono1 [of "tim mod 86400" 86399 3600] by simp
  have m: "tim mod 3600 div 60 \<le> 59" using zdiv_mono1 [of "tim mod 3600" 3599 60] by simp
  let ?tm = "\<lparr>tm_sec = tim mod 60, tm_min = tim mod 3600 div 60, tm_hour = tim mod 86400 div 3600,
               tm_mday = r + 1, tm_mon = m, tm_year = y, tm_wday = (tim div 86400 + 4) mod 7\<rparr>"
  have c: "tm_hour ?tm * 3600 + tm_min ?tm * 60 + tm_sec ?tm = tim mod 86400"
    unfolding rtc_time.simps by (rule clock [symmetric])
  show ?thesis
    by (intro exI [of _ ?tm] conjI p(8) c) (use p(1-6) h m in \<open>simp_all only: rtc_time.simps atLeastAtMost_iff\<close>, simp_all)
qed

theorem to_tm_date_witness:
  "\<exists>tm. to_tm 951782400 = Some tm \<and> tm_wday tm = 2"
  using to_tm_date [of 951782400] by auto

end
