(* ===== verification/Net.thy ===== *)
theory Net
  imports Environment Memory
begin

text \<open>
  The common part of \<^verbatim>\<open>net/net.c\<close> and \<^verbatim>\<open>include/net.h\<close>: the state of the network code (its globals, the
  timer, the environment, the memory), the headers it builds, the IP checksum, timers and handlers,
  Internet addresses as text. One network device (\<^verbatim>\<open>CONFIG_NET_MULTI\<close> is not set).
  The transmit buffer is private to the code that fills it, so a packet to be sent is a value; packets
  received lie in memory. Messages on the console are left out.
\<close>

section \<open>Packets\<close>

definition ETHER_HDR_SIZE :: nat where "ETHER_HDR_SIZE = 14"
definition E802_HDR_SIZE :: nat where "E802_HDR_SIZE = 22"
definition PROT_IP :: u16 where "PROT_IP = 0x0800"
definition PROT_ARP :: u16 where "PROT_ARP = 0x0806"
definition PROT_RARP :: u16 where "PROT_RARP = 0x8035"
definition IPPROTO_ICMP :: byte where "IPPROTO_ICMP = 1"
definition IPPROTO_UDP :: byte where "IPPROTO_UDP = 17"
definition IP_HDR_SIZE_NO_UDP :: nat where "IP_HDR_SIZE_NO_UDP = 20"
definition IP_HDR_SIZE :: nat where "IP_HDR_SIZE = 28"
definition ARP_ETHER :: u16 where "ARP_ETHER = 1"
definition ARPOP_REQUEST :: u16 where "ARPOP_REQUEST = 1"
definition ARPOP_REPLY :: u16 where "ARPOP_REPLY = 2"
definition RARPOP_REQUEST :: u16 where "RARPOP_REQUEST = 3"
definition RARPOP_REPLY :: u16 where "RARPOP_REPLY = 4"
definition ARP_HDR_SIZE :: nat where "ARP_HDR_SIZE = 8 + 20"
definition ICMP_REDIRECT :: byte where "ICMP_REDIRECT = 5"
definition ICMP_REDIR_HOST :: byte where "ICMP_REDIR_HOST = 1"
definition PKTSIZE_ALIGN :: nat where "PKTSIZE_ALIGN = 1536"

lemmas packet_sizes = ETHER_HDR_SIZE_def E802_HDR_SIZE_def IP_HDR_SIZE_NO_UDP_def IP_HDR_SIZE_def ARP_HDR_SIZE_def

definition NetBcastAddr :: "byte list" where "NetBcastAddr = replicate 6 0xff"

abbreviation mem_be16 :: "mem \<Rightarrow> u32 \<Rightarrow> u16" where
  "mem_be16 m a \<equiv> be16_dec (mread m a 2)"

section \<open>The state\<close>

text \<open>The functions that \<^verbatim>\<open>packetHandler\<close> and \<^verbatim>\<open>timeHandler\<close> point to (\<open>None\<close> is the null pointer).\<close>

datatype rxhand = startAgainHandler_ptr | ArpHandler_ptr | RarpHandler_ptr | BootpHandler_ptr | DhcpHandler_ptr | TftpHandler_ptr

datatype thand = startAgainTimeout_ptr | ArpTimeout_ptr | RarpTimeout_ptr | BootpTimeout_ptr | TftpTimeout_ptr

datatype netloop = NETLOOP_CONTINUE | NETLOOP_RESTART | NETLOOP_SUCCESS | NETLOOP_FAIL

datatype proto_t = BOOTP | RARP | ARP | TFTP | DHCP

datatype dhcp_state_t = INIT | INIT_REBOOT | REBOOTING | SELECTING | REQUESTING | REBINDING | BOUND | RENEWING

datatype tftp_state = STATE_RRQ | STATE_DATA | STATE_TOO_LARGE | STATE_BAD_MAGIC

text \<open>
  \<open>ns_now\<close> is what \<^verbatim>\<open>get_timer(0)\<close> returns, \<open>ns_sent\<close> the packets passed to \<^verbatim>\<open>eth_send\<close> so far. The other
  fields are the globals of the network code; Internet addresses are words in network byte order.
\<close>

record net_state =
  ns_env :: env_state
  ns_mem :: mem
  ns_now :: u32
  ns_sent :: "byte list list"
  NetOurSubnetMask :: u32
  NetOurGatewayIP :: u32
  NetOurDNSIP :: u32
  NetOurNISDomain :: "byte list"
  NetOurHostName :: "byte list"
  NetOurRootPath :: "byte list"
  NetBootFileSize :: u16
  NetBootFileXferSize :: u32
  NetOurEther :: "byte list"
  NetServerEther :: "byte list"
  NetOurIP :: u32
  NetServerIP :: u32
  NetRxPkt :: u32
  NetIPID :: u32
  NetState :: netloop
  packetHandler :: "rxhand option"
  timeHandler :: "thand option"
  timeValue :: u32
  ArpTry :: nat
  RarpTry :: nat
  BootpTry :: nat
  BootpID :: u32
  dhcp_state :: dhcp_state_t
  dhcp_leasetime :: u32
  TftpServerPort :: u32
  TftpOurPort :: u32
  TftpTimeoutCount :: nat
  TftpBlock :: u32
  TftpLastBlock :: u32
  TftpState :: tftp_state
  tftp_filename :: "byte list"

section \<open>Handlers and timers\<close>

definition CFG_HZ :: u32 where "CFG_HZ = 1000"

definition NetSetHandler :: "rxhand \<Rightarrow> net_state \<Rightarrow> net_state" where
  "NetSetHandler f st = st\<lparr>packetHandler := Some f\<rparr>"

definition NetSetTimeout :: "u32 \<Rightarrow> thand option \<Rightarrow> net_state \<Rightarrow> net_state" where
  "NetSetTimeout iv f st =
     (if iv = 0 then st\<lparr>timeHandler := None\<rparr>
      else st\<lparr>timeHandler := f, timeValue := ns_now st + iv\<rparr>)"

definition NetSendPacket :: "byte list \<Rightarrow> net_state \<Rightarrow> net_state" where
  "NetSendPacket pkt st = st\<lparr>ns_sent := ns_sent st @ [pkt]\<rparr>"

definition startAgainTimeout :: "net_state \<Rightarrow> net_state" where
  "startAgainTimeout st = st\<lparr>NetState := NETLOOP_RESTART\<rparr>"

definition NetStartAgain :: "net_state \<Rightarrow> net_state" where
  "NetStartAgain st = NetSetHandler startAgainHandler_ptr (NetSetTimeout (10 * CFG_HZ) (Some startAgainTimeout_ptr) st)"

section \<open>Headers\<close>

text \<open>The sum of the first \<open>len\<close> 16-bit words, folded to 16 bits (the code does not return the complement).\<close>

fun cksum_loop :: "byte list \<Rightarrow> nat \<Rightarrow> u32 \<Rightarrow> u32" where
  "cksum_loop ptr 0 xsum = xsum"
| "cksum_loop ptr (Suc len) xsum = cksum_loop (drop 2 ptr) len (xsum + ucast (be16_dec ptr))"

definition NetCksum :: "byte list \<Rightarrow> nat \<Rightarrow> u32" where
  "NetCksum ptr len =
     (let xsum = cksum_loop ptr len 0;
          xsum = (xsum AND 0xffff) + drop_bit 16 xsum;
          xsum = (xsum AND 0xffff) + drop_bit 16 xsum
      in xsum AND 0xffff)"

definition NetCksumOk :: "byte list \<Rightarrow> nat \<Rightarrow> bool" where
  "NetCksumOk ptr len \<longleftrightarrow> (NetCksum ptr len + 1) AND 0xfffe = 0"

text \<open>The Ethernet header put at the start of a packet.\<close>

definition NetSetEther :: "net_state \<Rightarrow> byte list \<Rightarrow> u16 \<Rightarrow> byte list" where
  "NetSetEther st addr prot = addr @ NetOurEther st @ be16 prot"

text \<open>
  The IP and UDP header for \<open>len\<close> bytes of data: \<open>ip_header\<close> with the given checksum field, \<open>NetSetIP\<close> with
  the header's checksum in it. (The zero byte behind data of odd length is not part of what is sent.)
\<close>

definition ip_header :: "net_state \<Rightarrow> u16 \<Rightarrow> u32 \<Rightarrow> u32 \<Rightarrow> u32 \<Rightarrow> nat \<Rightarrow> byte list" where
  "ip_header st xsum dest dport sport len =
     [0x45, 0] @ be16 (of_nat (IP_HDR_SIZE + len)) @ be16 (ucast (NetIPID st)) @ be16 0x4000 @
     [255, 17] @ be16 xsum @ be32 (NetOurIP st) @ be32 dest @
     be16 (ucast sport) @ be16 (ucast dport) @ be16 (of_nat (8 + len)) @ be16 0"

definition NetSetIP :: "net_state \<Rightarrow> u32 \<Rightarrow> u32 \<Rightarrow> u32 \<Rightarrow> nat \<Rightarrow> byte list \<times> net_state" where
  "NetSetIP st dest dport sport len =
     (let xsum = ucast (NOT (NetCksum (ip_header st 0 dest dport sport len) (IP_HDR_SIZE_NO_UDP div 2)))
      in (ip_header st xsum dest dport sport len, st\<lparr>NetIPID := NetIPID st + 1\<rparr>))"

section \<open>Internet addresses\<close>

definition ip_to_string :: "u32 \<Rightarrow> byte list option" where
  "ip_to_string x =
     sprintf (str ''%d.%d.%d.%d'')
       [VaWord (drop_bit 24 x AND 0xff), VaWord (drop_bit 16 x AND 0xff),
        VaWord (drop_bit 8 x AND 0xff), VaWord (drop_bit 0 x AND 0xff)]"

text \<open>The address in an environment variable; \<open>None\<close> if \<open>getenv\<close> runs out of the environment.\<close>

definition getenv_IPaddr :: "env_state \<Rightarrow> byte list \<Rightarrow> u32 option" where
  "getenv_IPaddr env var =
     do { s \<leftarrow> getenv_str (env_data env) var;
          Some (case s of None \<Rightarrow> 0 | Some s \<Rightarrow> parse_ipaddr s) }"

section \<open>What the helpers leave alone\<close>

lemma NetSet_simps [simp]:
  "ns_mem (NetSetHandler f st) = ns_mem st" "ns_mem (NetSetTimeout iv g st) = ns_mem st"
  "ns_mem (NetSendPacket p st) = ns_mem st" "ns_mem (NetStartAgain st) = ns_mem st"
  "ns_env (NetSetHandler f st) = ns_env st" "ns_env (NetSetTimeout iv g st) = ns_env st"
  "ns_env (NetSendPacket p st) = ns_env st" "ns_env (NetStartAgain st) = ns_env st"
  "NetState (NetSetHandler f st) = NetState st" "NetState (NetSetTimeout iv g st) = NetState st"
  "NetState (NetSendPacket p st) = NetState st" "NetState (NetStartAgain st) = NetState st"
  "ns_sent (NetSetHandler f st) = ns_sent st" "ns_sent (NetSetTimeout iv g st) = ns_sent st"
  "ns_sent (NetSendPacket p st) = ns_sent st @ [p]" "ns_sent (NetStartAgain st) = ns_sent st"
  "packetHandler (NetSetHandler f st) = Some f" "packetHandler (NetSetTimeout iv g st) = packetHandler st"
  "packetHandler (NetSendPacket p st) = packetHandler st" "packetHandler (NetStartAgain st) = Some startAgainHandler_ptr"
  by (simp_all add: NetSetHandler_def NetSetTimeout_def NetSendPacket_def NetStartAgain_def)

lemma length_NetSetEther [simp]:
  "length addr = 6 \<Longrightarrow> length (NetOurEther st) = 6 \<Longrightarrow> length (NetSetEther st addr prot) = ETHER_HDR_SIZE"
  by (simp add: NetSetEther_def ETHER_HDR_SIZE_def)

lemma length_ip_header [simp]: "length (ip_header st xsum dest dport sport len) = IP_HDR_SIZE"
  by (simp add: ip_header_def IP_HDR_SIZE_def)

end
