(* ===== verification/Tftp.thy ===== *)
theory Tftp
  imports Net
begin

text \<open>
  \<^verbatim>\<open>net/tftp.c\<close>: the TFTP client. The handler and the time-out are functions of the state; a block is
  stored in the memory at \<open>load_addr\<close> (\<^verbatim>\<open>CFG_DIRECT_FLASH_TFTP\<close> is not set).
\<close>

definition WELL_KNOWN_PORT :: u32 where "WELL_KNOWN_PORT = 69"
definition TFTP_TIMEOUT :: u32 where "TFTP_TIMEOUT = 2"
definition TFTP_TIMEOUT_COUNT :: nat where "TFTP_TIMEOUT_COUNT = 10"
definition TFTP_RRQ :: u16 where "TFTP_RRQ = 1"
definition TFTP_DATA :: u16 where "TFTP_DATA = 3"
definition TFTP_ACK :: u16 where "TFTP_ACK = 4"
definition TFTP_ERROR :: u16 where "TFTP_ERROR = 5"

definition store_block :: "u32 \<Rightarrow> u32 \<Rightarrow> u32 \<Rightarrow> net_state \<Rightarrow> net_state" where
  "store_block block src len st =
     (let offset = block * 512; newsize = offset + len;
          st = st\<lparr>ns_mem := mwrite (ns_mem st) (load_addr (ns_env st) + offset) (mread (ns_mem st) src (unat len))\<rparr>
      in if NetBootFileXferSize st < newsize then st\<lparr>NetBootFileXferSize := newsize\<rparr> else st)"

text \<open>The data of the packet to be sent.\<close>

definition tftp_packet :: "net_state \<Rightarrow> byte list" where
  "tftp_packet st =
     (case TftpState st of
        STATE_RRQ \<Rightarrow> be16 TFTP_RRQ @ tftp_filename st @ [0] @ str ''octet'' @ [0]
      | STATE_DATA \<Rightarrow> be16 TFTP_ACK @ be16 (ucast (TftpBlock st))
      | STATE_TOO_LARGE \<Rightarrow> be16 TFTP_ERROR @ be16 3 @ str ''File too large'' @ [0]
      | STATE_BAD_MAGIC \<Rightarrow> be16 TFTP_ERROR @ be16 2 @ str ''File has bad magic'' @ [0])"

definition TftpSend :: "net_state \<Rightarrow> net_state" where
  "TftpSend st =
     (let pkt = tftp_packet st;
          ether = NetSetEther st (NetServerEther st) PROT_IP;
          (ip, st) = NetSetIP st (NetServerIP st) (TftpServerPort st) (TftpOurPort st) (length pkt)
      in NetSendPacket (ether @ ip @ pkt) st)"

text \<open>A data packet: the block number and the data, of \<open>len\<close> bytes, at \<open>pkt\<close>.\<close>

definition tftp_data :: "u32 \<Rightarrow> u32 \<Rightarrow> u32 \<Rightarrow> net_state \<Rightarrow> net_state" where
  "tftp_data pkt src len st =
     (if len < 2 then st
      else
        let len = len - 2;
            st = st\<lparr>TftpBlock := ucast (mem_be16 (ns_mem st) pkt)\<rparr>;
            first = (TftpState st = STATE_RRQ);
            st = (if first then st\<lparr>TftpState := STATE_DATA, TftpServerPort := src, TftpLastBlock := 0\<rparr> else st)
        in if first \<and> TftpBlock st \<noteq> 1 then NetStartAgain st
           else if TftpBlock st = TftpLastBlock st then st
           else
             let st = st\<lparr>TftpLastBlock := TftpBlock st\<rparr>;
                 st = NetSetTimeout (TFTP_TIMEOUT * CFG_HZ) (Some TftpTimeout_ptr) st;
                 st = store_block (TftpBlock st - 1) (pkt + 2) len st;
                 st = TftpSend st
             in if len < 512 then st\<lparr>NetState := NETLOOP_SUCCESS\<rparr> else st)"

definition TftpHandler :: "u32 \<Rightarrow> u32 \<Rightarrow> u32 \<Rightarrow> u32 \<Rightarrow> net_state \<Rightarrow> net_state" where
  "TftpHandler pkt dest src len st =
     (if dest \<noteq> TftpOurPort st then st
      else if TftpState st \<noteq> STATE_RRQ \<and> src \<noteq> TftpServerPort st then st
      else if len < 2 then st
      else
        let proto = mem_be16 (ns_mem st) pkt
        in if proto = TFTP_DATA then tftp_data (pkt + 2) src (len - 2) st
           else if proto = TFTP_ERROR then NetStartAgain st
           else st)"

definition TftpTimeout :: "net_state \<Rightarrow> net_state" where
  "TftpTimeout st =
     (let st = st\<lparr>TftpTimeoutCount := TftpTimeoutCount st + 1\<rparr>
      in if TftpTimeoutCount st \<ge> TFTP_TIMEOUT_COUNT then NetStartAgain st
         else TftpSend (NetSetTimeout (TFTP_TIMEOUT * CFG_HZ) (Some TftpTimeout_ptr) st))"

text \<open>The name of the file: \<open>BootFile\<close>, or one made of our address.\<close>

definition tftp_name :: "net_state \<Rightarrow> byte list option" where
  "tftp_name st =
     (if BootFile (ns_env st) = [] then
        sprintf (str ''%02lX%02lX%02lX%02lX.img'')
          [VaWord (NetOurIP st AND 0xFF), VaWord (drop_bit 8 (NetOurIP st) AND 0xFF),
           VaWord (drop_bit 16 (NetOurIP st) AND 0xFF), VaWord (drop_bit 24 (NetOurIP st) AND 0xFF)]
      else Some (BootFile (ns_env st)))"

definition TftpStart :: "net_state \<Rightarrow> net_state option" where
  "TftpStart st =
     do { name \<leftarrow> tftp_name st;
          (let st = st\<lparr>tftp_filename := name\<rparr>;
               st = NetSetTimeout (TFTP_TIMEOUT * CFG_HZ) (Some TftpTimeout_ptr) st;
               st = NetSetHandler TftpHandler_ptr st
           in Some (TftpSend (st\<lparr>TftpServerPort := WELL_KNOWN_PORT, TftpTimeoutCount := 0,
                TftpState := STATE_RRQ, TftpOurPort := 1024 + ns_now st mod 3072\<rparr>))) }"

end
