(* ===== verification/Arp.thy ===== *)
theory Arp
  imports Tftp
begin

text \<open>
  \<^verbatim>\<open>net/arp.c\<close> and \<^verbatim>\<open>net/rarp.c\<close>: the request for the server's (or the gateway's) Ethernet address, and
  the request for our Internet address. Both start TFTP when they are answered and try again, a limited
  number of times, when they are not.
\<close>

section \<open>ARP\<close>

definition ARP_TIMEOUT :: u32 where "ARP_TIMEOUT = 5"
definition ARP_TIMEOUT_COUNT :: nat where "ARP_TIMEOUT_COUNT = 5"

text \<open>The packet after the Ethernet header.\<close>

definition arp_packet :: "u16 \<Rightarrow> byte list \<Rightarrow> u32 \<Rightarrow> byte list \<Rightarrow> u32 \<Rightarrow> byte list" where
  "arp_packet op sha spa tha tpa =
     be16 ARP_ETHER @ be16 PROT_IP @ [6, 4] @ be16 op @ sha @ be32 spa @ tha @ be32 tpa"

definition arp_target :: "net_state \<Rightarrow> u32" where
  "arp_target st =
     (if NetServerIP st AND NetOurSubnetMask st \<noteq> NetOurIP st AND NetOurSubnetMask st
      then NetOurGatewayIP st else NetServerIP st)"

definition ArpRequest :: "net_state \<Rightarrow> net_state" where
  "ArpRequest st =
     (let st = st\<lparr>ArpTry := ArpTry st + 1\<rparr>;
          pkt = NetSetEther st NetBcastAddr PROT_ARP @
                arp_packet ARPOP_REQUEST (NetOurEther st) (NetOurIP st) (replicate 6 0) (arp_target st);
          st = NetSendPacket pkt st;
          st = NetSetTimeout (ARP_TIMEOUT * CFG_HZ) (Some ArpTimeout_ptr) st
      in NetSetHandler ArpHandler_ptr st)"

definition ArpHandler :: "net_state \<Rightarrow> net_state option" where
  "ArpHandler st = (if NetServerEther st \<noteq> NetBcastAddr then TftpStart st else Some st)"

definition ArpTimeout :: "net_state \<Rightarrow> net_state" where
  "ArpTimeout st =
     (if ArpTry st \<ge> ARP_TIMEOUT_COUNT then NetStartAgain st
      else ArpRequest (NetSetTimeout (ARP_TIMEOUT * CFG_HZ) (Some ArpTimeout_ptr) st))"

section \<open>RARP\<close>

definition RARP_TIMEOUT :: u32 where "RARP_TIMEOUT = 5"
definition RARP_TIMEOUT_COUNT :: nat where "RARP_TIMEOUT_COUNT = 5"

definition RarpRequest :: "net_state \<Rightarrow> net_state" where
  "RarpRequest st =
     (let st = st\<lparr>RarpTry := RarpTry st + 1\<rparr>;
          pkt = NetSetEther st NetBcastAddr PROT_RARP @
                arp_packet RARPOP_REQUEST (NetOurEther st) (NetOurIP st) (NetOurEther st) 0xffffffff;
          st = NetSendPacket pkt st;
          st = NetSetTimeout (RARP_TIMEOUT * CFG_HZ) (Some RarpTimeout_ptr) st
      in NetSetHandler RarpHandler_ptr st)"

definition RarpHandler :: "net_state \<Rightarrow> net_state option" where
  "RarpHandler st = TftpStart st"

definition RarpTimeout :: "net_state \<Rightarrow> net_state" where
  "RarpTimeout st =
     (if RarpTry st \<ge> RARP_TIMEOUT_COUNT then NetStartAgain st
      else RarpRequest (NetSetTimeout (RARP_TIMEOUT * CFG_HZ) (Some RarpTimeout_ptr) st))"

end
