(* ===== verification/Bootp.thy ===== *)
theory Bootp
  imports Arp
begin

text \<open>
  \<^verbatim>\<open>net/bootp.c\<close>: the BOOTP request, the check of a reply, what is taken from it (addresses, boot file name,
  vendor fields) and how the boot goes on; and the DHCP client, which is built instead of the BOOTP handler when
  \<^verbatim>\<open>CFG_CMD_DHCP\<close> is set. The reply is read from memory, at the address the handler is given. Of the random
  delay only its length is modelled; \<^verbatim>\<open>CONFIG_BOOTP_VENDOREX\<close> is not set.
\<close>

section \<open>The packet\<close>

definition BOOTP_VENDOR_MAGIC :: u32 where "BOOTP_VENDOR_MAGIC = 0x63825363"
definition BOOTP_TIMEOUT :: u32 where "BOOTP_TIMEOUT = 5"
definition BOOTP_TIMEOUT_COUNT :: nat where "BOOTP_TIMEOUT_COUNT = 5"
definition SELECT_TIMEOUT :: u32 where "SELECT_TIMEOUT = 3"
definition PORT_BOOTPS :: u32 where "PORT_BOOTPS = 67"
definition PORT_BOOTPC :: u32 where "PORT_BOOTPC = 68"
definition OP_BOOTREQUEST :: byte where "OP_BOOTREQUEST = 1"
definition OP_BOOTREPLY :: byte where "OP_BOOTREPLY = 2"
definition DHCP_OFFER :: byte where "DHCP_OFFER = 2"
definition DHCP_ACK :: byte where "DHCP_ACK = 5"
definition DHCP_NAK :: byte where "DHCP_NAK = 6"
definition HWT_ETHER :: byte where "HWT_ETHER = 1"
definition HWL_ETHER :: byte where "HWL_ETHER = 6"

text \<open>The size of \<^verbatim>\<open>Bootp_t\<close> up to the vendor area, and the offsets of its fields.\<close>

definition BOOTP_FIXED :: nat where "BOOTP_FIXED = 236"

definition bp_id :: u32 where "bp_id = 4"
definition bp_yiaddr :: u32 where "bp_yiaddr = 16"
definition bp_siaddr :: u32 where "bp_siaddr = 20"
definition bp_file :: u32 where "bp_file = 108"
definition bp_vend :: u32 where "bp_vend = 236"

lemmas bp_offsets = bp_id_def bp_yiaddr_def bp_siaddr_def bp_file_def bp_vend_def

section \<open>The request\<close>

text \<open>
  The configuration: \<^verbatim>\<open>CONFIG_BOOTP_MASK\<close>, whether \<^verbatim>\<open>CFG_CMD_DHCP\<close> is set, \<^verbatim>\<open>CFG_BOOTFILE_PREFIX\<close> if it is defined,
  and \<^verbatim>\<open>CONFIG_DHCP_MIN_EXT_LEN\<close>.
\<close>

record bootp_config =
  bo_mask :: u32
  bo_dhcp :: bool
  bo_prefix :: "byte list option"
  bo_min_ext_len :: nat

definition CONFIG_BOOTP_SUBNETMASK :: u32 where "CONFIG_BOOTP_SUBNETMASK = 0x01"
definition CONFIG_BOOTP_GATEWAY :: u32 where "CONFIG_BOOTP_GATEWAY = 0x02"
definition CONFIG_BOOTP_HOSTNAME :: u32 where "CONFIG_BOOTP_HOSTNAME = 0x04"
definition CONFIG_BOOTP_NISDOMAIN :: u32 where "CONFIG_BOOTP_NISDOMAIN = 0x08"
definition CONFIG_BOOTP_BOOTPATH :: u32 where "CONFIG_BOOTP_BOOTPATH = 0x10"
definition CONFIG_BOOTP_BOOTFILESIZE :: u32 where "CONFIG_BOOTP_BOOTFILESIZE = 0x20"
definition CONFIG_BOOTP_DNS :: u32 where "CONFIG_BOOTP_DNS = 0x40"

definition CONFIG_BOOTP_DEFAULT :: u32 where
  "CONFIG_BOOTP_DEFAULT =
     CONFIG_BOOTP_SUBNETMASK OR CONFIG_BOOTP_GATEWAY OR CONFIG_BOOTP_HOSTNAME OR CONFIG_BOOTP_BOOTPATH"

text \<open>The vendor area of a request; \<open>opts\<close> is \<^verbatim>\<open>CONFIG_BOOTP_MASK\<close>.\<close>

definition BootpExtended :: "u32 \<Rightarrow> byte list" where
  "BootpExtended opts =
     (let field = (\<lambda>opt code n. if opts AND opt \<noteq> 0 then [code, of_nat n] @ replicate n 0 else [])
      in [99, 130, 83, 99] @
         field CONFIG_BOOTP_SUBNETMASK 1 4 @ field CONFIG_BOOTP_GATEWAY 3 4 @ field CONFIG_BOOTP_DNS 6 4 @
         field CONFIG_BOOTP_HOSTNAME 12 32 @ field CONFIG_BOOTP_BOOTFILESIZE 13 2 @
         field CONFIG_BOOTP_BOOTPATH 17 32 @ field CONFIG_BOOTP_NISDOMAIN 40 32 @ [255])"

definition DHCP_DISCOVER :: byte where "DHCP_DISCOVER = 1"
definition DHCP_REQUEST :: byte where "DHCP_REQUEST = 3"

definition DhcpExtended :: "bootp_config \<Rightarrow> byte \<Rightarrow> u32 \<Rightarrow> u32 \<Rightarrow> byte list" where
  "DhcpExtended bo message_type ServerID RequestedIP =
     (let item = (\<lambda>opt code. if bo_mask bo AND opt \<noteq> 0 then [code] else []);
          items = item CONFIG_BOOTP_SUBNETMASK 1 @ item CONFIG_BOOTP_GATEWAY 3 @ item CONFIG_BOOTP_DNS 6 @
                  item CONFIG_BOOTP_HOSTNAME 12 @ item CONFIG_BOOTP_BOOTFILESIZE 13 @
                  item CONFIG_BOOTP_BOOTPATH 17 @ item CONFIG_BOOTP_NISDOMAIN 40;
          e = [99, 130, 83, 99] @ [53, 1, message_type] @ [57, 2] @ be16 576 @
              (if ServerID \<noteq> 0 then [54, 4] @ be32 ServerID else []) @
              (if RequestedIP \<noteq> 0 then [50, 4] @ be32 RequestedIP else []) @
              [55, of_nat (length items)] @ items @ [255]
      in e @ replicate (bo_min_ext_len bo + 1 - length e) 0)"

definition BootpRequest :: "bootp_config \<Rightarrow> net_state \<Rightarrow> net_state" where
  "BootpRequest bo st =
     (let st = st\<lparr>BootpTry := BootpTry st + 1\<rparr>;
          ether = NetSetEther st NetBcastAddr PROT_IP;
          file = copy_filename (BootFile (ns_env st)) 128;
          ext = (if bo_dhcp bo then DhcpExtended bo DHCP_DISCOVER 0 0 else BootpExtended (bo_mask bo));
          st = st\<lparr>BootpID := be32_dec (drop 2 (NetOurEther st)) + ns_now st\<rparr>;
          bp = [OP_BOOTREQUEST, HWT_ETHER, HWL_ETHER, 0] @ be32 (BootpID st) @
               be16 (ucast (ns_now st div CFG_HZ)) @ be16 0 @ be32 0 @ be32 0 @ be32 0 @ be32 0 @
               NetOurEther st @ replicate 10 0 @ replicate 64 0 @ file @ replicate (128 - length file) 0 @ ext;
          (ip, st) = NetSetIP st 0xFFFFFFFF PORT_BOOTPS PORT_BOOTPC (BOOTP_FIXED + length ext);
          st = NetSetTimeout (SELECT_TIMEOUT * CFG_HZ) (Some BootpTimeout_ptr) st;
          st = (if bo_dhcp bo then NetSetHandler DhcpHandler_ptr (st\<lparr>dhcp_state := SELECTING\<rparr>)
                else NetSetHandler BootpHandler_ptr st)
      in NetSendPacket (ether @ ip @ bp) st)"

definition BootpTimeout :: "bootp_config \<Rightarrow> net_state \<Rightarrow> net_state" where
  "BootpTimeout bo st =
     (if BootpTry st \<ge> BOOTP_TIMEOUT_COUNT then NetStartAgain st
      else BootpRequest bo (NetSetTimeout (BOOTP_TIMEOUT * CFG_HZ) (Some BootpTimeout_ptr) st))"

section \<open>The reply\<close>

definition BootpCheckPkt :: "u32 \<Rightarrow> u32 \<Rightarrow> u32 \<Rightarrow> u32 \<Rightarrow> net_state \<Rightarrow> int" where
  "BootpCheckPkt pkt dest src len st =
     (let m = ns_mem st in
      if dest \<noteq> PORT_BOOTPC \<or> src \<noteq> PORT_BOOTPS then -1
      else if len < of_nat BOOTP_FIXED then -2
      else if m pkt \<noteq> OP_BOOTREQUEST \<and> m pkt \<noteq> OP_BOOTREPLY \<and> m pkt \<noteq> DHCP_OFFER \<and> m pkt \<noteq> DHCP_ACK \<and> m pkt \<noteq> DHCP_NAK
      then -3
      else if m (pkt + 1) \<noteq> HWT_ETHER then -4
      else if m (pkt + 2) \<noteq> HWL_ETHER then -5
      else if mem_be32 m (pkt + bp_id) \<noteq> BootpID st then -6
      else 0)"

text \<open>The C string in an array of \<open>n\<close> bytes (all of it, if there is no NUL).\<close>

definition array_string :: "mem \<Rightarrow> u32 \<Rightarrow> nat \<Rightarrow> byte list" where
  "array_string m a n = takeWhile (\<lambda>c. c \<noteq> 0) (mread m a n)"

definition BootpCopyNetParams :: "env_config \<Rightarrow> u32 \<Rightarrow> net_state \<Rightarrow> net_state option" where
  "BootpCopyNetParams cfg bp st =
     (let m = ns_mem st;
          st = st\<lparr>NetOurIP := mem_be32 m (bp + bp_yiaddr), NetServerIP := mem_be32 m (bp + bp_siaddr),
                  NetServerEther := mread m (NetRxPkt st + 6) 6,
                  ns_env := (ns_env st)\<lparr>BootFile := copy_filename (array_string m (bp + bp_file) 128) 128\<rparr>\<rparr>
      in if BootFile (ns_env st) \<noteq> []
         then do { (r, env) \<leftarrow> setenv cfg (str ''bootfile'') (Some (BootFile (ns_env st))) (ns_env st);
                   Some (st\<lparr>ns_env := env\<rparr>) }
         else Some st)"

definition truncate_sz :: "nat \<Rightarrow> nat \<Rightarrow> nat" where
  "truncate_sz maxlen curlen = (if curlen \<ge> maxlen then maxlen - 1 else curlen)"

text \<open>
  A field of the vendor area. A name is kept as the string the array holds afterwards; it is only taken
  if there is none yet.
\<close>

definition vendor_string :: "mem \<Rightarrow> u32 \<Rightarrow> nat \<Rightarrow> nat \<Rightarrow> byte list" where
  "vendor_string m ext maxlen sz = takeWhile (\<lambda>c. c \<noteq> 0) (mread m (ext + 2) (truncate_sz maxlen sz))"

definition BootpVendorFieldProcess :: "u32 \<Rightarrow> net_state \<Rightarrow> net_state" where
  "BootpVendorFieldProcess ext st =
     (let m = ns_mem st; sz = unat (m (ext + 1)); code = m ext;
          st = st\<lparr>NetBootFileSize := 0\<rparr>
      in if code = 1 then
           (if NetOurSubnetMask st = 0 then st\<lparr>NetOurSubnetMask := mem_be32 m (ext + 2)\<rparr> else st)
         else if code = 3 then
           (if NetOurGatewayIP st = 0 then st\<lparr>NetOurGatewayIP := mem_be32 m (ext + 2)\<rparr> else st)
         else if code = 6 then
           (if NetOurDNSIP st = 0 then st\<lparr>NetOurDNSIP := mem_be32 m (ext + 2)\<rparr> else st)
         else if code = 12 then
           (if NetOurHostName st = [] then st\<lparr>NetOurHostName := vendor_string m ext 32 sz\<rparr> else st)
         else if code = 13 then
           (if sz = 2 then st\<lparr>NetBootFileSize := mem_be16 m (ext + 2)\<rparr>
            else if sz = 4 then st\<lparr>NetBootFileSize := ucast (mem_be32 m (ext + 2))\<rparr> else st)
         else if code = 17 then
           (if NetOurRootPath st = [] then st\<lparr>NetOurRootPath := vendor_string m ext 64 sz\<rparr> else st)
         else if code = 40 then
           (if NetOurNISDomain st = [] then st\<lparr>NetOurNISDomain := vendor_string m ext 32 sz\<rparr> else st)
         else st)"

text \<open>The fields between \<open>ext\<close> and \<open>end\<close>; pointers may wrap round, so the loop need not end.\<close>

partial_function (option) vendor_loop :: "u32 \<Rightarrow> u32 \<Rightarrow> net_state \<Rightarrow> net_state option" where
  "vendor_loop ext lim st =
     (if ext < lim \<and> ns_mem st ext \<noteq> 0xff then
        if ns_mem st ext = 0 then vendor_loop (ext + 1) lim st
        else
          let opt = ext; ext = ext + (ucast (ns_mem st (ext + 1)) + 2)
          in vendor_loop ext lim (if ext \<le> lim then BootpVendorFieldProcess opt st else st)
      else Some st)"

definition BootpVendorProcess :: "u32 \<Rightarrow> u32 \<Rightarrow> net_state \<Rightarrow> net_state option" where
  "BootpVendorProcess ext sz st = vendor_loop ext (ext + sz) st"

definition BootpHandler :: "env_config \<Rightarrow> u32 \<Rightarrow> u32 \<Rightarrow> u32 \<Rightarrow> u32 \<Rightarrow> net_state \<Rightarrow> net_state option" where
  "BootpHandler cfg pkt dest src len st =
     (if BootpCheckPkt pkt dest src len st \<noteq> 0 then Some st
      else do {
        st \<leftarrow> BootpCopyNetParams cfg pkt st;
        st \<leftarrow> (if mem_be32 (ns_mem st) (pkt + bp_vend) = BOOTP_VENDOR_MAGIC
              then BootpVendorProcess (pkt + bp_vend + 4) len st else Some st);
        (let st = NetSetTimeout 0 None st
         in do { s \<leftarrow> getenv_str (env_data (ns_env st)) (str ''autoload'');
                 if (case s of Some s \<Rightarrow> peek s = ch CHR ''n'' | None \<Rightarrow> False)
                 then Some (st\<lparr>NetState := NETLOOP_SUCCESS\<rparr>)
                 else Some (ArpRequest st) }) })"

section \<open>DHCP\<close>

definition bp_ciaddr :: u32 where "bp_ciaddr = 12"
definition bp_giaddr :: u32 where "bp_giaddr = 24"

text \<open>The size of \<^verbatim>\<open>Bootp_t\<close> when DHCP is configured.\<close>

definition BOOTP_HDR_SIZE :: u32 where "BOOTP_HDR_SIZE = 236 + 312"

definition DhcpOption :: "u32 \<Rightarrow> net_state \<Rightarrow> net_state" where
  "DhcpOption popt st =
     (let m = ns_mem st; oplen = unat (m (popt + 1)); code = m popt
      in if code = 1 then st\<lparr>NetOurSubnetMask := mem_be32 m (popt + 2)\<rparr>
         else if code = 3 then st\<lparr>NetOurGatewayIP := mem_be32 m (popt + 2)\<rparr>
         else if code = 6 then st\<lparr>NetOurDNSIP := mem_be32 m (popt + 2)\<rparr>
         else if code = 12 then st\<lparr>NetOurHostName := vendor_string m popt 32 oplen\<rparr>
         else if code = 17 then st\<lparr>NetOurRootPath := vendor_string m popt 64 oplen\<rparr>
         else if code = 51 then st\<lparr>dhcp_leasetime := mem_be32 m (popt + 2)\<rparr>
         else if code = 54 then st\<lparr>NetServerIP := mem_be32 m (popt + 2)\<rparr>
         else st)"

partial_function (option) options_loop :: "u32 \<Rightarrow> u32 \<Rightarrow> net_state \<Rightarrow> net_state option" where
  "options_loop popt lim st =
     (if popt < lim \<and> ns_mem st popt \<noteq> 0xff
      then options_loop (popt + (ucast (ns_mem st (popt + 1)) + 2)) lim (DhcpOption popt st)
      else Some st)"

definition DhcpOptionsProcess :: "u32 \<Rightarrow> net_state \<Rightarrow> net_state option" where
  "DhcpOptionsProcess popt st = options_loop popt (popt + BOOTP_HDR_SIZE) st"

text \<open>The search for the message type has no bound but the end mark.\<close>

partial_function (option) type_loop :: "mem \<Rightarrow> u32 \<Rightarrow> int option" where
  "type_loop m popt =
     (if m popt = 0xff then Some (-1)
      else if m popt = 53 then Some (uint (m (popt + 2)))
      else type_loop m (popt + (ucast (m (popt + 1)) + 2)))"

definition DhcpMessageType :: "mem \<Rightarrow> u32 \<Rightarrow> int option" where
  "DhcpMessageType m popt =
     (if mem_be32 m popt \<noteq> BOOTP_VENDOR_MAGIC then Some (-1) else type_loop m (popt + 4))"

definition DhcpSendRequestPkt :: "bootp_config \<Rightarrow> u32 \<Rightarrow> net_state \<Rightarrow> net_state" where
  "DhcpSendRequestPkt bo bp_offer st =
     (let m = ns_mem st;
          ether = NetSetEther st NetBcastAddr PROT_IP;
          ext = DhcpExtended bo DHCP_REQUEST (NetServerIP st) (mem_be32 m (bp_offer + bp_yiaddr));
          bp = [OP_BOOTREQUEST, HWT_ETHER, HWL_ETHER, 0] @ mread m (bp_offer + bp_id) 4 @
               be16 (ucast (ns_now st div CFG_HZ)) @ be16 0 @ mread m (bp_offer + bp_ciaddr) 4 @
               mread m (bp_offer + bp_yiaddr) 4 @ mread m (bp_offer + bp_siaddr) 4 @ mread m (bp_offer + bp_giaddr) 4 @
               NetOurEther st @ replicate 10 0 @ replicate 64 0 @ replicate 128 0 @ ext;
          (ip, st) = NetSetIP st 0xFFFFFFFF PORT_BOOTPS PORT_BOOTPC (BOOTP_FIXED + length ext)
      in NetSendPacket (ether @ ip @ bp) st)"

definition bootfile_matches :: "bootp_config \<Rightarrow> mem \<Rightarrow> u32 \<Rightarrow> bool" where
  "bootfile_matches bo m pkt \<longleftrightarrow>
     (case bo_prefix bo of None \<Rightarrow> True | Some p \<Rightarrow> mread m (pkt + bp_file) (length p) = p)"

definition DhcpHandler :: "bootp_config \<Rightarrow> env_config \<Rightarrow> u32 \<Rightarrow> u32 \<Rightarrow> u32 \<Rightarrow> u32 \<Rightarrow> net_state \<Rightarrow> net_state option" where
  "DhcpHandler bo cfg pkt dest src len st =
     (if BootpCheckPkt pkt dest src len st \<noteq> 0 then Some st
      else case dhcp_state st of
        SELECTING \<Rightarrow>
          if bootfile_matches bo (ns_mem st) pkt
          then do { st \<leftarrow> BootpCopyNetParams cfg pkt (st\<lparr>dhcp_state := REQUESTING\<rparr>);
                    Some (DhcpSendRequestPkt bo pkt (NetSetTimeout (BOOTP_TIMEOUT * CFG_HZ) (Some BootpTimeout_ptr) st)) }
          else Some st
      | REQUESTING \<Rightarrow>
          do { t \<leftarrow> DhcpMessageType (ns_mem st) (pkt + bp_vend);
               if t = uint DHCP_ACK
               then do {
                 st \<leftarrow> (if mem_be32 (ns_mem st) (pkt + bp_vend) = BOOTP_VENDOR_MAGIC
                       then DhcpOptionsProcess (pkt + bp_vend + 4) st else Some st);
                 st \<leftarrow> BootpCopyNetParams cfg pkt st;
                 (let st = st\<lparr>dhcp_state := BOUND\<rparr>
                  in do { s \<leftarrow> getenv_str (env_data (ns_env st)) (str ''autoload'');
                          if (case s of Some s \<Rightarrow> peek s = ch CHR ''n'' | None \<Rightarrow> False)
                          then Some (st\<lparr>NetState := NETLOOP_SUCCESS\<rparr>)
                          else Some (ArpRequest st) }) }
               else Some st }
      | _ \<Rightarrow> Some st)"

definition DhcpRequest :: "bootp_config \<Rightarrow> net_state \<Rightarrow> net_state" where
  "DhcpRequest bo st = BootpRequest bo st"

section \<open>The random delay\<close>

text \<open>
  \<^verbatim>\<open>CONFIG_BOOTP_RANDOM_DELAY\<close>: the two seeds from the Ethernet address (zero if \<^verbatim>\<open>ethaddr\<close> is not set), and one step
  of the generator with the delay in milliseconds before a request, of which \<open>tries\<close> have been sent.
\<close>

fun mirror_loop :: "nat \<Rightarrow> u32 \<Rightarrow> u32 \<Rightarrow> u32" where
  "mirror_loop 0 seed v = v"
| "mirror_loop (Suc n) seed v = mirror_loop n (drop_bit 1 seed) (push_bit 1 (v OR (1 AND seed)))"

definition delay_seeds :: "byte list \<Rightarrow> u32 \<times> u32" where
  "delay_seeds mac =
     (let tst1 = foldl (\<lambda>t b. push_bit 8 t OR ucast b) 0 (take 4 (drop 2 mac));
          tst2 = foldl (\<lambda>t b. push_bit 8 (t OR ucast b)) 0 (take 2 mac)
      in (mirror_loop 32 (tst1 XOR tst2) 0, 0xB78D0945))"

definition random_delay :: "nat \<Rightarrow> u32 \<times> u32 \<Rightarrow> u32 \<times> (u32 \<times> u32)" where
  "random_delay tries seeds =
     (let (seed1, seed2) = seeds; sum = seed1 + seed2;
          sum = (if sum < seed1 \<or> sum < seed2 then sum + 1 else sum)
      in (if tries \<le> 2 then drop_bit (22 - tries) sum else drop_bit 19 sum, (sum, seed1)))"

end
