(* ===== verification/NetMain.thy ===== *)
theory NetMain
  imports Bootp
begin

text \<open>
  \<^verbatim>\<open>net/net.c\<close>: what is done with a packet that arrives (\<open>NetReceive\<close>), and the loop that waits for packets
  and time-outs until the transfer has succeeded or failed (\<open>NetLoop\<close>). A null handler that is called is
  \<open>None\<close>.
\<close>

record net_config =
  nc_env :: env_config
  nc_bootp :: bootp_config

section \<open>Handlers\<close>

definition call_handler :: "net_config \<Rightarrow> u32 \<Rightarrow> u32 \<Rightarrow> u32 \<Rightarrow> u32 \<Rightarrow> net_state \<Rightarrow> net_state option" where
  "call_handler cfg pkt dest src len st =
     (case packetHandler st of
        None \<Rightarrow> None
      | Some startAgainHandler_ptr \<Rightarrow> Some st
      | Some ArpHandler_ptr \<Rightarrow> ArpHandler st
      | Some RarpHandler_ptr \<Rightarrow> RarpHandler st
      | Some BootpHandler_ptr \<Rightarrow> BootpHandler (nc_env cfg) pkt dest src len st
      | Some DhcpHandler_ptr \<Rightarrow> DhcpHandler (nc_bootp cfg) (nc_env cfg) pkt dest src len st
      | Some TftpHandler_ptr \<Rightarrow> Some (TftpHandler pkt dest src len st))"

definition call_timeout :: "net_config \<Rightarrow> thand \<Rightarrow> net_state \<Rightarrow> net_state" where
  "call_timeout cfg f st =
     (case f of
        startAgainTimeout_ptr \<Rightarrow> startAgainTimeout st
      | ArpTimeout_ptr \<Rightarrow> ArpTimeout st
      | RarpTimeout_ptr \<Rightarrow> RarpTimeout st
      | BootpTimeout_ptr \<Rightarrow> BootpTimeout (nc_bootp cfg) st
      | TftpTimeout_ptr \<Rightarrow> TftpTimeout st)"

section \<open>Receiving\<close>

text \<open>
  An ARP packet at \<open>arp\<close>, in the frame at \<open>pkt\<close>: a request for our address is answered in place, a reply
  gives the server's Ethernet address.
\<close>

definition arp_reply :: "u32 \<Rightarrow> u32 \<Rightarrow> net_state \<Rightarrow> net_state" where
  "arp_reply pkt arp st =
     (let dat = arp + 8; m = ns_mem st;
          m = mwrite m pkt (NetSetEther st (mread m (pkt + 6) 6) PROT_ARP);
          m = mwrite m (arp + 6) (be16 ARPOP_REPLY);
          m = mwrite m (dat + 10) (mread m dat 6);
          m = mwrite m (dat + 16) (mread m (dat + 6) 4);
          m = mwrite m dat (NetOurEther st);
          m = mwrite m (dat + 6) (be32 (NetOurIP st))
      in NetSendPacket (mread m pkt (unat (arp - pkt) + ARP_HDR_SIZE)) (st\<lparr>ns_mem := m\<rparr>))"

definition receive_arp :: "net_config \<Rightarrow> u32 \<Rightarrow> u32 \<Rightarrow> int \<Rightarrow> net_state \<Rightarrow> net_state option" where
  "receive_arp cfg pkt arp len st =
     (let m = ns_mem st in
      if len < int ARP_HDR_SIZE then Some st
      else if mem_be16 m arp \<noteq> ARP_ETHER then Some st
      else if mem_be16 m (arp + 2) \<noteq> PROT_IP then Some st
      else if m (arp + 4) \<noteq> 6 then Some st
      else if m (arp + 5) \<noteq> 4 then Some st
      else if NetOurIP st = 0 then Some st
      else if mem_be32 m (arp + 8 + 16) \<noteq> NetOurIP st then Some st
      else if mem_be16 m (arp + 6) = ARPOP_REQUEST then Some (arp_reply pkt arp st)
      else if mem_be16 m (arp + 6) = ARPOP_REPLY then
        call_handler cfg 0 0 0 0 (st\<lparr>NetServerEther := mread m (arp + 8) 6\<rparr>)
      else Some st)"

definition receive_rarp :: "net_config \<Rightarrow> u32 \<Rightarrow> int \<Rightarrow> net_state \<Rightarrow> net_state option" where
  "receive_rarp cfg arp len st =
     (let m = ns_mem st in
      if len < int ARP_HDR_SIZE then Some st
      else if mem_be16 m (arp + 6) \<noteq> RARPOP_REPLY \<or> mem_be16 m arp \<noteq> ARP_ETHER \<or> mem_be16 m (arp + 2) \<noteq> PROT_IP \<or>
              m (arp + 4) \<noteq> 6 \<or> m (arp + 5) \<noteq> 4
      then Some st
      else call_handler cfg 0 0 0 0
             (st\<lparr>NetOurIP := mem_be32 m (arp + 8 + 16), NetServerIP := mem_be32 m (arp + 8 + 6),
                 NetServerEther := mread m (arp + 8) 6\<rparr>))"

text \<open>
  The checks of an IP packet, of which \<open>len\<close> bytes have been received: the address, ports and length
  (as the unsigned number the handler takes it for) of a datagram to be handled. A redirect message is
  reported, and then taken for a datagram.
\<close>

definition receive_ip :: "u32 \<Rightarrow> int \<Rightarrow> net_state \<Rightarrow> (u32 \<times> u32 \<times> u32 \<times> u32) option" where
  "receive_ip ip len st =
     (let m = ns_mem st; tmp = mem_be32 m (ip + 16) in
      if len < int IP_HDR_SIZE then None
      else if len < uint (mem_be16 m (ip + 2)) then None
      else if m ip AND 0xf0 \<noteq> 0x40 then None
      else if mem_be16 m (ip + 6) AND 0x1fff \<noteq> 0 then None
      else if \<not> NetCksumOk (mread m ip IP_HDR_SIZE_NO_UDP) (IP_HDR_SIZE_NO_UDP div 2) then None
      else if NetOurIP st \<noteq> 0 \<and> tmp \<noteq> NetOurIP st \<and> tmp \<noteq> 0xFFFFFFFF then None
      else if m (ip + 9) = IPPROTO_ICMP \<and> (m (ip + 20) \<noteq> ICMP_REDIRECT \<or> m (ip + 21) \<noteq> ICMP_REDIR_HOST) then None
      else if m (ip + 9) \<noteq> IPPROTO_ICMP \<and> m (ip + 9) \<noteq> IPPROTO_UDP then None
      else Some (ip + of_nat IP_HDR_SIZE, ucast (mem_be16 m (ip + 22)), ucast (mem_be16 m (ip + 20)),
                 ucast (mem_be16 m (ip + 24)) - 8))"

text \<open>The protocol of a frame, where its packet starts and how long it is; 802 frames have a longer header.\<close>

definition frame_packet :: "mem \<Rightarrow> u32 \<Rightarrow> int \<Rightarrow> u16 \<times> u32 \<times> int" where
  "frame_packet m pkt len =
     (let x = mem_be16 m (pkt + 12)
      in if x < 1514 then (mem_be16 m (pkt + 20), pkt + of_nat E802_HDR_SIZE, len - int E802_HDR_SIZE)
         else (x, pkt + of_nat ETHER_HDR_SIZE, len - int ETHER_HDR_SIZE))"

definition NetReceive :: "net_config \<Rightarrow> u32 \<Rightarrow> int \<Rightarrow> net_state \<Rightarrow> net_state option" where
  "NetReceive cfg pkt len st =
     (let st = st\<lparr>NetRxPkt := pkt\<rparr>; (x, ip, len) = frame_packet (ns_mem st) pkt len
      in if x = PROT_ARP then receive_arp cfg pkt ip len st
         else if x = PROT_RARP then receive_rarp cfg ip len st
         else if x = PROT_IP then
           (case receive_ip ip len st of
              None \<Rightarrow> Some st
            | Some (data, dport, sport, dlen) \<Rightarrow> call_handler cfg data dport sport dlen st)
         else Some st)"

section \<open>The loop\<close>

definition net_check_prereq :: "proto_t \<Rightarrow> net_state \<Rightarrow> int" where
  "net_check_prereq protocol st =
     (if protocol = ARP then 0
      else if protocol = TFTP \<and> (NetServerIP st = 0 \<or> NetOurIP st = 0) then 1
      else if NetOurEther st = replicate 6 0 then 1
      else 0)"

text \<open>From \<^verbatim>\<open>restart:\<close> to the loop; the flag is false if \<open>NetLoop\<close> returns 0 because of the prerequisites.\<close>

definition net_start :: "net_config \<Rightarrow> proto_t \<Rightarrow> net_state \<Rightarrow> (bool \<times> net_state) option" where
  "net_start cfg protocol st =
     do { st \<leftarrow> Some (st\<lparr>NetOurEther := bi_enetaddr (ns_env st), NetState := NETLOOP_CONTINUE\<rparr>);
          st \<leftarrow> (case protocol of
                  TFTP \<Rightarrow>
                    do { server \<leftarrow> getenv_IPaddr (ns_env st) (str ''serverip'');
                         gateway \<leftarrow> getenv_IPaddr (ns_env st) (str ''gatewayip'');
                         netmask \<leftarrow> getenv_IPaddr (ns_env st) (str ''netmask'');
                         Some (st\<lparr>NetOurIP := bi_ip_addr (ns_env st), NetServerIP := server,
                                  NetOurGatewayIP := gateway, NetOurSubnetMask := netmask\<rparr>) }
                | BOOTP \<Rightarrow> Some (st\<lparr>NetOurIP := 0, NetServerIP := 0\<rparr>)
                | RARP \<Rightarrow> Some (st\<lparr>NetOurIP := 0, NetServerIP := 0\<rparr>)
                | _ \<Rightarrow> Some st);
          if net_check_prereq protocol st \<noteq> 0 then Some (False, st)
          else
            let st = (case protocol of
                        TFTP \<Rightarrow> ArpRequest (st\<lparr>ArpTry := 0\<rparr>)
                      | BOOTP \<Rightarrow> BootpRequest (nc_bootp cfg) (st\<lparr>BootpTry := 0\<rparr>)
                      | RARP \<Rightarrow> RarpRequest (st\<lparr>RarpTry := 0\<rparr>)
                      | DHCP \<Rightarrow>
                          if bo_dhcp (nc_bootp cfg) then DhcpRequest (nc_bootp cfg) (st\<lparr>NetOurIP := 0, NetServerIP := 0\<rparr>) else st
                      | _ \<Rightarrow> st)
            in Some (True, st\<lparr>NetBootFileXferSize := 0\<rparr>) }"

text \<open>
  What happens in one turn of the loop: the frames \<^verbatim>\<open>eth_rx()\<close> finds, with the addresses of the receive
  buffers it puts them into, whether control-C has been typed, and the time.
\<close>

record net_turn =
  nt_frames :: "(u32 \<times> byte list) list"
  nt_ctrlc :: bool
  nt_time :: u32

definition receive_frame :: "net_config \<Rightarrow> u32 \<times> byte list \<Rightarrow> net_state \<Rightarrow> net_state option" where
  "receive_frame cfg f st =
     NetReceive cfg (fst f) (int (length (snd f))) (st\<lparr>ns_mem := mwrite (ns_mem st) (fst f) (snd f)\<rparr>)"

fun receive_frames :: "net_config \<Rightarrow> (u32 \<times> byte list) list \<Rightarrow> net_state \<Rightarrow> net_state option" where
  "receive_frames cfg [] st = Some st"
| "receive_frames cfg (f # fs) st = do { st \<leftarrow> receive_frame cfg f st; receive_frames cfg fs st }"

definition check_timeout :: "net_config \<Rightarrow> net_state \<Rightarrow> net_state" where
  "check_timeout cfg st =
     (case timeHandler st of
        None \<Rightarrow> st
      | Some x \<Rightarrow> if ns_now st > timeValue st then call_timeout cfg x (st\<lparr>timeHandler := None\<rparr>) else st)"

text \<open>The end of a successful transfer: the value returned, \<^verbatim>\<open>filesize\<close> set.\<close>

definition net_success :: "net_config \<Rightarrow> net_state \<Rightarrow> (u32 \<times> net_state) option" where
  "net_success cfg st =
     (if NetBootFileXferSize st > 0 then
        do { buf \<leftarrow> sprintf (str ''%lx'') [VaWord (NetBootFileXferSize st)];
             (r, env) \<leftarrow> setenv (nc_env cfg) (str ''filesize'') (Some buf) (ns_env st);
             Some (NetBootFileXferSize st, st\<lparr>ns_env := env\<rparr>) }
      else Some (NetBootFileXferSize st, st))"

text \<open>\<open>NetLoop\<close> has returned a value, or it still waits when the turns are used up.\<close>

datatype net_result = Net_Returned u32 net_state | Net_Waiting net_state

fun net_loop :: "net_config \<Rightarrow> proto_t \<Rightarrow> net_turn list \<Rightarrow> net_state \<Rightarrow> net_result option" where
  "net_loop cfg protocol [] st = Some (Net_Waiting st)"
| "net_loop cfg protocol (t # ts) st =
     do { st \<leftarrow> receive_frames cfg (nt_frames t) (st\<lparr>ns_now := nt_time t\<rparr>);
          if nt_ctrlc t then Some (Net_Returned 0 st)
          else
            let st = check_timeout cfg st
            in case NetState st of
                 NETLOOP_CONTINUE \<Rightarrow> net_loop cfg protocol ts st
               | NETLOOP_RESTART \<Rightarrow>
                   do { (ok, st) \<leftarrow> net_start cfg protocol st;
                        if ok then net_loop cfg protocol ts st else Some (Net_Returned 0 st) }
               | NETLOOP_SUCCESS \<Rightarrow>
                   do { (r, st) \<leftarrow> net_success cfg st; Some (Net_Returned r st) }
               | NETLOOP_FAIL \<Rightarrow> Some (Net_Returned 0 st) }"

definition NetLoop :: "net_config \<Rightarrow> proto_t \<Rightarrow> net_turn list \<Rightarrow> net_state \<Rightarrow> net_result option" where
  "NetLoop cfg protocol ts st =
     do { (ok, st) \<leftarrow> net_start cfg protocol st;
          if ok then net_loop cfg protocol ts st else Some (Net_Returned 0 st) }"

end
