(* ===== verification/NetCorrect.thy ===== *)
theory NetCorrect
  imports NetMain
begin

text \<open>
  Properties of the common part of the network code: the IP checksum and Internet addresses as text.
\<close>

section \<open>The checksum\<close>

text \<open>The number the sum stands for, and the one's complement sum of 16-bit words.\<close>

fun word_sum :: "byte list \<Rightarrow> nat \<Rightarrow> nat" where
  "word_sum ptr 0 = 0"
| "word_sum ptr (Suc len) = unat (be16_dec ptr) + word_sum (drop 2 ptr) len"

definition ones_sum :: "nat \<Rightarrow> nat" where
  "ones_sum s = (if s = 0 then 0 else (s - 1) mod 65535 + 1)"

lemma word_sum_le: "word_sum ptr n \<le> 65535 * n"
proof (induction n arbitrary: ptr)
  case (Suc n)
  have "unat (be16_dec ptr) \<le> 65535" using unsigned_less [where ?'a = nat, of "be16_dec ptr"] by simp
  with Suc [of "drop 2 ptr"] show ?case by simp
qed simp

lemma cksum_loop_sum: "cksum_loop ptr n x = x + of_nat (word_sum ptr n)"
  by (induction ptr n x rule: cksum_loop.induct) (simp_all add: algebra_simps)

lemma fold_ones_sum:
  assumes "s \<le> 65535 * 16"
  shows "(let a = s mod 65536 + s div 65536 in (a mod 65536 + a div 65536) mod 65536) = ones_sum s"
proof -
  define q r where "q = s div 65536" and "r = s mod 65536"
  have s: "s = 65536 * q + r" and r: "r < 65536" by (simp_all add: q_def r_def)
  have q: "q < 16" using assms s by simp
  show ?thesis
  proof (cases "r + q < 65536")
    case True
    have "(s - 1) mod 65535 = q + r - 1" if "s \<noteq> 0"
    proof -
      have "s - 1 = (q + r - 1) + 65535 * q" using s that by auto
      then have "(s - 1) mod 65535 = (q + r - 1) mod 65535" by (simp only: mod_mult_self2)
      also have "\<dots> = q + r - 1" using True that s by (intro mod_less) auto
      finally show ?thesis .
    qed
    then show ?thesis using True s by (auto simp: ones_sum_def Let_def simp flip: q_def r_def)
  next
    case False
    have "s - 1 = 65535 * (q + 1) + (q + r - 1 - 65535)" using s False by simp
    moreover have "q + r - 1 - 65535 < 65535" using q r by simp
    ultimately have "(s - 1) mod 65535 = q + r - 1 - 65535" by (metis mod_mult_self4 mod_less)
    moreover have "(r + q) mod 65536 = r + q - 65536" "(r + q) div 65536 = 1"
      using False q r by (simp_all add: div_if mod_if)
    ultimately show ?thesis using False q r s by (simp add: ones_sum_def Let_def flip: q_def r_def)
  qed
qed

lemma fold_word:
  assumes "a < 2 ^ 32"
  shows "((of_nat a :: u32) AND 0xffff) + drop_bit 16 (of_nat a) = of_nat (a mod 65536 + a div 65536)"
    and "(of_nat a :: u32) AND 0xffff = of_nat (a mod 65536)"
proof -
  have u: "unat (of_nat a :: u32) = a" using assms by (rule unat_of_nat_u32)
  have t: "(of_nat a :: u32) AND 0xffff = take_bit 16 (of_nat a)" by (simp add: take_bit_eq_mask mask_eq_exp_minus_1)
  have "unat (take_bit 16 (of_nat a :: u32)) = a mod 65536" by (simp only: unsigned_take_bit_eq u) (simp add: take_bit_eq_mod)
  then have "take_bit 16 (of_nat a :: u32) = of_nat (a mod 65536)" by (metis of_nat_unat ucast_id)
  with t show l: "(of_nat a :: u32) AND 0xffff = of_nat (a mod 65536)" by simp
  have "unat (drop_bit 16 (of_nat a :: u32)) = a div 65536" by (simp only: unat_drop_bit_eq u) (simp add: drop_bit_eq_div)
  then have "drop_bit 16 (of_nat a :: u32) = of_nat (a div 65536)" by (metis of_nat_unat ucast_id)
  with l show "((of_nat a :: u32) AND 0xffff) + drop_bit 16 (of_nat a) = of_nat (a mod 65536 + a div 65536)" by simp
qed

lemma unat_NetCksum:
  assumes "n \<le> 16"
  shows "unat (NetCksum ptr n) = ones_sum (word_sum ptr n)"
proof -
  define s where "s = word_sum ptr n"
  have le: "s \<le> 65535 * 16" using word_sum_le [of ptr n] assms by (simp add: s_def)
  define a where "a = s mod 65536 + s div 65536"
  define b where "b = a mod 65536 + a div 65536"
  have "s < 2 ^ 32" "a < 2 ^ 32" using le by (auto simp: a_def)
  moreover have "b < 2 ^ 32" using \<open>a < 2 ^ 32\<close> by (auto simp: b_def)
  ultimately have "NetCksum ptr n = of_nat (b mod 65536)"
    by (simp only: NetCksum_def cksum_loop_sum Let_def add_0_left s_def [symmetric] fold_word(1) [OF \<open>s < 2 ^ 32\<close>, folded a_def]
        fold_word(1) [OF \<open>a < 2 ^ 32\<close>, folded b_def] fold_word(2) [OF \<open>b < 2 ^ 32\<close>])
  then have "unat (NetCksum ptr n) = b mod 65536" by (simp add: unat_of_nat)
  also have "\<dots> = ones_sum s" using fold_ones_sum [OF le] by (simp only: Let_def a_def b_def)
  finally show ?thesis by (simp add: s_def)
qed

text \<open>The check accepts exactly the headers whose one's complement sum is zero, in either form.\<close>

lemma NetCksumOk_iff:
  assumes "n \<le> 16"
  shows "NetCksumOk ptr n \<longleftrightarrow> 65535 dvd word_sum ptr n"
proof -
  let ?s = "word_sum ptr n"
  define c where "c = unat (NetCksum ptr n)"
  have c: "c = ones_sum ?s" unfolding c_def using assms by (rule unat_NetCksum)
  have le: "c \<le> 65535" unfolding c ones_sum_def by (simp add: Suc_le_eq)
  have "NetCksum ptr n = of_nat c" by (simp add: c_def)
  then have "NetCksumOk ptr n \<longleftrightarrow> (of_nat (c + 1) :: u32) AND 0xfffe = 0" by (simp add: NetCksumOk_def add.commute)
  also have "\<dots> \<longleftrightarrow> (c + 1) AND 0xfffe = 0"
  proof -
    have "c + 1 < 2 ^ 32" using le by simp
    then have "unat ((of_nat (c + 1) :: u32) AND 0xfffe) = (c + 1) AND 0xfffe"
      by (simp only: unsigned_and_eq unat_of_nat_u32) simp
    then show ?thesis by (metis unat_eq_zero)
  qed
  also have "\<dots> \<longleftrightarrow> c = 0 \<or> c = 65535"
  proof -
    have e: "(c + 1) AND 0xfffe = 2 * ((c + 1) div 2 mod 32768)"
    proof -
      have "(c + 1) AND 0xfffe = 2 * ((c + 1) div 2 AND 32767)" by (subst and_rec) simp
      also have "(c + 1) div 2 AND 32767 = take_bit 15 ((c + 1) div 2)"
        by (simp only: take_bit_eq_mask mask_eq_exp_minus_1) simp
      finally show ?thesis by (simp add: take_bit_eq_mod)
    qed
    have f: "(c + 1) div 2 mod 32768 = 0 \<longleftrightarrow> (c + 1) div 2 = 0 \<or> (c + 1) div 2 = 32768"
    proof -
      have "(c + 1) div 2 \<le> 32768" using le by linarith
      then consider "(c + 1) div 2 = 32768" | "(c + 1) div 2 < 32768" by linarith
      then show ?thesis by cases simp_all
    qed
    have g: "(c + 1) div 2 = 0 \<longleftrightarrow> c = 0" "(c + 1) div 2 = 32768 \<longleftrightarrow> c = 65535" using le by linarith+
    have "2 * ((c + 1) div 2 mod 32768) = 0 \<longleftrightarrow> (c + 1) div 2 mod 32768 = 0" by linarith
    then show ?thesis unfolding e f g .
  qed
  also have "\<dots> \<longleftrightarrow> 65535 dvd ?s"
  proof (cases "?s = 0")
    case False
    then obtain t where t: "?s = Suc t" using not0_implies_Suc by blast
    define u where "u = t mod 65535"
    have "c = u + 1" unfolding c ones_sum_def t u_def by simp
    moreover have "Suc t mod 65535 = (if Suc u = 65535 then 0 else Suc u)" unfolding u_def by (rule mod_Suc)
    ultimately show ?thesis unfolding t dvd_eq_mod_eq_0 by simp
  qed (simp add: c ones_sum_def)
  finally show ?thesis .
qed

lemma word_sum_append:
  "length p = 2 * k \<Longrightarrow> word_sum (p @ q) (k + n) = word_sum p k + word_sum q n"
proof (induction k arbitrary: p)
  case (Suc k)
  then obtain a b r where p: "p = a # b # r" by (auto simp: length_Suc_conv)
  with Suc show ?case by (simp add: be16_dec_def)
qed simp

lemma word_sum_ip_header:
  "word_sum (ip_header st x dest dport sport len) 10 = word_sum (ip_header st 0 dest dport sport len) 10 + unat x"
proof -
  define p where "p = [0x45, 0] @ be16 (of_nat (IP_HDR_SIZE + len)) @ be16 (ucast (NetIPID st)) @ be16 0x4000 @ [255, 17]"
  define q where "q = be32 (NetOurIP st) @ be32 dest @ be16 (ucast sport) @ be16 (ucast dport) @ be16 (of_nat (8 + len)) @ be16 0"
  have h: "ip_header st y dest dport sport len = p @ be16 y @ q" for y by (simp add: ip_header_def p_def q_def)
  have "length p = 2 * 5" by (simp add: p_def)
  then have "word_sum (p @ be16 y @ q) (5 + 5) = word_sum p 5 + word_sum (be16 y @ q) 5" for y by (rule word_sum_append)
  moreover have "word_sum (be16 y @ q) 5 = unat y + word_sum q 4" for y by (simp add: numeral_eq_Suc)
  ultimately show ?thesis by (simp add: h)
qed

lemma unat_not_cksum:
  assumes "unat (c :: u32) \<le> 65535"
  shows "unat (ucast (NOT c) :: u16) = 65535 - unat c"
proof -
  have "(ucast (NOT c) :: u16) = NOT (ucast c)" by (rule bit_word_eqI) (auto simp: bit_simps)
  also have "\<dots> = - 1 - ucast c" by (simp add: not_eq_complement)
  finally have "unat (ucast (NOT c) :: u16) = unat (- 1 - ucast c :: u16)" by simp
  also have "\<dots> = unat (- 1 :: u16) - unat (ucast c :: u16)" by (rule unat_sub) simp
  also have "unat (ucast c :: u16) = unat c" using assms by (simp add: unsigned_ucast_eq take_bit_eq_mod)
  finally show ?thesis by (simp add: unsigned_minus_1_eq_mask mask_eq_exp_minus_1)
qed

lemma NetSetIP_checksum: "NetCksumOk (fst (NetSetIP st dest dport sport len)) (IP_HDR_SIZE_NO_UDP div 2)"
proof -
  let ?s = "word_sum (ip_header st 0 dest dport sport len) 10"
  let ?c = "NetCksum (ip_header st 0 dest dport sport len) 10"
  have c: "unat ?c = ones_sum ?s" by (rule unat_NetCksum) simp
  have "unat ?c \<le> 65535" unfolding c ones_sum_def by (simp add: Suc_le_eq)
  then have "unat (ucast (NOT ?c) :: u16) = 65535 - ones_sum ?s" unfolding c [symmetric] by (rule unat_not_cksum)
  then have "word_sum (fst (NetSetIP st dest dport sport len)) 10 = ?s + (65535 - ones_sum ?s)"
    by (simp add: NetSetIP_def IP_HDR_SIZE_NO_UDP_def word_sum_ip_header [of st "ucast (NOT ?c)"])
  moreover have "65535 dvd ?s + (65535 - ones_sum ?s)"
  proof (cases "?s = 0")
    case False
    then obtain t where t: "?s = Suc t" using not0_implies_Suc by blast
    define u v where "u = t mod 65535" and "v = t div 65535"
    have "u < 65535" "t = 65535 * v + u" by (simp_all add: u_def v_def)
    moreover have "ones_sum ?s = u + 1" unfolding t ones_sum_def u_def by simp
    ultimately have "?s + (65535 - ones_sum ?s) = 65535 * (v + 1)" unfolding t by simp
    then show ?thesis by (metis dvd_triv_left)
  qed (simp add: ones_sum_def)
  ultimately show ?thesis by (simp add: NetCksumOk_iff IP_HDR_SIZE_NO_UDP_def)
qed

section \<open>Receiving what has been sent\<close>

lemma mread_at: "mread m a n = bs \<Longrightarrow> i < n \<Longrightarrow> m (a + of_nat i) = bs ! i"
  by (metis nth_mread)

lemma mread_part:
  assumes "mread m a n = bs" and "i + k \<le> n"
  shows "mread m (a + of_nat i) k = take k (drop i bs)"
proof (rule nth_equalityI)
  have "length bs = n" using assms(1) by (metis length_mread)
  then show "length (mread m (a + of_nat i) k) = length (take k (drop i bs))" using assms(2) by simp
  fix j assume "j < length (mread m (a + of_nat i) k)"
  then have j: "j < k" by simp
  then have "m (a + of_nat (i + j)) = bs ! (i + j)" using assms by (intro mread_at) auto
  with j show "mread m (a + of_nat i) k ! j = take k (drop i bs) ! j"
    using assms(2) \<open>length bs = n\<close> by (simp add: add.assoc)
qed

lemma ucast_u16:
  assumes "unat (p :: u32) < 65536"
  shows "(ucast (ucast p :: u16) :: u32) = p"
proof -
  have "(ucast (ucast p :: u16) :: u32) = take_bit 16 p" by (rule bit_word_eqI) (auto simp: bit_simps)
  moreover have "unat (take_bit 16 p) = unat p"
    using assms by (simp only: unsigned_take_bit_eq) (simp add: take_bit_nat_eq_self)
  ultimately show ?thesis by (simp only: word_unat_eq_iff)
qed

text \<open>
  The frame that a board with the state \<open>st\<close> sends: \<open>data\<close> from port \<open>sport\<close> to port \<open>dport\<close> at \<open>dest\<close>.
\<close>

definition udp_frame :: "net_state \<Rightarrow> byte list \<Rightarrow> u32 \<Rightarrow> u32 \<Rightarrow> u32 \<Rightarrow> byte list \<Rightarrow> byte list" where
  "udp_frame st ether dest dport sport data =
     NetSetEther st ether PROT_IP @ fst (NetSetIP st dest dport sport (length data)) @ data"

lemma receive_ip_header:
  assumes hdr: "mread (ns_mem st') ip IP_HDR_SIZE = fst (NetSetIP st dest dport sport n)"
    and n: "n + IP_HDR_SIZE < 65536" and len: "int (IP_HDR_SIZE + n) \<le> len"
    and dest: "NetOurIP st' = 0 \<or> NetOurIP st' = dest \<or> dest = 0xFFFFFFFF"
    and ports: "unat dport < 65536" "unat sport < 65536"
  shows "receive_ip ip len st' = Some (ip + of_nat IP_HDR_SIZE, dport, sport, of_nat n)"
proof -
  let ?m = "ns_mem st'"
  obtain x where x: "fst (NetSetIP st dest dport sport n) = ip_header st x dest dport sport n"
    by (simp add: NetSetIP_def Let_def)
  note h = hdr [unfolded x IP_HDR_SIZE_def]
  have f: "mread ?m (ip + of_nat i) k = take k (drop i (ip_header st x dest dport sport n))" if "i + k \<le> 28" for i k
    using h that by (rule mread_part)
  have b: "?m (ip + of_nat i) = ip_header st x dest dport sport n ! i" if "i < 28" for i
    using h that by (rule mread_at)
  have u: "unat (of_nat (IP_HDR_SIZE + n) :: u16) = IP_HDR_SIZE + n" "unat (of_nat (8 + n) :: u16) = 8 + n"
    unfolding unat_of_nat using n by (simp_all add: IP_HDR_SIZE_def)
  have ck: "NetCksumOk (mread ?m ip IP_HDR_SIZE_NO_UDP) (IP_HDR_SIZE_NO_UDP div 2)"
  proof -
    have "fst (NetSetIP st dest dport sport n) = mread ?m ip IP_HDR_SIZE_NO_UDP @ mread ?m (ip + of_nat 20) 8"
      using hdr mread_append [of ?m ip 20 8] by (simp add: packet_sizes)
    then have "word_sum (fst (NetSetIP st dest dport sport n)) (10 + 0) = word_sum (mread ?m ip IP_HDR_SIZE_NO_UDP) 10 + word_sum (mread ?m (ip + of_nat 20) 8) 0"
      by (simp only:) (rule word_sum_append, simp add: packet_sizes)
    then show ?thesis
      using NetSetIP_checksum [of st dest dport sport n] by (simp add: NetCksumOk_iff packet_sizes)
  qed
  have e: "ip_header st x dest dport sport n ! 0 = 0x45" "ip_header st x dest dport sport n ! 9 = IPPROTO_UDP"
    by (simp_all add: ip_header_def be16_def be32_def IPPROTO_UDP_def nth_Cons' IP_HDR_SIZE_def)
  have w: "mem_be16 ?m (ip + 2) = of_nat (IP_HDR_SIZE + n)" "mem_be16 ?m (ip + 6) = 0x4000" "mem_be32 ?m (ip + 16) = dest"
    "mem_be16 ?m (ip + 20) = ucast sport" "mem_be16 ?m (ip + 22) = ucast dport" "mem_be16 ?m (ip + 24) = of_nat (8 + n)"
    using f [of 2 2] f [of 6 2] f [of 16 4] f [of 20 2] f [of 22 2] f [of 24 2]
    by (simp_all add: ip_header_def be16_dec_be16 [of _ "[]", simplified] be32_dec_be32 [of _ "[]", simplified])
  have o: "ip + of_nat 9 = ip + 9" "ip + of_nat 0 = ip" by simp_all
  have "len \<ge> int IP_HDR_SIZE" "uint (of_nat (IP_HDR_SIZE + n) :: u16) \<le> len"
    using len u(1) by (simp_all only: uint_nat)
  moreover have "ucast (of_nat (8 + n) :: u16) - 8 = (of_nat n :: u32)"
  proof -
    have "(ucast (of_nat (8 + n) :: u16) :: u32) = of_nat (8 + n)" using u(2) by (metis of_nat_unat)
    then show ?thesis by simp
  qed
  ultimately show ?thesis
    using ck dest ports b [of 9] b [of 0] e unfolding o
    by (auto simp: receive_ip_def Let_def w ucast_u16 IPPROTO_UDP_def IPPROTO_ICMP_def)
qed

lemma datagram_received:
  assumes frame: "mread (ns_mem st') pkt (length f) = f" "f = udp_frame st ether dest dport sport data"
    and ether: "length ether = 6" "length (NetOurEther st) = 6"
    and data: "length data + IP_HDR_SIZE < 65536" and len: "int (length f) \<le> len"
    and dest: "NetOurIP st' = 0 \<or> NetOurIP st' = dest \<or> dest = 0xFFFFFFFF"
    and ports: "unat dport < 65536" "unat sport < 65536"
  shows "frame_packet (ns_mem st') pkt len = (PROT_IP, pkt + 14, len - 14)"
    and "receive_ip (pkt + 14) (len - 14) st' = Some (pkt + 42, dport, sport, of_nat (length data))"
    and "mread (ns_mem st') (pkt + 42) (length data) = data"
proof -
  let ?m = "ns_mem st'"
  define e where "e = ether @ NetOurEther st"
  define i where "i = fst (NetSetIP st dest dport sport (length data))"
  have fe: "f = e @ be16 PROT_IP @ i @ data" and le: "length e = 12"
    using ether by (simp_all add: frame(2) udp_frame_def NetSetEther_def e_def i_def)
  have li: "length i = 28" by (simp add: i_def NetSetIP_def Let_def IP_HDR_SIZE_def)
  have part: "mread ?m (pkt + of_nat k) n = take n (drop k f)" if "k + n \<le> length f" for k n
    using frame(1) that by (rule mread_part)
  have "mem_be16 ?m (pkt + 12) = PROT_IP"
    using part [of 12 2] le by (simp add: fe be16_dec_be16 [of _ "[]", simplified])
  then show "frame_packet ?m pkt len = (PROT_IP, pkt + 14, len - 14)"
    by (simp add: frame_packet_def PROT_IP_def packet_sizes)
  have "mread ?m (pkt + 14) IP_HDR_SIZE = i" using part [of 14 28] le li by (simp add: fe IP_HDR_SIZE_def)
  moreover have "int (IP_HDR_SIZE + length data) \<le> len - 14" using len li le by (simp add: fe IP_HDR_SIZE_def)
  ultimately have "receive_ip (pkt + 14) (len - 14) st' = Some (pkt + 14 + of_nat IP_HDR_SIZE, dport, sport, of_nat (length data))"
    using data dest ports by (intro receive_ip_header) (simp_all add: i_def add.commute)
  then show "receive_ip (pkt + 14) (len - 14) st' = Some (pkt + 42, dport, sport, of_nat (length data))"
    by (simp add: IP_HDR_SIZE_def)
  show "mread ?m (pkt + 42) (length data) = data" using part [of 42 "length data"] le li by (simp add: fe)
qed

text \<open>
  C30: a datagram that one board sends is handed by another, which has the address it is sent to or does not
  know its address yet, to its handler with the ports, the length and the data; the frame may be padded.
\<close>

theorem datagram_delivered:
  assumes frame: "mread (ns_mem st') pkt (length f) = f" "f = udp_frame st ether dest dport sport data"
    and ether: "length ether = 6" "length (NetOurEther st) = 6"
    and data: "length data + IP_HDR_SIZE < 65536" and len: "int (length f) \<le> len"
    and dest: "NetOurIP st' = 0 \<or> NetOurIP st' = dest \<or> dest = 0xFFFFFFFF"
    and ports: "unat dport < 65536" "unat sport < 65536"
  shows "NetReceive cfg pkt len st' =
      call_handler cfg (pkt + 42) dport sport (of_nat (length data)) (st'\<lparr>NetRxPkt := pkt\<rparr>) \<and>
    mread (ns_mem st') (pkt + 42) (length data) = data"
proof -
  note d = datagram_received [OF assms]
  have "receive_ip ip l (st'\<lparr>NetRxPkt := pkt\<rparr>) = receive_ip ip l st'" for ip l by (simp add: receive_ip_def Let_def)
  then show ?thesis using d by (simp add: NetReceive_def PROT_IP_def PROT_ARP_def PROT_RARP_def)
qed

section \<open>Internet addresses as text\<close>

definition dotted :: "u32 \<Rightarrow> u32 \<Rightarrow> u32 \<Rightarrow> u32 \<Rightarrow> byte list" where
  "dotted a b c d =
     digit_string 10 a @ str ''.'' @ digit_string 10 b @ str ''.'' @ digit_string 10 c @ str ''.'' @ digit_string 10 d"

lemma and_0xff: "(x :: u32) AND 0xff = take_bit 8 x"
  using take_bit_eq_mask [of 8 x] by (simp add: mask_numeral)

lemma byte_not_negative: "\<not> (x AND 0xff) <s (0 :: u32)"
proof -
  have "\<not> bit (x AND 0xff) 31" by (simp add: and_0xff bit_simps)
  then show ?thesis using bit_last_iff [of "x AND 0xff"] by (simp add: word_sless_alt)
qed

lemma ip_to_string_dotted:
  "ip_to_string x = Some (dotted (drop_bit 24 x AND 0xff) (drop_bit 16 x AND 0xff) (drop_bit 8 x AND 0xff) (x AND 0xff))"
proof -
  have n: "number (y AND 0xff) 10 (-1) (-1) fSIGN = Some (digit_string 10 (y AND 0xff))" for y :: u32
    by (simp add: number_signed byte_not_negative)
  show ?thesis
    by (simp add: ip_to_string_def sprintf_def vsprintf_def directive_def conversion_def parse_flags.simps
        parse_width_def parse_precision_def is_digit_def fetch_num_def Let_def n dotted_def)
qed

lemma parse_dotted: "parse_numbers 4 10 (dotted a b c d) = [a, b, c, d]"
proof -
  have s: "simple_strtoul (digit_string 10 v @ 46 # r) 10 = (v, 46 # r)" for v r
    using strtoul_digit_string [of 10 "46 # r" v] by (simp add: isxdigit_range)
  have e: "simple_strtoul (digit_string 10 v) 10 = (v, [])" for v
    using strtoul_digit_string [of 10 "[]" v] by (simp add: isxdigit_range)
  have "4 = Suc (Suc (Suc (Suc 0)))" by simp
  then show ?thesis by (simp only: parse_numbers.simps) (simp add: dotted_def s e skip_sep_def)
qed

text \<open>
  C31: the address that \<open>ip_to_string\<close> prints is read back from the environment by \<open>getenv_IPaddr\<close>.
\<close>

theorem getenv_IPaddr_reads:
  assumes "ip_to_string x = Some s" and "getenv_str (env_data env) var = Some (Some s)"
  shows "getenv_IPaddr env var = Some x"
proof -
  have s: "s = dotted (drop_bit 24 x AND 0xff) (drop_bit 16 x AND 0xff) (drop_bit 8 x AND 0xff) (x AND 0xff)"
    using assms(1) by (simp add: ip_to_string_dotted)
  have "parse_ipaddr s = x"
    unfolding parse_ipaddr_def s parse_dotted and_0xff
  proof (rule bit_word_eqI)
    fix n :: nat
    assume "n < LENGTH(32)"
    then consider "n < 8" | "8 \<le> n" "n < 16" | "16 \<le> n" "n < 24" | "24 \<le> n" "n < 32" by fastforce
    then show "bit (foldl (\<lambda>addr val. push_bit 8 addr OR take_bit 8 val) 0
        [take_bit 8 (drop_bit 24 x), take_bit 8 (drop_bit 16 x), take_bit 8 (drop_bit 8 x), take_bit 8 x]) n = bit x n"
      by cases (auto simp: bit_simps)
  qed
  then show ?thesis using assms(2) by (simp add: getenv_IPaddr_def)
qed

section \<open>An instance\<close>

definition demo_env :: env_state where
  "demo_env = \<lparr>env_data = str ''a=1'' @ replicate 40 0, env_crc = 0,
     gd_baudrate = 9600, bi_enetaddr = [0, 1, 2, 3, 4, 5], bi_ip_addr = 0x0a000002, load_addr = 0x100000, BootFile = str ''f'',
     stdio_devices = [], con_in = []\<rparr>"

definition demo_net :: net_state where
  "demo_net = \<lparr>ns_env = demo_env, ns_mem = (\<lambda>_. 0), ns_now = 0, ns_sent = [], NetOurSubnetMask = 0, NetOurGatewayIP = 0,
     NetOurDNSIP = 0, NetOurNISDomain = [], NetOurHostName = [], NetOurRootPath = [], NetBootFileSize = 0,
     NetBootFileXferSize = 0, NetOurEther = [0, 1, 2, 3, 4, 5], NetServerEther = [0, 1, 2, 3, 4, 6], NetOurIP = 0x0a000002,
     NetServerIP = 0x0a000001, NetRxPkt = 0, NetIPID = 0, NetState = NETLOOP_CONTINUE, packetHandler = None,
     timeHandler = None, timeValue = 0, ArpTry = 0, RarpTry = 0, BootpTry = 0, BootpID = 0, dhcp_state = INIT, dhcp_leasetime = 0, TftpServerPort = 0,
     TftpOurPort = 0, TftpTimeoutCount = 0, TftpBlock = 0, TftpLastBlock = 0, TftpState = STATE_RRQ, tftp_filename = []\<rparr>"

lemma demo_ether: "length (NetOurEther demo_net) = 6" "NetOurIP demo_net = 0x0a000002"
  by (simp_all add: demo_net_def)

definition ip_env :: env_state where
  "ip_env = demo_env\<lparr>env_data := str ''serverip=10.0.0.1'' @ [0, 0]\<rparr>"

lemma ip_env_string: "getenv_str (env_data ip_env) (str ''serverip'') = Some (Some (str ''10.0.0.1''))"
  unfolding ip_env_def demo_env_def by code_simp

theorem getenv_IPaddr_reads_witness: "getenv_IPaddr ip_env (str ''serverip'') = Some 0x0a000001"
proof (rule getenv_IPaddr_reads [OF _ ip_env_string])
  show "ip_to_string 0x0a000001 = Some (str ''10.0.0.1'')" by code_simp
qed

theorem datagram_delivered_witness:
  "\<forall>cfg. let f = udp_frame demo_net [0, 1, 2, 3, 4, 5] 0x0a000002 69 2000 [7, 8];
       st = demo_net\<lparr>ns_mem := mwrite (\<lambda>_. 0) 0x200000 f\<rparr>
     in NetReceive cfg 0x200000 (int (length f)) st = call_handler cfg (0x200000 + 42) 69 2000 2 (st\<lparr>NetRxPkt := 0x200000\<rparr>)"
proof
  fix cfg
  let ?f = "udp_frame demo_net [0, 1, 2, 3, 4, 5] 0x0a000002 69 2000 [7, 8]"
  let ?st = "demo_net\<lparr>ns_mem := mwrite (\<lambda>_. 0) 0x200000 ?f\<rparr>"
  have l: "length ?f = 44"
    by (simp add: udp_frame_def NetSetIP_def Let_def demo_net_def ETHER_HDR_SIZE_def IP_HDR_SIZE_def)
  have "NetReceive cfg 0x200000 (int (length ?f)) ?st =
      call_handler cfg (0x200000 + 42) 69 2000 (of_nat (length [7 :: byte, 8])) (?st\<lparr>NetRxPkt := 0x200000\<rparr>) \<and>
    mread (ns_mem ?st) (0x200000 + 42) (length [7 :: byte, 8]) = [7, 8]"
  proof (rule datagram_delivered)
    show "mread (ns_mem ?st) 0x200000 (length ?f) = ?f" by (simp add: l)
    show "?f = udp_frame demo_net [0, 1, 2, 3, 4, 5] 0x0a000002 69 2000 [7, 8]" by (rule refl)
  qed (simp_all add: IP_HDR_SIZE_def demo_ether)
  then show "let f = ?f; st = demo_net\<lparr>ns_mem := mwrite (\<lambda>_. 0) 0x200000 f\<rparr>
     in NetReceive cfg 0x200000 (int (length f)) st = call_handler cfg (0x200000 + 42) 69 2000 2 (st\<lparr>NetRxPkt := 0x200000\<rparr>)"
    unfolding Let_def by simp
qed

end
