(* ===== verification/TftpInvariant.thy ===== *)
theory TftpInvariant
  imports NetCorrect
begin

text \<open>
  What stays true during a TFTP transfer from a server that follows the protocol (it sends the blocks of a
  file, a block only after the one before it has been acknowledged), whatever frames arrive and whenever
  timers expire: the first blocks are in place, and no later one has been acknowledged.
\<close>

section \<open>Sending\<close>

definition tftp_frame :: "net_state \<Rightarrow> byte list" where
  "tftp_frame st = udp_frame st (NetServerEther st) (NetServerIP st) (TftpServerPort st) (TftpOurPort st) (tftp_packet st)"

lemma TftpSend_eq: "TftpSend st = st\<lparr>ns_sent := ns_sent st @ [tftp_frame st], NetIPID := NetIPID st + 1\<rparr>"
  by (simp add: TftpSend_def tftp_frame_def udp_frame_def NetSetIP_def NetSendPacket_def Let_def)

lemma drop_udp_frame:
  "length ether = 6 \<Longrightarrow> length (NetOurEther st) = 6 \<Longrightarrow> drop 42 (udp_frame st ether dest dport sport data) = data"
  by (simp add: udp_frame_def NetSetIP_def Let_def ETHER_HDR_SIZE_def IP_HDR_SIZE_def)

section \<open>The file and its blocks\<close>

definition blocks :: "byte list \<Rightarrow> nat" where
  "blocks f = length f div 512 + 1"

definition block :: "byte list \<Rightarrow> nat \<Rightarrow> byte list" where
  "block f i = take 512 (drop (512 * (i - 1)) f)"

lemma block_start: "1 \<le> i \<Longrightarrow> i \<le> blocks f \<Longrightarrow> 512 * (i - 1) \<le> length f"
  by (simp add: blocks_def)

lemma length_block: "1 \<le> i \<Longrightarrow> i \<le> blocks f \<Longrightarrow> 512 * (i - 1) + length (block f i) = min (512 * i) (length f)"
  using block_start [of i f] by (simp add: block_def)

lemma block_short: "1 \<le> i \<Longrightarrow> i \<le> blocks f \<Longrightarrow> length (block f i) < 512 \<longleftrightarrow> i = blocks f"
  by (simp add: block_def blocks_def) linarith

lemma mread_mwrite_prefix:
  assumes m: "mread m a n = take n f" and off: "off \<le> n" and d: "d = take (length d) (drop off f)"
    and f: "off + length d \<le> length f" "length f < 2 ^ 32" and n: "n \<le> length f"
  shows "mread (mwrite m (a + of_nat off) d) a (max n (off + length d)) = take (max n (off + length d)) f"
proof (rule nth_equalityI)
  let ?N = "max n (off + length d)"
  show "length (mread (mwrite m (a + of_nat off) d) a ?N) = length (take ?N f)" using f n by simp
  fix x assume "x < length (mread (mwrite m (a + of_nat off) d) a ?N)"
  then have x: "x < ?N" by simp
  have ld: "length d \<le> 2 ^ 32" using f by linarith
  have u: "unat (a + of_nat x - (a + of_nat off)) = (if off \<le> x then x - off else 2 ^ 32 - (off - x))"
  proof (cases "off \<le> x")
    case True
    then have e: "a + of_nat x - (a + of_nat off) = (of_nat (x - off) :: u32)" by (simp add: of_nat_diff)
    have "unat (of_nat (x - off) :: u32) = x - off" using x f n by (intro unat_of_nat_u32) linarith
    then show ?thesis unfolding e using True by simp
  next
    case False
    define y where "y = off - x"
    have y: "0 < y" "y < 2 ^ 32" using False f by (auto simp: y_def)
    have "a + of_nat x - (a + of_nat off) = - (of_nat y :: u32)" using False by (simp add: y_def of_nat_diff)
    also have "\<dots> = of_nat (2 ^ 32 - y)" using y by (simp add: of_nat_diff)
    finally have e: "a + of_nat x - (a + of_nat off) = of_nat (2 ^ 32 - y)" .
    have "unat (of_nat (2 ^ 32 - y) :: u32) = 2 ^ 32 - y" using y by (intro unat_of_nat_u32) simp
    then show ?thesis unfolding e using False by (simp add: y_def)
  qed
  show "mread (mwrite m (a + of_nat off) d) a ?N ! x = take ?N f ! x"
  proof (cases "off \<le> x \<and> x < off + length d")
    case True
    then have "x - off < length d" by linarith
    then have "mread (mwrite m (a + of_nat off) d) a ?N ! x = d ! (x - off)"
      using x ld u True by (simp add: mwrite_apply)
    also have "\<dots> = take (length d) (drop off f) ! (x - off)" using d by (rule arg_cong)
    also have "\<dots> = f ! x" using True f \<open>x - off < length d\<close> by simp
    finally show ?thesis using x by simp
  next
    case False
    then have "\<not> unat (a + of_nat x - (a + of_nat off)) < length d" using u f by auto
    then have "mread (mwrite m (a + of_nat off) d) a ?N ! x = m (a + of_nat x)" using x ld by (simp add: mwrite_apply)
    also have "x < n" using False x off by auto
    then have "m (a + of_nat x) = f ! x" using mread_at [OF m, of x] by simp
    finally show ?thesis using x by simp
  qed
qed

section \<open>A transfer\<close>

text \<open>Block \<open>j\<close> has been acknowledged since the transfer started in \<open>st0\<close>.\<close>

definition acked :: "net_state \<Rightarrow> net_state \<Rightarrow> nat \<Rightarrow> bool" where
  "acked st0 st j \<longleftrightarrow>
     (\<exists>p \<in> set (drop (length (ns_sent st0)) (ns_sent st)). drop 42 p = be16 TFTP_ACK @ be16 (of_nat j))"

text \<open>What the handler takes for a block: its number and its data.\<close>

definition tftp_input :: "net_state \<Rightarrow> u32 \<Rightarrow> u32 \<Rightarrow> u32 \<Rightarrow> u32 \<Rightarrow> (nat \<times> byte list) option" where
  "tftp_input st pkt dest src len =
     (if dest = TftpOurPort st \<and> (TftpState st = STATE_RRQ \<or> src = TftpServerPort st) \<and> 4 \<le> unat len \<and>
         mem_be16 (ns_mem st) pkt = TFTP_DATA
      then Some (unat (mem_be16 (ns_mem st) (pkt + 2)), mread (ns_mem st) (pkt + 4) (unat len - 4)) else None)"

text \<open>A block is one of the file, and the block before it has been acknowledged.\<close>

definition honest :: "byte list \<Rightarrow> net_state \<Rightarrow> net_state \<Rightarrow> (nat \<times> byte list) option \<Rightarrow> bool" where
  "honest f st0 st inp \<longleftrightarrow>
     (case inp of None \<Rightarrow> True
      | Some (i, d) \<Rightarrow> 1 \<le> i \<and> i \<le> blocks f \<and> d = block f i \<and> (i = 1 \<or> acked st0 st (i - 1)))"

text \<open>The first \<open>k\<close> blocks are in place; no later one has been acknowledged.\<close>

definition tftp_inv :: "byte list \<Rightarrow> net_state \<Rightarrow> nat \<Rightarrow> net_state \<Rightarrow> bool" where
  "tftp_inv f st0 k st \<longleftrightarrow>
     ns_env st = ns_env st0 \<and> TftpOurPort st = TftpOurPort st0 \<and> TftpOurPort st \<noteq> 0 \<and>
     length (NetOurEther st) = 6 \<and> length (NetServerEther st) = 6 \<and>
     packetHandler st \<in> {Some TftpHandler_ptr, Some startAgainHandler_ptr} \<and>
     timeHandler st \<in> {None, Some TftpTimeout_ptr, Some startAgainTimeout_ptr} \<and>
     length f < 65535 * 512 \<and> k \<le> blocks f \<and>
     mread (ns_mem st) (load_addr (ns_env st)) (min (512 * k) (length f)) = take (min (512 * k) (length f)) f \<and>
     NetBootFileXferSize st = of_nat (min (512 * k) (length f)) \<and>
     (TftpState st = STATE_RRQ \<and> k = 0 \<or>
      TftpState st = STATE_DATA \<and> (\<exists>j. 1 \<le> j \<and> j \<le> k \<and> TftpBlock st = of_nat j) \<and>
        (\<exists>j \<le> k. TftpLastBlock st = of_nat j)) \<and>
     length (ns_sent st0) \<le> length (ns_sent st) \<and> (\<forall>j. j < 65536 \<and> acked st0 st j \<longrightarrow> j \<le> k) \<and>
     (NetState st = NETLOOP_SUCCESS \<longrightarrow> k = blocks f)"

lemma tftp_inv_bounds:
  assumes "tftp_inv f st0 k st"
  shows "k \<le> blocks f" "blocks f < 65536"
proof -
  have "length f < 65535 * 512" using assms by (simp add: tftp_inv_def)
  then show "blocks f < 65536" by (simp add: blocks_def)
qed (use assms in \<open>simp add: tftp_inv_def\<close>)

lemma acked_sent:
  assumes "length (ns_sent st0) \<le> length (ns_sent st)" and "ns_sent st' = ns_sent st @ ps"
  shows "acked st0 st' j \<longleftrightarrow> acked st0 st j \<or> (\<exists>p \<in> set ps. drop 42 p = be16 TFTP_ACK @ be16 (of_nat j))"
  using assms by (auto simp: acked_def)

text \<open>The invariant in another state, of which only some fields matter.\<close>

lemma tftp_inv_cong:
  assumes inv: "tftp_inv f st0 k st"
    and env: "ns_env st' = ns_env st" "TftpOurPort st' = TftpOurPort st"
    and tftp: "TftpState st' = TftpState st" "TftpBlock st' = TftpBlock st" "TftpLastBlock st' = TftpLastBlock st"
    and ether: "length (NetOurEther st') = length (NetOurEther st)" "length (NetServerEther st') = length (NetServerEther st)"
    and hand: "packetHandler st' \<in> {packetHandler st, Some startAgainHandler_ptr}"
      "timeHandler st' \<in> {timeHandler st, None, Some TftpTimeout_ptr, Some startAgainTimeout_ptr}"
    and mem: "NetBootFileXferSize st' = NetBootFileXferSize st"
      "mread (ns_mem st') (load_addr (ns_env st)) (min (512 * k) (length f)) = mread (ns_mem st) (load_addr (ns_env st)) (min (512 * k) (length f))"
    and sent: "length (ns_sent st) \<le> length (ns_sent st')" "\<And>j. j < 65536 \<Longrightarrow> acked st0 st' j \<Longrightarrow> j \<le> k \<or> acked st0 st j"
    and state: "NetState st' = NETLOOP_SUCCESS \<Longrightarrow> NetState st = NETLOOP_SUCCESS \<or> k = blocks f"
  shows "tftp_inv f st0 k st'"
proof -
  have "packetHandler st \<in> {Some TftpHandler_ptr, Some startAgainHandler_ptr}"
    "timeHandler st \<in> {None, Some TftpTimeout_ptr, Some startAgainTimeout_ptr}"
    "length (ns_sent st0) \<le> length (ns_sent st)" and acked: "\<forall>j. j < 65536 \<and> acked st0 st j \<longrightarrow> j \<le> k"
    using inv unfolding tftp_inv_def by blast+
  then have "packetHandler st' \<in> {Some TftpHandler_ptr, Some startAgainHandler_ptr}"
    "timeHandler st' \<in> {None, Some TftpTimeout_ptr, Some startAgainTimeout_ptr}"
    "length (ns_sent st0) \<le> length (ns_sent st')"
    using hand sent(1) by auto
  moreover have "\<forall>j. j < 65536 \<and> acked st0 st' j \<longrightarrow> j \<le> k" using acked sent(2) by blast
  moreover have "NetState st' = NETLOOP_SUCCESS \<longrightarrow> k = blocks f" using inv state unfolding tftp_inv_def by blast
  ultimately show ?thesis using inv unfolding tftp_inv_def env tftp ether mem by (elim conjE) (intro conjI; assumption)
qed

lemma of_nat_inject16: "i < 65536 \<Longrightarrow> j < 65536 \<Longrightarrow> (of_nat i :: u16) = of_nat j \<longleftrightarrow> i = j"
  by (simp add: word_unat_eq_iff unat_of_nat)

lemma ucast_of_nat16: "(ucast (of_nat j :: u32) :: u16) = of_nat j"
proof (rule bit_word_eqI)
  fix n :: nat assume "n < LENGTH(16)"
  then show "bit (ucast (of_nat j :: u32) :: u16) n = bit (of_nat j :: u16) n" by (simp add: bit_simps)
qed

text \<open>Sending in a state of the transfer acknowledges nothing new.\<close>

lemma tftp_inv_send:
  assumes "tftp_inv f st0 k st"
  shows "tftp_inv f st0 k (TftpSend st)"
proof -
  have d: "drop 42 (tftp_frame st) = tftp_packet st"
    using assms by (simp add: tftp_frame_def drop_udp_frame tftp_inv_def)
  have "j \<le> k" if "drop 42 (tftp_frame st) = be16 TFTP_ACK @ be16 (of_nat j)" "j < 65536" for j
  proof -
    consider "TftpState st = STATE_RRQ" | j' where "TftpState st = STATE_DATA" "j' \<le> k" "TftpBlock st = of_nat j'"
      using assms by (auto simp: tftp_inv_def)
    then show ?thesis
    proof cases
      case 1
      then show ?thesis using that(1) by (simp add: d tftp_packet_def TFTP_RRQ_def TFTP_ACK_def be16_def)
    next
      case 2
      have "j' < 65536" using 2(2) tftp_inv_bounds [OF assms] by linarith
      moreover have "(ucast (of_nat j' :: u32) :: u16) = of_nat j'" by (rule ucast_of_nat16)
      ultimately show ?thesis using 2 that by (simp add: d tftp_packet_def of_nat_inject16)
    qed
  qed
  moreover have "length (ns_sent st0) \<le> length (ns_sent st)" using assms unfolding tftp_inv_def by blast
  then have "acked st0 (TftpSend st) j \<longleftrightarrow> acked st0 st j \<or> drop 42 (tftp_frame st) = be16 TFTP_ACK @ be16 (of_nat j)" for j
    using acked_sent [of st0 st "TftpSend st" "[tftp_frame st]"] by (simp add: TftpSend_eq)
  ultimately have "j < 65536 \<Longrightarrow> acked st0 (TftpSend st) j \<Longrightarrow> j \<le> k \<or> acked st0 st j" for j by blast
  then show ?thesis by (rule_tac tftp_inv_cong [OF assms]) (simp_all add: TftpSend_eq)
qed

lemma tftp_inv_again: "tftp_inv f st0 k st \<Longrightarrow> tftp_inv f st0 k (NetStartAgain st)"
  by (erule tftp_inv_cong) (simp_all add: NetStartAgain_def NetSetHandler_def NetSetTimeout_def acked_def split: if_splits)

lemma tftp_inv_timeout:
  assumes "tftp_inv f st0 k st"
  shows "tftp_inv f st0 k (TftpTimeout st)"
proof -
  have c: "tftp_inv f st0 k (st\<lparr>TftpTimeoutCount := n\<rparr>)" for n
    by (rule tftp_inv_cong [OF assms]) (simp_all add: acked_def)
  have "tftp_inv f st0 k (NetSetTimeout i (Some TftpTimeout_ptr) (st\<lparr>TftpTimeoutCount := n\<rparr>))" for i n
    by (rule tftp_inv_cong [OF assms]) (simp_all add: acked_def NetSetTimeout_def split: if_splits)
  then show ?thesis
    unfolding TftpTimeout_def Let_def using c by (auto intro: tftp_inv_again tftp_inv_send)
qed

text \<open>Storing block \<open>i\<close> when the first \<open>k\<close> are in place.\<close>

lemma store_block_prefix:
  assumes m: "mread (ns_mem st) (load_addr (ns_env st)) (min (512 * k) (length f)) = take (min (512 * k) (length f)) f"
    and sz: "NetBootFileXferSize st = of_nat (min (512 * k) (length f))"
    and f: "length f < 65535 * 512" and i: "1 \<le> i" "i \<le> blocks f" "i \<le> k + 1"
    and d: "mread (ns_mem st) src (unat len) = block f i"
  shows "mread (ns_mem (store_block (of_nat i - 1) src len st)) (load_addr (ns_env st)) (min (512 * max k i) (length f)) =
      take (min (512 * max k i) (length f)) f \<and>
    NetBootFileXferSize (store_block (of_nat i - 1) src len st) = of_nat (min (512 * max k i) (length f))"
proof -
  let ?off = "512 * (i - 1)" and ?n = "min (512 * k) (length f)"
  have l: "unat len = length (block f i)" using d by (metis length_mread)
  have lb: "?off + length (block f i) = min (512 * i) (length f)" using i(1,2) by (rule length_block)
  have mx: "max ?n (?off + length (block f i)) = min (512 * max k i) (length f)" unfolding lb by auto
  have off: "?off \<le> ?n" using block_start [OF i(1,2)] i(3) by auto
  have o: "(of_nat i - 1 :: u32) * 512 = of_nat ?off" using i(1) by (simp add: of_nat_diff algebra_simps)
  have le: "len = of_nat (length (block f i))" using l by (metis of_nat_unat ucast_id)
  have bd: "block f i = take (length (block f i)) (drop ?off f)"
    unfolding block_def by (cases "512 \<le> length (drop ?off f)") simp_all
  have mem: "ns_mem (store_block (of_nat i - 1) src len st) = mwrite (ns_mem st) (load_addr (ns_env st) + of_nat ?off) (block f i)"
    by (simp only: store_block_def Let_def o d) simp
  have "mread (mwrite (ns_mem st) (load_addr (ns_env st) + of_nat ?off) (block f i)) (load_addr (ns_env st))
      (max ?n (?off + length (block f i))) = take (max ?n (?off + length (block f i))) f"
    using m off bd lb f by (intro mread_mwrite_prefix) auto
  moreover have "NetBootFileXferSize (store_block (of_nat i - 1) src len st) = of_nat (max ?n (?off + length (block f i)))"
  proof -
    have s: "of_nat ?off + len = (of_nat (?off + length (block f i)) :: u32)" by (simp add: le)
    have "(of_nat ?n < (of_nat (?off + length (block f i)) :: u32)) \<longleftrightarrow> ?n < ?off + length (block f i)"
      using lb f by (simp only: word_less_nat_alt) (subst (1 2) unat_of_nat_u32, auto)
    then show ?thesis
      by (simp only: store_block_def Let_def o s sz) (simp add: sz max_def)
  qed
  ultimately show ?thesis unfolding mem mx by simp
qed

text \<open>The state in which a new block number \<open>i\<close> from the port \<open>src\<close> is stored.\<close>

definition new_block :: "nat \<Rightarrow> u32 \<Rightarrow> net_state \<Rightarrow> net_state" where
  "new_block i src st =
     NetSetTimeout (TFTP_TIMEOUT * CFG_HZ) (Some TftpTimeout_ptr)
       (st\<lparr>TftpBlock := of_nat i, TftpState := STATE_DATA, TftpServerPort := src, TftpLastBlock := of_nat i\<rparr>)"

lemma tftp_inv_store:
  assumes inv: "tftp_inv f st0 k st" and i: "1 \<le> i" "i \<le> blocks f" "i \<le> k + 1"
    and d: "mread (ns_mem st) pkt (unat len) = block f i"
  shows "tftp_inv f st0 (max k i) (store_block (of_nat i - 1) pkt len (new_block i src st))"
proof -
  let ?st = "new_block i src st"
  have e: "ns_mem ?st = ns_mem st" "ns_env ?st = ns_env st" "NetBootFileXferSize ?st = NetBootFileXferSize st"
    by (simp_all add: new_block_def NetSetTimeout_def)
  note s = store_block_prefix [of ?st k f i pkt len, unfolded e]
  have m: "mread (ns_mem st) (load_addr (ns_env st)) (min (512 * k) (length f)) = take (min (512 * k) (length f)) f"
    "NetBootFileXferSize st = of_nat (min (512 * k) (length f))" "length f < 65535 * 512"
    using inv unfolding tftp_inv_def by blast+
  note s = s [OF m i d]
  have "1 \<le> max k i \<and> max k i \<le> blocks f" using i tftp_inv_bounds(1) [OF inv] by simp
  moreover have "\<exists>j. 1 \<le> j \<and> j \<le> max k i \<and> (of_nat i :: u32) = of_nat j" "\<exists>j \<le> max k i. (of_nat i :: u32) = of_nat j"
    using i(1) max.cobounded2 [of i k] by blast+
  moreover have "store_block (of_nat i - 1) pkt len ?st = ?st\<lparr>ns_mem := ns_mem (store_block (of_nat i - 1) pkt len ?st),
      NetBootFileXferSize := NetBootFileXferSize (store_block (of_nat i - 1) pkt len ?st)\<rparr>"
    by (simp add: store_block_def Let_def)
  then obtain mm xs where st: "store_block (of_nat i - 1) pkt len ?st = ?st\<lparr>ns_mem := mm, NetBootFileXferSize := xs\<rparr>" by blast
  moreover have "mread mm (load_addr (ns_env st)) (min (512 * max k i) (length f)) = take (min (512 * max k i) (length f)) f"
    "xs = of_nat (min (512 * max k i) (length f))"
    using s unfolding st by simp_all
  moreover have "timeHandler ?st = Some TftpTimeout_ptr" "TFTP_TIMEOUT * CFG_HZ \<noteq> 0"
    by (simp_all add: new_block_def NetSetTimeout_def TFTP_TIMEOUT_def CFG_HZ_def)
  moreover have "TftpState ?st = STATE_DATA" "TftpBlock ?st = of_nat i" "TftpLastBlock ?st = of_nat i"
    "TftpOurPort ?st = TftpOurPort st" "NetOurEther ?st = NetOurEther st" "NetServerEther ?st = NetServerEther st"
    "packetHandler ?st = packetHandler st" "ns_sent ?st = ns_sent st" "NetState ?st = NetState st"
    by (simp_all add: new_block_def NetSetTimeout_def)
  moreover have "\<forall>j. j < 65536 \<and> acked st0 st j \<longrightarrow> j \<le> max k i"
  proof -
    have "\<forall>j. j < 65536 \<and> acked st0 st j \<longrightarrow> j \<le> k" using inv unfolding tftp_inv_def by blast
    then show ?thesis by (simp add: le_max_iff_disj)
  qed
  moreover have "NetState st = NETLOOP_SUCCESS \<longrightarrow> max k i = blocks f"
  proof -
    have "NetState st = NETLOOP_SUCCESS \<longrightarrow> k = blocks f" using inv unfolding tftp_inv_def by blast
    then show ?thesis using i(2) by (simp add: max_def)
  qed
  moreover have "TftpOurPort st0 \<noteq> 0" using inv unfolding tftp_inv_def by metis
  ultimately show ?thesis using inv e m unfolding tftp_inv_def acked_def by simp
qed

lemma tftp_data_new:
  assumes st: "TftpState st = STATE_RRQ \<and> i = 1 \<or> TftpState st = STATE_DATA \<and> src = TftpServerPort st \<and> TftpLastBlock st \<noteq> of_nat i"
    and len: "2 \<le> unat len" and i: "ucast (mem_be16 (ns_mem st) pkt) = (of_nat i :: u32)" "TftpLastBlock st = 0 \<longrightarrow> i \<noteq> 0"
  shows "tftp_data pkt src len st =
    (let st' = TftpSend (store_block (of_nat i - 1) (pkt + 2) (len - 2) (new_block i src st))
     in if len - 2 < 512 then st'\<lparr>NetState := NETLOOP_SUCCESS\<rparr> else st')"
proof -
  have l: "\<not> len < 2" using len by (simp add: word_less_nat_alt)
  from st show ?thesis
  proof
    assume "TftpState st = STATE_RRQ \<and> i = 1"
    then show ?thesis using l i(1) by (simp add: tftp_data_def new_block_def Let_def NetSetTimeout_def)
  next
    assume s: "TftpState st = STATE_DATA \<and> src = TftpServerPort st \<and> TftpLastBlock st \<noteq> of_nat i"
    then have "new_block i src st = NetSetTimeout (TFTP_TIMEOUT * CFG_HZ) (Some TftpTimeout_ptr)
        (st\<lparr>TftpBlock := of_nat i, TftpLastBlock := of_nat i\<rparr>)"
      unfolding new_block_def using s by (cases st) simp
    moreover have "of_nat i \<noteq> TftpLastBlock st" using s by metis
    ultimately show ?thesis using s l i(1) by (simp add: tftp_data_def Let_def) (simp add: NetSetTimeout_def)
  qed
qed

lemma tftp_inv_success:
  "tftp_inv f st0 k st \<Longrightarrow> k = blocks f \<Longrightarrow> tftp_inv f st0 k (st\<lparr>NetState := NETLOOP_SUCCESS\<rparr>)"
  by (erule tftp_inv_cong) (simp_all add: acked_def)

lemma tftp_inv_old_block:
  "tftp_inv f st0 k st \<Longrightarrow> TftpState st = STATE_DATA \<Longrightarrow> 1 \<le> j \<Longrightarrow> j \<le> k \<Longrightarrow> tftp_inv f st0 k (st\<lparr>TftpBlock := of_nat j\<rparr>)"
  by (auto simp: tftp_inv_def acked_def)

lemma unat_512: "unat (512 :: u32) = 512"
  by simp

lemma tftp_inv_data:
  assumes inv: "tftp_inv f st0 k st" and src: "TftpState st = STATE_RRQ \<or> src = TftpServerPort st" and len: "2 \<le> unat len"
    and hon: "honest f st0 st (Some (unat (mem_be16 (ns_mem st) pkt), mread (ns_mem st) (pkt + 2) (unat len - 2)))"
  shows "\<exists>k'. tftp_inv f st0 k' (tftp_data pkt src len st)"
proof -
  define i where "i = unat (mem_be16 (ns_mem st) pkt)"
  have i: "1 \<le> i" "i \<le> blocks f" "i = 1 \<or> acked st0 st (i - 1)" "mread (ns_mem st) (pkt + 2) (unat len - 2) = block f i"
    using hon by (simp_all add: honest_def i_def)
  have u: "ucast (mem_be16 (ns_mem st) pkt) = (of_nat i :: u32)" by (simp add: i_def)
  have i16: "i < 65536" using i(2) tftp_inv_bounds(2) [OF inv] by simp
  have "j \<le> k" if "acked st0 st j" "j < 65536" for j using inv that unfolding tftp_inv_def by blast
  then have k: "i \<le> k + 1" using i(1,3) i16 by force
  have "unat (len - 2) = unat len - 2" using len by (subst unat_sub) (simp_all add: word_le_nat_alt)
  then have d: "mread (ns_mem st) (pkt + 2) (unat (len - 2)) = block f i" using i(4) by simp
  then have ld: "len - 2 < 512 \<longleftrightarrow> length (block f i) < 512" by (metis length_mread unat_512 word_less_nat_alt)
  consider (same) "TftpState st = STATE_DATA" "TftpLastBlock st = of_nat i"
    | (new) "TftpState st = STATE_RRQ \<and> i = 1 \<or> TftpState st = STATE_DATA \<and> src = TftpServerPort st \<and> TftpLastBlock st \<noteq> of_nat i"
    using inv src k i(1) unfolding tftp_inv_def by auto
  then show ?thesis
  proof cases
    case same
    obtain j where j: "j \<le> k" "(of_nat i :: u32) = of_nat j" using inv same by (auto simp: tftp_inv_def)
    have "unat (of_nat i :: u32) = i" "unat (of_nat j :: u32) = j"
      using i16 j(1) tftp_inv_bounds [OF inv] by (simp_all add: unat_of_nat_u32)
    then have "i = j" using j(2) by metis
    then have "tftp_inv f st0 k (st\<lparr>TftpBlock := of_nat i\<rparr>)" using tftp_inv_old_block [OF inv same(1) i(1)] j(1) by simp
    moreover have "tftp_data pkt src len st = st\<lparr>TftpBlock := of_nat i\<rparr> \<or> tftp_data pkt src len st = st"
      using same u by (auto simp: tftp_data_def Let_def)
    ultimately show ?thesis using inv by auto
  next
    case new
    have "tftp_inv f st0 (max k i) (TftpSend (store_block (of_nat i - 1) (pkt + 2) (len - 2) (new_block i src st)))" (is "tftp_inv _ _ _ ?st'")
      using inv i(1,2) k d by (intro tftp_inv_send tftp_inv_store)
    moreover have "max k i = blocks f" if "len - 2 < 512"
      using block_short [OF i(1,2)] ld that tftp_inv_bounds(1) [OF inv] by simp
    moreover have "tftp_data pkt src len st = (if len - 2 < 512 then ?st'\<lparr>NetState := NETLOOP_SUCCESS\<rparr> else ?st')"
      using tftp_data_new [OF new len u] i(1) by (simp add: Let_def)
    ultimately show ?thesis using tftp_inv_success [of f st0 "max k i" ?st'] by metis
  qed
qed

lemma tftp_inv_handler:
  assumes inv: "tftp_inv f st0 k st" and hon: "honest f st0 st (tftp_input st pkt dest src len)"
  shows "\<exists>k'. tftp_inv f st0 k' (TftpHandler pkt dest src len st)"
proof (cases "dest = TftpOurPort st \<and> (TftpState st = STATE_RRQ \<or> src = TftpServerPort st) \<and> \<not> len < 2 \<and>
    mem_be16 (ns_mem st) pkt = TFTP_DATA")
  case True
  have h: "TftpHandler pkt dest src len st = tftp_data (pkt + 2) src (len - 2) st"
    using True by (auto simp: TftpHandler_def)
  have l: "unat (len - 2) = unat len - 2" using True by (subst unat_sub) (simp_all add: word_le_nat_alt word_less_nat_alt)
  show ?thesis
  proof (cases "4 \<le> unat len")
    case T: True
    have "unat (len - 2) - 2 = unat len - 4" unfolding l by simp
    then show ?thesis
      using hon True T l unfolding h by (intro tftp_inv_data [OF inv]) (auto simp: tftp_input_def algebra_simps)
  next
    case False
    then have "len - 2 < 2" using l by (simp add: word_less_nat_alt)
    then show ?thesis using inv unfolding h by (auto simp: tftp_data_def)
  qed
next
  case False
  then show ?thesis using inv tftp_inv_again [OF inv] by (auto simp: TftpHandler_def Let_def TFTP_DATA_def TFTP_ERROR_def)
qed

section \<open>Frames and timers\<close>

lemma tftp_inv_simps:
  assumes "tftp_inv f st0 k st"
  shows "tftp_inv f st0 k (st\<lparr>NetRxPkt := a\<rparr>)" "tftp_inv f st0 k (st\<lparr>NetOurIP := b, NetServerIP := c\<rparr>)"
    "length e = 6 \<Longrightarrow> tftp_inv f st0 k (st\<lparr>NetServerEther := e\<rparr>)" "tftp_inv f st0 k (st\<lparr>ns_now := t\<rparr>)"
    "tftp_inv f st0 k (st\<lparr>timeHandler := None\<rparr>)"
proof -
  show "length e = 6 \<Longrightarrow> tftp_inv f st0 k (st\<lparr>NetServerEther := e\<rparr>)"
    using assms by (intro tftp_inv_cong [OF assms]) (simp_all add: acked_def tftp_inv_def)
qed (rule tftp_inv_cong [OF assms]; simp add: acked_def)+

lemma tftp_inv_mem:
  assumes "tftp_inv f st0 k st"
    and "mread m (load_addr (ns_env st)) (length f) = mread (ns_mem st) (load_addr (ns_env st)) (length f)"
  shows "tftp_inv f st0 k (st\<lparr>ns_mem := m\<rparr>)"
proof -
  let ?n = "min (512 * k) (length f)"
  have "mread m (load_addr (ns_env st)) ?n = mread (ns_mem st) (load_addr (ns_env st)) ?n"
    using arg_cong [OF assms(2), of "take ?n"] by (simp add: take_mread)
  then show ?thesis by (intro tftp_inv_cong [OF assms(1)]) (simp_all add: acked_def)
qed

lemma mread_mwrite_inside:
  assumes "disjoint_blocks b N a n" and "off + length bs \<le> N"
  shows "mread (mwrite m (b + of_nat off) bs) a n = mread m a n"
proof (cases "bs = []")
  case False
  then have "0 < length bs" by simp
  then have "unat b + off < 2 ^ 32" using assms unfolding disjoint_blocks_def by linarith
  then have "unat (b + of_nat off) = unat b + off" by (rule unat_add_of_nat)
  then show ?thesis using assms by (intro mread_mwrite_disjoint) (auto simp: disjoint_blocks_def)
qed simp

lemma tftp_inv_arp_reply:
  assumes inv: "tftp_inv f st0 k st" and buf: "disjoint_blocks pkt PKTSIZE_ALIGN (load_addr (ns_env st)) (length f)"
    and h: "h = 14 \<or> h = 22"
  shows "tftp_inv f st0 k (arp_reply pkt (pkt + of_nat h) st)"
proof -
  let ?a = "load_addr (ns_env st)"
  have w: "mread (mwrite m (pkt + of_nat off) bs) ?a (length f) = mread m ?a (length f)" if "off + length bs \<le> 1536" for m off bs
    using mread_mwrite_inside [OF buf, of off bs] that by (simp add: PKTSIZE_ALIGN_def)
  have z: "mread (mwrite m pkt bs) ?a (length f) = mread m ?a (length f)" if "length bs \<le> 1536" for m bs
    using w [of 0 bs m] that by simp
  have wn: "mread (mwrite m (pkt + numeral v) bs) ?a (length f) = mread m ?a (length f)" if "numeral v + length bs \<le> 1536" for m v bs
    using w [of "numeral v" bs m] that by simp
  let ?r = "arp_reply pkt (pkt + of_nat h) st"
  define m p where "m = ns_mem ?r" and "p = mread m pkt (h + 28)"
  have le: "length (NetOurEther st) = 6" using inv by (simp add: tftp_inv_def)
  have u: "unat (pkt + of_nat h - pkt) = h" using h by auto
  have r: "?r = st\<lparr>ns_mem := m, ns_sent := ns_sent st @ [p]\<rparr>"
    unfolding p_def m_def arp_reply_def Let_def NetSendPacket_def u by (simp add: ARP_HDR_SIZE_def)
  have p: "length p = h + 28" by (simp add: p_def)
  have m: "mread m ?a (length f) = mread (ns_mem st) ?a (length f)"
    using h le unfolding m_def arp_reply_def Let_def NetSendPacket_def
    by (elim disjE) (simp_all add: wn z NetSetEther_def add.assoc)
  have "drop 42 p \<noteq> be16 TFTP_ACK @ be16 (of_nat j)" for j
  proof
    assume "drop 42 p = be16 TFTP_ACK @ be16 (of_nat j)"
    then have "length (drop 42 p) = 4" by simp
    with p h show False by auto
  qed
  then have "acked st0 (st\<lparr>ns_mem := m, ns_sent := ns_sent st @ [p]\<rparr>) j \<longleftrightarrow> acked st0 st j" for j
    using inv acked_sent [of st0 st "st\<lparr>ns_mem := m, ns_sent := ns_sent st @ [p]\<rparr>" "[p]" j] by (simp add: tftp_inv_def)
  then have ack: "acked st0 (st\<lparr>ns_mem := m, ns_sent := ns_sent st @ [p]\<rparr>) j \<Longrightarrow> acked st0 (st\<lparr>ns_mem := m\<rparr>) j" for j
    by (simp add: acked_def)
  show ?thesis unfolding r by (rule tftp_inv_cong [OF tftp_inv_mem [OF inv m]]) (use ack in simp_all)
qed

text \<open>A frame in its buffer, and the block in it, if it is one for the handler.\<close>

definition in_buffer :: "u32 \<times> byte list \<Rightarrow> net_state \<Rightarrow> net_state" where
  "in_buffer fr st = st\<lparr>ns_mem := mwrite (ns_mem st) (fst fr) (snd fr), NetRxPkt := fst fr\<rparr>"

definition frame_input :: "net_state \<Rightarrow> u32 \<times> byte list \<Rightarrow> (nat \<times> byte list) option" where
  "frame_input st fr =
     (let st = in_buffer fr st; (x, ip, len) = frame_packet (ns_mem st) (fst fr) (int (length (snd fr)))
      in if x = PROT_IP then
           (case receive_ip ip len st of
              None \<Rightarrow> None
            | Some (data, dport, sport, dlen) \<Rightarrow> tftp_input st data dport sport dlen)
         else None)"

definition clear_buffer :: "byte list \<Rightarrow> net_state \<Rightarrow> u32 \<times> byte list \<Rightarrow> bool" where
  "clear_buffer f st fr \<longleftrightarrow> length (snd fr) \<le> PKTSIZE_ALIGN \<and>
     disjoint_blocks (fst fr) PKTSIZE_ALIGN (load_addr (ns_env st)) (length f)"

lemma tftp_inv_buffer:
  assumes inv: "tftp_inv f st0 k st" and "clear_buffer f st fr"
  shows "tftp_inv f st0 k (in_buffer fr st)"
proof -
  have "mread (mwrite (ns_mem st) (fst fr) (snd fr)) (load_addr (ns_env st)) (length f) =
      mread (ns_mem st) (load_addr (ns_env st)) (length f)"
    using assms(2) mread_mwrite_inside [of "fst fr" PKTSIZE_ALIGN _ _ 0] by (simp add: clear_buffer_def)
  then show ?thesis using tftp_inv_simps(1) [OF tftp_inv_mem [OF inv]] by (simp add: in_buffer_def)
qed

lemma tftp_inv_call:
  assumes inv: "tftp_inv f st0 k st" and hon: "honest f st0 st (tftp_input st pkt dest src len)"
  shows "\<exists>st' k'. call_handler cfg pkt dest src len st = Some st' \<and> tftp_inv f st0 k' st'"
proof -
  have "packetHandler st = Some TftpHandler_ptr \<or> packetHandler st = Some startAgainHandler_ptr"
    using inv by (simp add: tftp_inv_def)
  then show ?thesis using inv tftp_inv_handler [OF assms] by (auto simp: call_handler_def)
qed

lemma no_input: "tftp_inv f st0 k st \<Longrightarrow> tftp_input st pkt 0 src len = None"
proof -
  assume "tftp_inv f st0 k st"
  then have "TftpOurPort st \<noteq> 0" unfolding tftp_inv_def by blast
  then show ?thesis by (simp add: tftp_input_def)
qed

lemma tftp_inv_receive:
  assumes inv: "tftp_inv f st0 k st" and clear: "clear_buffer f st fr" and hon: "honest f st0 st (frame_input st fr)"
  shows "\<exists>st' k'. receive_frame cfg fr st = Some st' \<and> tftp_inv f st0 k' st'"
proof -
  let ?st = "in_buffer fr st"
  have inv': "tftp_inv f st0 k ?st" using inv clear by (rule tftp_inv_buffer)
  obtain x ip len where p: "frame_packet (ns_mem ?st) (fst fr) (int (length (snd fr))) = (x, ip, len)"
    by (metis prod_cases3)
  then have ip: "ip = fst fr + of_nat 22 \<or> ip = fst fr + of_nat 14"
    by (auto simp: frame_packet_def Let_def packet_sizes split: if_splits)
  have r: "receive_frame cfg fr st =
      (if x = PROT_ARP then receive_arp cfg (fst fr) ip len ?st
       else if x = PROT_RARP then receive_rarp cfg ip len ?st
       else if x = PROT_IP then
         (case receive_ip ip len ?st of None \<Rightarrow> Some ?st
          | Some (data, dport, sport, dlen) \<Rightarrow> call_handler cfg data dport sport dlen ?st)
       else Some ?st)"
  proof -
    have e: "(st\<lparr>ns_mem := mwrite (ns_mem st) (fst fr) (snd fr)\<rparr>)\<lparr>NetRxPkt := fst fr\<rparr> = ?st" by (simp add: in_buffer_def)
    show ?thesis unfolding receive_frame_def NetReceive_def Let_def e p by simp
  qed
  have null: "\<exists>st'' k'. call_handler cfg 0 0 0 0 st' = Some st'' \<and> tftp_inv f st0 k' st''" if "tftp_inv f st0 k st'" for st'
    using that no_input [OF that] by (intro tftp_inv_call) (simp_all add: honest_def)
  consider "x = PROT_ARP" | "x = PROT_RARP" | (ip) "x = PROT_IP" "x \<noteq> PROT_ARP" "x \<noteq> PROT_RARP"
    | "x \<notin> {PROT_ARP, PROT_RARP, PROT_IP}" by blast
  then show ?thesis
  proof cases
    case 1
    have "disjoint_blocks (fst fr) PKTSIZE_ALIGN (load_addr (ns_env ?st)) (length f)"
      using clear by (simp add: clear_buffer_def in_buffer_def)
    then have "tftp_inv f st0 k (arp_reply (fst fr) ip ?st)"
      using ip by (elim disjE) (simp_all only:, (rule tftp_inv_arp_reply [OF inv'], assumption, simp)+)
    then show ?thesis
      using 1 inv' null [OF tftp_inv_simps(3) [OF inv']] unfolding r receive_arp_def Let_def
      by (simp split: if_splits) blast
  next
    case 2
    then show ?thesis
      using inv' null [OF tftp_inv_simps(3) [OF tftp_inv_simps(2) [OF inv']]] unfolding r receive_rarp_def Let_def
      by (auto simp: PROT_ARP_def PROT_RARP_def)
  next
    case ip
    show ?thesis
    proof (cases "receive_ip ip len ?st")
      case None
      then show ?thesis using r ip inv' by auto
    next
      case (Some a)
      obtain data dport sport dlen where a: "a = (data, dport, sport, dlen)" by (cases a)
      have "honest f st0 ?st (tftp_input ?st data dport sport dlen)"
      proof -
        have "frame_input st fr = tftp_input ?st data dport sport dlen"
          unfolding frame_input_def Let_def p using ip Some a by simp
        with hon have "honest f st0 st (tftp_input ?st data dport sport dlen)" by simp
        moreover have "acked st0 ?st = acked st0 st" by (simp add: fun_eq_iff acked_def in_buffer_def)
        ultimately show ?thesis by (simp only: honest_def)
      qed
      then show ?thesis using r ip Some a tftp_inv_call [OF inv'] by simp
    qed
  next
    case 4
    then show ?thesis using r inv' by auto
  qed
qed

lemma tftp_inv_check_timeout:
  assumes "tftp_inv f st0 k st"
  shows "tftp_inv f st0 k (check_timeout cfg st)"
proof -
  have n: "tftp_inv f st0 k (st\<lparr>timeHandler := None\<rparr>)" using assms by (rule tftp_inv_simps)
  have "timeHandler st \<in> {None, Some TftpTimeout_ptr, Some startAgainTimeout_ptr}" using assms by (simp add: tftp_inv_def)
  moreover have "tftp_inv f st0 k (startAgainTimeout (st\<lparr>timeHandler := None\<rparr>))"
    using n by (auto simp: startAgainTimeout_def tftp_inv_def acked_def)
  ultimately show ?thesis
    using assms tftp_inv_timeout [OF n] by (auto simp: check_timeout_def call_timeout_def)
qed

end
