(* ===== verification/TftpCorrect.thy ===== *)
theory TftpCorrect
  imports TftpInvariant
begin

text \<open>
  The TFTP client against a server that follows the protocol. Frames may be lost, repeated, delayed, or have
  nothing to do with the transfer, and timers may expire at any time: success is only reported when the file
  is there; and if all frames arrive, success is reported.
\<close>

section \<open>What the client is left with\<close>

text \<open>
  The states that a transfer of the file \<open>f\<close> can reach from \<open>st0\<close>: frames arrive (or do not), time passes and
  timers are checked, in any order.
\<close>

inductive tftp_run :: "byte list \<Rightarrow> net_config \<Rightarrow> net_state \<Rightarrow> net_state \<Rightarrow> bool" for f cfg st0 where
  start: "tftp_run f cfg st0 st0"
| frame: "tftp_run f cfg st0 st \<Longrightarrow> clear_buffer f st fr \<Longrightarrow> honest f st0 st (frame_input st fr) \<Longrightarrow>
    receive_frame cfg fr st = Some st' \<Longrightarrow> tftp_run f cfg st0 st'"
| tick: "tftp_run f cfg st0 st \<Longrightarrow> tftp_run f cfg st0 (check_timeout cfg (st\<lparr>ns_now := t\<rparr>))"

lemma TftpStart_cases:
  assumes "TftpStart st = Some st0"
  obtains name where "tftp_name st = Some name"
    "st0 = TftpSend (st\<lparr>tftp_filename := name, timeHandler := Some TftpTimeout_ptr, timeValue := ns_now st + TFTP_TIMEOUT * CFG_HZ,
        packetHandler := Some TftpHandler_ptr, TftpServerPort := WELL_KNOWN_PORT, TftpTimeoutCount := 0,
        TftpState := STATE_RRQ, TftpOurPort := 1024 + ns_now st mod 3072\<rparr>)"
proof -
  have "TFTP_TIMEOUT * CFG_HZ \<noteq> 0" by (simp add: TFTP_TIMEOUT_def CFG_HZ_def)
  then show thesis
    using assms that by (auto simp: TftpStart_def bind_eq_Some_conv NetSetHandler_def NetSetTimeout_def Let_def)
qed

lemma tftp_inv_start:
  assumes "TftpStart st = Some st0" and "length f < 65535 * 512" and "NetBootFileXferSize st = 0"
    and "NetState st = NETLOOP_CONTINUE" and "length (NetOurEther st) = 6" and "length (NetServerEther st) = 6"
  shows "tftp_inv f st0 0 st0"
proof -
  have "(1024 + ns_now st mod 3072 :: u32) \<noteq> 0"
  proof
    assume "(1024 + ns_now st mod 3072 :: u32) = 0"
    moreover have "unat (ns_now st mod 3072) < 3072" by (simp add: unat_mod)
    then have "unat (1024 + ns_now st mod 3072 :: u32) = 1024 + unat (ns_now st mod 3072)"
      by (subst unat_add_lem [THEN iffD1]) simp_all
    ultimately show False by simp
  qed
  then show ?thesis
    using assms(2-) by (rule_tac TftpStart_cases [OF assms(1)]) (simp add: TftpSend_eq tftp_inv_def acked_def blocks_def)
qed

lemma tftp_run_inv: "tftp_run f cfg st0 st \<Longrightarrow> tftp_inv f st0 0 st0 \<Longrightarrow> \<exists>k. tftp_inv f st0 k st"
proof (induction rule: tftp_run.induct)
  case (frame st fr st')
  then show ?case using tftp_inv_receive [of f st0 _ st fr cfg] by fastforce
next
  case (tick st t)
  then show ?case using tftp_inv_check_timeout tftp_inv_simps(4) by blast
qed blast

text \<open>
  C4: whatever frames arrive or get lost, and whenever timers expire: when the client reports success, the
  whole file is at the load address and the size is right. The server only has to send blocks of the file,
  and a block only after the one before it has been acknowledged.
\<close>

theorem tftp_delivers:
  assumes "TftpStart st = Some st0" and "length f < 65535 * 512" and "NetBootFileXferSize st = 0"
    and "NetState st = NETLOOP_CONTINUE" and "length (NetOurEther st) = 6" and "length (NetServerEther st) = 6"
    and "tftp_run f cfg st0 st1" and "NetState st1 = NETLOOP_SUCCESS"
  shows "mread (ns_mem st1) (load_addr (ns_env st)) (length f) = f \<and> NetBootFileXferSize st1 = of_nat (length f)"
proof -
  have env: "ns_env st0 = ns_env st" by (rule TftpStart_cases [OF assms(1)]) (simp add: TftpSend_eq)
  obtain k where k: "tftp_inv f st0 k st1" using tftp_run_inv [OF assms(7) tftp_inv_start [OF assms(1-6)]] by blast
  then have "k = blocks f" using assms(8) unfolding tftp_inv_def by blast
  then have "min (512 * k) (length f) = length f" by (simp add: blocks_def)
  then show ?thesis using k env unfolding tftp_inv_def by (auto simp only: take_all order_refl)
qed

section \<open>A transfer without losses\<close>

text \<open>A data packet of the server, a machine with the state \<open>srv\<close>, from its port \<open>sport\<close>.\<close>

definition data_frame :: "net_state \<Rightarrow> byte list \<Rightarrow> u32 \<Rightarrow> u32 \<Rightarrow> u32 \<Rightarrow> byte list \<Rightarrow> nat \<Rightarrow> byte list" where
  "data_frame srv ether dest dport sport f i =
     udp_frame srv ether dest dport sport (be16 TFTP_DATA @ be16 (of_nat i) @ block f i)"

text \<open>The first \<open>i\<close> blocks have arrived, one after the other.\<close>

definition tftp_ready :: "byte list \<Rightarrow> net_state \<Rightarrow> u32 \<Rightarrow> nat \<Rightarrow> net_state \<Rightarrow> bool" where
  "tftp_ready f st0 sport i st \<longleftrightarrow>
     tftp_inv f st0 i st \<and> packetHandler st = Some TftpHandler_ptr \<and> NetOurIP st = NetOurIP st0 \<and>
     (TftpState st = STATE_RRQ \<and> i = 0 \<or>
      TftpState st = STATE_DATA \<and> TftpLastBlock st = of_nat i \<and> TftpServerPort st = sport \<and> 0 < i \<and>
      acked st0 st i) \<and>
     NetState st = (if i = blocks f then NETLOOP_SUCCESS else NETLOOP_CONTINUE)"

text \<open>The timer has just been set.\<close>

definition timer_set :: "net_state \<Rightarrow> bool" where
  "timer_set st \<longleftrightarrow> timeHandler st = Some TftpTimeout_ptr \<and> timeValue st = ns_now st + TFTP_TIMEOUT * CFG_HZ"

lemma block_stored:
  assumes inv: "tftp_inv f st0 i st" and i: "i < blocks f" and h: "packetHandler st = Some TftpHandler_ptr"
    and st: "TftpState st = STATE_RRQ \<and> i = 0 \<or> TftpState st = STATE_DATA \<and> TftpLastBlock st = of_nat i \<and> TftpServerPort st = sport"
    and mem: "mem_be16 (ns_mem st) pkt = TFTP_DATA" "mem_be16 (ns_mem st) (pkt + 2) = of_nat (i + 1)"
      "mread (ns_mem st) (pkt + 4) (length (block f (i + 1))) = block f (i + 1)"
    and ip: "NetOurIP st = NetOurIP st0" and ns: "NetState st = NETLOOP_CONTINUE"
  shows "let st' = TftpHandler pkt (TftpOurPort st) sport (of_nat (4 + length (block f (i + 1)))) st
    in tftp_ready f st0 sport (i + 1) st' \<and> timer_set st' \<and> ns_now st' = ns_now st"
proof -
  let ?b = "block f (i + 1)" and ?j = "i + 1"
  let ?len = "of_nat (4 + length ?b) :: u32"
  have lb: "length ?b \<le> 512" by (simp add: block_def)
  have u: "unat ?len = 4 + length ?b" by (rule unat_of_nat_u32) (use lb in simp)
  have ub: "unat (of_nat (length ?b) :: u32) = length ?b" by (rule unat_of_nat_u32) (use lb in simp)
  have j: "?j < 65536" using i tftp_inv_bounds(2) [OF inv] by simp
  have l: "?len - 2 - 2 = of_nat (length ?b)" by simp
  have u2: "unat (?len - 2) = 2 + length ?b" by (subst unat_sub) (use u in \<open>simp_all add: word_le_nat_alt del: of_nat_add\<close>)
  have "unat (of_nat ?j :: u16) = ?j" unfolding unat_of_nat using j by simp
  then have w: "ucast (mem_be16 (ns_mem st) (pkt + 2)) = (of_nat ?j :: u32)" unfolding mem(2) by (metis of_nat_unat)
  have "\<not> ?len < 2" using u by (simp add: word_less_nat_alt)
  then have h1: "TftpHandler pkt (TftpOurPort st) sport ?len st = tftp_data (pkt + 2) sport (?len - 2) st"
    using st mem(1) by (auto simp: TftpHandler_def TFTP_DATA_def)
  have ne: "(of_nat i :: u32) \<noteq> of_nat ?j" 
  proof
    assume "(of_nat i :: u32) = of_nat ?j"
    moreover have "unat (of_nat i :: u32) = i" by (rule unat_of_nat_u32) (use j in simp)
    moreover have "unat (of_nat ?j :: u32) = ?j" by (rule unat_of_nat_u32) (use j in simp)
    ultimately show False by simp
  qed
  let ?st' = "TftpSend (store_block (of_nat ?j - 1) (pkt + 4) (of_nat (length ?b)) (new_block ?j sport st))"
  have h2: "tftp_data (pkt + 2) sport (?len - 2) st = (if length ?b < 512 then ?st'\<lparr>NetState := NETLOOP_SUCCESS\<rparr> else ?st')"
  proof -
    have c: "(of_nat (length ?b) :: u32) < 512 \<longleftrightarrow> length ?b < 512" unfolding word_less_nat_alt ub unat_512 ..
    have a: "pkt + 2 + 2 = pkt + 4" by simp
    have "TftpState st = STATE_RRQ \<and> ?j = 1 \<or>
        TftpState st = STATE_DATA \<and> sport = TftpServerPort st \<and> TftpLastBlock st \<noteq> of_nat ?j"
      using st ne by auto
    then show ?thesis
      using tftp_data_new [of st ?j sport "?len - 2" "pkt + 2", OF _ _ w] u2 unfolding l a c Let_def by simp
  qed
  let ?s = "store_block (of_nat ?j - 1) (pkt + 4) (of_nat (length ?b)) (new_block ?j sport st)"
  have "mread (ns_mem st) (pkt + 4) (unat (of_nat (length ?b) :: u32)) = ?b" unfolding ub by (rule mem(3))
  then have "tftp_inv f st0 (max i ?j) ?s" using inv i by (intro tftp_inv_store) auto
  then have s: "tftp_inv f st0 ?j ?s" by (simp add: max_def)
  then have inv': "tftp_inv f st0 ?j ?st'" by (rule tftp_inv_send)
  have f: "packetHandler ?s = packetHandler st" "NetOurIP ?s = NetOurIP st" "TftpState ?s = STATE_DATA"
    "TftpLastBlock ?s = of_nat ?j" "TftpBlock ?s = of_nat ?j" "TftpServerPort ?s = sport"
    "NetState ?s = NetState st" "timer_set ?s" "ns_now ?s = ns_now st"
    by (simp_all add: store_block_def new_block_def timer_set_def NetSetTimeout_def TFTP_TIMEOUT_def CFG_HZ_def Let_def)
  have "drop 42 (tftp_frame ?s) = tftp_packet ?s"
    unfolding tftp_frame_def by (rule drop_udp_frame) (use s in \<open>simp_all add: tftp_inv_def\<close>)
  also have "\<dots> = be16 TFTP_ACK @ be16 (of_nat ?j)" unfolding tftp_packet_def f by (simp only: tftp_state.case ucast_of_nat16)
  finally have "drop 42 (tftp_frame ?s) = be16 TFTP_ACK @ be16 (of_nat ?j)" .
  moreover have "length (ns_sent st0) \<le> length (ns_sent ?s)" using s by (simp add: tftp_inv_def)
  ultimately have ack: "acked st0 ?st' ?j" using acked_sent [of st0 ?s ?st' "[tftp_frame ?s]" ?j] by (simp add: TftpSend_eq)
  have short: "length ?b < 512 \<longleftrightarrow> ?j = blocks f" using i by (intro block_short) auto
  define T where "T = ?st'"
  have T: "packetHandler T = Some TftpHandler_ptr" "NetOurIP T = NetOurIP st0" "TftpState T = STATE_DATA"
    "TftpLastBlock T = of_nat ?j" "TftpServerPort T = sport" "tftp_inv f st0 ?j T"
    "acked st0 T ?j" "NetState T = NETLOOP_CONTINUE" "timer_set T" "ns_now T = ns_now st"
    using f h ip ns inv' ack unfolding T_def by (simp_all add: TftpSend_eq timer_set_def del: of_nat_Suc of_nat_add)
  moreover have "acked st0 (T\<lparr>NetState := x\<rparr>) ?j \<longleftrightarrow> acked st0 T ?j" for x by (simp add: acked_def)
  ultimately have "tftp_ready f st0 sport ?j (if length ?b < 512 then T\<lparr>NetState := NETLOOP_SUCCESS\<rparr> else T)"
    using T tftp_inv_success [OF T(6)] short by (auto simp: tftp_ready_def simp del: of_nat_Suc of_nat_add)
  moreover have "timer_set (if length ?b < 512 then T\<lparr>NetState := NETLOOP_SUCCESS\<rparr> else T)"
    "ns_now (if length ?b < 512 then T\<lparr>NetState := NETLOOP_SUCCESS\<rparr> else T) = ns_now st"
    using T by (simp_all add: timer_set_def)
  ultimately show ?thesis unfolding h1 h2 T_def Let_def by blast
qed

lemma length_data_frame:
  "length ether = 6 \<Longrightarrow> length (NetOurEther srv) = 6 \<Longrightarrow> length (data_frame srv ether dest dport sport f i) = 46 + length (block f i)"
  by (simp add: data_frame_def udp_frame_def NetSetIP_def Let_def ETHER_HDR_SIZE_def IP_HDR_SIZE_def)

lemma block_received:
  assumes r: "tftp_ready f st0 sport i st" and i: "i < blocks f"
    and e: "length ether = 6" "length (NetOurEther srv) = 6" and dest: "NetOurIP st0 = dest"
    and port: "unat sport < 65536" "unat (TftpOurPort st) < 65536"
    and clear: "clear_buffer f st (buf, data_frame srv ether dest (TftpOurPort st) sport f (i + 1))"
  shows "\<exists>st'. receive_frame cfg (buf, data_frame srv ether dest (TftpOurPort st) sport f (i + 1)) st = Some st' \<and>
    tftp_ready f st0 sport (i + 1) st' \<and> timer_set st' \<and> ns_now st' = ns_now st \<and>
    honest f st0 st (frame_input st (buf, data_frame srv ether dest (TftpOurPort st) sport f (i + 1)))"
proof -
  let ?b = "block f (i + 1)"
  let ?d = "be16 TFTP_DATA @ be16 (of_nat (i + 1)) @ ?b"
  define fr where "fr = data_frame srv ether dest (TftpOurPort st) sport f (i + 1)"
  let ?st = "in_buffer (buf, fr) st"
  have lb: "length ?b \<le> 512" by (simp add: block_def)
  have inv: "tftp_inv f st0 i st" and h: "packetHandler st = Some TftpHandler_ptr" and ip: "NetOurIP st = NetOurIP st0"
    using r by (simp_all add: tftp_ready_def)
  have inv': "tftp_inv f st0 i ?st" using inv clear unfolding fr_def by (rule tftp_inv_buffer)
  have lf: "length fr \<le> 558" using lb length_data_frame [OF e] by (simp add: fr_def)
  have fr: "mread (ns_mem ?st) buf (length fr) = fr" using lf by (simp add: in_buffer_def)
  have fd: "fr = udp_frame srv ether dest (TftpOurPort st) sport ?d" by (simp only: fr_def data_frame_def)
  have ld: "length ?d + IP_HDR_SIZE < 65536" using lb by (simp add: IP_HDR_SIZE_def)
  have "NetOurIP ?st = 0 \<or> NetOurIP ?st = dest \<or> dest = 0xFFFFFFFF" using ip dest by (simp add: in_buffer_def)
  note d = datagram_received [OF fr fd e ld order_refl this port(2,1)]
  have d3: "mread (ns_mem ?st) (buf + 42) (length ?d) = ?d" by (rule d(3))
  have n: "receive_frame cfg (buf, fr) st = Some (TftpHandler (buf + 42) (TftpOurPort ?st) sport (of_nat (length ?d)) ?st)"
  proof -
    have "st\<lparr>ns_mem := mwrite (ns_mem st) buf fr\<rparr>\<lparr>NetRxPkt := buf\<rparr> = ?st" by (simp add: in_buffer_def)
    moreover have "packetHandler ?st = Some TftpHandler_ptr" "TftpOurPort ?st = TftpOurPort st" using h by (simp_all add: in_buffer_def)
    ultimately show ?thesis
      using d(1,2) by (simp add: receive_frame_def NetReceive_def Let_def call_handler_def PROT_IP_def PROT_ARP_def PROT_RARP_def)
  qed
  have w: "mem_be16 (ns_mem ?st) (buf + 42 + of_nat 0) = TFTP_DATA" "mem_be16 (ns_mem ?st) (buf + 42 + of_nat 2) = of_nat (i + 1)"
    "mread (ns_mem ?st) (buf + 42 + of_nat 4) (length ?b) = ?b"
    by (subst mread_part [OF d3]; simp add: be16_dec_be16 [of _ "[]", simplified])+
  have "let st' = TftpHandler (buf + 42) (TftpOurPort ?st) sport (of_nat (4 + length ?b)) ?st
      in tftp_ready f st0 sport (i + 1) st' \<and> timer_set st' \<and> ns_now st' = ns_now ?st"
    using r h ip i w by (intro block_stored [OF inv']) (auto simp: tftp_ready_def in_buffer_def)
  moreover have "ns_now ?st = ns_now st" by (simp add: in_buffer_def)
  moreover have "honest f st0 st (frame_input st (buf, fr))"
  proof -
    have j: "i + 1 < 65536" using i tftp_inv_bounds(2) [OF inv] by simp
    have "4 + length ?b < 2 ^ 32" using lb by simp
    then have u: "unat (of_nat (length ?d) :: u32) = 4 + length ?b" by (subst unat_of_nat_u32) simp_all
    have "unat (of_nat (i + 1) :: u16) = i + 1" unfolding unat_of_nat using j by simp
    then have "tftp_input ?st (buf + 42) (TftpOurPort st) sport (of_nat (length ?d)) = Some (i + 1, ?b)"
      using r w unfolding tftp_input_def u by (auto simp: tftp_ready_def in_buffer_def)
    then have "frame_input st (buf, fr) = Some (i + 1, ?b)"
      using d(1,2) by (simp add: frame_input_def Let_def)
    then show ?thesis using r i by (auto simp: honest_def tftp_ready_def)
  qed
  moreover have "length ?d = 4 + length ?b" by simp
  ultimately show ?thesis using n unfolding fr_def Let_def by metis
qed

text \<open>The frames of the whole file, the \<open>i\<close>th one in the buffer \<open>buf i\<close>.\<close>

definition file_frames :: "net_state \<Rightarrow> byte list \<Rightarrow> u32 \<Rightarrow> u32 \<Rightarrow> u32 \<Rightarrow> (nat \<Rightarrow> u32) \<Rightarrow> byte list \<Rightarrow> nat \<Rightarrow> (u32 \<times> byte list) list" where
  "file_frames srv ether dest dport sport buf f n = map (\<lambda>i. (buf i, data_frame srv ether dest dport sport f i)) [1..<Suc n]"

lemma receive_frames_append:
  "receive_frames cfg (xs @ ys) st = Option.bind (receive_frames cfg xs st) (receive_frames cfg ys)"
proof (induction xs arbitrary: st)
  case (Cons x xs)
  then show ?case by (cases "receive_frame cfg x st") simp_all
qed simp

lemma file_received:
  assumes r: "tftp_ready f st0 sport 0 st0" and n: "n \<le> blocks f"
    and e: "length ether = 6" "length (NetOurEther srv) = 6"
    and port: "unat sport < 65536" "unat (TftpOurPort st0) < 65536"
    and buf: "\<And>i. disjoint_blocks (buf i) PKTSIZE_ALIGN (load_addr (ns_env st0)) (length f)"
  shows "\<exists>st'. receive_frames cfg (file_frames srv ether (NetOurIP st0) (TftpOurPort st0) sport buf f n) st0 = Some st' \<and>
    tftp_ready f st0 sport n st' \<and> tftp_run f cfg st0 st'"
  using n
proof (induction n)
  case 0
  then show ?case using r by (simp add: file_frames_def tftp_run.start)
next
  case (Suc n)
  then obtain st where st: "receive_frames cfg (file_frames srv ether (NetOurIP st0) (TftpOurPort st0) sport buf f n) st0 = Some st"
    "tftp_ready f st0 sport n st" "tftp_run f cfg st0 st" by auto
  let ?fr = "data_frame srv ether (NetOurIP st0) (TftpOurPort st) sport f (n + 1)"
  have p: "TftpOurPort st = TftpOurPort st0" "ns_env st = ns_env st0" using st(2) by (simp_all add: tftp_ready_def tftp_inv_def)
  have "length (block f (n + 1)) \<le> 512" by (simp add: block_def)
  then have "clear_buffer f st (buf (n + 1), ?fr)"
    using buf length_data_frame [OF e] by (simp add: clear_buffer_def PKTSIZE_ALIGN_def p)
  moreover from this obtain st' where st': "receive_frame cfg (buf (n + 1), ?fr) st = Some st'" "tftp_ready f st0 sport (n + 1) st'"
      "honest f st0 st (frame_input st (buf (n + 1), ?fr))"
    using block_received [OF st(2) _ e refl port(1)] Suc.prems port(2) p(1) by auto
  ultimately have "tftp_run f cfg st0 st'" using st(3) by (blast intro: tftp_run.frame)
  then show ?case using st(1) st'(1,2) p(1) by (simp add: file_frames_def receive_frames_append)
qed

lemma tftp_ready_start:
  assumes "TftpStart st = Some st0" and "length f < 65535 * 512" and "NetBootFileXferSize st = 0"
    and "NetState st = NETLOOP_CONTINUE" and "length (NetOurEther st) = 6" and "length (NetServerEther st) = 6"
  shows "tftp_ready f st0 sport 0 st0"
  using tftp_inv_start [OF assms] assms(4) by (rule_tac TftpStart_cases [OF assms(1)]) (simp add: tftp_ready_def TftpSend_eq blocks_def)

text \<open>
  C5: if every frame arrives, the transfer ends with success and the whole file at the load address. The frames
  are those that the server sends in answer to the acknowledgements, as the protocol says.
\<close>

theorem tftp_completes:
  assumes "TftpStart st = Some st0" and "length f < 65535 * 512" and "NetBootFileXferSize st = 0"
    and "NetState st = NETLOOP_CONTINUE" and "length (NetOurEther st) = 6" and "length (NetServerEther st) = 6"
    and e: "length ether = 6" "length (NetOurEther srv) = 6" and port: "unat sport < 65536"
    and buf: "\<And>i. disjoint_blocks (buf i) PKTSIZE_ALIGN (load_addr (ns_env st0)) (length f)"
  shows "\<exists>st1. receive_frames cfg (file_frames srv ether (NetOurIP st0) (TftpOurPort st0) sport buf f (blocks f)) st0 = Some st1 \<and>
    NetState st1 = NETLOOP_SUCCESS \<and> tftp_run f cfg st0 st1 \<and> mread (ns_mem st1) (load_addr (ns_env st0)) (length f) = f \<and>
    NetBootFileXferSize st1 = of_nat (length f)"
proof -
  note r = tftp_ready_start [OF assms(1-6)]
  have "unat (ns_now st mod 3072) < 3072" by (simp add: unat_mod)
  then have "unat (TftpOurPort st0) < 65536"
    by (rule_tac TftpStart_cases [OF assms(1)], simp add: TftpSend_eq) (subst unat_add_lem [THEN iffD1], simp_all)
  then obtain st1 where st1: "receive_frames cfg (file_frames srv ether (NetOurIP st0) (TftpOurPort st0) sport buf f (blocks f)) st0 = Some st1"
    "tftp_ready f st0 sport (blocks f) st1" "tftp_run f cfg st0 st1"
    using file_received [where buf = buf and cfg = cfg, OF r order_refl e port _ buf] by blast
  have "min (512 * blocks f) (length f) = length f" by (simp add: blocks_def)
  then have "mread (ns_mem st1) (load_addr (ns_env st0)) (length f) = f" "NetBootFileXferSize st1 = of_nat (length f)"
    using st1(2) by (auto simp: tftp_ready_def tftp_inv_def simp del: min_def)
  then show ?thesis using st1 by (auto simp: tftp_ready_def)
qed

section \<open>An instance\<close>

lemma demo_start: "\<exists>st0. TftpStart demo_net = Some st0 \<and> ns_env st0 = demo_env"
  by (simp add: TftpStart_def tftp_name_def demo_net_def demo_env_def TftpSend_eq NetSetHandler_def NetSetTimeout_def Let_def)

lemma demo_net_simps:
  "NetBootFileXferSize demo_net = 0" "NetState demo_net = NETLOOP_CONTINUE" "length (NetOurEther demo_net) = 6"
  "length (NetServerEther demo_net) = 6" "load_addr (ns_env demo_net) = 0x100000" "load_addr demo_env = 0x100000"
  by (simp_all add: demo_net_def demo_env_def)

lemma demo_disjoint: "disjoint_blocks 0x200000 PKTSIZE_ALIGN 0x100000 3"
  by (simp add: disjoint_blocks_def PKTSIZE_ALIGN_def)

theorem tftp_completes_witness:
  "\<forall>cfg. \<exists>st0 st1. TftpStart demo_net = Some st0 \<and>
     receive_frames cfg (file_frames demo_net [0, 1, 2, 3, 4, 5] (NetOurIP st0) (TftpOurPort st0) 2000 (\<lambda>_. 0x200000) [7, 8, 9] 1) st0 = Some st1 \<and>
     NetState st1 = NETLOOP_SUCCESS \<and> mread (ns_mem st1) 0x100000 3 = [7, 8, 9]"
proof
  fix cfg
  obtain st0 where st0: "TftpStart demo_net = Some st0" "ns_env st0 = demo_env" using demo_start by blast
  have b: "blocks [7, 8, 9] = 1" by (simp add: blocks_def)
  have "disjoint_blocks 0x200000 PKTSIZE_ALIGN (load_addr (ns_env st0)) (length [7 :: byte, 8, 9])"
    using demo_disjoint by (simp add: st0(2) demo_net_simps numeral_3_eq_3)
  then have "\<exists>st1. receive_frames cfg (file_frames demo_net [0, 1, 2, 3, 4, 5] (NetOurIP st0) (TftpOurPort st0) 2000 (\<lambda>_. 0x200000) [7, 8, 9] (blocks [7, 8, 9])) st0 = Some st1 \<and>
    NetState st1 = NETLOOP_SUCCESS \<and> tftp_run [7, 8, 9] cfg st0 st1 \<and>
    mread (ns_mem st1) (load_addr (ns_env st0)) (length [7 :: byte, 8, 9]) = [7, 8, 9] \<and>
    NetBootFileXferSize st1 = of_nat (length [7 :: byte, 8, 9])"
    by (intro tftp_completes [OF st0(1) _ demo_net_simps(1-4)]) (simp_all add: demo_net_simps(3))
  then show "\<exists>st0 st1. TftpStart demo_net = Some st0 \<and>
     receive_frames cfg (file_frames demo_net [0, 1, 2, 3, 4, 5] (NetOurIP st0) (TftpOurPort st0) 2000 (\<lambda>_. 0x200000) [7, 8, 9] 1) st0 = Some st1 \<and>
     NetState st1 = NETLOOP_SUCCESS \<and> mread (ns_mem st1) 0x100000 3 = [7, 8, 9]"
    using st0 unfolding b by (auto simp: demo_net_simps numeral_3_eq_3)
qed

lemma demo_run:
  "\<exists>st0 st1. TftpStart demo_net = Some st0 \<and> tftp_run [7, 8, 9] cfg st0 st1 \<and> NetState st1 = NETLOOP_SUCCESS"
proof -
  obtain st0 where st0: "TftpStart demo_net = Some st0" "ns_env st0 = demo_env" using demo_start by blast
  have r: "tftp_ready [7, 8, 9] st0 2000 0 st0"
    by (rule tftp_ready_start [OF st0(1) _ demo_net_simps(1-4)]) simp
  have "TftpOurPort st0 = 1024" by (rule TftpStart_cases [OF st0(1)]) (simp add: TftpSend_eq demo_net_def)
  moreover have "disjoint_blocks 0x200000 PKTSIZE_ALIGN (load_addr (ns_env st0)) (length [7 :: byte, 8, 9])"
    using demo_disjoint by (simp add: st0(2) demo_net_simps numeral_3_eq_3)
  ultimately have "\<exists>st'. receive_frames cfg (file_frames demo_net [0, 1, 2, 3, 4, 5] (NetOurIP st0) (TftpOurPort st0) 2000
        (\<lambda>_. 0x200000) [7, 8, 9] (blocks [7, 8, 9])) st0 = Some st' \<and>
      tftp_ready [7, 8, 9] st0 2000 (blocks [7, 8, 9]) st' \<and> tftp_run [7, 8, 9] cfg st0 st'"
    by (intro file_received [OF r order_refl]) (simp_all add: demo_net_simps)
  then show ?thesis using st0(1) by (auto simp: tftp_ready_def)
qed

theorem tftp_delivers_witness:
  "\<forall>cfg. \<exists>st0 st1. TftpStart demo_net = Some st0 \<and> tftp_run [7, 8, 9] cfg st0 st1 \<and> NetState st1 = NETLOOP_SUCCESS \<and>
     mread (ns_mem st1) 0x100000 3 = [7, 8, 9]"
proof
  fix cfg
  obtain st0 st1 where r: "TftpStart demo_net = Some st0" "tftp_run [7, 8, 9] cfg st0 st1" "NetState st1 = NETLOOP_SUCCESS"
    using demo_run by blast
  have "mread (ns_mem st1) (load_addr (ns_env demo_net)) (length [7 :: byte, 8, 9]) = [7, 8, 9]"
    using tftp_delivers [OF r(1) _ demo_net_simps(1-4) r(2,3)] by simp
  then show "\<exists>st0 st1. TftpStart demo_net = Some st0 \<and> tftp_run [7, 8, 9] cfg st0 st1 \<and> NetState st1 = NETLOOP_SUCCESS \<and>
     mread (ns_mem st1) 0x100000 3 = [7, 8, 9]"
    using r by (auto simp: demo_net_simps numeral_3_eq_3)
qed

end
