(* ===== verification/NetRetry.thy ===== *)
theory NetRetry
  imports NetCorrect
begin

text \<open>
  What happens when nobody answers: ARP, RARP, BOOTP and TFTP each send their packet again when their timer
  expires, give up after a limited number of attempts, and then the whole transfer starts again.
\<close>

section \<open>Silence\<close>

text \<open>The state after turns of the loop without frames, at the times \<open>ts\<close>; each is later than the timer then set.\<close>

fun expiries :: "net_config \<Rightarrow> u32 list \<Rightarrow> net_state \<Rightarrow> net_state" where
  "expiries cfg [] st = st"
| "expiries cfg (t # ts) st = expiries cfg ts (check_timeout cfg (st\<lparr>ns_now := t\<rparr>))"

fun overdue :: "net_config \<Rightarrow> u32 list \<Rightarrow> net_state \<Rightarrow> bool" where
  "overdue cfg [] st \<longleftrightarrow> True"
| "overdue cfg (t # ts) st \<longleftrightarrow> timeValue st < t \<and> overdue cfg ts (check_timeout cfg (st\<lparr>ns_now := t\<rparr>))"

definition silent :: "u32 \<Rightarrow> net_turn" where
  "silent t = \<lparr>nt_frames = [], nt_ctrlc = False, nt_time = t\<rparr>"

lemma net_loop_silent:
  "net_loop cfg protocol (silent t # ts) st =
     (let st = check_timeout cfg (st\<lparr>ns_now := t\<rparr>)
      in case NetState st of
           NETLOOP_CONTINUE \<Rightarrow> net_loop cfg protocol ts st
         | NETLOOP_RESTART \<Rightarrow> NetLoop cfg protocol ts st
         | NETLOOP_SUCCESS \<Rightarrow> Option.bind (net_success cfg st) (\<lambda>(r, st). Some (Net_Returned r st))
         | NETLOOP_FAIL \<Rightarrow> Some (Net_Returned 0 st))"
  by (simp add: silent_def NetLoop_def Let_def split: netloop.split)

lemma check_timeout_due:
  "timeHandler st = Some h \<Longrightarrow> timeValue st < t \<Longrightarrow>
   check_timeout cfg (st\<lparr>ns_now := t\<rparr>) = call_timeout cfg h (st\<lparr>ns_now := t, timeHandler := None\<rparr>)"
  by (simp add: check_timeout_def)

section \<open>A request that is repeated\<close>

locale retry =
  fixes cfg :: net_config and tries :: "net_state \<Rightarrow> nat" and limit :: nat and expire :: thand
  assumes tries_cong: "tries (st\<lparr>ns_now := t, timeHandler := h\<rparr>) = tries st"
    and again: "tries st < limit \<Longrightarrow> tries (call_timeout cfg expire st) = tries st + 1 \<and>
      timeHandler (call_timeout cfg expire st) = Some expire \<and> NetState (call_timeout cfg expire st) = NetState st \<and>
      length (ns_sent (call_timeout cfg expire st)) = length (ns_sent st) + 1"
    and give_up: "limit \<le> tries st \<Longrightarrow> timeHandler (call_timeout cfg expire st) = Some startAgainTimeout_ptr \<and>
      NetState (call_timeout cfg expire st) = NetState st \<and> ns_sent (call_timeout cfg expire st) = ns_sent st"
begin

lemma silent_run:
  assumes "timeHandler st = Some expire" and "NetState st = NETLOOP_CONTINUE" and "length ts = limit - tries st + 2"
    and "overdue cfg ts st"
  shows "net_loop cfg protocol (map silent ts @ rest) st = NetLoop cfg protocol rest (expiries cfg ts st) \<and>
    length (ns_sent (expiries cfg ts st)) = length (ns_sent st) + (limit - tries st)"
  using assms
proof (induction ts arbitrary: st)
  case Nil
  then show ?case by simp
next
  case (Cons t ts)
  let ?st = "check_timeout cfg (st\<lparr>ns_now := t\<rparr>)"
  have due: "timeValue st < t" and rest: "overdue cfg ts ?st" using Cons.prems(4) by simp_all
  note c = check_timeout_due [OF Cons.prems(1) due]
  show ?case
  proof (cases "tries st < limit")
    case True
    have "tries ?st = tries st + 1" "timeHandler ?st = Some expire" "NetState ?st = NETLOOP_CONTINUE"
      "length (ns_sent ?st) = length (ns_sent st) + 1"
      using again [of "st\<lparr>ns_now := t, timeHandler := None\<rparr>"] True Cons.prems(2) unfolding c by (simp_all add: tries_cong)
    note f = this
    moreover have "length ts = limit - tries ?st + 2" using Cons.prems(3) True f(1) by simp
    ultimately show ?thesis
      using Cons.IH [OF f(2,3) _ rest] True by (simp add: net_loop_silent Let_def del: net_loop.simps)
  next
    case False
    then have f: "timeHandler ?st = Some startAgainTimeout_ptr" "NetState ?st = NETLOOP_CONTINUE" "ns_sent ?st = ns_sent st"
      using give_up [of "st\<lparr>ns_now := t, timeHandler := None\<rparr>"] Cons.prems(2) unfolding c by (simp_all add: tries_cong)
    from False obtain t' where ts: "ts = [t']" using Cons.prems(3) by (cases ts) auto
    then have due': "timeValue ?st < t'" using rest by simp
    have "NetState (check_timeout cfg (?st\<lparr>ns_now := t'\<rparr>)) = NETLOOP_RESTART"
      "ns_sent (check_timeout cfg (?st\<lparr>ns_now := t'\<rparr>)) = ns_sent st"
      unfolding check_timeout_due [OF f(1) due'] by (simp_all add: call_timeout_def startAgainTimeout_def f(3))
    then show ?thesis using False f(2) by (simp add: ts net_loop_silent Let_def del: net_loop.simps)
  qed
qed

end

lemmas timeout_defs = call_timeout_def NetSetTimeout_def NetStartAgain_def NetSetHandler_def NetSendPacket_def CFG_HZ_def

interpretation arp: retry cfg ArpTry ARP_TIMEOUT_COUNT ArpTimeout_ptr for cfg
  by unfold_locales (auto simp: timeout_defs ArpTimeout_def ArpRequest_def ARP_TIMEOUT_def Let_def)

interpretation rarp: retry cfg RarpTry RARP_TIMEOUT_COUNT RarpTimeout_ptr for cfg
  by unfold_locales (auto simp: timeout_defs RarpTimeout_def RarpRequest_def RARP_TIMEOUT_def Let_def)

interpretation bootp: retry cfg BootpTry BOOTP_TIMEOUT_COUNT BootpTimeout_ptr for cfg
  by unfold_locales
    (auto simp: timeout_defs BootpTimeout_def BootpRequest_def BOOTP_TIMEOUT_def SELECT_TIMEOUT_def NetSetIP_def Let_def)

text \<open>TFTP counts its time-outs before it compares, so it sends its packet once less.\<close>

interpretation tftp: retry cfg TftpTimeoutCount "TFTP_TIMEOUT_COUNT - 1" TftpTimeout_ptr for cfg
  by unfold_locales
    (auto simp: timeout_defs TftpTimeout_def TftpSend_def TFTP_TIMEOUT_def TFTP_TIMEOUT_COUNT_def NetSetIP_def Let_def)

section \<open>Nobody answers\<close>

lemma start_arp:
  assumes "net_start cfg TFTP st = Some (True, st1)"
  shows "timeHandler st1 = Some ArpTimeout_ptr" "NetState st1 = NETLOOP_CONTINUE" "ArpTry st1 = 1"
    "length (ns_sent st1) = length (ns_sent st) + 1"
  using assms by (auto simp: net_start_def ArpRequest_def timeout_defs ARP_TIMEOUT_def Let_def split: bind_splits if_splits)

lemma start_rarp:
  assumes "net_start cfg RARP st = Some (True, st1)"
  shows "timeHandler st1 = Some RarpTimeout_ptr" "NetState st1 = NETLOOP_CONTINUE" "RarpTry st1 = 1"
    "length (ns_sent st1) = length (ns_sent st) + 1"
  using assms by (auto simp: net_start_def RarpRequest_def timeout_defs RARP_TIMEOUT_def Let_def split: bind_splits if_splits)

lemma start_bootp:
  assumes "net_start cfg BOOTP st = Some (True, st1)"
  shows "timeHandler st1 = Some BootpTimeout_ptr" "NetState st1 = NETLOOP_CONTINUE" "BootpTry st1 = 1"
    "length (ns_sent st1) = length (ns_sent st) + 1"
  using assms
  by (auto simp: net_start_def BootpRequest_def timeout_defs SELECT_TIMEOUT_def NetSetIP_def Let_def
      split: bind_splits if_splits)

lemma NetLoop_started: "net_start cfg protocol st = Some (True, st1) \<Longrightarrow> NetLoop cfg protocol ts st = net_loop cfg protocol ts st1"
  by (simp add: NetLoop_def)

text \<open>
  C13: While nobody answers, a load over the network sends its first request (ARP, RARP or BOOTP) exactly
  five times, one per expired timer, waits once more and then starts from the beginning, with whatever the
  environment holds by then: \<open>NetLoop\<close> on six expiries and further turns is \<open>NetLoop\<close> on the further turns.
\<close>

theorem unanswered_restarts:
  assumes "net_start cfg protocol st = Some (True, st1)" and "protocol \<in> {TFTP, RARP, BOOTP}"
    and "length ts = 6" and "overdue cfg ts st1"
  shows "NetLoop cfg protocol (map silent ts @ rest) st = NetLoop cfg protocol rest (expiries cfg ts st1) \<and>
    length (ns_sent (expiries cfg ts st1)) = length (ns_sent st) + 5"
proof -
  note run = NetLoop_started [OF assms(1)]
  consider "protocol = TFTP" | "protocol = RARP" | "protocol = BOOTP" using assms(2) by blast
  then show ?thesis
  proof cases
    case 1
    note s = start_arp [OF assms(1) [unfolded 1]]
    show ?thesis unfolding run
      using arp.silent_run [OF s(1,2) _ assms(4)] assms(3) s(3,4) by (simp add: ARP_TIMEOUT_COUNT_def)
  next
    case 2
    note s = start_rarp [OF assms(1) [unfolded 2]]
    show ?thesis unfolding run
      using rarp.silent_run [OF s(1,2) _ assms(4)] assms(3) s(3,4) by (simp add: RARP_TIMEOUT_COUNT_def)
  next
    case 3
    note s = start_bootp [OF assms(1) [unfolded 3]]
    show ?thesis unfolding run
      using bootp.silent_run [OF s(1,2) _ assms(4)] assms(3) s(3,4) by (simp add: BOOTP_TIMEOUT_COUNT_def)
  qed
qed

text \<open>RARP on the demonstration board, the timers read ten seconds apart.\<close>

definition demo_rarp :: net_state where
  "demo_rarp = RarpRequest (demo_net\<lparr>NetOurIP := 0, NetServerIP := 0\<rparr>)"

lemma demo_rarp_start: "net_start cfg RARP demo_net = Some (True, demo_rarp)"
proof -
  have "demo_net\<lparr>NetOurEther := [0, 1, 2, 3, 4, 5], NetState := NETLOOP_CONTINUE, NetOurIP := 0, NetServerIP := 0, RarpTry := 0\<rparr> =
      demo_net\<lparr>NetOurIP := 0, NetServerIP := 0\<rparr>" "bi_enetaddr (ns_env demo_net) = [0, 1, 2, 3, 4, 5]"
    by (simp_all add: demo_net_def demo_env_def)
  then show ?thesis
    by (simp add: net_start_def net_check_prereq_def demo_rarp_def RarpRequest_def timeout_defs RARP_TIMEOUT_def Let_def demo_net_def eval_nat_numeral)
qed

lemma demo_overdue: "overdue cfg [10000, 20000, 30000, 40000, 50000, 61000] demo_rarp"
  by (simp add: demo_rarp_def check_timeout_def RarpTimeout_def RarpRequest_def timeout_defs RARP_TIMEOUT_def
      RARP_TIMEOUT_COUNT_def startAgainTimeout_def Let_def demo_net_def)

theorem unanswered_restarts_witness:
  "\<forall>cfg. let ts = [10000, 20000, 30000, 40000, 50000, 61000]; st = expiries cfg ts demo_rarp
     in NetLoop cfg RARP (map silent ts) demo_net = NetLoop cfg RARP [] st \<and> length (ns_sent st) = 5"
  using unanswered_restarts [OF demo_rarp_start _ _ demo_overdue, where rest = "[]"] unfolding Let_def
  by (simp add: demo_net_def del: overdue.simps expiries.simps list.map)

end
