(* ===== verification/NetBoot.thy ===== *)
theory NetBoot
  imports NetMain Bootm
begin

text \<open>
  \<^verbatim>\<open>common/cmd_net.c\<close>: the commands \<^verbatim>\<open>bootp\<close>, \<^verbatim>\<open>tftpboot\<close>, \<^verbatim>\<open>rarpboot\<close> and \<^verbatim>\<open>dhcp\<close>. They take the load address and the
  file name from the environment and the command line, run \<open>NetLoop\<close>, store what the network code has
  learnt in the environment, and boot the image if \<^verbatim>\<open>autostart\<close> asks for it. \<^verbatim>\<open>CONFIG_AUTOSCRIPT\<close> is not set.
\<close>

definition setenv_net :: "env_config \<Rightarrow> byte list \<Rightarrow> byte list \<Rightarrow> net_state \<Rightarrow> net_state option" where
  "setenv_net cfg name val st =
     do { (r, env) \<leftarrow> setenv cfg name (Some val) (ns_env st); Some (st\<lparr>ns_env := env\<rparr>) }"

text \<open>\<^verbatim>\<open>if (x) { ip_to_string (x, tmp); setenv(name, tmp); }\<close>\<close>

definition setenv_ip :: "env_config \<Rightarrow> byte list \<Rightarrow> u32 \<Rightarrow> net_state \<Rightarrow> net_state option" where
  "setenv_ip cfg name x st =
     (if x \<noteq> 0 then do { tmp \<leftarrow> ip_to_string x; setenv_net cfg name tmp st } else Some st)"

definition netboot_update_env :: "env_config \<Rightarrow> net_state \<Rightarrow> net_state option" where
  "netboot_update_env cfg st =
     do { st \<leftarrow> setenv_ip cfg (str ''gatewayip'') (NetOurGatewayIP st) st;
          st \<leftarrow> setenv_ip cfg (str ''netmask'') (NetOurSubnetMask st) st;
          st \<leftarrow> (if NetOurHostName st \<noteq> [] then setenv_net cfg (str ''hostname'') (NetOurHostName st) st else Some st);
          st \<leftarrow> (if NetOurRootPath st \<noteq> [] then setenv_net cfg (str ''rootpath'') (NetOurRootPath st) st else Some st);
          st \<leftarrow> setenv_ip cfg (str ''ipaddr'') (NetOurIP st) st;
          st \<leftarrow> setenv_ip cfg (str ''serverip'') (NetServerIP st) st;
          setenv_ip cfg (str ''dnsip'') (NetOurDNSIP st) st }"

text \<open>The load address and the file name; the flag is false when the usage message is printed.\<close>

definition netboot_args :: "byte list list \<Rightarrow> env_state \<Rightarrow> (bool \<times> env_state) option" where
  "netboot_args argv env =
     do { s \<leftarrow> getenv_str (env_data env) (str ''loadaddr'');
          (let env = (case s of Some s \<Rightarrow> env\<lparr>load_addr := fst (simple_strtoul s 16)\<rparr> | None \<Rightarrow> env)
           in Some (if length argv = 1 then (True, env)
                    else if length argv = 2 then
                      (if peek (argv ! 1) = ch CHR ''\"'' then (True, env\<lparr>BootFile := copy_filename (argv ! 1) 128\<rparr>)
                       else (True, env\<lparr>load_addr := fst (simple_strtoul (argv ! 1) 16)\<rparr>))
                    else if length argv = 3 then
                      (True, env\<lparr>load_addr := fst (simple_strtoul (argv ! 1) 16), BootFile := copy_filename (argv ! 2) 128\<rparr>)
                    else (False, env))) }"

text \<open>
  How a command ends: it returns a value, waits for more turns, or hands over to \<open>do_bootm\<close>, of which \<open>bt\<close> is the
  part of the configuration, \<open>z\<close> and \<open>appl\<close> the arguments described there.
\<close>

datatype netboot_end =
    Netboot_Returned int net_state
  | Netboot_Waiting net_state
  | Netboot_Bootm "transfer list" boot_end net_state

definition getenv_value :: "byte list \<Rightarrow> byte list \<Rightarrow> byte list option" where
  "getenv_value d name = Option.bind (getenv_str d name) id"

text \<open>The board information with the addresses as the environment's side effects have left them.\<close>

definition board_now :: "boot_config \<Rightarrow> env_state \<Rightarrow> boot_config" where
  "board_now bt env =
     bt\<lparr>bc_bd := (bc_bd bt)\<lparr>bi_ip_addr := env_state.bi_ip_addr env, bi_enetaddr := env_state.bi_enetaddr env\<rparr>\<rparr>"

definition netboot_boot ::
    "boot_config \<Rightarrow> zlib \<Rightarrow> (u32 \<Rightarrow> byte list list \<Rightarrow> mem \<Rightarrow> mem option) \<Rightarrow> byte list list \<Rightarrow> net_state \<Rightarrow> netboot_end option" where
  "netboot_boot bt z appl argv st =
     do { let env = ns_env st;
          s \<leftarrow> getenv_str (env_data env) (str ''autostart'');
          if s = Some (str ''yes'') then
            do { (ts, e) \<leftarrow> do_bootm (board_now bt env) z appl (getenv_value (env_data env)) (load_addr env) (ns_mem st) (take 1 argv);
                 Some (Netboot_Bootm ts e st) }
          else Some (Netboot_Returned 0 st) }"

definition netboot_common ::
    "net_config \<Rightarrow> boot_config \<Rightarrow> zlib \<Rightarrow> (u32 \<Rightarrow> byte list list \<Rightarrow> mem \<Rightarrow> mem option) \<Rightarrow> proto_t \<Rightarrow> byte list list \<Rightarrow>
     net_turn list \<Rightarrow> net_state \<Rightarrow> netboot_end option" where
  "netboot_common cfg bt z appl proto argv ts st =
     do { (ok, env) \<leftarrow> netboot_args argv (ns_env st);
          let st = st\<lparr>ns_env := env\<rparr>;
          if \<not> ok then Some (Netboot_Returned 1 st)
          else do { r \<leftarrow> NetLoop cfg proto ts st;
                    case r of
                      Net_Waiting st \<Rightarrow> Some (Netboot_Waiting st)
                    | Net_Returned sz st \<Rightarrow>
                        if sz = 0 then Some (Netboot_Returned 1 st)
                        else do { st \<leftarrow> netboot_update_env (nc_env cfg) st; netboot_boot bt z appl argv st } } }"

definition do_bootp ::
    "net_config \<Rightarrow> boot_config \<Rightarrow> zlib \<Rightarrow> (u32 \<Rightarrow> byte list list \<Rightarrow> mem \<Rightarrow> mem option) \<Rightarrow> byte list list \<Rightarrow>
     net_turn list \<Rightarrow> net_state \<Rightarrow> netboot_end option" where
  "do_bootp cfg bt z appl = netboot_common cfg bt z appl BOOTP"

definition do_tftpb ::
    "net_config \<Rightarrow> boot_config \<Rightarrow> zlib \<Rightarrow> (u32 \<Rightarrow> byte list list \<Rightarrow> mem \<Rightarrow> mem option) \<Rightarrow> byte list list \<Rightarrow>
     net_turn list \<Rightarrow> net_state \<Rightarrow> netboot_end option" where
  "do_tftpb cfg bt z appl = netboot_common cfg bt z appl TFTP"

definition do_rarpb ::
    "net_config \<Rightarrow> boot_config \<Rightarrow> zlib \<Rightarrow> (u32 \<Rightarrow> byte list list \<Rightarrow> mem \<Rightarrow> mem option) \<Rightarrow> byte list list \<Rightarrow>
     net_turn list \<Rightarrow> net_state \<Rightarrow> netboot_end option" where
  "do_rarpb cfg bt z appl = netboot_common cfg bt z appl RARP"

definition do_dhcp ::
    "net_config \<Rightarrow> boot_config \<Rightarrow> zlib \<Rightarrow> (u32 \<Rightarrow> byte list list \<Rightarrow> mem \<Rightarrow> mem option) \<Rightarrow> byte list list \<Rightarrow>
     net_turn list \<Rightarrow> net_state \<Rightarrow> netboot_end option" where
  "do_dhcp cfg bt z appl = netboot_common cfg bt z appl DHCP"

end
