(* ===== verification/NetInvariant.thy ===== *)
theory NetInvariant
  imports NetCorrect EnvironmentCorrect
begin

text \<open>
  What holds of the state of the network code at all times, and that nothing goes wrong in it: whatever
  frames arrive, no null handler is called, the environment stays well formed and the handlers return.
\<close>

section \<open>Setting a variable while the network runs\<close>

text \<open>The environment and the globals next to it, but for the variables \<open>ns\<close>.\<close>

definition env_same :: "byte list set \<Rightarrow> env_state \<Rightarrow> env_state \<Rightarrow> bool" where
  "env_same ns s s' \<longleftrightarrow>
     (\<forall>n. wf_name n \<and> n \<notin> ns \<longrightarrow> env_lookup (env_data s') n = env_lookup (env_data s) n) \<and>
     bi_enetaddr s' = bi_enetaddr s \<and>
     (str ''loadaddr'' \<notin> ns \<longrightarrow> load_addr s' = load_addr s) \<and>
     (str ''bootfile'' \<notin> ns \<longrightarrow> BootFile s' = BootFile s)"

lemma env_same_refl: "env_same ns s s"
  by (simp add: env_same_def)

lemma env_same_trans: "env_same ns s s' \<Longrightarrow> env_same ns' s' s'' \<Longrightarrow> env_same (ns \<union> ns') s s''"
  by (simp add: env_same_def)

lemma setenv_special_same:
  "plain_name name \<Longrightarrow> bi_enetaddr (setenv_special name v s) = bi_enetaddr s"
  "name \<noteq> str ''loadaddr'' \<Longrightarrow> load_addr (setenv_special name v s) = load_addr s"
  "name \<noteq> str ''bootfile'' \<Longrightarrow> BootFile (setenv_special name v s) = BootFile s"
  "name = str ''bootfile'' \<Longrightarrow> BootFile (setenv_special name v s) = copy_filename v 128"
  by (simp_all add: setenv_special_def plain_name_def)

lemma setenv_same:
  assumes wf: "env_wf s" and name: "wf_name name" and plain: "plain_name name" and v: "0 \<notin> set v"
  shows "\<exists>r s'. setenv cfg name (Some v) s = Some (r, s') \<and> env_wf s' \<and> env_same {name} s s' \<and>
    (name = str ''bootfile'' \<longrightarrow> BootFile s' \<in> {BootFile s, copy_filename v 128})"
proof -
  obtain es where es: "env_models (env_data s) es" "distinct (map fst es)" using wf by (auto simp: env_wf_def)
  obtain old env nxt s1 d where search: "env_search (env_data s) name 0 0 None = Some (old, env, nxt)"
    and repl: "(if old \<noteq> None then setenv_replace cfg name [Some (str ''setenv''), Some name, Some v] env nxt s
         else Some (True, s)) = Some (True, s1)" and s1: "s1 = s\<lparr>env_data := d\<rparr>"
    using env_search_models [OF es(1) name]
  proof
    assume "name \<notin> fst ` set es \<and> (\<exists>env nxt. env_search (env_data s) name 0 0 None = Some (None, env, nxt))"
    then show thesis using that [of None _ _ s "env_data s"] by auto
  next
    assume "name \<in> fst ` set es \<and> (\<exists>old env nxt d'. env_search (env_data s) name 0 0 None = Some (Some old, env, nxt) \<and>
        env_delete (env_data s) env nxt = Some d' \<and> env_models d' (drop_var name es) \<and> length d' = length (env_data s))"
    then show thesis using setenv_replace_plain [OF plain, of cfg] that by auto
  qed
  have m: "env_models d (drop_var name es)"
    using setenv_search_phase [OF es(1) name search repl] by (simp add: s1)
  obtain d' where a: "setenv_append name [v] s1 = (if length (env_bytes (drop_var name es)) + args_length name [v] > length d
        then Some (1, s1) else Some (0, setenv_special name v (env_crc_update (s1\<lparr>env_data := d'\<rparr>))))"
    "length (env_bytes (drop_var name es)) + args_length name [v] \<le> length d \<longrightarrow>
      env_models d' (drop_var name es @ [(name, v)])"
    using setenv_append_models [of s1 "drop_var name es" name v "[]"] m name v by (auto simp: s1)
  have e: "setenv cfg name (Some v) s = setenv_append name [v] s1"
    using search repl by (cases old) (auto simp: setenv_def setenv_main_def argv_at_def)
  have look: "env_lookup d'' n = env_lookup (env_data s) n" if "wf_name n" "n \<noteq> name"
    "env_models d'' (drop_var name es) \<or> env_models d'' (drop_var name es @ [(name, v)])" for d'' n
    using that es by (auto simp: env_lookup_models map_of_drop_var map_add_def split: option.splits)
  have wf': "env_models d'' (drop_var name es) \<or> env_models d'' (drop_var name es @ [(name, v)]) \<Longrightarrow> env_data s'' = d'' \<Longrightarrow> env_wf s''" for d'' s''
    using distinct_drop_var [OF es(2)] distinct_set_var [OF es(2)] by (auto simp: env_wf_def)
  show ?thesis
  proof (cases "length (env_bytes (drop_var name es)) + args_length name [v] > length d")
    case True
    then have "setenv cfg name (Some v) s = Some (1, s1)" using a(1) e by simp
    moreover have "env_wf s1" by (rule wf' [of d]) (use m in \<open>simp_all add: s1\<close>)
    moreover have "env_same {name} s s1" using look m by (simp add: env_same_def s1)
    ultimately show ?thesis by (simp add: s1)
  next
    case False
    let ?s = "setenv_special name v (env_crc_update (s1\<lparr>env_data := d'\<rparr>))"
    have "setenv cfg name (Some v) s = Some (0, ?s)" using False a(1) e by simp
    moreover have m': "env_models d' (drop_var name es @ [(name, v)])" using False a(2) by simp
    then have "env_wf ?s" by (intro wf' [of d']) (simp_all add: env_crc_update_def)
    moreover have "env_same {name} s ?s" using look m' plain
      by (auto simp: env_same_def setenv_special_same s1 env_crc_update_def)
    ultimately show ?thesis by (simp add: setenv_special_same)
  qed
qed

lemma getenv_wf: "env_wf s \<Longrightarrow> wf_name n \<Longrightarrow> getenv_str (env_data s) n = Some (env_lookup (env_data s) n)"
  using getenv_models [of "env_data s" _ n] by (auto simp: env_wf_def getenv_str_def env_lookup_def split: option.splits)

section \<open>The invariant\<close>

text \<open>The string in an array of \<open>n + 1\<close> bytes.\<close>

definition c_string :: "nat \<Rightarrow> byte list \<Rightarrow> bool" where
  "c_string n s \<longleftrightarrow> length s \<le> n \<and> 0 \<notin> set s"

text \<open>
  The lengths of the addresses and names, a well-formed environment, and no packet passed to the driver that is
  shorter than its headers or longer than an Ethernet frame may be.
\<close>

definition net_wf :: "net_state \<Rightarrow> bool" where
  "net_wf st \<longleftrightarrow>
     length (NetOurEther st) = 6 \<and> length (NetServerEther st) = 6 \<and>
     env_wf (ns_env st) \<and> length (bi_enetaddr (ns_env st)) = 6 \<and> c_string 127 (BootFile (ns_env st)) \<and>
     c_string 31 (NetOurHostName st) \<and> c_string 63 (NetOurRootPath st) \<and> c_string 31 (NetOurNISDomain st) \<and>
     length (tftp_filename st) \<le> 136 \<and> (\<forall>p \<in> set (ns_sent st). 42 \<le> length p \<and> length p \<le> 1518)"

text \<open>While the loop runs there is a handler; without DHCP it is not that of DHCP.\<close>

definition net_ok :: "net_state \<Rightarrow> bool" where
  "net_ok st \<longleftrightarrow> net_wf st \<and> packetHandler st \<noteq> None \<and> packetHandler st \<noteq> Some DhcpHandler_ptr"

lemma net_ok_wf [simp]: "net_ok st \<Longrightarrow> net_wf st"
  by (simp add: net_ok_def)

lemma net_wf_simps [simp]:
  "net_wf (NetSetHandler f st) = net_wf st" "net_wf (NetSetTimeout iv g st) = net_wf st"
  "net_wf (NetStartAgain st) = net_wf st" "net_wf (startAgainTimeout st) = net_wf st"
  "f \<noteq> DhcpHandler_ptr \<Longrightarrow> net_ok (NetSetHandler f st) = net_wf st" "net_ok (NetSetTimeout iv g st) = net_ok st"
  "net_ok (NetStartAgain st) = net_wf st" "net_ok (startAgainTimeout st) = net_ok st"
  by (simp_all add: net_ok_def net_wf_def NetSetHandler_def NetSetTimeout_def NetStartAgain_def startAgainTimeout_def)

lemma net_wf_update [simp]:
  "net_wf (st\<lparr>ns_mem := m\<rparr>) = net_wf st" "net_wf (st\<lparr>ns_now := t\<rparr>) = net_wf st" "net_wf (st\<lparr>NetRxPkt := p\<rparr>) = net_wf st"
  "net_wf (st\<lparr>NetState := x\<rparr>) = net_wf st" "net_wf (st\<lparr>timeHandler := h\<rparr>) = net_wf st" "net_wf (st\<lparr>NetIPID := i\<rparr>) = net_wf st"
  "net_wf (st\<lparr>TftpTimeoutCount := n\<rparr>) = net_wf st" "net_wf (st\<lparr>TftpBlock := b\<rparr>) = net_wf st" "net_wf (st\<lparr>TftpLastBlock := b\<rparr>) = net_wf st"
  "net_wf (st\<lparr>TftpState := ts\<rparr>) = net_wf st" "net_wf (st\<lparr>TftpServerPort := p\<rparr>) = net_wf st" "net_wf (st\<lparr>TftpOurPort := p\<rparr>) = net_wf st"
  "net_wf (st\<lparr>ArpTry := n\<rparr>) = net_wf st" "net_wf (st\<lparr>RarpTry := n\<rparr>) = net_wf st" "net_wf (st\<lparr>BootpTry := n\<rparr>) = net_wf st"
  "net_wf (st\<lparr>BootpID := p\<rparr>) = net_wf st" "net_wf (st\<lparr>NetBootFileXferSize := p\<rparr>) = net_wf st" "net_wf (st\<lparr>NetBootFileSize := w\<rparr>) = net_wf st"
  "net_wf (st\<lparr>NetOurIP := p\<rparr>) = net_wf st" "net_wf (st\<lparr>NetServerIP := p\<rparr>) = net_wf st" "net_wf (st\<lparr>NetOurGatewayIP := p\<rparr>) = net_wf st"
  "net_wf (st\<lparr>NetOurSubnetMask := p\<rparr>) = net_wf st" "net_wf (st\<lparr>NetOurDNSIP := p\<rparr>) = net_wf st"
  by (simp_all add: net_wf_def)

lemma net_ok_update [simp]:
  "net_ok (st\<lparr>ns_mem := m\<rparr>) = net_ok st" "net_ok (st\<lparr>ns_now := t\<rparr>) = net_ok st" "net_ok (st\<lparr>NetRxPkt := p\<rparr>) = net_ok st"
  "net_ok (st\<lparr>NetState := x\<rparr>) = net_ok st" "net_ok (st\<lparr>timeHandler := h\<rparr>) = net_ok st" "net_ok (st\<lparr>NetIPID := i\<rparr>) = net_ok st"
  "net_ok (st\<lparr>TftpTimeoutCount := n\<rparr>) = net_ok st" "net_ok (st\<lparr>TftpBlock := b\<rparr>) = net_ok st" "net_ok (st\<lparr>TftpLastBlock := b\<rparr>) = net_ok st"
  "net_ok (st\<lparr>TftpState := ts\<rparr>) = net_ok st" "net_ok (st\<lparr>TftpServerPort := p\<rparr>) = net_ok st"
  "net_ok (st\<lparr>TftpOurPort := p\<rparr>) = net_ok st"
  "net_ok (st\<lparr>NetBootFileXferSize := p\<rparr>) = net_ok st"
  "net_ok (st\<lparr>NetOurIP := p\<rparr>) = net_ok st" "net_ok (st\<lparr>NetServerIP := p\<rparr>) = net_ok st"
  by (simp_all add: net_ok_def)

lemma net_wf_ether [simp]:
  "net_wf st \<Longrightarrow> length a = 6 \<Longrightarrow> net_wf (st\<lparr>NetServerEther := a\<rparr>)"
  "net_ok st \<Longrightarrow> length a = 6 \<Longrightarrow> net_ok (st\<lparr>NetServerEther := a\<rparr>)"
  by (simp_all add: net_ok_def net_wf_def)

lemma net_wf_send [simp]:
  "net_wf st \<Longrightarrow> 42 \<le> length p \<Longrightarrow> length p \<le> 1518 \<Longrightarrow> net_wf (NetSendPacket p st)"
  "net_ok st \<Longrightarrow> 42 \<le> length p \<Longrightarrow> length p \<le> 1518 \<Longrightarrow> net_ok (NetSendPacket p st)"
  by (simp_all add: net_ok_def net_wf_def NetSendPacket_def)

section \<open>The requests\<close>

lemma snd_NetSetIP: "snd (NetSetIP st dest dport sport len) = st\<lparr>NetIPID := NetIPID st + 1\<rparr>"
  by (simp add: NetSetIP_def Let_def)

lemma length_NetSetIP: "length (fst (NetSetIP st dest dport sport len)) = 28"
  by (simp add: NetSetIP_def Let_def IP_HDR_SIZE_def)

lemma length_arp_packet: "length sha = 6 \<Longrightarrow> length tha = 6 \<Longrightarrow> length (arp_packet op sha spa tha tpa) = 28"
  by (simp add: arp_packet_def)

lemma net_wf_lengths: "net_wf st \<Longrightarrow> length (NetOurEther st) = 6" "net_wf st \<Longrightarrow> length (NetServerEther st) = 6"
  by (simp_all add: net_wf_def)

lemma net_ok_ArpRequest: "net_wf st \<Longrightarrow> net_ok (ArpRequest st)"
  by (simp add: ArpRequest_def Let_def NetSetEther_def NetBcastAddr_def length_arp_packet net_wf_lengths)

lemma net_ok_RarpRequest: "net_wf st \<Longrightarrow> net_ok (RarpRequest st)"
  by (simp add: RarpRequest_def Let_def NetSetEther_def NetBcastAddr_def length_arp_packet net_wf_lengths)

lemma length_BootpExtended: "length (BootpExtended opts) \<le> 129"
  by (simp add: BootpExtended_def Let_def)

lemma copy_filename_loop_bound: "length (copy_filename_loop s sz) \<le> sz - 1 \<and> set (copy_filename_loop s sz) \<subseteq> set s"
proof (induction s sz rule: copy_filename_loop.induct)
  case (2 c src sz)
  then show ?case by auto
qed simp

lemma copy_filename_bound: "length (copy_filename s 128) \<le> 127 \<and> set (copy_filename s 128) \<subseteq> set s"
  using copy_filename_loop_bound [of "tl s" 127] copy_filename_loop_bound [of s 128]
  by (cases s) (auto simp: copy_filename_def)

lemma length_copy_filename: "length (copy_filename s 128) \<le> 127"
  using copy_filename_bound by blast

lemma net_ok_BootpRequest:
  assumes "net_wf st" "\<not> bo_dhcp bo"
  shows "net_ok (BootpRequest bo st)"
  using assms length_BootpExtended [of "bo_mask bo"] length_copy_filename [of "BootFile (ns_env st)"]
  by (simp add: BootpRequest_def Let_def split_beta snd_NetSetIP length_NetSetIP NetSetEther_def NetBcastAddr_def net_wf_lengths)

section \<open>TFTP\<close>

lemma number_hex_padded: "\<exists>s. number y 16 2 (-1) (fZEROPAD OR fLARGE) = Some s \<and> length s \<le> 33"
proof -
  define F where "F = fZEROPAD OR fLARGE"
  define t where "t = (if y = 0 then [48] else digit_loop digits_upper 16 y)"
  have fl: "F AND fLARGE \<noteq> 0" "F AND fLEFT = 0" "F AND fZEROPAD \<noteq> 0" "F AND fSIGN = 0" "F AND fSPECIAL = 0"
    "F AND (fZEROPAD OR fLEFT) \<noteq> 0"
    by (simp_all add: F_def flag_defs)
  have "number y 16 2 (-1) F = Some (replicate (nat (2 - int (length t))) 48 @ rev t)"
    by (cases "y = 0") (simp_all add: number_def fl Let_def pad_loop_def t_def)
  moreover have "length (digit_loop digits_upper 16 y) \<le> 32"
    by (rule digit_loop_bound) (use unsigned_less [where ?'a = nat, of y] in simp_all)
  then have "length t \<le> 32" by (simp add: t_def)
  then have "nat (2 - int (length t)) + length t \<le> 33" by linarith
  ultimately show ?thesis by (simp add: F_def)
qed

lemma tftp_name_bound: 
  assumes "length (BootFile (ns_env st)) \<le> 127"
  shows "\<exists>name. tftp_name st = Some name \<and> length name \<le> 136"
proof (cases "BootFile (ns_env st) = []")
  case True
  obtain n where n: "number y 16 2 (-1) (fZEROPAD OR fLARGE) = Some (n y)" "length (n y) \<le> 33" for y
    using number_hex_padded by metis
  show ?thesis
    using True n(2) [of "NetOurIP st AND 255"] n(2) [of "drop_bit 8 (NetOurIP st) AND 255"]
      n(2) [of "drop_bit 16 (NetOurIP st) AND 255"] n(2) [of "drop_bit 24 (NetOurIP st) AND 255"]
    by (simp add: tftp_name_def sprintf_def vsprintf_def directive_def conversion_def parse_flags.simps
        parse_width_def parse_precision_def is_digit_def fetch_num_def Let_def skip_atoi.simps n(1))
qed (use assms in \<open>simp add: tftp_name_def\<close>)

lemma length_tftp_packet: "net_wf st \<Longrightarrow> length (tftp_packet st) \<le> 200"
  by (auto simp: tftp_packet_def net_wf_def split: tftp_state.split)

lemma net_ok_TftpSend [simp]: "net_ok st \<Longrightarrow> net_ok (TftpSend st)"
  using length_tftp_packet [of st]
  by (simp add: TftpSend_def Let_def split_beta snd_NetSetIP length_NetSetIP NetSetEther_def net_wf_lengths)

lemma net_ok_store_block [simp]: "net_ok st \<Longrightarrow> net_ok (store_block b src len st)"
  by (simp add: store_block_def Let_def)

lemma net_ok_tftp_data: "net_ok st \<Longrightarrow> net_ok (tftp_data pkt src len st)"
  by (simp add: tftp_data_def Let_def)

lemma net_ok_TftpHandler: "net_ok st \<Longrightarrow> net_ok (TftpHandler pkt dest src len st)"
  by (simp add: TftpHandler_def Let_def net_ok_tftp_data)

lemma net_ok_TftpStart: "net_wf st \<Longrightarrow> \<exists>st'. TftpStart st = Some st' \<and> net_ok st'"
proof -
  assume wf: "net_wf st"
  obtain name where name: "tftp_name st = Some name" "length name \<le> 136"
    using tftp_name_bound [of st] wf by (auto simp: net_wf_def c_string_def)
  have "net_wf (st\<lparr>tftp_filename := name\<rparr>)" using wf name(2) by (simp add: net_wf_def)
  then have "net_ok (NetSetHandler TftpHandler_ptr (NetSetTimeout (TFTP_TIMEOUT * CFG_HZ) (Some TftpTimeout_ptr) (st\<lparr>tftp_filename := name\<rparr>)))"
    by simp
  then show ?thesis by (simp add: TftpStart_def name(1) Let_def)
qed

section \<open>BOOTP\<close>

lemma vendor_string_bound: "0 < n \<Longrightarrow> c_string (n - 1) (vendor_string m ext n sz)"
  using length_takeWhile_le [of "\<lambda>c. c \<noteq> 0" "mread m (ext + 2) (truncate_sz n sz)"]
  by (auto simp: c_string_def vendor_string_def truncate_sz_def dest: set_takeWhileD split: if_splits)

lemma net_wf_names [simp]:
  "net_wf st \<Longrightarrow> c_string 31 s \<Longrightarrow> net_wf (st\<lparr>NetOurHostName := s\<rparr>)"
  "net_wf st \<Longrightarrow> c_string 63 s \<Longrightarrow> net_wf (st\<lparr>NetOurRootPath := s\<rparr>)"
  "net_wf st \<Longrightarrow> c_string 31 s \<Longrightarrow> net_wf (st\<lparr>NetOurNISDomain := s\<rparr>)"
  by (simp_all add: net_wf_def)

lemma vendor_field:
  "net_wf st \<Longrightarrow> net_wf (BootpVendorFieldProcess ext st)"
  "packetHandler (BootpVendorFieldProcess ext st) = packetHandler st"
  "ns_mem (BootpVendorFieldProcess ext st) = ns_mem st"
proof -
  note d = BootpVendorFieldProcess_def Let_def
  have s: "c_string 31 (vendor_string m a 32 n)" "c_string 63 (vendor_string m a 64 n)" for m a n
    using vendor_string_bound [of 32 m a n] vendor_string_bound [of 64 m a n] by simp_all
  show "net_wf st \<Longrightarrow> net_wf (BootpVendorFieldProcess ext st)"
    unfolding d by (simp add: s)
  show "packetHandler (BootpVendorFieldProcess ext st) = packetHandler st" 
  "ns_mem (BootpVendorFieldProcess ext st) = ns_mem st"
    unfolding d by simp_all
qed

lemma unat_ucast_less: "unat (ucast (b :: 8 word) :: u32) < 256" "unat (ucast (x :: 16 word) :: u32) < 65536"
proof -
  have "unat (ucast b :: u32) = take_bit 32 (unat b)" by (simp add: unsigned_ucast_eq)
  also have "\<dots> \<le> unat b" by (rule take_bit_nat_less_eq_self)
  also have "\<dots> < 256" using unsigned_less [where ?'a = nat, of b] by simp
  finally show "unat (ucast b :: u32) < 256" .
  have "unat (ucast x :: u32) = take_bit 32 (unat x)" by (simp add: unsigned_ucast_eq)
  also have "\<dots> \<le> unat x" by (rule take_bit_nat_less_eq_self)
  also have "\<dots> < 65536" using unsigned_less [where ?'a = nat, of x] by simp
  finally show "unat (ucast x :: u32) < 65536" .
qed

text \<open>The loop over the vendor area ends if the area does, with room for one more field, before the addresses wrap round.\<close>

lemma vendor_loop_total:
  assumes "unat lim + 257 \<le> 2 ^ 32" and "net_wf st"
  shows "\<exists>st'. vendor_loop ext lim st = Some st' \<and> net_wf st' \<and> packetHandler st' = packetHandler st \<and> ns_mem st' = ns_mem st"
  using assms
proof (induction "unat lim - unat ext" arbitrary: ext st rule: less_induct)
  case less
  have next_field: "\<exists>st'. vendor_loop (ext + d) lim st1 = Some st' \<and> net_wf st' \<and> packetHandler st' = packetHandler st \<and> ns_mem st' = ns_mem st"
    if e: "ext < lim" and d: "0 < unat d" "unat d \<le> 257" and st1: "net_wf st1" "packetHandler st1 = packetHandler st" "ns_mem st1 = ns_mem st"
    for d st1
  proof -
    have "unat ext < unat lim" using e by (simp add: word_less_nat_alt)
    then have "unat (ext + d) = unat ext + unat d" using d less.prems(1) by (intro unat_add_lem [THEN iffD1]) simp
    then have "unat lim - unat (ext + d) < unat lim - unat ext" using d \<open>unat ext < unat lim\<close> by simp
    from less.hyps [OF this less.prems(1) st1(1)] show ?thesis using st1(2,3) by simp
  qed
  show ?case
  proof (cases "ext < lim \<and> ns_mem st ext \<noteq> 0xff")
    case False
    then show ?thesis using less.prems(2) by (subst vendor_loop.simps) auto
  next
    case True
    show ?thesis
    proof (cases "ns_mem st ext = 0")
      case z: True
      then show ?thesis using True next_field [of 1 st] less.prems(2) by (subst vendor_loop.simps) simp
    next
      case False
      let ?d = "ucast (ns_mem st (ext + 1)) + 2 :: u32"
      have "unat (ucast (ns_mem st (ext + 1)) :: u32) < 256"
        by (rule unat_ucast_less)
      then have "unat ?d = unat (ucast (ns_mem st (ext + 1)) :: u32) + 2" by (subst unat_add_lem [THEN iffD1]) simp_all
      with \<open>unat (ucast (ns_mem st (ext + 1)) :: u32) < 256\<close> have d: "0 < unat ?d" "unat ?d \<le> 257" by simp_all
      let ?st = "if ext + ?d \<le> lim then BootpVendorFieldProcess ext st else st"
      have "net_wf ?st" "packetHandler ?st = packetHandler st" "ns_mem ?st = ns_mem st"
        using less.prems(2) by (simp_all add: vendor_field)
      with next_field [of ?d ?st] True d show ?thesis using False by (subst vendor_loop.simps) (simp add: Let_def)
    qed
  qed
qed

text \<open>The end of the area as \<open>BootpHandler\<close> computes it; a length that is too small for a datagram wraps round.\<close>

lemma area_end:
  assumes "8 \<le> unat (ext :: u32)" and "unat ext + 65536 \<le> 2 ^ 32"
  shows "unat (ext + (ucast (x :: u16) - 8)) \<le> unat ext + 65535"
proof -
  define k where "k = unat (ucast x :: u32)"
  have k: "k < 65536" unfolding k_def by (rule unat_ucast_less)
  have eq: "ext + (ucast x - 8) = (ext - 8) + ucast x" by simp
  moreover have e: "unat (ext - 8) = unat ext - 8" using unat_sub [of 8 ext] assms(1) by (simp add: word_le_nat_alt)
  moreover have "unat ((ext - 8) + ucast x) = unat (ext - 8) + k"
    using assms(2) k e unfolding k_def by (intro unat_add_lem [THEN iffD1]) simp
  ultimately show ?thesis using k unfolding eq by simp
qed

lemma net_wf_env [simp]:
  "net_wf st \<Longrightarrow> env_wf env \<Longrightarrow> length (bi_enetaddr env) = 6 \<Longrightarrow> c_string 127 (BootFile env) \<Longrightarrow> net_wf (st\<lparr>ns_env := env\<rparr>)"
  by (simp add: net_wf_def)

lemma array_string_nonzero: "0 \<notin> set (array_string m a n)"
  by (auto simp: array_string_def dest: set_takeWhileD)

lemma copy_filename_string: "0 \<notin> set s \<Longrightarrow> c_string 127 (copy_filename s 128)"
  using copy_filename_bound [of s] by (auto simp: c_string_def)

lemma bootfile_name: "wf_name (str ''bootfile'')" "plain_name (str ''bootfile'')" "wf_name (str ''autoload'')"
  "wf_name (str ''filesize'')" "plain_name (str ''filesize'')" "wf_name (str ''serverip'')" "wf_name (str ''gatewayip'')" "wf_name (str ''netmask'')"
  by (simp_all add: wf_name_def plain_name_def)

lemma copy_params_total:
  assumes "net_ok st"
  shows "\<exists>st'. BootpCopyNetParams cfg bp st = Some st' \<and> net_ok st'"
proof -
  let ?f = "copy_filename (array_string (ns_mem st) (bp + bp_file) 128) 128"
  let ?env = "(ns_env st)\<lparr>BootFile := ?f\<rparr>"
  let ?st = "st\<lparr>NetOurIP := mem_be32 (ns_mem st) (bp + bp_yiaddr), NetServerIP := mem_be32 (ns_mem st) (bp + bp_siaddr),
      NetServerEther := mread (ns_mem st) (NetRxPkt st + 6) 6\<rparr>"
  have f: "c_string 127 ?f" by (rule copy_filename_string) (rule array_string_nonzero)
  have st: "net_wf ?st" "packetHandler ?st \<noteq> None" "packetHandler ?st \<noteq> Some DhcpHandler_ptr" using assms by (simp_all add: net_ok_def)
  have e: "env_wf ?env" "length (bi_enetaddr ?env) = 6" using assms by (simp_all add: net_ok_def net_wf_def env_wf_def)
  then have w: "net_wf (?st\<lparr>ns_env := ?env\<rparr>)" using st f by simp
  obtain r env where s: "setenv cfg (str ''bootfile'') (Some ?f) ?env = Some (r, env)" "env_wf env" "env_same {str ''bootfile''} ?env env"
      "BootFile env \<in> {BootFile ?env, copy_filename ?f 128}"
    using setenv_same [OF e(1) bootfile_name(1,2), of ?f cfg] f by (auto simp: c_string_def)
  then have "c_string 127 (BootFile env)" "length (bi_enetaddr env) = 6"
    using f copy_filename_string [of ?f] e(2) by (auto simp: c_string_def env_same_def)
  then have w': "net_wf (?st\<lparr>ns_env := env\<rparr>)" using st s(2) by simp
  have "BootpCopyNetParams cfg bp st = Some (?st\<lparr>ns_env := if ?f = [] then ?env else env\<rparr>)"
  proof (cases "?f = []")
    case True
    then show ?thesis unfolding BootpCopyNetParams_def Let_def by simp
  next
    case False
    then have "BootpCopyNetParams cfg bp st = Option.bind (setenv cfg (str ''bootfile'') (Some ?f) ?env) (\<lambda>(r, env). Some (?st\<lparr>ns_env := env\<rparr>))"
      unfolding BootpCopyNetParams_def Let_def by simp
    then show ?thesis unfolding s(1) using False by simp
  qed
  moreover have "packetHandler (?st\<lparr>ns_env := x\<rparr>) \<noteq> None" "packetHandler (?st\<lparr>ns_env := x\<rparr>) \<noteq> Some DhcpHandler_ptr" for x using st(2,3) by simp_all
  then have "net_ok (?st\<lparr>ns_env := if ?f = [] then ?env else env\<rparr>)" using w w' unfolding net_ok_def by presburger
  ultimately show ?thesis by blast
qed

lemma BootpHandler_total:
  assumes ok: "net_ok st" and pkt: "unat (pkt + bp_vend + 4 + len) + 257 \<le> 2 ^ 32"
  shows "\<exists>st'. BootpHandler cfg pkt dest src len st = Some st' \<and> net_ok st'"
proof (cases "BootpCheckPkt pkt dest src len st = 0")
  case True
  obtain st1 where st1: "BootpCopyNetParams cfg pkt st = Some st1" "net_ok st1" using copy_params_total [OF ok] by blast
  let ?vendor = "mem_be32 (ns_mem st1) (pkt + bp_vend) = BOOTP_VENDOR_MAGIC"
  obtain v where v: "BootpVendorProcess (pkt + bp_vend + 4) len st1 = Some v" "net_wf v" "packetHandler v = packetHandler st1"
    using vendor_loop_total [OF pkt, of st1 "pkt + bp_vend + 4"] st1(2) by (auto simp: BootpVendorProcess_def)
  define st2 where "st2 = (if ?vendor then v else st1)"
  have st2: "(if ?vendor then BootpVendorProcess (pkt + bp_vend + 4) len st1 else Some st1) = Some st2" "net_wf st2"
    "packetHandler st2 = packetHandler st1" using v st1(2) by (simp_all add: st2_def)
  have "net_ok st2" using st2 st1(2) by (simp add: net_ok_def)
  moreover obtain v where "getenv_str (env_data (ns_env st2)) (str ''autoload'') = Some v"
    using st2(2) getenv_wf [of "ns_env st2" "str ''autoload''"] bootfile_name(3) by (auto simp: net_wf_def)
  ultimately show ?thesis using True st1(1) st2(1) net_ok_ArpRequest [of "NetSetTimeout 0 None st2"]
    by (simp add: BootpHandler_def Let_def)
qed (use ok in \<open>simp add: BootpHandler_def\<close>)

section \<open>Without BOOTP\<close>

text \<open>
  When DHCP is configured its handler takes the place of that of BOOTP, and it need not return
  (\<open>NetErrors\<close>). The other protocols never install it.
\<close>

definition calm :: "net_config \<Rightarrow> net_state \<Rightarrow> bool" where
  "calm cfg st \<longleftrightarrow> bo_dhcp (nc_bootp cfg) \<longrightarrow> timeHandler st \<noteq> Some BootpTimeout_ptr \<and>
     packetHandler st \<noteq> Some BootpHandler_ptr \<and> packetHandler st \<noteq> Some DhcpHandler_ptr"

lemmas calm_defs = calm_def NetSetHandler_def NetSetTimeout_def NetStartAgain_def NetSendPacket_def Let_def

lemma calm_no_dhcp: "\<not> bo_dhcp (nc_bootp cfg) \<Longrightarrow> calm cfg st"
  by (simp add: calm_def)

lemma calm_TftpSend [simp]: "calm cfg (TftpSend st) = calm cfg st"
  by (simp add: TftpSend_def NetSetIP_def calm_defs)

lemma calm_requests:
  "calm cfg (ArpRequest st)" "calm cfg (RarpRequest st)"
  by (simp_all add: ArpRequest_def RarpRequest_def calm_defs ARP_TIMEOUT_def RARP_TIMEOUT_def CFG_HZ_def)

lemma calm_NetSetTimeout: "calm cfg st \<Longrightarrow> h \<noteq> Some BootpTimeout_ptr \<Longrightarrow> calm cfg (NetSetTimeout iv h st)"
  by (simp add: calm_defs)

lemma calm_NetStartAgain: "calm cfg (NetStartAgain st)"
  by (simp add: calm_defs CFG_HZ_def)

lemma calm_update [simp]:
  "calm cfg (st\<lparr>ns_mem := m\<rparr>) = calm cfg st" "calm cfg (st\<lparr>ns_now := t\<rparr>) = calm cfg st" "calm cfg (st\<lparr>NetRxPkt := p\<rparr>) = calm cfg st"
  "calm cfg (st\<lparr>NetState := x\<rparr>) = calm cfg st" "calm cfg (st\<lparr>TftpBlock := b\<rparr>) = calm cfg st" "calm cfg (st\<lparr>TftpState := z\<rparr>) = calm cfg st"
  "calm cfg (st\<lparr>TftpServerPort := q\<rparr>) = calm cfg st" "calm cfg (st\<lparr>TftpLastBlock := b\<rparr>) = calm cfg st"
  "calm cfg (st\<lparr>NetBootFileXferSize := n\<rparr>) = calm cfg st" "calm cfg (st\<lparr>TftpTimeoutCount := k\<rparr>) = calm cfg st" "calm cfg (st\<lparr>NetOurIP := a\<rparr>) = calm cfg st"
  "calm cfg (st\<lparr>NetServerIP := a\<rparr>) = calm cfg st" "calm cfg (st\<lparr>NetServerEther := e\<rparr>) = calm cfg st"
  "calm cfg (NetSendPacket pkt st) = calm cfg st" "calm cfg (store_block b src len st) = calm cfg st"
  by (simp_all add: calm_def NetSendPacket_def store_block_def Let_def)

lemma calm_TftpHandler: "calm cfg st \<Longrightarrow> calm cfg (TftpHandler pkt dest src len st)"
  by (simp add: TftpHandler_def tftp_data_def Let_def calm_NetSetTimeout calm_NetStartAgain)

lemma calm_TftpStart: "TftpStart st = Some st' \<Longrightarrow> calm cfg st'"
  by (auto simp: TftpStart_def TftpSend_def NetSetIP_def calm_defs TFTP_TIMEOUT_def CFG_HZ_def split: bind_splits)

lemma calm_call_handler:
  assumes "calm cfg st" and "call_handler cfg pkt dest src len st = Some st'"
  shows "calm cfg st'"
proof (cases "bo_dhcp (nc_bootp cfg)")
  case True
  then show ?thesis
    using assms calm_TftpHandler [of cfg st] calm_TftpStart [of st st' cfg]
    by (auto simp: call_handler_def ArpHandler_def RarpHandler_def calm_def split: option.splits rxhand.splits if_splits)
qed (simp add: calm_def)

lemma calm_NetReceive:
  assumes "calm cfg st" and "NetReceive cfg pkt len st = Some st'"
  shows "calm cfg st'"
proof -
  have h: "calm cfg s \<Longrightarrow> call_handler cfg a b c d s = Some st' \<Longrightarrow> calm cfg st'" for s a b c d by (rule calm_call_handler)
  have "calm cfg (arp_reply a b s) = calm cfg s" for a b s by (simp add: arp_reply_def Let_def)
  then have a: "receive_arp cfg pkt ip l s = Some st' \<Longrightarrow> calm cfg s \<Longrightarrow> calm cfg st'" for ip l s
    using h [of "s\<lparr>NetServerEther := mread (ns_mem s) (ip + 8) 6\<rparr>" 0 0 0 0] by (auto simp: receive_arp_def Let_def split: if_splits)
  have b: "receive_rarp cfg ip l s = Some st' \<Longrightarrow> calm cfg s \<Longrightarrow> calm cfg st'" for ip l s
    using h [of "s\<lparr>NetOurIP := mem_be32 (ns_mem s) (ip + 8 + 16), NetServerIP := mem_be32 (ns_mem s) (ip + 8 + 6),
      NetServerEther := mread (ns_mem s) (ip + 8) 6\<rparr>" 0 0 0 0]
    by (auto simp: receive_rarp_def Let_def split: if_splits)
  show ?thesis
    using assms a b h [of "st\<lparr>NetRxPkt := pkt\<rparr>"] by (auto simp: NetReceive_def Let_def split: prod.splits if_splits option.splits)
qed

lemma calm_receive_frames: "calm cfg st \<Longrightarrow> receive_frames cfg fs st = Some st' \<Longrightarrow> calm cfg st'"
proof (induction fs arbitrary: st)
  case (Cons f fs)
  then obtain st1 where s: "receive_frame cfg f st = Some st1" "receive_frames cfg fs st1 = Some st'" by (auto split: bind_splits)
  from s(1) [unfolded receive_frame_def] have "calm cfg st1" by (rule calm_NetReceive [rotated]) (use Cons.prems(1) in simp)
  then show ?case using Cons.IH s(2) by blast
qed simp

lemma calm_call_timeout: "calm cfg st \<Longrightarrow> h \<noteq> BootpTimeout_ptr \<Longrightarrow> calm cfg (call_timeout cfg h st)"
  by (cases h) (simp_all add: call_timeout_def startAgainTimeout_def ArpTimeout_def RarpTimeout_def TftpTimeout_def Let_def
      calm_requests calm_NetStartAgain calm_NetSetTimeout)

lemma calm_check_timeout:
  assumes "calm cfg st"
  shows "calm cfg (check_timeout cfg st)"
proof (cases "bo_dhcp (nc_bootp cfg)")
  case True
  have "calm cfg (st\<lparr>timeHandler := None\<rparr>)" "timeHandler st \<noteq> Some BootpTimeout_ptr" using assms True by (simp_all add: calm_def)
  then show ?thesis using assms by (auto simp: check_timeout_def split: option.split intro!: calm_call_timeout)
qed (simp add: calm_def)

section \<open>Reception\<close>

lemma call_handler_total:
  assumes "net_ok st" and "unat (pkt + bp_vend + 4 + len) + 257 \<le> 2 ^ 32"
  shows "\<exists>st'. call_handler cfg pkt dest src len st = Some st' \<and> net_ok st'"
proof -
  obtain h where h: "packetHandler st = Some h" using assms(1) by (auto simp: net_ok_def)
  have arp: "\<exists>st'. ArpHandler st = Some st' \<and> net_ok st'" "\<exists>st'. RarpHandler st = Some st' \<and> net_ok st'"
    using assms(1) net_ok_TftpStart [of st] by (simp_all add: ArpHandler_def RarpHandler_def)
  show ?thesis
    using arp assms(1) BootpHandler_total [OF assms] net_ok_TftpHandler [OF assms(1)]
    by (cases h) (simp_all add: call_handler_def h net_ok_def)
qed

lemma net_ok_arp_reply: "net_ok st \<Longrightarrow> arp - pkt = 14 \<or> arp - pkt = 22 \<Longrightarrow> net_ok (arp_reply pkt arp st)"
  by (auto simp: arp_reply_def Let_def ARP_HDR_SIZE_def)

definition low_buffer :: "u32 \<Rightarrow> bool" where
  "low_buffer a \<longleftrightarrow> unat a + 2 ^ 17 \<le> 2 ^ 32"

lemma NetReceive_total:
  assumes "net_ok st" and "low_buffer pkt"
  shows "\<exists>st'. NetReceive cfg pkt len st = Some st' \<and> net_ok st'"
proof -
  let ?st = "st\<lparr>NetRxPkt := pkt\<rparr>"
  obtain x ip l where p: "frame_packet (ns_mem st) pkt len = (x, ip, l)" by (metis prod_cases3)
  then have ip: "ip = pkt + 14 \<or> ip = pkt + 22"
    by (auto simp: frame_packet_def Let_def E802_HDR_SIZE_def ETHER_HDR_SIZE_def split: if_splits)
  have zero: "unat (0 + bp_vend + 4 + 0) + 257 \<le> 2 ^ 32" by (simp add: bp_vend_def)
  have arp: "\<exists>st'. receive_arp cfg pkt ip l ?st = Some st' \<and> net_ok st'"
    using assms(1) ip call_handler_total [OF _ zero] by (auto simp: receive_arp_def Let_def intro!: net_ok_arp_reply)
  have rarp: "\<exists>st'. receive_rarp cfg ip l ?st = Some st' \<and> net_ok st'"
    using assms(1) call_handler_total [OF _ zero] by (auto simp: receive_rarp_def Let_def)
  have data: "\<exists>st'. call_handler cfg d dp sp dl ?st = Some st' \<and> net_ok st'" if r: "receive_ip ip l ?st = Some (d, dp, sp, dl)" for d dp sp dl
  proof (rule call_handler_total)
    obtain y :: u16 where y: "d = ip + 28" "dl = ucast y - 8"
      using r by (auto simp: receive_ip_def Let_def IP_HDR_SIZE_def split: if_splits)
    obtain k where k: "d + bp_vend + 4 = pkt + of_nat k" "k = 282 \<or> k = 290"
      using ip by (auto simp: y bp_vend_def intro: that [of 282] that [of 290])
    have "unat (pkt + of_nat k) = unat pkt + k" by (rule unat_add_of_nat) (use assms(2) k(2) in \<open>auto simp: low_buffer_def\<close>)
    then show "unat (d + bp_vend + 4 + dl) + 257 \<le> 2 ^ 32"
      using area_end [of "pkt + of_nat k" y] assms(2) k unfolding k(1) y(2) low_buffer_def by auto
  qed (use assms(1) in simp)
  have "\<exists>st'. (case receive_ip ip l ?st of None \<Rightarrow> Some ?st | Some (d, dp, sp, dl) \<Rightarrow> call_handler cfg d dp sp dl ?st) = Some st' \<and> net_ok st'"
    using data assms(1) by (cases "receive_ip ip l ?st") auto
  then show ?thesis using arp rarp assms(1) by (simp add: NetReceive_def p Let_def)
qed

lemma receive_frames_total:
  assumes "net_ok st" and "\<forall>f \<in> set fs. low_buffer (fst f)"
  shows "\<exists>st'. receive_frames cfg fs st = Some st' \<and> net_ok st'"
  using assms
proof (induction fs arbitrary: st)
  case (Cons f fs)
  then obtain st1 where "receive_frame cfg f st = Some st1" "net_ok st1"
    using NetReceive_total [of "st\<lparr>ns_mem := mwrite (ns_mem st) (fst f) (snd f)\<rparr>" "fst f" cfg "int (length (snd f))"]
    by (auto simp: receive_frame_def)
  then show ?case using Cons by auto
qed simp


section \<open>Time\<close>

lemma net_ok_TftpTimeout: "net_ok st \<Longrightarrow> net_ok (TftpTimeout st)"
  by (simp add: TftpTimeout_def Let_def)

lemma net_ok_ArpTimeout: "net_ok st \<Longrightarrow> net_ok (ArpTimeout st)"
  by (simp add: ArpTimeout_def net_ok_ArpRequest)

lemma net_ok_RarpTimeout: "net_ok st \<Longrightarrow> net_ok (RarpTimeout st)"
  by (simp add: RarpTimeout_def net_ok_RarpRequest)

lemma net_ok_BootpTimeout: "net_ok st \<Longrightarrow> \<not> bo_dhcp bo \<Longrightarrow> net_ok (BootpTimeout bo st)"
  by (simp add: BootpTimeout_def net_ok_BootpRequest)

lemma net_ok_check_timeout: "net_ok st \<Longrightarrow> calm cfg st \<Longrightarrow> net_ok (check_timeout cfg st)"
  by (cases "timeHandler st = Some BootpTimeout_ptr")
    (auto simp: check_timeout_def call_timeout_def net_ok_TftpTimeout net_ok_ArpTimeout net_ok_RarpTimeout net_ok_BootpTimeout calm_def
      split: option.split thand.split)

section \<open>The loop\<close>

lemma getenv_IPaddr_total: "env_wf env \<Longrightarrow> wf_name n \<Longrightarrow> \<exists>a. getenv_IPaddr env n = Some a"
  by (simp add: getenv_IPaddr_def getenv_wf)

text \<open>The protocols for which \<open>NetLoop\<close> sets a handler that always returns.\<close>

definition boot_protocols :: "net_config \<Rightarrow> proto_t set" where
  "boot_protocols cfg = (if bo_dhcp (nc_bootp cfg) then {RARP, TFTP} else {BOOTP, RARP, TFTP})"

lemma boot_protocols_simps [simp]: "TFTP \<in> boot_protocols cfg" "RARP \<in> boot_protocols cfg"
  by (simp_all add: boot_protocols_def)

lemma net_start_total:
  assumes wf: "net_wf st" and p: "protocol \<in> boot_protocols cfg"
  shows "\<exists>ok st'. net_start cfg protocol st = Some (ok, st') \<and> net_wf st' \<and> (ok \<longrightarrow> net_ok st' \<and> calm cfg st')"
proof -
  have e: "env_wf (ns_env st)" "length (bi_enetaddr (ns_env st)) = 6" using wf by (simp_all add: net_wf_def)
  obtain a b c where g: "getenv_IPaddr (ns_env st) (str ''serverip'') = Some a"
    "getenv_IPaddr (ns_env st) (str ''gatewayip'') = Some b" "getenv_IPaddr (ns_env st) (str ''netmask'') = Some c"
    using getenv_IPaddr_total [OF e(1)] bootfile_name by metis
  have "net_wf (st\<lparr>NetOurEther := bi_enetaddr (ns_env st)\<rparr>)" using wf e(2) by (simp add: net_wf_def)
  then show ?thesis using p g
    by (auto simp: boot_protocols_def net_start_def Let_def calm_requests calm_no_dhcp net_ok_ArpRequest net_ok_BootpRequest net_ok_RarpRequest split: if_splits)
qed

lemma sprintf_lx: "sprintf (str ''%lx'') [VaWord w] = Some (digit_string 16 w)"
  by (simp add: sprintf_def vsprintf_def directive_def conversion_def parse_flags.simps
        parse_width_def parse_precision_def is_digit_def fetch_num_def Let_def number_plain)

lemma net_success_total:
  assumes "net_wf st"
  shows "\<exists>r st'. net_success cfg st = Some (r, st') \<and> net_wf st'"
proof -
  have nz: "0 \<notin> set (digit_string 16 w)" for w using digit_string_range [of 16 0 w] by (auto simp: isxdigit_range)
  obtain r env where s: "setenv (nc_env cfg) (str ''filesize'') (Some (digit_string 16 (NetBootFileXferSize st))) (ns_env st) = Some (r, env)"
    "env_wf env" "env_same {str ''filesize''} (ns_env st) env"
    using setenv_same [OF _ bootfile_name(4,5) nz [of "NetBootFileXferSize st"], of "ns_env st" "nc_env cfg"] assms
    by (auto simp: net_wf_def)
  moreover have "net_wf (st\<lparr>ns_env := env\<rparr>)" using assms s(2,3) by (auto simp: net_wf_def env_same_def)
  ultimately show ?thesis using assms unfolding net_success_def sprintf_lx bind.bind_lunit s(1) by auto
qed

fun result_state :: "net_result \<Rightarrow> net_state" where
  "result_state (Net_Returned r st) = st"
| "result_state (Net_Waiting st) = st"

lemma net_loop_total:
  assumes "net_ok st" "calm cfg st" and "protocol \<in> boot_protocols cfg" and "\<forall>t \<in> set ts. \<forall>f \<in> set (nt_frames t). low_buffer (fst f)"
  shows "\<exists>r. net_loop cfg protocol ts st = Some r \<and> net_wf (result_state r)"
  using assms(1,2,4)
proof (induction ts arbitrary: st)
  case (Cons t ts)
  obtain st1 where r: "receive_frames cfg (nt_frames t) (st\<lparr>ns_now := nt_time t\<rparr>) = Some st1" "net_ok st1"
    using receive_frames_total [of "st\<lparr>ns_now := nt_time t\<rparr>" "nt_frames t" cfg] Cons.prems by auto
  let ?st = "check_timeout cfg st1"
  have c: "calm cfg st1" by (rule calm_receive_frames [OF _ r(1)]) (use Cons.prems(2) in simp)
  have ok: "net_ok ?st" "calm cfg ?st" using net_ok_check_timeout [OF r(2) c] calm_check_timeout [OF c] by simp_all
  have again: "\<exists>r. net_loop cfg protocol ts st' = Some r \<and> net_wf (result_state r)" if "net_ok st'" "calm cfg st'" for st'
    using Cons.IH [OF that] Cons.prems(3) by auto
  obtain go st2 where restart: "net_start cfg protocol ?st = Some (go, st2)" "net_wf st2" "go \<longrightarrow> net_ok st2 \<and> calm cfg st2"
    using net_start_total [of ?st protocol cfg] ok assms(3) by auto
  obtain v st3 where success: "net_success cfg ?st = Some (v, st3)" "net_wf st3" using net_success_total [of ?st cfg] ok by auto
  show ?case
    using r again [OF ok] again [of st2] restart success net_ok_wf [OF ok(1)] by (cases "NetState ?st") (auto simp: Let_def)
qed simp

lemma NetLoop_total:
  assumes "net_wf st" and "protocol \<in> boot_protocols cfg" and "\<forall>t \<in> set ts. \<forall>f \<in> set (nt_frames t). low_buffer (fst f)"
  shows "\<exists>r. NetLoop cfg protocol ts st = Some r \<and> net_wf (result_state r)"
proof -
  obtain ok st1 where "net_start cfg protocol st = Some (ok, st1)" "net_wf st1" "ok \<longrightarrow> net_ok st1 \<and> calm cfg st1"
    using net_start_total [OF assms(1,2)] by blast
  then show ?thesis using net_loop_total [OF _ _ assms(2,3)] by (cases ok) (auto simp: NetLoop_def)
qed

text \<open>
  C12: the network code is safe for RARP and TFTP, and for BOOTP in a build without the DHCP client (\<open>boot_protocols\<close>): on a
  board with a well-formed environment, whatever frames arrive in receive buffers below the last 128 KB of the address space
  and whenever timers expire, \<open>NetLoop\<close> never calls a null handler, never reads or writes outside the
  environment and never gets stuck in a handler, all names and addresses fit their arrays, the environment stays
  well formed, and every packet handed to the driver has the size of an Ethernet frame. It is not so for the DHCP client, whose scan
  for the message type need not end (\<open>dhcp_type_behind_packet\<close>).
\<close>

theorem NetLoop_safe:
  assumes "net_wf st" and "protocol \<in> boot_protocols cfg" and "\<forall>t \<in> set ts. \<forall>f \<in> set (nt_frames t). low_buffer (fst f)"
  shows "\<exists>r. NetLoop cfg protocol ts st = Some r \<and> net_wf (result_state r)"
  using assms by (rule NetLoop_total)

section \<open>An instance\<close>

lemma demo_env_models: "env_models (env_data demo_env) [(str ''a'', str ''1'')]"
proof -
  have "env_data demo_env = env_body [(str ''a'', str ''1'')] @ 0 # 0 # replicate 38 0"
    unfolding demo_env_def by code_simp
  then show ?thesis by (auto simp: env_models_def wf_var_def wf_name_def)
qed

lemma demo_env_wf: "env_wf demo_env"
  using demo_env_models by (auto simp: env_wf_def)

lemma demo_net_wf: "net_wf demo_net"
  using demo_env_wf by (simp add: net_wf_def demo_net_def c_string_def) (simp add: demo_env_def)

definition demo_config :: net_config where
  "demo_config = \<lparr>nc_env = \<lparr>cfg_overwrite = False, baudrate_table = [9600], devlist = []\<rparr>,
     nc_bootp = \<lparr>bo_mask = CONFIG_BOOTP_DEFAULT, bo_dhcp = True, bo_prefix = None, bo_min_ext_len = 64\<rparr>\<rparr>"

theorem NetLoop_safe_witness:
  "\<forall>frame. \<exists>r. NetLoop demo_config RARP [\<lparr>nt_frames = [(0x200000, frame)], nt_ctrlc = False, nt_time = 1\<rparr>] demo_net = Some r \<and>
     net_wf (result_state r)"
proof
  fix frame
  have "low_buffer 0x200000" by (simp add: low_buffer_def)
  then show "\<exists>r. NetLoop demo_config RARP [\<lparr>nt_frames = [(0x200000, frame)], nt_ctrlc = False, nt_time = 1\<rparr>] demo_net = Some r \<and>
     net_wf (result_state r)"
    by (intro NetLoop_safe [OF demo_net_wf]) simp_all
qed

text \<open>
  C14: the loop over the vendor area of a BOOTP reply ends whatever the area holds, if the area does not reach the
  last bytes of the address space; it changes no memory and leaves the handler alone.
\<close>

theorem vendor_process_returns:
  assumes "unat (ext + sz) + 257 \<le> 2 ^ 32" and "net_wf st"
  shows "\<exists>st'. BootpVendorProcess ext sz st = Some st' \<and> net_wf st' \<and> packetHandler st' = packetHandler st \<and> ns_mem st' = ns_mem st"
  using vendor_loop_total [OF assms] by (simp add: BootpVendorProcess_def)

theorem vendor_process_returns_witness:
  "\<exists>st'. BootpVendorProcess 0x200000 300 demo_net = Some st' \<and> net_wf st' \<and> packetHandler st' = None \<and> ns_mem st' = (\<lambda>_. 0)"
  using vendor_process_returns [where ext = "0x200000" and sz = 300 and st = demo_net] demo_net_wf by (simp add: demo_net_def)

end
