(* ===== verification/NetBootCorrect.thy ===== *)
theory NetBootCorrect
  imports NetBoot NetInvariant TftpCorrect BootImage
begin

text \<open>
  A boot over the network from the command to the kernel: ARP, TFTP, the environment, \<open>bootm\<close>.
\<close>

section \<open>The server's Ethernet address\<close>

text \<open>An ARP reply; Ethernet pads short frames.\<close>

definition arp_reply_frame :: "byte list \<Rightarrow> byte list \<Rightarrow> u32 \<Rightarrow> byte list \<Rightarrow> u32 \<Rightarrow> byte list \<Rightarrow> byte list" where
  "arp_reply_frame ether sha spa tha tpa pad =
     ether @ sha @ be16 PROT_ARP @ arp_packet ARPOP_REPLY sha spa tha tpa @ pad"

lemma arp_reply_received:
  fixes spa :: u32
  assumes l: "length ether = 6" "length sha = 6" "length tha = 6" "length pad \<le> 1476"
    and st: "packetHandler st = Some ArpHandler_ptr" "NetOurIP st \<noteq> 0" "sha \<noteq> NetBcastAddr"
  defines "fr \<equiv> arp_reply_frame ether sha spa tha (NetOurIP st) pad"
  shows "receive_frame cfg (buf, fr) st = TftpStart ((in_buffer (buf, fr) st)\<lparr>NetServerEther := sha\<rparr>)"
proof -
  let ?st = "in_buffer (buf, fr) st" and ?m = "mwrite (ns_mem st) buf fr"
  define a where "a = ether @ sha"
  have a: "length a = 12" and f: "fr = a @ be16 PROT_ARP @ arp_packet ARPOP_REPLY sha spa tha (NetOurIP st) @ pad"
    using l by (simp_all add: a_def fr_def arp_reply_frame_def)
  have lf: "length fr = 42 + length pad" using a l by (simp add: f arp_packet_def)
  have m: "mread ?m buf (length fr) = fr" using l(4) lf by simp
  have part: "mread ?m (buf + of_nat k) n = take n (drop k fr)" if "k + n \<le> length fr" for k n
    using m that by (rule mread_part)
  have byte: "?m (buf + of_nat k) = fr ! k" if "k < length fr" for k using m that by (rule mread_at)
  define arp where "arp = buf + 14"
  have adr: "buf + of_nat 14 = arp" "buf + of_nat 16 = arp + 2" "buf + of_nat 18 = arp + 4" "buf + of_nat 19 = arp + 5"
    "buf + of_nat 20 = arp + 6" "buf + of_nat 22 = arp + 8" "buf + of_nat 38 = arp + 8 + 16" by (simp_all add: arp_def)
  have w: "mem_be16 ?m (buf + of_nat 12) = PROT_ARP" "mem_be16 ?m arp = ARP_ETHER" "mem_be16 ?m (arp + 2) = PROT_IP"
    "mem_be16 ?m (arp + 6) = ARPOP_REPLY" "mread ?m (arp + 8) 6 = sha" "mem_be32 ?m (arp + 8 + 16) = NetOurIP st"
    using part [of 12 2] part [of 14 2, unfolded adr] part [of 16 2, unfolded adr] part [of 20 2, unfolded adr]
      part [of 22 6, unfolded adr] part [of 38 4, unfolded adr] a l lf
    by (simp_all add: f arp_packet_def be16_dec_be16 [of _ "[]", simplified] be32_dec_be32 [of _ "[]", simplified])
  have b: "?m (arp + 4) = 6" "?m (arp + 5) = 4"
    using byte [of 18, unfolded adr] byte [of 19, unfolded adr] a lf by (simp_all add: f arp_packet_def nth_append be16_def)
  have p: "frame_packet ?m buf (int (length fr)) = (PROT_ARP, arp, int (length fr) - 14)"
    using w(1) by (simp add: frame_packet_def PROT_ARP_def packet_sizes Let_def arp_def)
  have s: "st\<lparr>ns_mem := ?m\<rparr>\<lparr>NetRxPkt := buf\<rparr> = ?st" by (simp add: in_buffer_def)
  have mem: "ns_mem ?st = ?m" "NetOurIP ?st = NetOurIP st" "packetHandler ?st = Some ArpHandler_ptr"
    using st(1) by (simp_all add: in_buffer_def)
  have "receive_frame cfg (buf, fr) st = receive_arp cfg buf arp (int (length fr) - 14) ?st"
    by (simp add: receive_frame_def NetReceive_def s mem(1) p Let_def)
  also have "\<dots> = call_handler cfg 0 0 0 0 (?st\<lparr>NetServerEther := sha\<rparr>)"
    using lf w b st(2) by (simp add: receive_arp_def mem Let_def ARP_HDR_SIZE_def ARPOP_REPLY_def ARPOP_REQUEST_def)
  also have "\<dots> = TftpStart (?st\<lparr>NetServerEther := sha\<rparr>)"
    using st(3) mem(3) by (simp add: call_handler_def ArpHandler_def)
  finally show ?thesis .
qed

section \<open>Turns of the loop\<close>

lemma timer_not_due: "timer_set st \<Longrightarrow> unat (ns_now st) + 2000 < 2 ^ 32 \<Longrightarrow> check_timeout cfg st = st"
proof -
  assume t: "timer_set st" and n: "unat (ns_now st) + 2000 < 2 ^ 32"
  have "unat (ns_now st + 2000) = unat (ns_now st) + 2000" using n by (subst unat_add_lem [THEN iffD1]) simp_all
  then have "\<not> ns_now st > timeValue st"
    using t by (simp add: timer_set_def word_less_nat_alt TFTP_TIMEOUT_def CFG_HZ_def)
  then show ?thesis using t by (simp add: check_timeout_def timer_set_def)
qed

lemma net_loop_next:
  assumes "receive_frames cfg (nt_frames t) (st\<lparr>ns_now := nt_time t\<rparr>) = Some st1" and "\<not> nt_ctrlc t"
    and "check_timeout cfg st1 = st1"
  shows "NetState st1 = NETLOOP_CONTINUE \<Longrightarrow> net_loop cfg protocol (t # ts) st = net_loop cfg protocol ts st1"
    and "NetState st1 = NETLOOP_SUCCESS \<Longrightarrow> net_loop cfg protocol (t # ts) st =
      Option.bind (net_success cfg st1) (\<lambda>(r, st). Some (Net_Returned r st))"
  using assms by (simp_all add: Let_def)

text \<open>The block \<open>i\<close> of the file arrives in a turn of its own.\<close>

definition data_turn :: "net_state \<Rightarrow> byte list \<Rightarrow> u32 \<Rightarrow> u32 \<Rightarrow> u32 \<Rightarrow> (nat \<Rightarrow> u32) \<Rightarrow> (nat \<Rightarrow> u32) \<Rightarrow> byte list \<Rightarrow> nat \<Rightarrow> net_turn" where
  "data_turn srv ether dest dport sport buf time f i =
     \<lparr>nt_frames = [(buf i, data_frame srv ether dest dport sport f i)], nt_ctrlc = False, nt_time = time i\<rparr>"

lemma tftp_ready_now: "tftp_ready f st0 sport i st \<Longrightarrow> tftp_ready f st0 sport i (st\<lparr>ns_now := t\<rparr>)"
  using tftp_inv_simps(4) by (auto simp: tftp_ready_def acked_def)

lemma data_turn_received:
  assumes r: "tftp_ready f st0 sport i st" and i: "i < blocks f"
    and e: "length ether = 6" "length (NetOurEther srv) = 6"
    and port: "unat sport < 65536" "unat (TftpOurPort st0) < 65536" and t: "unat (time (i + 1)) + 2000 < 2 ^ 32"
    and buf: "disjoint_blocks (buf (i + 1)) PKTSIZE_ALIGN (load_addr (ns_env st0)) (length f)"
  shows "\<exists>st'. receive_frames cfg (nt_frames (data_turn srv ether (NetOurIP st0) (TftpOurPort st0) sport buf time f (i + 1)))
      (st\<lparr>ns_now := time (i + 1)\<rparr>) = Some st' \<and> tftp_ready f st0 sport (i + 1) st' \<and> check_timeout cfg st' = st'"
proof -
  let ?st = "st\<lparr>ns_now := time (i + 1)\<rparr>"
  have r': "tftp_ready f st0 sport i ?st" using r by (rule tftp_ready_now)
  have "tftp_inv f st0 i st" using r unfolding tftp_ready_def by blast
  then have "TftpOurPort st = TftpOurPort st0" "ns_env st = ns_env st0" unfolding tftp_inv_def by blast+
  then have p: "TftpOurPort ?st = TftpOurPort st0" "ns_env ?st = ns_env st0" by simp_all
  have "length (block f (i + 1)) \<le> 512" by (simp add: block_def)
  then have "clear_buffer f ?st (buf (i + 1), data_frame srv ether (NetOurIP st0) (TftpOurPort ?st) sport f (i + 1))"
    using buf length_data_frame [OF e] p(2) by (simp add: clear_buffer_def PKTSIZE_ALIGN_def)
  note clear = this
  have "unat (TftpOurPort ?st) < 65536" using port(2) p(1) by simp
  from block_received [OF r' i e refl port(1) this clear, of cfg]
  obtain st' where st': "receive_frame cfg (buf (i + 1), data_frame srv ether (NetOurIP st0) (TftpOurPort ?st) sport f (i + 1)) ?st = Some st'"
      "tftp_ready f st0 sport (i + 1) st'" "timer_set st'" "ns_now st' = ns_now ?st" by blast
  moreover have "check_timeout cfg st' = st'" by (rule timer_not_due [OF st'(3)]) (use st'(4) t in simp)
  ultimately show ?thesis using p(1) by (simp add: data_turn_def)
qed

lemma data_turns:
  assumes "tftp_ready f st0 sport i st" and "i < blocks f"
    and "length ether = 6" "length (NetOurEther srv) = 6"
    and "unat sport < 65536" "unat (TftpOurPort st0) < 65536" and "\<And>i. unat (time i) + 2000 < 2 ^ 32"
    and "\<And>i. disjoint_blocks (buf i) PKTSIZE_ALIGN (load_addr (ns_env st0)) (length f)"
  shows "\<exists>st1. tftp_ready f st0 sport (blocks f) st1 \<and> (\<forall>protocol.
    net_loop cfg protocol (map (data_turn srv ether (NetOurIP st0) (TftpOurPort st0) sport buf time f) [i + 1..<Suc (blocks f)] @ rest) st =
    Option.bind (net_success cfg st1) (\<lambda>(r, st). Some (Net_Returned r st)))"
  using assms(1,2)
proof (induction "blocks f - i" arbitrary: i st)
  case (Suc n)
  let ?t = "data_turn srv ether (NetOurIP st0) (TftpOurPort st0) sport buf time f"
  obtain st' where st': "receive_frames cfg (nt_frames (?t (i + 1))) (st\<lparr>ns_now := nt_time (?t (i + 1))\<rparr>) = Some st'"
    "tftp_ready f st0 sport (i + 1) st'" "check_timeout cfg st' = st'"
    using data_turn_received [where time = time and buf = buf and cfg = cfg, OF Suc.prems assms(3-8)] by (auto simp: data_turn_def)
  have c: "\<not> nt_ctrlc (?t (i + 1))" by (simp add: data_turn_def)
  have m: "map ?t [i + 1..<Suc (blocks f)] = ?t (i + 1) # map ?t [i + 1 + 1..<Suc (blocks f)]"
    using Suc.prems(2) by (simp add: upt_conv_Cons del: upt_Suc)
  show ?case
  proof (cases "i + 1 = blocks f")
    case True
    then have "NetState st' = NETLOOP_SUCCESS" using st'(2) by (simp add: tftp_ready_def)
    then show ?thesis using net_loop_next(2) [OF st'(1) c st'(3)] st'(2) True unfolding m by auto
  next
    case False
    then have "NetState st' = NETLOOP_CONTINUE" using st'(2) by (simp add: tftp_ready_def)
    note n = net_loop_next(1) [OF st'(1) c st'(3) this]
    have "n = blocks f - (i + 1)" "i + 1 < blocks f" using Suc.hyps(2) Suc.prems(2) False by simp_all
    from Suc.hyps(1) [OF this(1) st'(2) this(2)] show ?thesis unfolding m append_Cons n .
  qed
qed simp

section \<open>Loading a file\<close>

text \<open>The state in which \<open>NetLoop\<close> waits for the ARP reply.\<close>

lemma tftp_net_start:
  assumes wf: "net_wf st" and ip: "env_state.bi_ip_addr (ns_env st) \<noteq> 0" "env_state.bi_enetaddr (ns_env st) \<noteq> replicate 6 0"
    and server: "env_lookup (env_data (ns_env st)) (str ''serverip'') = Some s" "parse_ipaddr s \<noteq> 0"
  shows "\<exists>st0. net_start cfg TFTP st = Some (True, st0) \<and> packetHandler st0 = Some ArpHandler_ptr \<and>
    NetOurIP st0 = env_state.bi_ip_addr (ns_env st) \<and> NetState st0 = NETLOOP_CONTINUE \<and> NetBootFileXferSize st0 = 0 \<and>
    ns_env st0 = ns_env st \<and> net_ok st0 \<and> calm cfg st0"
proof -
  have e: "env_wf (ns_env st)" using wf by (simp add: net_wf_def)
  obtain a b where g: "getenv_IPaddr (ns_env st) (str ''gatewayip'') = Some a" "getenv_IPaddr (ns_env st) (str ''netmask'') = Some b"
    using getenv_IPaddr_total [OF e] bootfile_name by metis
  have "getenv_IPaddr (ns_env st) (str ''serverip'') = Some (parse_ipaddr s)"
    using getenv_wf [OF e bootfile_name(6)] server(1) by (simp add: getenv_IPaddr_def)
  moreover obtain st0 where "net_start cfg TFTP st = Some (True, st0)" and
      st0: "packetHandler st0 = Some ArpHandler_ptr \<and> NetOurIP st0 = env_state.bi_ip_addr (ns_env st) \<and> NetState st0 = NETLOOP_CONTINUE \<and>
      NetBootFileXferSize st0 = 0 \<and> ns_env st0 = ns_env st"
    using calculation g ip server(2)
    by (simp add: net_start_def net_check_prereq_def Let_def ArpRequest_def NetSetTimeout_def NetSetHandler_def NetSendPacket_def)
  moreover have "net_ok st0 \<and> calm cfg st0" using net_start_total [OF wf, of TFTP cfg] calculation by auto
  ultimately show ?thesis by blast
qed

text \<open>What is told about the server and the buffers, and the turns in which it answers.\<close>

record server =
  sv_state :: net_state
  sv_ether :: "byte list"
  sv_addr :: "byte list"
  sv_ip :: u32
  sv_tha :: "byte list"
  sv_pad :: "byte list"
  sv_port :: u32
  sv_buf :: "nat \<Rightarrow> u32"
  sv_time :: "nat \<Rightarrow> u32"

definition load_turns :: "server \<Rightarrow> u32 \<Rightarrow> byte list \<Rightarrow> net_turn list" where
  "load_turns sv ip f =
     \<lparr>nt_frames = [(sv_buf sv 0, arp_reply_frame (sv_ether sv) (sv_addr sv) (sv_ip sv) (sv_tha sv) ip (sv_pad sv))],
       nt_ctrlc = False, nt_time = sv_time sv 0\<rparr> #
     map (data_turn (sv_state sv) (sv_ether sv) ip (1024 + sv_time sv 0 mod 3072) (sv_port sv) (sv_buf sv) (sv_time sv) f)
       [1..<Suc (blocks f)]"

definition good_server :: "server \<Rightarrow> u32 \<Rightarrow> byte list \<Rightarrow> bool" where
  "good_server sv base f \<longleftrightarrow>
     length (NetOurEther (sv_state sv)) = 6 \<and> length (sv_ether sv) = 6 \<and> length (sv_addr sv) = 6 \<and>
     sv_addr sv \<noteq> NetBcastAddr \<and> length (sv_tha sv) = 6 \<and> length (sv_pad sv) \<le> 1476 \<and> unat (sv_port sv) < 65536 \<and>
     length f < 65535 * 512 \<and>
     (\<forall>i. low_buffer (sv_buf sv i) \<and> disjoint_blocks (sv_buf sv i) PKTSIZE_ALIGN base (length f) \<and>
        unat (sv_time sv i) + 2000 < 2 ^ 32)"

lemma TftpStart_timer: "TftpStart st = Some st0 \<Longrightarrow> timer_set st0 \<and> ns_now st0 = ns_now st \<and>
    NetOurIP st0 = NetOurIP st \<and> NetState st0 = NetState st \<and> TftpOurPort st0 = 1024 + ns_now st mod 3072 \<and> ns_env st0 = ns_env st"
  by (auto elim!: TftpStart_cases simp: timer_set_def TftpSend_eq)

lemma load_turns_low: "good_server sv base f \<Longrightarrow> \<forall>t \<in> set (load_turns sv ip f). \<forall>fr \<in> set (nt_frames t). low_buffer (fst fr)"
  by (auto simp: good_server_def load_turns_def data_turn_def)

lemma tftp_port: "unat (1024 + t mod 3072 :: u32) < 65536"
proof -
  have "unat (t mod 3072) < 3072" by (simp add: unat_mod)
  then show ?thesis by (subst unat_add_lem [THEN iffD1]) simp_all
qed

lemma load_started:
  assumes st: "net_ok st" "packetHandler st = Some ArpHandler_ptr" "NetOurIP st \<noteq> 0" "NetState st = NETLOOP_CONTINUE"
      "NetBootFileXferSize st = 0"
    and sv: "good_server sv (load_addr (ns_env st)) f"
  shows "\<exists>st0. receive_frames cfg (nt_frames (hd (load_turns sv (NetOurIP st) f))) (st\<lparr>ns_now := sv_time sv 0\<rparr>) = Some st0 \<and>
    check_timeout cfg st0 = st0 \<and> NetState st0 = NETLOOP_CONTINUE \<and> tftp_ready f st0 sport 0 st0 \<and>
    NetOurIP st0 = NetOurIP st \<and> TftpOurPort st0 = 1024 + sv_time sv 0 mod 3072 \<and> ns_env st0 = ns_env st"
proof -
  let ?fr = "(sv_buf sv 0, arp_reply_frame (sv_ether sv) (sv_addr sv) (sv_ip sv) (sv_tha sv) (NetOurIP st) (sv_pad sv))"
  let ?now = "st\<lparr>ns_now := sv_time sv 0\<rparr>"
  let ?st = "(in_buffer ?fr ?now)\<lparr>NetServerEther := sv_addr sv\<rparr>"
  have l: "length (sv_ether sv) = 6" "length (sv_addr sv) = 6" "length (sv_tha sv) = 6" "length (sv_pad sv) \<le> 1476"
    "sv_addr sv \<noteq> NetBcastAddr" "length f < 65535 * 512" "unat (sv_time sv 0) + 2000 < 2 ^ 32"
    using sv unfolding good_server_def by auto
  have wf: "net_wf ?st" "NetOurIP ?st = NetOurIP st" "NetState ?st = NETLOOP_CONTINUE" "NetBootFileXferSize ?st = 0"
    "length (NetOurEther ?st) = 6" "length (NetServerEther ?st) = 6" "ns_now ?st = sv_time sv 0" "ns_env ?st = ns_env st"
    using st l by (simp_all add: in_buffer_def net_ok_def net_wf_lengths)
  obtain st0 where st0: "TftpStart ?st = Some st0" using net_ok_TftpStart [OF wf(1)] by blast
  have "receive_frame cfg ?fr ?now = TftpStart ?st"
    using arp_reply_received [where st = ?now and spa = "sv_ip sv" and cfg = cfg and buf = "sv_buf sv 0", OF l(1-4)] st(2,3) l(5) by simp
  then have r: "receive_frames cfg [?fr] ?now = Some st0" by (simp add: st0)
  note s = TftpStart_timer [OF st0]
  have "check_timeout cfg st0 = st0" by (rule timer_not_due) (use s wf(7) l(7) in simp_all)
  moreover have "tftp_ready f st0 sport 0 st0" by (rule tftp_ready_start [OF st0 l(6) wf(4,3,5,6)])
  ultimately show ?thesis using r s wf by (simp add: load_turns_def)
qed

text \<open>The variables a load over the network sets.\<close>

definition netboot_vars :: "byte list set" where
  "netboot_vars = {str ''gatewayip'', str ''netmask'', str ''hostname'', str ''rootpath'', str ''ipaddr'', str ''serverip'',
     str ''dnsip'', str ''filesize'', str ''bootfile''}"

text \<open>Only the environment has changed, and in it only these variables.\<close>

definition env_updated :: "net_state \<Rightarrow> net_state \<Rightarrow> bool" where
  "env_updated st st' \<longleftrightarrow> st' = st\<lparr>ns_env := ns_env st'\<rparr> \<and> env_wf (ns_env st') \<and> env_same netboot_vars (ns_env st) (ns_env st')"

lemma env_same_mono: "env_same ns s s' \<Longrightarrow> ns \<subseteq> ns' \<Longrightarrow> env_same ns' s s'"
  by (auto simp: env_same_def)

lemma env_updated_refl: "env_wf (ns_env st) \<Longrightarrow> env_updated st st"
  by (simp add: env_updated_def env_same_refl)

lemma env_updated_trans: "env_updated st st' \<Longrightarrow> env_updated st' st'' \<Longrightarrow> env_updated st st''"
proof -
  assume a: "env_updated st st'" "env_updated st' st''"
  have "st'' = (st\<lparr>ns_env := ns_env st'\<rparr>)\<lparr>ns_env := ns_env st''\<rparr>" using a unfolding env_updated_def by metis
  then have "st'' = st\<lparr>ns_env := ns_env st''\<rparr>" by simp
  moreover have "env_same netboot_vars (ns_env st) (ns_env st'')"
    using a env_same_trans [of netboot_vars "ns_env st" "ns_env st'" netboot_vars "ns_env st''"] by (simp add: env_updated_def)
  ultimately show ?thesis using a(2) by (simp add: env_updated_def)
qed

lemma netboot_vars_plain: "\<forall>name \<in> netboot_vars. wf_name name \<and> plain_name name"
  unfolding netboot_vars_def wf_name_def plain_name_def by simp

lemma setenv_updated:
  assumes "env_wf (ns_env st)" and "name \<in> netboot_vars" and "0 \<notin> set v"
  shows "\<exists>r env. setenv cfg name (Some v) (ns_env st) = Some (r, env) \<and> env_updated st (st\<lparr>ns_env := env\<rparr>)"
proof -
  have "wf_name name" "plain_name name" using assms(2) netboot_vars_plain by blast+
  from setenv_same [OF assms(1) this assms(3), of cfg] obtain r env
    where e: "setenv cfg name (Some v) (ns_env st) = Some (r, env)" "env_wf env" "env_same {name} (ns_env st) env" by blast
  have "env_same netboot_vars (ns_env st) env" by (rule env_same_mono [OF e(3)]) (use assms(2) in blast)
  then have "env_updated st (st\<lparr>ns_env := env\<rparr>)" using e(2) by (simp add: env_updated_def)
  then show ?thesis using e(1) by blast
qed

lemma setenv_net_updated:
  "env_wf (ns_env st) \<Longrightarrow> name \<in> netboot_vars \<Longrightarrow> 0 \<notin> set v \<Longrightarrow> \<exists>st'. setenv_net cfg name v st = Some st' \<and> env_updated st st'"
  using setenv_updated [of st name v cfg] by (auto simp: setenv_net_def)

lemma ip_string_nonzero: "ip_to_string x = Some s \<Longrightarrow> 0 \<notin> set s"
proof -
  have "0 \<notin> set (digit_string 10 y)" for y using digit_string_range [of 10 0 y] by (auto simp: isxdigit_range)
  then show "ip_to_string x = Some s \<Longrightarrow> 0 \<notin> set s" by (auto simp: ip_to_string_dotted dotted_def)
qed

lemma setenv_ip_updated:
  assumes "env_wf (ns_env st)" and "name \<in> netboot_vars"
  shows "\<exists>st'. setenv_ip cfg name x st = Some st' \<and> env_updated st st'"
proof (cases "x = 0")
  case False
  obtain tmp where t: "ip_to_string x = Some tmp" using ip_to_string_dotted by blast
  then show ?thesis using setenv_net_updated [OF assms ip_string_nonzero [OF t], of cfg] False by (simp add: setenv_ip_def)
qed (use assms env_updated_refl in \<open>simp add: setenv_ip_def\<close>)

text \<open>A step that updates the environment, whenever the names are strings.\<close>

definition names_ok :: "net_state \<Rightarrow> bool" where
  "names_ok st \<longleftrightarrow> env_wf (ns_env st) \<and> 0 \<notin> set (NetOurHostName st) \<and> 0 \<notin> set (NetOurRootPath st)"

definition env_step :: "(net_state \<Rightarrow> net_state option) \<Rightarrow> bool" where
  "env_step f \<longleftrightarrow> (\<forall>st. names_ok st \<longrightarrow> (\<exists>st'. f st = Some st' \<and> env_updated st st'))"

lemma names_ok_updated: "names_ok st \<Longrightarrow> env_updated st st' \<Longrightarrow> names_ok st'"
proof -
  assume n: "names_ok st" and u: "env_updated st st'"
  then obtain env where "st' = st\<lparr>ns_env := env\<rparr>" "env_wf (ns_env st')" by (auto simp: env_updated_def)
  then show "names_ok st'" using n by (simp add: names_ok_def)
qed

lemma env_step_bind: "env_step f \<Longrightarrow> env_step g \<Longrightarrow> env_step (\<lambda>st. Option.bind (f st) g)"
proof -
  assume f: "env_step f" and g: "env_step g"
  have "\<exists>st''. Option.bind (f st) g = Some st'' \<and> env_updated st st''" if ok: "names_ok st" for st
  proof -
    obtain st' where 1: "f st = Some st'" "env_updated st st'" using f ok unfolding env_step_def by blast
    obtain st'' where 2: "g st' = Some st''" "env_updated st' st''"
      using g names_ok_updated [OF ok 1(2)] unfolding env_step_def by blast
    show ?thesis using 1(1) 2(1) env_updated_trans [OF 1(2) 2(2)] by simp
  qed
  then show "env_step (\<lambda>st. Option.bind (f st) g)" by (simp add: env_step_def)
qed

lemma env_step_ip: "name \<in> netboot_vars \<Longrightarrow> env_step (\<lambda>st. setenv_ip cfg name (x st) st)"
  using setenv_ip_updated by (simp add: env_step_def names_ok_def)

lemma env_step_name:
  assumes "name \<in> netboot_vars" and "\<And>st. names_ok st \<Longrightarrow> 0 \<notin> set (x st)"
  shows "env_step (\<lambda>st. if x st \<noteq> [] then setenv_net cfg name (x st) st else Some st)"
  using setenv_net_updated [OF _ assms(1)] assms(2) env_updated_refl by (simp add: env_step_def names_ok_def)

lemma env_step_update: "env_step (netboot_update_env cfg)"
  unfolding netboot_update_env_def
  by (intro env_step_bind env_step_ip env_step_name) (auto simp: netboot_vars_def names_ok_def)

section \<open>The whole load\<close>

lemma net_success_updated:
  assumes "env_wf (ns_env st)"
  shows "\<exists>st'. net_success cfg st = Some (NetBootFileXferSize st, st') \<and> env_updated st st'"
proof (cases "NetBootFileXferSize st > 0")
  case True
  let ?buf = "digit_string 16 (NetBootFileXferSize st)"
  have "str ''filesize'' \<in> netboot_vars" "0 \<notin> set ?buf"
    using digit_string_range [of 16 0 "NetBootFileXferSize st"] by (auto simp: netboot_vars_def isxdigit_range)
  from setenv_updated [OF assms this, of "nc_env cfg"]
  obtain r env where "setenv (nc_env cfg) (str ''filesize'') (Some ?buf) (ns_env st) = Some (r, env)"
    "env_updated st (st\<lparr>ns_env := env\<rparr>)" by blast
  then show ?thesis using True unfolding net_success_def sprintf_lx bind.bind_lunit by auto
qed (use assms env_updated_refl in \<open>simp add: net_success_def\<close>)

text \<open>From the wait for the ARP reply on, whatever protocol has led to it.\<close>

lemma net_loop_loads:
  assumes st0: "net_ok st0" "calm cfg st0" "packetHandler st0 = Some ArpHandler_ptr" "NetOurIP st0 \<noteq> 0"
      "NetState st0 = NETLOOP_CONTINUE" "NetBootFileXferSize st0 = 0"
    and sv: "good_server sv (load_addr (ns_env st0)) f"
  shows "\<exists>st2. (\<forall>protocol. net_loop cfg protocol (load_turns sv (NetOurIP st0) f) st0 = Some (Net_Returned (of_nat (length f)) st2)) \<and>
    env_same netboot_vars (ns_env st0) (ns_env st2) \<and> net_wf st2 \<and> mread (ns_mem st2) (load_addr (ns_env st2)) (length f) = f"
proof -
  let ?ip = "NetOurIP st0"
  have "\<exists>st1. receive_frames cfg (nt_frames (hd (load_turns sv (NetOurIP st0) f))) (st0\<lparr>ns_now := sv_time sv 0\<rparr>) = Some st1 \<and>
    check_timeout cfg st1 = st1 \<and> NetState st1 = NETLOOP_CONTINUE \<and> tftp_ready f st1 (sv_port sv) 0 st1 \<and>
    NetOurIP st1 = NetOurIP st0 \<and> TftpOurPort st1 = 1024 + sv_time sv 0 mod 3072 \<and> ns_env st1 = ns_env st0"
    by (rule load_started [OF st0(1,3,4,5,6) sv])
  then obtain st1 where st1: "receive_frames cfg (nt_frames (hd (load_turns sv ?ip f))) (st0\<lparr>ns_now := sv_time sv 0\<rparr>) = Some st1"
    "check_timeout cfg st1 = st1" "NetState st1 = NETLOOP_CONTINUE" "tftp_ready f st1 (sv_port sv) 0 st1"
    "NetOurIP st1 = ?ip" "TftpOurPort st1 = 1024 + sv_time sv 0 mod 3072" "ns_env st1 = ns_env st0"
    by blast
  let ?turns = "map (data_turn (sv_state sv) (sv_ether sv) ?ip (1024 + sv_time sv 0 mod 3072) (sv_port sv) (sv_buf sv) (sv_time sv) f) [1..<Suc (blocks f)]"
  have turns: "load_turns sv ?ip f = hd (load_turns sv ?ip f) # ?turns" "\<not> nt_ctrlc (hd (load_turns sv ?ip f))"
    "nt_time (hd (load_turns sv ?ip f)) = sv_time sv 0"
    by (simp_all add: load_turns_def)
  have g: "length (sv_ether sv) = 6" "length (NetOurEther (sv_state sv)) = 6" "unat (sv_port sv) < 65536"
    "\<And>i. unat (sv_time sv i) + 2000 < 2 ^ 32" "\<And>i. disjoint_blocks (sv_buf sv i) PKTSIZE_ALIGN (load_addr (ns_env st1)) (length f)"
    using sv st1(7) unfolding good_server_def by auto
  have "0 < blocks f" by (simp add: blocks_def)
  moreover have "unat (TftpOurPort st1) < 65536" unfolding st1(6) by (rule tftp_port)
  ultimately obtain st2 where st2: "tftp_ready f st1 (sv_port sv) (blocks f) st2"
    "\<forall>protocol. net_loop cfg protocol ?turns st1 = Option.bind (net_success cfg st2) (\<lambda>(r, st). Some (Net_Returned r st))"
    using data_turns [where rest = "[]" and cfg = cfg and buf = "sv_buf sv" and time = "sv_time sv",
        OF st1(4) _ g(1-3) _ g(4,5)] unfolding st1(5,6) add_0 append_Nil2 by blast
  have inv: "tftp_inv f st1 (blocks f) st2" using st2(1) unfolding tftp_ready_def by blast
  have "min (512 * blocks f) (length f) = length f" by (simp add: blocks_def)
  then have m: "mread (ns_mem st2) (load_addr (ns_env st2)) (length f) = f" "NetBootFileXferSize st2 = of_nat (length f)"
    "ns_env st2 = ns_env st1"
    using inv unfolding tftp_inv_def by auto
  have "env_wf (ns_env st2)" using net_ok_wf [OF st0(1)] unfolding m(3) st1(7) net_wf_def by blast
  then obtain st3 where st3: "net_success cfg st2 = Some (of_nat (length f), st3)" "env_updated st2 st3"
    using net_success_updated m(2) by metis
  have r: "net_loop cfg protocol (load_turns sv ?ip f) st0 = Some (Net_Returned (of_nat (length f)) st3)" for protocol
  proof -
    have "net_loop cfg protocol (load_turns sv ?ip f) st0 = net_loop cfg protocol (hd (load_turns sv ?ip f) # ?turns) st0"
      unfolding turns(1) [symmetric] ..
    also have "\<dots> = net_loop cfg protocol ?turns st1"
      by (rule net_loop_next(1) [OF _ turns(2) st1(2,3)]) (simp only: turns(3) st1(1))
    also have "\<dots> = Some (Net_Returned (of_nat (length f)) st3)" unfolding st2(2) [rule_format] st3(1) by simp
    finally show ?thesis .
  qed
  have "net_wf (result_state (Net_Returned (of_nat (length f)) st3))"
    using net_loop_total [OF st0(1,2) boot_protocols_simps(1) load_turns_low [OF sv, of ?ip]] r [of TFTP] by auto
  moreover have "ns_mem st3 = ns_mem st2" using st3(2) unfolding env_updated_def by (metis net_state.select_convs(2) net_state.surjective net_state.update_convs(1))
  moreover have "load_addr (ns_env st3) = load_addr (ns_env st2)"
    using st3(2) by (simp add: env_updated_def env_same_def netboot_vars_def)
  ultimately show ?thesis using r st3(2) m(1,3) st1(7) unfolding env_updated_def by (metis result_state.simps(1))
qed

lemma NetLoop_tftp_loads:
  assumes wf: "net_wf st" and ip: "env_state.bi_ip_addr (ns_env st) \<noteq> 0" "env_state.bi_enetaddr (ns_env st) \<noteq> replicate 6 0"
    and server: "env_lookup (env_data (ns_env st)) (str ''serverip'') = Some s" "parse_ipaddr s \<noteq> 0"
    and sv: "good_server sv (load_addr (ns_env st)) f"
  shows "\<exists>st2. NetLoop cfg TFTP (load_turns sv (env_state.bi_ip_addr (ns_env st)) f) st = Some (Net_Returned (of_nat (length f)) st2) \<and>
    env_same netboot_vars (ns_env st) (ns_env st2) \<and> net_wf st2 \<and> mread (ns_mem st2) (load_addr (ns_env st2)) (length f) = f"
proof -
  obtain st0 where st0: "net_start cfg TFTP st = Some (True, st0)" "packetHandler st0 = Some ArpHandler_ptr"
    "NetOurIP st0 = env_state.bi_ip_addr (ns_env st)" "NetState st0 = NETLOOP_CONTINUE" "NetBootFileXferSize st0 = 0" "ns_env st0 = ns_env st"
    "net_ok st0" "calm cfg st0"
    using tftp_net_start [OF wf ip server] by blast
  have "NetOurIP st0 \<noteq> 0" "good_server sv (load_addr (ns_env st0)) f" using st0(3,6) ip(1) sv by simp_all
  from net_loop_loads [OF st0(7,8,2) this(1) st0(4,5) this(2)] show ?thesis
    unfolding NetLoop_def st0(1) st0(3,6) by auto
qed

section \<open>The command\<close>

lemma netboot_args_wf:
  assumes wf: "net_wf st" and argv: "\<forall>a \<in> set argv. 0 \<notin> set a" and args: "netboot_args argv (ns_env st) = Some (True, env)"
  shows "net_wf (st\<lparr>ns_env := env\<rparr>)" "env_data env = env_data (ns_env st)"
    "env_state.bi_ip_addr env = env_state.bi_ip_addr (ns_env st)" "env_state.bi_enetaddr env = env_state.bi_enetaddr (ns_env st)"
proof -
  have c: "i < length argv \<Longrightarrow> c_string 127 (copy_filename (argv ! i) 128)" for i using argv by (intro copy_filename_string) auto
  note d = netboot_args_def bind_eq_Some_conv Let_def
  show data: "env_data env = env_data (ns_env st)" and "env_state.bi_ip_addr env = env_state.bi_ip_addr (ns_env st)"
    and ether: "env_state.bi_enetaddr env = env_state.bi_enetaddr (ns_env st)"
    using args by (auto simp: d split: option.splits if_splits)
  have "BootFile env = BootFile (ns_env st) \<or> c_string 127 (BootFile env)"
    using args c [of 1] c [of 2] by (auto simp: d split: option.splits if_splits)
  then show "net_wf (st\<lparr>ns_env := env\<rparr>)" using wf data ether by (auto simp: net_wf_def env_wf_def)
qed

lemma getenv_value_wf: "env_wf s \<Longrightarrow> wf_name n \<Longrightarrow> getenv_value (env_data s) n = env_lookup (env_data s) n"
  by (simp add: getenv_value_def getenv_wf)

text \<open>A command whose load is successful ends as \<open>do_bootm\<close> does on the file at the load address.\<close>

lemma netboot_runs_bootm:
  assumes args: "netboot_args argv (ns_env st) = Some (True, env)"
    and auto: "env_lookup (env_data env) (str ''autostart'') = Some (str ''yes'')"
    and load: "NetLoop cfg proto turns (st\<lparr>ns_env := env\<rparr>) = Some (Net_Returned (of_nat (length f)) st1)"
      "env_same netboot_vars env (ns_env st1)" "net_wf st1" "mread (ns_mem st1) (load_addr (ns_env st1)) (length f) = f"
    and f: "f \<noteq> []" "length f < 65535 * 512" "unat (load_addr env) + length f \<le> 2 ^ 32"
  shows "\<exists>st2. netboot_common cfg bt z appl proto argv turns st =
      Option.bind (do_bootm (board_now bt (ns_env st2)) z appl (getenv_value (env_data (ns_env st2))) (load_addr env) (ns_mem st2) (take 1 argv))
        (\<lambda>(ts, e). Some (Netboot_Bootm ts e st2)) \<and>
    image_at (ns_mem st2) (load_addr env) f \<and> env_wf (ns_env st2) \<and> env_same netboot_vars env (ns_env st2)"
proof -
  have names: "names_ok st1" using load(3) by (simp add: names_ok_def net_wf_def c_string_def)
  obtain st2 where u: "netboot_update_env (nc_env cfg) st1 = Some st2" "env_updated st1 st2"
    using env_step_update names unfolding env_step_def by blast
  have same: "env_same netboot_vars env (ns_env st2)"
    using env_same_trans [of netboot_vars env "ns_env st1" netboot_vars "ns_env st2"] load(2) u(2) by (simp add: env_updated_def)
  have m: "ns_mem st2 = ns_mem st1" using u(2) unfolding env_updated_def
    by (metis net_state.select_convs(2) net_state.surjective net_state.update_convs(1))
  have la: "load_addr (ns_env st2) = load_addr env" "load_addr (ns_env st1) = load_addr env"
    using same load(2) by (simp_all add: env_same_def netboot_vars_def)
  have "env_lookup (env_data (ns_env st2)) (str ''autostart'') = Some (str ''yes'')"
    using same auto by (simp add: env_same_def netboot_vars_def wf_name_def)
  moreover have e2: "env_wf (ns_env st2)" using u(2) by (simp add: env_updated_def)
  ultimately have auto2: "getenv_str (env_data (ns_env st2)) (str ''autostart'') = Some (Some (str ''yes''))"
    using getenv_wf [of "ns_env st2" "str ''autostart''"] by (simp add: wf_name_def)
  have "(of_nat (length f) :: u32) \<noteq> 0"
  proof -
    have "unat (of_nat (length f) :: u32) = length f" by (rule unat_of_nat_u32) (use f(2) in simp)
    then show ?thesis using f(1) by auto
  qed
  then have "netboot_common cfg bt z appl proto argv turns st = netboot_boot bt z appl argv st2"
    using args load(1) u(1) by (simp add: netboot_common_def)
  also have "\<dots> = Option.bind (do_bootm (board_now bt (ns_env st2)) z appl (getenv_value (env_data (ns_env st2))) (load_addr env) (ns_mem st2) (take 1 argv))
        (\<lambda>(ts, e). Some (Netboot_Bootm ts e st2))"
    unfolding netboot_boot_def Let_def auto2 bind.bind_lunit la by simp
  finally have r: "netboot_common cfg bt z appl proto argv turns st = \<dots>" .
  have "image_at (ns_mem st2) (load_addr env) f" using load(4) f(3) by (simp add: image_at_def m la)
  then show ?thesis using r same e2 by blast
qed

text \<open>When the file is a kernel image, the kernel is started.\<close>

definition kernel_runs :: "boot_config \<Rightarrow> mk_opts \<Rightarrow> byte list \<Rightarrow> byte list \<Rightarrow> netboot_end option \<Rightarrow> bool" where
  "kernel_runs bt opts img bootargs r \<longleftrightarrow> (\<exists>ep m' st2. mk_entry opts = Some ep \<and>
     r = Some (Netboot_Bootm [Start_Linux ep (boot_kbd bt) 0 0 (boot_cmdline bt) (boot_cmdline bt + of_nat (length bootargs)) m'] Started st2) \<and>
     mread m' (opt_addr opts) (length img - IH_SIZE) = drop IH_SIZE img \<and>
     mread m' (boot_cmdline bt) (Suc (length bootargs)) = bootargs @ [0])"

definition bootable :: "boot_config \<Rightarrow> u32 \<Rightarrow> byte list \<Rightarrow> mk_opts \<Rightarrow> byte list \<Rightarrow> bool" where
  "bootable bt base bootargs opts img \<longleftrightarrow>
     opt_type opts = IH_TYPE_KERNEL \<and> opt_comp opts = IH_COMP_NONE \<and> opt_arch opts = IH_CPU_PPC \<and> opt_os opts \<noteq> IH_OS_NETBSD \<and>
     opt_addr opts \<noteq> base \<and> forward_safe (opt_addr opts) (base + of_nat IH_SIZE) (length img - IH_SIZE) \<and>
     disjoint_blocks (boot_kbd bt) BD_SIZE (boot_cmdline bt) (Suc (length bootargs)) \<and>
     params_clear bt bootargs (opt_addr opts) (length img - IH_SIZE)"

lemma netboot_starts_kernel:
  assumes args: "netboot_args argv (ns_env st) = Some (True, env)" "length (env_state.bi_enetaddr env) = 6"
    and auto: "env_lookup (env_data env) (str ''autostart'') = Some (str ''yes'')"
    and load: "NetLoop cfg proto turns (st\<lparr>ns_env := env\<rparr>) = Some (Net_Returned (of_nat (length img)) st1)"
      "env_same netboot_vars env (ns_env st1)" "net_wf st1" "mread (ns_mem st1) (load_addr (ns_env st1)) (length img) = img"
    and size: "length img < 65535 * 512" "unat (load_addr env) + length img \<le> 2 ^ 32"
    and img: "mkimage opts fs datafile mtime = Some img"
    and boot: "bootable bt (load_addr env) (boot_args (env_lookup (env_data env))) opts img" and wf: "env_wf env"
  shows "kernel_runs bt opts img (boot_args (env_lookup (env_data env))) (netboot_common cfg bt z appl proto argv turns st)"
proof -
  let ?args = "boot_args (env_lookup (env_data env))"
  have "img \<noteq> []" using img by (auto simp: mkimage_def IH_SIZE_def dest: arg_cong [where f = length] split: option.splits)
  then obtain st2 where st2: "netboot_common cfg bt z appl proto argv turns st =
      Option.bind (do_bootm (board_now bt (ns_env st2)) z appl (getenv_value (env_data (ns_env st2))) (load_addr env) (ns_mem st2) (take 1 argv))
        (\<lambda>(ts, e). Some (Netboot_Bootm ts e st2))"
    "image_at (ns_mem st2) (load_addr env) img" "env_wf (ns_env st2)" "env_same netboot_vars env (ns_env st2)"
    using netboot_runs_bootm [OF args(1) auto load _ size, of bt z appl] by blast
  let ?bt = "board_now bt (ns_env st2)" and ?ev = "getenv_value (env_data (ns_env st2))"
  have bt: "boot_limit ?bt = boot_limit bt" "boot_cmdline ?bt = boot_cmdline bt" "boot_kbd ?bt = boot_kbd bt"
    by (simp_all add: board_now_def boot_limit_def boot_cmdline_def boot_kbd_def Let_def)
  have "wf_name (str ''bootargs'')" "str ''bootargs'' \<notin> netboot_vars" by (simp_all add: wf_name_def netboot_vars_def)
  then have "?ev (str ''bootargs'') = env_lookup (env_data env) (str ''bootargs'')"
    using st2(3,4) unfolding env_same_def by (metis getenv_value_wf)
  then have ba: "boot_args ?ev = ?args" by (simp add: boot_args_def)
  have "length (take 1 argv) < 2" by (simp add: min_def)
  then have addr: "boot_addr (load_addr env) (take 1 argv) = load_addr env" "length (take 1 argv) \<le> 2"
    unfolding boot_addr_def by (simp_all only: if_True less_imp_le)
  have "length (env_state.bi_enetaddr (ns_env st2)) = 6" using st2(4) args(2) by (simp add: env_same_def)
  then have ether: "length (bd_info.bi_enetaddr (bc_bd ?bt)) = 6" by (simp add: board_now_def)
  note b = boot [unfolded bootable_def]
  have clear: "params_clear ?bt ?args (opt_addr opts) (length img - IH_SIZE)" using b unfolding params_clear_def bt by blast
  have "\<exists>ep m'. mk_entry opts = Some ep \<and>
     do_bootm ?bt z appl ?ev (load_addr env) (ns_mem st2) (take 1 argv) =
       Some ([Start_Linux ep (boot_kbd ?bt) 0 0 (boot_cmdline ?bt) (boot_cmdline ?bt + of_nat (length (boot_args ?ev))) m'], Started) \<and>
     mread m' (opt_addr opts) (length img - IH_SIZE) = drop IH_SIZE img \<and>
     mread m' (boot_cmdline ?bt) (Suc (length (boot_args ?ev))) = boot_args ?ev @ [0] \<and>
     mread m' (boot_kbd ?bt) BD_SIZE = bd_bytes (boot_bd ?bt ?ev)"
    by (rule kernel_starts [OF img]; (simp only: addr ba bt)?; (rule st2(2) clear ether)?; (use b in blast)?)
  then show ?thesis unfolding st2(1) ba bt kernel_runs_def by auto
qed

text \<open>
  C1: a board boots over the network. Its environment names its address and the server's and asks for an
  automatic start; the file on the server is a kernel image made by \<^verbatim>\<open>mkimage\<close>. When the server answers the ARP
  request and sends the blocks of the file, \<open>tftpboot\<close> ends in the kernel: the jump to the image's entry point,
  with the image's data at its load address and the boot arguments from the environment.
\<close>

theorem tftpboot_starts_kernel:
  assumes wf: "net_wf st" and argv: "\<forall>a \<in> set argv. 0 \<notin> set a" and args: "netboot_args argv (ns_env st) = Some (True, env)"
    and ip: "env_state.bi_ip_addr (ns_env st) \<noteq> 0" "env_state.bi_enetaddr (ns_env st) \<noteq> replicate 6 0"
    and server: "env_lookup (env_data (ns_env st)) (str ''serverip'') = Some s" "parse_ipaddr s \<noteq> 0"
    and auto: "env_lookup (env_data (ns_env st)) (str ''autostart'') = Some (str ''yes'')"
    and sv: "good_server sv (load_addr env) img"
    and img: "mkimage opts fs datafile mtime = Some img"
    and opts: "opt_type opts = IH_TYPE_KERNEL" "opt_comp opts = IH_COMP_NONE" "opt_arch opts = IH_CPU_PPC"
      "opt_os opts \<noteq> IH_OS_NETBSD"
    and place: "opt_addr opts \<noteq> load_addr env"
      "forward_safe (opt_addr opts) (load_addr env + of_nat IH_SIZE) (length img - IH_SIZE)"
      "disjoint_blocks (boot_kbd bt) BD_SIZE (boot_cmdline bt) (Suc (length (boot_args (env_lookup (env_data (ns_env st))))))"
      "params_clear bt (boot_args (env_lookup (env_data (ns_env st)))) (opt_addr opts) (length img - IH_SIZE)"
  defines "bootargs \<equiv> boot_args (env_lookup (env_data (ns_env st)))"
  shows "\<exists>ep m' st2. mk_entry opts = Some ep \<and>
    do_tftpb cfg bt z appl argv (load_turns sv (env_state.bi_ip_addr (ns_env st)) img) st =
      Some (Netboot_Bootm [Start_Linux ep (boot_kbd bt) 0 0 (boot_cmdline bt) (boot_cmdline bt + of_nat (length bootargs)) m'] Started st2) \<and>
    mread m' (opt_addr opts) (length img - IH_SIZE) = drop IH_SIZE img \<and>
    mread m' (boot_cmdline bt) (Suc (length bootargs)) = bootargs @ [0]"
proof -
  note a = netboot_args_wf [OF wf argv args]
  obtain st1 where l: "NetLoop cfg TFTP (load_turns sv (env_state.bi_ip_addr (ns_env st)) img) (st\<lparr>ns_env := env\<rparr>) = Some (Net_Returned (of_nat (length img)) st1)"
    "env_same netboot_vars env (ns_env st1)" "net_wf st1" "mread (ns_mem st1) (load_addr (ns_env st1)) (length img) = img"
    using NetLoop_tftp_loads [OF a(1), of s sv img cfg] a(2-4) ip server sv by auto
  have e: "length (env_state.bi_enetaddr env) = 6" "env_lookup (env_data env) (str ''autostart'') = Some (str ''yes'')" "env_wf env"
    using a(1) auto by (simp_all add: a(2) net_wf_def)
  have size: "length img < 65535 * 512" "unat (load_addr env) + length img \<le> 2 ^ 32" using sv by (auto simp: good_server_def disjoint_blocks_def)
  have "bootable bt (load_addr env) (boot_args (env_lookup (env_data env))) opts img" using opts place by (simp add: bootable_def a(2))
  from netboot_starts_kernel [OF args e(1,2) l size img this e(3), of z appl]
  show ?thesis unfolding do_tftpb_def kernel_runs_def bootargs_def a(2) .
qed

section \<open>An instance\<close>

text \<open>The demonstration image, loaded from 10.0.0.1 by the board 10.0.0.2.\<close>

definition boot_env :: env_state where
  "boot_env = demo_env\<lparr>env_data := str ''autostart=yes'' @ [0] @ str ''serverip=10.0.0.1'' @ replicate 80 0\<rparr>"

lemma boot_env_models: "env_models (env_data boot_env) [(str ''autostart'', str ''yes''), (str ''serverip'', str ''10.0.0.1'')]"
proof -
  have "env_data boot_env = env_body [(str ''autostart'', str ''yes''), (str ''serverip'', str ''10.0.0.1'')] @ 0 # 0 # replicate 78 0"
    unfolding boot_env_def by code_simp
  then show ?thesis by (auto simp: env_models_def wf_var_def wf_name_def)
qed

lemma boot_env_wf: "env_wf boot_env"
proof -
  have "distinct (map fst [(str ''autostart'', str ''yes''), (str ''serverip'', str ''10.0.0.1'')])" by code_simp
  then show ?thesis using boot_env_models unfolding env_wf_def by blast
qed

lemma boot_env_lookup:
  "env_lookup (env_data boot_env) (str ''serverip'') = Some (str ''10.0.0.1'')"
  "env_lookup (env_data boot_env) (str ''autostart'') = Some (str ''yes'')"
  "env_lookup (env_data boot_env) (str ''bootargs'') = None"
  "env_lookup (env_data boot_env) (str ''loadaddr'') = None"
  using env_lookup_models [OF boot_env_models] by (simp_all add: wf_name_def)

definition boot_net :: net_state where
  "boot_net = demo_net\<lparr>ns_env := boot_env\<rparr>"

definition demo_server :: server where
  "demo_server = \<lparr>sv_state = demo_net, sv_ether = [0, 1, 2, 3, 4, 5], sv_addr = [0, 1, 2, 3, 4, 6], sv_ip = 0x0a000001,
     sv_tha = [0, 1, 2, 3, 4, 5], sv_pad = [], sv_port = 2000, sv_buf = (\<lambda>_. 0x200000), sv_time = (\<lambda>i. of_nat i mod 1000)\<rparr>"

lemma boot_net_facts:
  "env_state.bi_ip_addr (ns_env boot_net) = 0x0a000002" "env_state.bi_enetaddr (ns_env boot_net) \<noteq> replicate 6 0"
  "ns_env boot_net = boot_env" "load_addr boot_env = 0x100000"
  by (simp_all add: boot_net_def boot_env_def demo_env_def eval_nat_numeral)

lemma boot_net_wf: "net_wf boot_net"
  using demo_net_wf boot_env_wf by (simp add: net_wf_def boot_net_def boot_env_def demo_net_def)

lemma boot_net_args: "length argv = 1 \<Longrightarrow> netboot_args argv (ns_env boot_net) = Some (True, boot_env)"
  using getenv_wf [OF boot_env_wf, of "str ''loadaddr''"] boot_env_lookup(4) unfolding boot_net_facts(3)
  by (simp add: netboot_args_def wf_name_def)

lemma demo_server_good: "good_server demo_server (load_addr boot_env) demo_img"
proof -
  have "unat (of_nat i mod 1000 :: u32) < 1000" for i by (simp add: unat_mod)
  then have "unat (of_nat i mod 1000 :: u32) + 2000 < 2 ^ 32" for i by (rule less_trans [OF add_strict_right_mono]) simp
  moreover have "[0, 1, 2, 3, 4, 6] \<noteq> NetBcastAddr" unfolding NetBcastAddr_def by code_simp
  moreover have "low_buffer 0x200000" "disjoint_blocks 0x200000 PKTSIZE_ALIGN 0x100000 67"
    by (simp_all add: low_buffer_def disjoint_blocks_def PKTSIZE_ALIGN_def)
  ultimately show ?thesis by (simp add: good_server_def demo_server_def demo_net_def boot_net_facts(4))
qed

lemma demo_kernel: "opt_type demo_opts = IH_TYPE_KERNEL" "opt_comp demo_opts = IH_COMP_NONE" "opt_arch demo_opts = IH_CPU_PPC"
  "opt_os demo_opts \<noteq> IH_OS_NETBSD" "opt_addr demo_opts = 0x10000" "mk_entry demo_opts = Some 0x10000"
  "drop IH_SIZE demo_img = [1, 2, 3]" "length demo_img - IH_SIZE = 3"
  by (simp_all add: demo_opts_def IH_OS_defs mk_entry_def demo_img_def IH_SIZE_def)

theorem tftpboot_starts_kernel_witness:
  "\<forall>cfg z appl. \<exists>m' st2. do_tftpb cfg demo_cfg z appl [str ''tftpboot''] (load_turns demo_server 0x0a000002 demo_img) boot_net =
       Some (Netboot_Bootm [Start_Linux 0x10000 0x7FFEC0 0 0 0x7FFF00 0x7FFF00 m'] Started st2) \<and> mread m' 0x10000 3 = [1, 2, 3]"
proof (intro allI)
  fix cfg z appl
  note e = boot_net_facts and wf = boot_net_wf and sv = demo_server_good and d = demo_kernel(1-7)
  have args: "netboot_args [str ''tftpboot''] (ns_env boot_net) = Some (True, boot_env)" by (rule boot_net_args) simp
  have server: "env_lookup (env_data (ns_env boot_net)) (str ''serverip'') = Some (str ''10.0.0.1'')"
    "env_lookup (env_data (ns_env boot_net)) (str ''autostart'') = Some (str ''yes'')"
    unfolding e(3) by (rule boot_env_lookup)+
  have ip: "parse_ipaddr (str ''10.0.0.1'') \<noteq> 0" by code_simp
  have ba: "boot_args (env_lookup (env_data (ns_env boot_net))) = []" unfolding boot_args_def e(3) boot_env_lookup by simp
  have "\<exists>ep m' st2. mk_entry demo_opts = Some ep \<and>
    do_tftpb cfg demo_cfg z appl [str ''tftpboot''] (load_turns demo_server (env_state.bi_ip_addr (ns_env boot_net)) demo_img) boot_net =
      Some (Netboot_Bootm [Start_Linux ep (boot_kbd demo_cfg) 0 0 (boot_cmdline demo_cfg)
        (boot_cmdline demo_cfg + of_nat (length (boot_args (env_lookup (env_data (ns_env boot_net)))))) m'] Started st2) \<and>
    mread m' (opt_addr demo_opts) (length demo_img - IH_SIZE) = drop IH_SIZE demo_img \<and>
    mread m' (boot_cmdline demo_cfg) (Suc (length (boot_args (env_lookup (env_data (ns_env boot_net)))))) =
      boot_args (env_lookup (env_data (ns_env boot_net))) @ [0]"
    by (rule tftpboot_starts_kernel [OF wf _ args _ e(2) server(1) ip server(2) sv demo_image [folded demo_img_def] d(1-4)])
      (simp_all only: e(1,4) ba d demo_places demo_clear,
       simp_all add: forward_safe_def disjoint_blocks_def IH_SIZE_def BD_SIZE_def)
  then show "\<exists>m' st2. do_tftpb cfg demo_cfg z appl [str ''tftpboot''] (load_turns demo_server 0x0a000002 demo_img) boot_net =
       Some (Netboot_Bootm [Start_Linux 0x10000 0x7FFEC0 0 0 0x7FFF00 0x7FFF00 m'] Started st2) \<and> mread m' 0x10000 3 = [1, 2, 3]"
    unfolding d ba e(1) demo_places by (auto simp: IH_SIZE_def)
qed

end
