(* ===== verification/NetErrors.thy ===== *)
theory NetErrors
  imports NetBootCorrect
begin

text \<open>
  Two errors of the network code: in every transfer but the first after power-up any datagram passes for the ARP
  reply that is waited for, and the block numbers of TFTP wrap round.
\<close>

section \<open>Waiting for the ARP reply\<close>

text \<open>In any state in which the handler is that of ARP, whatever set it up.\<close>

lemma arp_waiting_datagram:
  assumes f: "f = udp_frame srv ether dest dport sport data" "length ether = 6" "length (NetOurEther srv) = 6"
    and data: "length data + IP_HDR_SIZE < 65536" and ports: "unat dport < 65536" "unat sport < 65536"
    and dest: "NetOurIP st = dest \<or> dest = 0xFFFFFFFF"
    and st: "packetHandler st = Some ArpHandler_ptr" "NetServerEther st \<noteq> NetBcastAddr"
  shows "receive_frame cfg (buf, f) st = TftpStart (in_buffer (buf, f) st)"
proof -
  let ?st = "in_buffer (buf, f) st"
  have "length f = 42 + length data"
    by (simp add: f udp_frame_def NetSetIP_def Let_def ETHER_HDR_SIZE_def IP_HDR_SIZE_def)
  then have m: "mread (ns_mem ?st) buf (length f) = f" using data by (simp add: in_buffer_def)
  have "NetOurIP ?st = 0 \<or> NetOurIP ?st = dest \<or> dest = 0xFFFFFFFF" using dest by (simp add: in_buffer_def)
  note d = datagram_received [OF m f data order_refl this ports]
  have "st\<lparr>ns_mem := mwrite (ns_mem st) buf f\<rparr>\<lparr>NetRxPkt := buf\<rparr> = ?st" "packetHandler ?st = Some ArpHandler_ptr"
    "NetServerEther ?st = NetServerEther st" using st(1) by (simp_all add: in_buffer_def)
  then show ?thesis
    using d(1,2) st(2) by (simp add: receive_frame_def NetReceive_def Let_def call_handler_def ArpHandler_def PROT_IP_def PROT_ARP_def PROT_RARP_def)
qed

lemma net_start_waiting:
  assumes "net_wf st0" and "net_start cfg TFTP st0 = Some (True, st)"
  shows "packetHandler st = Some ArpHandler_ptr \<and> NetServerEther st = NetServerEther st0 \<and> net_wf st"
proof -
  have "net_wf st" using net_start_total [OF assms(1), of TFTP cfg] assms(2) by auto
  then show ?thesis
    using assms(2) by (auto simp: net_start_def ArpRequest_def NetSetTimeout_def NetSetHandler_def NetSendPacket_def Let_def split: bind_splits if_splits)
qed

text \<open>The first request of the transfer, to the address in \<open>NetServerEther\<close>.\<close>

lemma TftpStart_sends:
  assumes "net_wf st"
  shows "\<exists>st' p. TftpStart st = Some st' \<and> packetHandler st' = Some TftpHandler_ptr \<and> ns_sent st' = ns_sent st @ [p] \<and>
    take 6 p = NetServerEther st"
proof -
  obtain st' where "TftpStart st = Some st'" using net_ok_TftpStart [OF assms] by blast
  moreover from this obtain p where "packetHandler st' = Some TftpHandler_ptr" "ns_sent st' = ns_sent st @ [p]"
      "take 6 p = NetServerEther st"
    using assms by (elim TftpStart_cases) (simp add: TftpSend_def NetSetIP_def NetSendPacket_def NetSetEther_def net_wf_def Let_def)
  ultimately show ?thesis by blast
qed

text \<open>
  C35: a transfer that finds an Ethernet address of the server from an earlier one, that is, every transfer but the first after
  power-up. While the board waits for the ARP reply, any UDP datagram that is addressed to it or to everybody, on whatever port and
  from whomever, ends the wait: the board sends its TFTP request to the old address. \<open>NetServerEther\<close> is the broadcast address at
  power-up, which \<open>ArpHandler\<close> takes for the sign that the reply has not come, but nothing sets it back to that afterwards.
\<close>

theorem arp_any_datagram:
  assumes start: "net_wf st0" "net_start cfg TFTP st0 = Some (True, st)" "NetServerEther st0 \<noteq> NetBcastAddr"
    and f: "f = udp_frame srv ether dest dport sport data" "length ether = 6" "length (NetOurEther srv) = 6"
    and data: "length data + IP_HDR_SIZE < 65536" and ports: "unat dport < 65536" "unat sport < 65536"
    and dest: "NetOurIP st = dest \<or> dest = 0xFFFFFFFF"
  shows "\<exists>st' p. receive_frame cfg (buf, f) st = Some st' \<and> packetHandler st' = Some TftpHandler_ptr \<and>
    ns_sent st' = ns_sent st @ [p] \<and> take 6 p = NetServerEther st0"
proof -
  note w = net_start_waiting [OF start(1,2)]
  have "receive_frame cfg (buf, f) st = TftpStart (in_buffer (buf, f) st)"
    by (rule arp_waiting_datagram [OF f data ports dest]) (use w start(3) in auto)
  moreover have "net_wf (in_buffer (buf, f) st)" using w start(1) by (simp add: net_wf_def in_buffer_def)
  ultimately show ?thesis using TftpStart_sends [of "in_buffer (buf, f) st"] w by (simp add: in_buffer_def)
qed

text \<open>A broadcast of some other machine on port 137, after a transfer from the server 00:01:02:03:04:06.\<close>

theorem arp_any_datagram_witness:
  "\<exists>st st' p. net_start demo_config TFTP boot_net = Some (True, st) \<and>
     receive_frame demo_config (0x200000, udp_frame demo_net NetBcastAddr 0xFFFFFFFF 137 137 [1, 2, 3]) st = Some st' \<and>
     packetHandler st' = Some TftpHandler_ptr \<and> ns_sent st' = ns_sent st @ [p] \<and> take 6 p = [0, 1, 2, 3, 4, 6]"
proof -
  have ip: "parse_ipaddr (str ''10.0.0.1'') \<noteq> 0" by code_simp
  obtain st where st: "net_start demo_config TFTP boot_net = Some (True, st)"
    using tftp_net_start [OF boot_net_wf _ boot_net_facts(2) _ ip] boot_net_facts(1,3) boot_env_lookup(1) by auto
  have b: "NetServerEther boot_net = [0, 1, 2, 3, 4, 6]" by (simp add: boot_net_def demo_net_def)
  have "NetServerEther boot_net \<noteq> NetBcastAddr" unfolding b NetBcastAddr_def by code_simp
  from arp_any_datagram [OF boot_net_wf st this refl, where ether = NetBcastAddr and srv = demo_net and dest = "0xFFFFFFFF" and
      dport = 137 and sport = 137 and data = "[1, 2, 3]" and buf = "0x200000"]
  show ?thesis using st by (auto simp: b demo_ether NetBcastAddr_def IP_HDR_SIZE_def)
qed

section \<open>Large files\<close>

text \<open>
  C36: block 65536 of a file, whose number on the wire is 0, is stored 512 bytes below the load address, and if it
  is short the transfer counts as successful: the start of the file is not what was sent from then on, and what
  lay in front of the load address is lost.
\<close>

theorem tftp_block_wraps:
  assumes st: "TftpState st = STATE_DATA" "dest = TftpOurPort st" "src = TftpServerPort st" "TftpLastBlock st = 65535"
    and pkt: "mem_be16 (ns_mem st) pkt = TFTP_DATA" "mem_be16 (ns_mem st) (pkt + 2) = 0"
    and n: "n \<le> 512"
  shows "ns_mem (TftpHandler pkt dest src (of_nat (4 + n)) st) =
      mwrite (ns_mem st) (load_addr (ns_env st) - 512) (mread (ns_mem st) (pkt + 4) n) \<and>
    (n < 512 \<longrightarrow> NetState (TftpHandler pkt dest src (of_nat (4 + n)) st) = NETLOOP_SUCCESS)"
proof -
  let ?len = "of_nat (4 + n) :: u32"
  have u: "unat ?len = 4 + n" "unat (of_nat n :: u32) = n" using n by (auto intro!: unat_of_nat_u32 simp del: of_nat_add)
  have l: "?len - 2 - 2 = of_nat n" "\<not> ?len < 2" using u(1) by (simp_all add: word_less_nat_alt)
  have "unat (?len - 2) = 2 + n" by (subst unat_sub) (use u in \<open>simp_all add: word_le_nat_alt del: of_nat_add\<close>)
  then have l2: "\<not> ?len - 2 < 2" by (simp add: word_less_nat_alt)
  have s: "(of_nat n :: u32) < 512 \<longleftrightarrow> n < 512" unfolding word_less_nat_alt u(2) by simp
  have a: "pkt + 2 + 2 = pkt + 4" by simp
  have "TftpHandler pkt dest src ?len st = tftp_data (pkt + 2) src (?len - 2) st"
    using st pkt(1) l(2) by (simp add: TftpHandler_def TFTP_DATA_def)
  then show ?thesis
    using st pkt(2) l2 u(2) s
    by (simp add: tftp_data_def Let_def l(1) a store_block_def NetSetTimeout_def TftpSend_eq del: of_nat_add)
qed

theorem tftp_block_wraps_witness:
  "let st = demo_net\<lparr>TftpState := STATE_DATA, TftpLastBlock := 65535, ns_mem := mwrite (\<lambda>_. 0) 0x200000 [0, 3, 0, 0, 7]\<rparr>
   in ns_mem (TftpHandler 0x200000 0 0 (of_nat (4 + 1)) st) = mwrite (ns_mem st) (0x100000 - 512) [7] \<and>
     NetState (TftpHandler 0x200000 0 0 (of_nat (4 + 1)) st) = NETLOOP_SUCCESS"
proof -
  let ?st = "demo_net\<lparr>TftpState := STATE_DATA, TftpLastBlock := 65535, ns_mem := mwrite (\<lambda>_. 0) 0x200000 [0, 3, 0, 0, 7]\<rparr>"
  have "ns_mem ?st = mwrite (\<lambda>_. 0) 0x200000 [0, 3, 0, 0, 7]" by (simp del: mwrite.simps)
  then have m: "mread (ns_mem ?st) 0x200000 5 = [0, 3, 0, 0, 7]" by (simp only:) (rule mread_mwrite; simp)
  have r: "mread (ns_mem ?st) 0x200000 2 = [0, 3]" "mread (ns_mem ?st) (0x200000 + 2) 2 = [0, 0]" "mread (ns_mem ?st) (0x200000 + 4) 1 = [7]"
    using mread_part [OF m, of 0 2] mread_part [OF m, of 2 2] mread_part [OF m, of 4 1] by simp_all
  have "be16_dec [0, 3] = TFTP_DATA" "be16_dec [0, 0] = 0" unfolding TFTP_DATA_def by code_simp+
  then have p: "mem_be16 (ns_mem ?st) 0x200000 = TFTP_DATA" "mem_be16 (ns_mem ?st) (0x200000 + 2) = 0" unfolding r by simp_all
  have q: "TftpState ?st = STATE_DATA" "0 = TftpOurPort ?st" "0 = TftpServerPort ?st" "TftpLastBlock ?st = 65535"
    "load_addr (ns_env ?st) = 0x100000"
    by (simp_all add: demo_net_def demo_env_def)
  show ?thesis using tftp_block_wraps [OF q(1-4) p, of 1] unfolding Let_def r(3) q(5) by simp
qed

end
