(* ===== verification/DhcpCorrect.thy ===== *)
theory DhcpCorrect
  imports NetInvariant TftpInvariant
begin

text \<open>
  The DHCP client: its option lists as lists of codes and values, and the exchange that leases an address.
\<close>

section \<open>Option lists\<close>

type_synonym dhcp_option = "byte \<times> byte list"

definition option_bytes :: "dhcp_option list \<Rightarrow> byte list" where
  "option_bytes os = concat (map (\<lambda>(c, v). c # of_nat (length v) # v) os) @ [0xff]"

text \<open>An option that the loops of the client step over; the codes that are read as a word have room for one.\<close>

definition wf_option :: "dhcp_option \<Rightarrow> bool" where
  "wf_option opt \<longleftrightarrow> fst opt \<noteq> 0xff \<and> length (snd opt) < 256 \<and> (fst opt \<in> {1, 3, 6, 51, 54} \<longrightarrow> 4 \<le> length (snd opt)) \<and>
     (fst opt = 53 \<longrightarrow> snd opt \<noteq> [])"

text \<open>What an option of an acknowledgement does to the settings of the board.\<close>

definition name_value :: "nat \<Rightarrow> byte list \<Rightarrow> byte list" where
  "name_value n v = takeWhile (\<lambda>c. c \<noteq> 0) (take (n - 1) v)"

definition take_option :: "dhcp_option \<Rightarrow> net_state \<Rightarrow> net_state" where
  "take_option opt st =
     (let c = fst opt; v = snd opt
      in if c = 1 then st\<lparr>NetOurSubnetMask := be32_dec v\<rparr>
         else if c = 3 then st\<lparr>NetOurGatewayIP := be32_dec v\<rparr>
         else if c = 6 then st\<lparr>NetOurDNSIP := be32_dec v\<rparr>
         else if c = 12 then st\<lparr>NetOurHostName := name_value 32 v\<rparr>
         else if c = 17 then st\<lparr>NetOurRootPath := name_value 64 v\<rparr>
         else if c = 51 then st\<lparr>dhcp_leasetime := be32_dec v\<rparr>
         else if c = 54 then st\<lparr>NetServerIP := be32_dec v\<rparr>
         else st)"

lemma option_bytes_simps [simp]:
  "option_bytes [] = [0xff]"
  "option_bytes ((c, v) # os) = c # of_nat (length v) # v @ option_bytes os"
  by (simp_all add: option_bytes_def)

lemma option_bytes_length: "0 < length (option_bytes os)"
  by (simp add: option_bytes_def)

lemma truncate_sz_take: "length v = n \<Longrightarrow> take (truncate_sz k n) v = take (k - 1) v"
  by (auto simp: truncate_sz_def)

lemma unat_of_nat_byte: "n < 256 \<Longrightarrow> unat (of_nat n :: byte) = n"
  by (simp add: unat_of_nat take_bit_nat_eq_self)

lemma mem_be32_take: "mread m a n = v \<Longrightarrow> 4 \<le> n \<Longrightarrow> mem_be32 m a = be32_dec v"
  by (auto simp: be32_dec_def take_mread)

text \<open>The head of an option list in memory.\<close>

lemma option_at:
  assumes m: "mread m a (length (option_bytes ((c, v) # os))) = option_bytes ((c, v) # os)" and v: "length v < 256"
  shows "m a = c" "unat (m (a + 1)) = length v" "mread m (a + 2) (length v) = v"
    "a + (ucast (m (a + 1)) + 2) = a + of_nat (2 + length v)"
    "mread m (a + of_nat (2 + length v)) (length (option_bytes os)) = option_bytes os"
proof -
  let ?b = "option_bytes ((c, v) # os)"
  have at: "m (a + of_nat i) = ?b ! i" if "i < length ?b" for i using m that by (rule mread_at)
  have l: "length ?b = 2 + length v + length (option_bytes os)" by simp
  show "m a = c" using at [of 0] by simp
  have "m (a + 1) = of_nat (length v)" using at [of 1] option_bytes_length by simp
  then show u: "unat (m (a + 1)) = length v" using v by (simp add: unat_of_nat_byte)
  show "mread m (a + 2) (length v) = v" using mread_part [OF m, of 2 "length v"] l by simp
  have "(ucast (m (a + 1)) :: u32) = of_nat (length v)" using u by (metis of_nat_unat)
  then show "a + (ucast (m (a + 1)) + 2) = a + of_nat (2 + length v)" by simp
  show "mread m (a + of_nat (2 + length v)) (length (option_bytes os)) = option_bytes os"
    using mread_part [OF m, of "2 + length v" "length (option_bytes os)"] l by simp
qed

lemma DhcpOption_take:
  assumes "ns_mem st a = fst opt" "unat (ns_mem st (a + 1)) = length (snd opt)" "mread (ns_mem st) (a + 2) (length (snd opt)) = snd opt"
    and "wf_option opt"
  shows "DhcpOption a st = take_option opt st"
proof -
  have w: "fst opt \<in> {1, 3, 6, 51, 54} \<Longrightarrow> mem_be32 (ns_mem st) (a + 2) = be32_dec (snd opt)"
    using assms(3,4) by (intro mem_be32_take) (auto simp: wf_option_def)
  have n: "vendor_string (ns_mem st) a k (length (snd opt)) = name_value k (snd opt)" for k
  proof -
    have "truncate_sz k (length (snd opt)) \<le> length (snd opt)" by (auto simp: truncate_sz_def)
    then have "mread (ns_mem st) (a + 2) (truncate_sz k (length (snd opt))) = take (k - 1) (snd opt)"
      using assms(3) truncate_sz_take take_mread by metis
    then show ?thesis by (simp add: vendor_string_def name_value_def)
  qed
  show ?thesis by (simp add: DhcpOption_def take_option_def Let_def assms(1,2) w n)
qed

lemma take_option_mem [simp]: "ns_mem (take_option opt st) = ns_mem st"
  by (simp add: take_option_def Let_def)

text \<open>The client reads the list in memory as the list of options, up to its end mark.\<close>

lemma options_loop_list:
  assumes "mread (ns_mem st) a (length (option_bytes os)) = option_bytes os" and "list_all wf_option os"
    and "unat a + length (option_bytes os) \<le> unat lim"
  shows "options_loop a lim st = Some (fold take_option os st)"
  using assms
proof (induction os arbitrary: a st)
  case Nil
  then show ?case by (subst options_loop.simps) simp
next
  case (Cons opt os)
  obtain c v where opt: "opt = (c, v)" by (cases opt)
  have wf: "wf_option opt" "list_all wf_option os" "length v < 256" "c \<noteq> 0xff"
    using Cons.prems(2) unfolding opt by simp_all (simp_all add: wf_option_def)
  note h = option_at [OF Cons.prems(1) [unfolded opt] wf(3)]
  have lim: "unat a + (2 + length v) + length (option_bytes os) \<le> unat lim" using Cons.prems(3) by (simp add: opt)
  then have u: "unat (a + of_nat (2 + length v)) = unat a + (2 + length v)"
    by (intro unat_add_of_nat) (use unsigned_less [where ?'a = nat, of lim] in simp)
  have "a < lim" using lim by (simp add: word_less_nat_alt)
  moreover have "DhcpOption a st = take_option opt st"
    by (rule DhcpOption_take) (use h(1-3) wf(1) in \<open>simp_all add: opt\<close>)
  ultimately have "options_loop a lim st = options_loop (a + of_nat (2 + length v)) lim (take_option opt st)"
    using h(1,4) wf(4) by (subst options_loop.simps) (simp add: ac_simps)
  also have "\<dots> = Some (fold take_option os (take_option opt st))"
    by (rule Cons.IH) (use h(5) wf(2) u lim in simp_all)
  finally show ?case by simp
qed

text \<open>The message type: the first byte of the first option 53.\<close>

fun message_type :: "dhcp_option list \<Rightarrow> int" where
  "message_type [] = -1"
| "message_type ((c, v) # os) = (if c = 53 then uint (hd v) else message_type os)"

lemma type_loop_list:
  assumes "mread m a (length (option_bytes os)) = option_bytes os" and "list_all wf_option os"
  shows "type_loop m a = Some (message_type os)"
  using assms
proof (induction os arbitrary: a)
  case Nil
  then show ?case by (subst type_loop.simps) simp
next
  case (Cons opt os)
  obtain c v where opt: "opt = (c, v)" by (cases opt)
  have wf: "list_all wf_option os" "length v < 256" "c \<noteq> 0xff" "c = 53 \<longrightarrow> v \<noteq> []"
    using Cons.prems(2) unfolding opt by simp_all (simp_all add: wf_option_def)
  note h = option_at [OF Cons.prems(1) [unfolded opt] wf(2)]
  show ?case
  proof (cases "c = 53")
    case True
    then have "m (a + 2) = hd v" using h(3) wf(4) by (cases v) auto
    then show ?thesis using h(1) True by (subst type_loop.simps) (simp add: opt)
  next
    case False
    then show ?thesis using h(1,4) wf(3) Cons.IH [OF h(5) wf(1)] by (subst type_loop.simps) (simp add: opt ac_simps)
  qed
qed

section \<open>Requests and replies\<close>

text \<open>The requests are option lists behind the magic number, padded with zeros.\<close>

definition requested :: "bootp_config \<Rightarrow> byte list" where
  "requested bo = concat (map (\<lambda>(c, opt). if bo_mask bo AND opt \<noteq> 0 then [c] else [])
     [(1, CONFIG_BOOTP_SUBNETMASK), (3, CONFIG_BOOTP_GATEWAY), (6, CONFIG_BOOTP_DNS), (12, CONFIG_BOOTP_HOSTNAME),
      (13, CONFIG_BOOTP_BOOTFILESIZE), (17, CONFIG_BOOTP_BOOTPATH), (40, CONFIG_BOOTP_NISDOMAIN)])"

definition request_options :: "bootp_config \<Rightarrow> byte \<Rightarrow> u32 \<Rightarrow> u32 \<Rightarrow> dhcp_option list" where
  "request_options bo mtype server ip =
     [(53, [mtype]), (57, be16 576)] @ (if server \<noteq> 0 then [(54, be32 server)] else []) @
     (if ip \<noteq> 0 then [(50, be32 ip)] else []) @ [(55, requested bo)]"

lemma DhcpExtended_options:
  "DhcpExtended bo mtype server ip =
     (let e = [99, 130, 83, 99] @ option_bytes (request_options bo mtype server ip)
      in e @ replicate (bo_min_ext_len bo + 1 - length e) 0)"
proof -
  have "option_bytes (request_options bo mtype server ip) =
      [53, 1, mtype] @ [57, 2] @ be16 576 @ (if server \<noteq> 0 then [54, 4] @ be32 server else []) @
      (if ip \<noteq> 0 then [50, 4] @ be32 ip else []) @ [55, of_nat (length (requested bo))] @ requested bo @ [255]"
    by (cases "server = 0"; cases "ip = 0") (simp_all add: request_options_def)
  moreover have "requested bo =
      (let item = (\<lambda>opt code. if bo_mask bo AND opt \<noteq> 0 then [code] else [])
       in item CONFIG_BOOTP_SUBNETMASK 1 @ item CONFIG_BOOTP_GATEWAY 3 @ item CONFIG_BOOTP_DNS 6 @
          item CONFIG_BOOTP_HOSTNAME 12 @ item CONFIG_BOOTP_BOOTFILESIZE 13 @
          item CONFIG_BOOTP_BOOTPATH 17 @ item CONFIG_BOOTP_NISDOMAIN 40)"
    unfolding requested_def Let_def list.map concat.simps prod.case by (simp only: append_Nil2)
  ultimately show ?thesis unfolding DhcpExtended_def Let_def by (simp only:) 
qed

lemma length_requested: "length (requested bo) \<le> 7"
  by (simp add: requested_def)

lemma request_options_wf: "list_all wf_option (request_options bo mtype server ip)"
  using length_requested [of bo] by (simp add: request_options_def wf_option_def)

lemma length_DhcpExtended: "bo_min_ext_len bo \<le> 1000 \<Longrightarrow> length (DhcpExtended bo mtype server ip) \<le> 1001"
proof -
  assume n: "bo_min_ext_len bo \<le> 1000"
  define e where "e = [99, 130, 83, 99] @ option_bytes (request_options bo mtype server ip)"
  have "length e \<le> 40" using length_requested [of bo] by (simp add: e_def request_options_def)
  then show "length (DhcpExtended bo mtype server ip) \<le> 1001" using n unfolding DhcpExtended_options Let_def e_def [symmetric] by simp
qed

text \<open>A message of the server: \<open>mid\<close> is what lies between the addresses and the name of the boot file.\<close>

definition bootp_reply :: "u32 \<Rightarrow> u32 \<Rightarrow> u32 \<Rightarrow> byte list \<Rightarrow> byte list \<Rightarrow> byte list \<Rightarrow> byte list" where
  "bootp_reply xid yi si mid file vend =
     [OP_BOOTREPLY, HWT_ETHER, HWL_ETHER, 0] @ be32 xid @ replicate 8 0 @ be32 yi @ be32 si @ mid @
     file @ replicate (128 - length file) 0 @ vend"

definition wf_reply :: "byte list \<Rightarrow> byte list \<Rightarrow> byte list \<Rightarrow> bool" where
  "wf_reply mid file vend \<longleftrightarrow> length mid = 84 \<and> length file \<le> 127 \<and> 0 \<notin> set file \<and> 34 \<notin> set file \<and> length vend \<le> 1200"

lemma length_bootp_reply: "wf_reply mid file vend \<Longrightarrow> length (bootp_reply xid yi si mid file vend) = 236 + length vend"
  by (simp add: bootp_reply_def wf_reply_def)

lemma be32_dec_be32_Nil [simp]: "be32_dec (be32 x) = x"
  using be32_dec_be32 [of x "[]"] by simp

lemma takeWhile_padded: "0 \<notin> set s \<Longrightarrow> takeWhile (\<lambda>c. c \<noteq> (0 :: byte)) (s @ replicate n 0) = s"
  by (induction s) (auto simp: takeWhile_eq_Nil_iff hd_replicate)

text \<open>The fields of a message in memory, as the client reads them.\<close>

lemma reply_fields:
  assumes m: "mread m pkt (length r) = r" and r: "r = bootp_reply xid yi si mid file vend" and wf: "wf_reply mid file vend"
  shows "m pkt = OP_BOOTREPLY" "m (pkt + 1) = HWT_ETHER" "m (pkt + 2) = HWL_ETHER"
    "mem_be32 m (pkt + bp_id) = xid" "mem_be32 m (pkt + bp_yiaddr) = yi" "mem_be32 m (pkt + bp_siaddr) = si"
    "array_string m (pkt + bp_file) 128 = file" "mread m (pkt + bp_vend) (length vend) = vend"
    "mread m (pkt + bp_id) 4 = be32 xid" "mread m (pkt + bp_file) 128 = file @ replicate (128 - length file) 0"
proof -
  have l: "length r = 236 + length vend" using wf by (simp add: r length_bootp_reply)
  have lm: "length mid = 84" "length file \<le> 127" "0 \<notin> set file" using wf by (simp_all add: wf_reply_def)
  have at: "m (pkt + of_nat i) = r ! i" if "i < length r" for i using m that by (rule mread_at)
  have part: "mread m (pkt + of_nat i) k = take k (drop i r)" if "i + k \<le> length r" for i k
    using m that by (rule mread_part)
  show "m pkt = OP_BOOTREPLY" "m (pkt + 1) = HWT_ETHER" "m (pkt + 2) = HWL_ETHER"
    using at [of 0] at [of 1] at [of 2] l by (simp_all add: r bootp_reply_def)
  show id: "mread m (pkt + bp_id) 4 = be32 xid" using part [of 4 4] l by (simp add: r bootp_reply_def bp_id_def)
  then show "mem_be32 m (pkt + bp_id) = xid" by simp
  show "mem_be32 m (pkt + bp_yiaddr) = yi" using part [of 16 4] l by (simp add: r bootp_reply_def bp_yiaddr_def)
  show "mem_be32 m (pkt + bp_siaddr) = si" using part [of 20 4] l by (simp add: r bootp_reply_def bp_siaddr_def)
  have d: "drop 108 r = file @ replicate (128 - length file) 0 @ vend" using lm by (simp add: r bootp_reply_def)
  show f: "mread m (pkt + bp_file) 128 = file @ replicate (128 - length file) 0"
    using part [of 108 128] l lm by (simp add: d bp_file_def)
  show "array_string m (pkt + bp_file) 128 = file" unfolding array_string_def f using lm(3) by (rule takeWhile_padded)
  show "mread m (pkt + bp_vend) (length vend) = vend"
    using part [of 236 "length vend"] l lm by (simp add: r bootp_reply_def bp_vend_def)
qed

section \<open>The exchange\<close>

lemma take_options_keep [simp]:
  "ns_mem (fold take_option os st) = ns_mem st" "ns_env (fold take_option os st) = ns_env st"
  "ns_sent (fold take_option os st) = ns_sent st" "NetRxPkt (fold take_option os st) = NetRxPkt st"
  "packetHandler (fold take_option os st) = packetHandler st" "NetState (fold take_option os st) = NetState st"
  "NetOurEther (fold take_option os st) = NetOurEther st" "ns_now (fold take_option os st) = ns_now st"
  "NetBootFileXferSize (fold take_option os st) = NetBootFileXferSize st"
  by (induction os arbitrary: st) (simp_all add: take_option_def Let_def)

lemma take_option_addresses:
  "NetOurSubnetMask (take_option opt st) = (if fst opt = 1 then be32_dec (snd opt) else NetOurSubnetMask st)"
  "NetOurGatewayIP (take_option opt st) = (if fst opt = 3 then be32_dec (snd opt) else NetOurGatewayIP st)"
  by (simp_all add: take_option_def Let_def)

lemma c_string_name: "c_string (n - 1) (name_value n v)"
  using length_takeWhile_le [of "\<lambda>c. c \<noteq> 0" "take (n - 1) v"]
  by (auto simp: c_string_def name_value_def dest: set_takeWhileD)

lemma take_options_wf: "net_wf st \<Longrightarrow> net_wf (fold take_option os st)"
proof (induction os arbitrary: st)
  case (Cons opt os)
  have "c_string 31 (name_value 32 v)" "c_string 63 (name_value 64 v)" for v
    using c_string_name [of 32 v] c_string_name [of 64 v] by simp_all
  moreover have "net_wf (st\<lparr>dhcp_leasetime := x\<rparr>) = net_wf st" for x by (simp add: net_wf_def)
  ultimately have "net_wf (take_option opt st)" using Cons.prems by (simp add: take_option_def Let_def)
  then show ?case using Cons.IH by simp
qed simp

lemma copy_filename_plain: "length s \<le> 127 \<Longrightarrow> 34 \<notin> set s \<Longrightarrow> copy_filename s 128 = s"
proof -
  have "length s < n \<Longrightarrow> 34 \<notin> set s \<Longrightarrow> copy_filename_loop s n = s" for n
    by (induction s arbitrary: n) auto
  from this [of 128] show "length s \<le> 127 \<Longrightarrow> 34 \<notin> set s \<Longrightarrow> copy_filename s 128 = s"
    by (cases s) (simp_all add: copy_filename_def)
qed

text \<open>What the client takes from every message it accepts.\<close>

lemma copy_params_file:
  assumes wf: "net_wf st" and bfile: "array_string (ns_mem st) (bp + bp_file) 128 = file" "length file \<le> 127" "0 \<notin> set file" "34 \<notin> set file"
  shows "\<exists>env. BootpCopyNetParams cfg bp st = Some (st\<lparr>NetOurIP := mem_be32 (ns_mem st) (bp + bp_yiaddr),
      NetServerIP := mem_be32 (ns_mem st) (bp + bp_siaddr), NetServerEther := mread (ns_mem st) (NetRxPkt st + 6) 6, ns_env := env\<rparr>) \<and>
    env_wf env \<and> BootFile env = file \<and> env_same {str ''bootfile''} (ns_env st) env"
proof -
  let ?env = "(ns_env st)\<lparr>BootFile := file\<rparr>"
  have f: "copy_filename file 128 = file" using bfile(2,4) by (rule copy_filename_plain)
  have e: "env_wf ?env" using wf by (simp add: net_wf_def env_wf_def)
  obtain r env where s: "setenv cfg (str ''bootfile'') (Some file) ?env = Some (r, env)" "env_wf env" "env_same {str ''bootfile''} ?env env"
      "BootFile env \<in> {BootFile ?env, copy_filename file 128}"
    using setenv_same [OF e bootfile_name(1,2) bfile(3), of cfg] by auto
  have same: "env_same {str ''bootfile''} (ns_env st) ?env" "env_same {str ''bootfile''} (ns_env st) env"
    using s(3) by (simp_all add: env_same_def)
  show ?thesis
  proof (cases "file = []")
    case True
    then show ?thesis using e same(1) unfolding BootpCopyNetParams_def Let_def bfile(1) f
      by (intro exI [of _ ?env]) simp
  next
    case False
    then show ?thesis using s same(2) f unfolding BootpCopyNetParams_def Let_def bfile(1)
      by (intro exI [of _ env]) simp
  qed
qed

lemma check_reply:
  assumes m: "mread (ns_mem st) pkt (length r) = r" and r: "r = bootp_reply (BootpID st) yi si mid file vend" and wf: "wf_reply mid file vend"
  shows "BootpCheckPkt pkt PORT_BOOTPC PORT_BOOTPS (of_nat (length r)) st = 0"
proof -
  have l: "length r = 236 + length vend" "length vend \<le> 1200" using wf by (simp_all add: r length_bootp_reply wf_reply_def)
  then have "unat (of_nat (length r) :: u32) = length r" by (intro unat_of_nat_u32) simp
  then have "\<not> (of_nat (length r) :: u32) < of_nat BOOTP_FIXED" using l(1) by (simp add: word_less_nat_alt BOOTP_FIXED_def)
  then show ?thesis using reply_fields [OF m r wf] by (simp add: BootpCheckPkt_def Let_def)
qed

text \<open>The messages in memory, for which the client waits in its two states.\<close>

definition prefix_ok :: "bootp_config \<Rightarrow> byte list \<Rightarrow> bool" where
  "prefix_ok bo file \<longleftrightarrow> (case bo_prefix bo of None \<Rightarrow> True | Some p \<Rightarrow> length p \<le> 127 \<and> take (length p) file = p)"

lemma bootfile_prefix:
  assumes "mread m (pkt + bp_file) 128 = file @ replicate (128 - length file) 0" and "prefix_ok bo file"
  shows "bootfile_matches bo m pkt"
proof (cases "bo_prefix bo")
  case (Some p)
  then have p: "length p \<le> 127" "take (length p) file = p" using assms(2) by (simp_all add: prefix_ok_def)
  then have "length p \<le> length file" by (metis length_take min.bounded_iff order_refl)
  then have "mread m (pkt + bp_file) (length p) = p" using p assms(1) take_mread [of "length p" 128 m "pkt + bp_file"] by simp
  then show ?thesis using Some by (simp add: bootfile_matches_def)
qed (simp add: bootfile_matches_def)

text \<open>The request sent in answer to an offer.\<close>

definition request_body :: "bootp_config \<Rightarrow> net_state \<Rightarrow> mem \<Rightarrow> u32 \<Rightarrow> byte list" where
  "request_body bo st m bp_offer =
     [OP_BOOTREQUEST, HWT_ETHER, HWL_ETHER, 0] @ mread m (bp_offer + bp_id) 4 @
     be16 (ucast (ns_now st div CFG_HZ)) @ be16 0 @ mread m (bp_offer + bp_ciaddr) 4 @
     mread m (bp_offer + bp_yiaddr) 4 @ mread m (bp_offer + bp_siaddr) 4 @ mread m (bp_offer + bp_giaddr) 4 @
     NetOurEther st @ replicate 10 0 @ replicate 64 0 @ replicate 128 0 @
     DhcpExtended bo DHCP_REQUEST (NetServerIP st) (mem_be32 m (bp_offer + bp_yiaddr))"

lemma DhcpSendRequestPkt_frame:
  assumes "length (NetOurEther st) = 6"
  shows "DhcpSendRequestPkt bo bp_offer st =
    NetSendPacket (udp_frame st NetBcastAddr 0xFFFFFFFF PORT_BOOTPS PORT_BOOTPC (request_body bo st (ns_mem st) bp_offer))
      (st\<lparr>NetIPID := NetIPID st + 1\<rparr>)"
proof -
  have "length (request_body bo st (ns_mem st) bp_offer) =
      BOOTP_FIXED + length (DhcpExtended bo DHCP_REQUEST (NetServerIP st) (mem_be32 (ns_mem st) (bp_offer + bp_yiaddr)))"
    using assms by (simp add: request_body_def BOOTP_FIXED_def)
  then show ?thesis
    by (simp add: DhcpSendRequestPkt_def udp_frame_def NetSetIP_def Let_def)
      (simp add: request_body_def)
qed

lemma offer_taken:
  assumes wf: "net_wf st" and sel: "dhcp_state st = SELECTING"
    and m: "mread (ns_mem st) pkt (length r) = r" and r: "r = bootp_reply (BootpID st) yi si mid file vend"
    and rep: "wf_reply mid file vend" and pre: "prefix_ok bo file"
  shows "\<exists>env. DhcpHandler bo cfg pkt PORT_BOOTPC PORT_BOOTPS (of_nat (length r)) st = Some (DhcpSendRequestPkt bo pkt
      (NetSetTimeout (BOOTP_TIMEOUT * CFG_HZ) (Some BootpTimeout_ptr) (st\<lparr>dhcp_state := REQUESTING, NetOurIP := yi, NetServerIP := si,
        NetServerEther := mread (ns_mem st) (NetRxPkt st + 6) 6, ns_env := env\<rparr>))) \<and>
    env_wf env \<and> BootFile env = file \<and> env_same {str ''bootfile''} (ns_env st) env"
proof -
  note f = reply_fields [OF m r rep]
  let ?st = "st\<lparr>dhcp_state := REQUESTING\<rparr>"
  have w: "net_wf ?st" using wf by (simp add: net_wf_def)
  have a: "array_string (ns_mem ?st) (pkt + bp_file) 128 = file" "length file \<le> 127" "0 \<notin> set file" "34 \<notin> set file"
    using f(7) rep by (simp_all add: wf_reply_def)
  obtain env where e: "BootpCopyNetParams cfg pkt ?st = Some (?st\<lparr>NetOurIP := yi, NetServerIP := si,
      NetServerEther := mread (ns_mem st) (NetRxPkt st + 6) 6, ns_env := env\<rparr>)"
      "env_wf env" "BootFile env = file" "env_same {str ''bootfile''} (ns_env st) env"
    using copy_params_file [OF w a, of cfg] f(5,6) by auto
  then show ?thesis
    using check_reply [OF m r rep] sel bootfile_prefix [OF f(10) pre] by (intro exI [of _ env]) (simp add: DhcpHandler_def)
qed

text \<open>The vendor area of an acknowledgement.\<close>

definition dhcp_vendor :: "dhcp_option list \<Rightarrow> byte list \<Rightarrow> byte list" where
  "dhcp_vendor os pad = [99, 130, 83, 99] @ option_bytes os @ pad"

definition no_autoload :: "byte list option \<Rightarrow> bool" where
  "no_autoload v \<longleftrightarrow> (case v of Some s \<Rightarrow> peek s = ch CHR ''n'' | None \<Rightarrow> False)"

lemma ack_taken:
  assumes wf: "net_wf st" and req: "dhcp_state st = REQUESTING"
    and m: "mread (ns_mem st) pkt (length r) = r" and r: "r = bootp_reply (BootpID st) yi si mid file (dhcp_vendor os pad)"
    and rep: "wf_reply mid file (dhcp_vendor os pad)" and os: "list_all wf_option os" "message_type os = 5"
      "length (option_bytes os) \<le> 548" and low: "unat pkt + 1024 \<le> 2 ^ 32"
    and auto: "\<not> no_autoload (env_lookup (env_data (ns_env st)) (str ''autoload''))"
  shows "\<exists>env. DhcpHandler bo cfg pkt PORT_BOOTPC PORT_BOOTPS (of_nat (length r)) st = Some (ArpRequest
      ((fold take_option os st)\<lparr>NetOurIP := yi, NetServerIP := si, NetServerEther := mread (ns_mem st) (NetRxPkt st + 6) 6,
        ns_env := env, dhcp_state := BOUND\<rparr>)) \<and>
    env_wf env \<and> BootFile env = file \<and> env_same {str ''bootfile''} (ns_env st) env"
proof -
  note f = reply_fields [OF m r rep]
  let ?v = "pkt + bp_vend" and ?st = "fold take_option os st"
  have v: "mread (ns_mem st) ?v (4 + length (option_bytes os) + length pad) = dhcp_vendor os pad"
  proof -
    have "length (dhcp_vendor os pad) = 4 + length (option_bytes os) + length pad" by (simp add: dhcp_vendor_def)
    then show ?thesis using f(8) by (simp only:)
  qed
  have magic: "mem_be32 (ns_mem st) ?v = BOOTP_VENDOR_MAGIC"
    using mread_part [OF v, of 0 4] by (simp add: dhcp_vendor_def BOOTP_VENDOR_MAGIC_def be32_dec_def)
  have o: "mread (ns_mem st) (?v + 4) (length (option_bytes os)) = option_bytes os"
    using mread_part [OF v, of 4 "length (option_bytes os)"] by (simp add: dhcp_vendor_def)
  have q: "?v + 4 = pkt + of_nat 240" "?v + 4 + BOOTP_HDR_SIZE = pkt + of_nat 788" by (simp_all add: bp_vend_def BOOTP_HDR_SIZE_def)
  have u: "unat (pkt + of_nat 240) = unat pkt + 240" "unat (pkt + of_nat 788) = unat pkt + 788"
    by (rule unat_add_of_nat; use low in simp)+
  have "unat (?v + 4) + length (option_bytes os) \<le> unat (?v + 4 + BOOTP_HDR_SIZE)" unfolding q(1) q(2) [unfolded q(1)] u using os(3) by simp
  then have opts: "DhcpOptionsProcess (?v + 4) st = Some ?st"
    unfolding DhcpOptionsProcess_def by (rule options_loop_list [OF o os(1)])
  have t: "DhcpMessageType (ns_mem st) ?v = Some 5" using type_loop_list [OF o os(1)] magic os(2) by (simp add: DhcpMessageType_def)
  have a: "array_string (ns_mem ?st) (pkt + bp_file) 128 = file" "length file \<le> 127" "0 \<notin> set file" "34 \<notin> set file"
    using f(7) rep by (simp_all add: wf_reply_def)
  obtain env where e: "BootpCopyNetParams cfg pkt ?st = Some (?st\<lparr>NetOurIP := yi, NetServerIP := si,
      NetServerEther := mread (ns_mem st) (NetRxPkt st + 6) 6, ns_env := env\<rparr>)"
      "env_wf env" "BootFile env = file" "env_same {str ''bootfile''} (ns_env st) env"
    using copy_params_file [OF take_options_wf [OF wf] a, of cfg] f(5,6) by auto
  have "env_lookup (env_data env) (str ''autoload'') = env_lookup (env_data (ns_env st)) (str ''autoload'')"
    using e(4) bootfile_name(3) by (simp add: env_same_def)
  then have autoload: "getenv_str (env_data env) (str ''autoload'') = Some (env_lookup (env_data (ns_env st)) (str ''autoload''))"
    using getenv_wf [OF e(2) bootfile_name(3)] by simp
  have ack: "uint DHCP_ACK = 5" by (simp add: DHCP_ACK_def)
  show ?thesis
    using e(2-4) auto autoload check_reply [OF m r rep]
    by (intro exI [of _ env])
      (simp add: DhcpHandler_def req magic opts t e(1) ack no_autoload_def Let_def del: str_Cons)
qed

text \<open>A message of the server as a frame that arrives in a turn of its own.\<close>

definition dhcp_frame :: "net_state \<Rightarrow> byte list \<Rightarrow> u32 \<Rightarrow> byte list \<Rightarrow> byte list" where
  "dhcp_frame srv ether dest reply = udp_frame srv ether dest PORT_BOOTPC PORT_BOOTPS reply"

definition dhcp_turn :: "u32 \<Rightarrow> byte list \<Rightarrow> u32 \<Rightarrow> net_turn" where
  "dhcp_turn buf fr t = \<lparr>nt_frames = [(buf, fr)], nt_ctrlc = False, nt_time = t\<rparr>"

lemma dhcp_frame_received:
  assumes fr: "fr = dhcp_frame srv ether dest r" and l: "length ether = 6" "length (NetOurEther srv) = 6" "length r \<le> 1460"
    and dest: "NetOurIP st = 0 \<or> NetOurIP st = dest \<or> dest = 0xFFFFFFFF" and h: "packetHandler st = Some DhcpHandler_ptr"
  shows "receive_frame cfg (buf, fr) st =
      DhcpHandler (nc_bootp cfg) (nc_env cfg) (buf + 42) PORT_BOOTPC PORT_BOOTPS (of_nat (length r)) (in_buffer (buf, fr) st)"
    and "mread (ns_mem (in_buffer (buf, fr) st)) (buf + 42) (length r) = r"
proof -
  let ?st = "in_buffer (buf, fr) st"
  have "length fr = 42 + length r"
    using l by (simp add: fr dhcp_frame_def udp_frame_def NetSetIP_def Let_def ETHER_HDR_SIZE_def IP_HDR_SIZE_def)
  then have m: "mread (ns_mem ?st) buf (length fr) = fr" using l by (simp add: in_buffer_def)
  have ld: "length r + IP_HDR_SIZE < 65536" using l by (simp add: IP_HDR_SIZE_def)
  have dst: "NetOurIP ?st = 0 \<or> NetOurIP ?st = dest \<or> dest = 0xFFFFFFFF" using dest by (simp add: in_buffer_def)
  have p: "unat PORT_BOOTPC < 65536" "unat PORT_BOOTPS < 65536" by (simp_all add: PORT_BOOTPC_def PORT_BOOTPS_def)
  note d = datagram_received [OF m fr [unfolded dhcp_frame_def] l(1,2) ld order_refl dst p]
  show "mread (ns_mem ?st) (buf + 42) (length r) = r" by (rule d(3))
  have "st\<lparr>ns_mem := mwrite (ns_mem st) buf fr\<rparr>\<lparr>NetRxPkt := buf\<rparr> = ?st" "packetHandler ?st = Some DhcpHandler_ptr"
    using h by (simp_all add: in_buffer_def)
  then show "receive_frame cfg (buf, fr) st =
      DhcpHandler (nc_bootp cfg) (nc_env cfg) (buf + 42) PORT_BOOTPC PORT_BOOTPS (of_nat (length r)) ?st"
    using d(1,2) by (simp add: receive_frame_def NetReceive_def Let_def call_handler_def PROT_IP_def PROT_ARP_def PROT_RARP_def)
qed

text \<open>A turn in which no timer expires.\<close>

lemma timer_later:
  assumes "timeHandler st = Some h" "timeValue st = ns_now st + 5000" "unat (ns_now st) + 5000 < 2 ^ 32"
  shows "check_timeout cfg st = st"
proof -
  have "unat (ns_now st + 5000) = unat (ns_now st) + 5000" using assms(3) by (subst unat_add_lem [THEN iffD1]) simp_all
  then have "\<not> timeValue st < ns_now st" using assms(2) by (simp add: word_less_nat_alt)
  then show ?thesis using assms(1) by (simp add: check_timeout_def)
qed

lemma net_loop_turn:
  assumes "receive_frame cfg (buf, fr) (st\<lparr>ns_now := t\<rparr>) = Some st1" "timeHandler st1 = Some h" "timeValue st1 = ns_now st1 + 5000"
    "ns_now st1 = t" "unat t + 5000 < 2 ^ 32" "NetState st1 = NETLOOP_CONTINUE"
  shows "net_loop cfg protocol (dhcp_turn buf fr t # ts) st = net_loop cfg protocol ts st1"
  using assms(1,6) timer_later [OF assms(2,3), of cfg] assms(4,5) by (simp add: dhcp_turn_def Let_def)

lemma net_wf_same_env: "net_wf st \<Longrightarrow> env_wf env \<Longrightarrow> env_same ns (ns_env st) env \<Longrightarrow> c_string 127 (BootFile env) \<Longrightarrow> net_wf (st\<lparr>ns_env := env\<rparr>)"
  by (simp add: net_wf_def env_same_def)

definition dhcp_waiting :: "net_state \<Rightarrow> bool" where
  "dhcp_waiting st \<longleftrightarrow> net_wf st \<and> packetHandler st = Some DhcpHandler_ptr \<and> NetState st = NETLOOP_CONTINUE"

lemma offer_turn:
  assumes st: "dhcp_waiting st" "dhcp_state st = SELECTING" and cfg: "bo_min_ext_len (nc_bootp cfg) \<le> 1000"
    and fr: "fr = dhcp_frame srv ether dest (bootp_reply (BootpID st) yi si mid file vend)"
    and l: "length ether = 6" "length (NetOurEther srv) = 6" and rep: "wf_reply mid file vend" "prefix_ok (nc_bootp cfg) file"
    and dest: "NetOurIP st = 0 \<or> NetOurIP st = dest \<or> dest = 0xFFFFFFFF" and t: "unat t + 5000 < 2 ^ 32"
  shows "\<exists>st1 w body. net_loop cfg protocol (dhcp_turn buf fr t # ts) st = net_loop cfg protocol ts st1 \<and>
    dhcp_waiting st1 \<and> dhcp_state st1 = REQUESTING \<and> BootpID st1 = BootpID st \<and> NetOurIP st1 = yi \<and> NetServerIP st1 = si \<and>
    NetBootFileXferSize st1 = NetBootFileXferSize st \<and> env_same {str ''bootfile''} (ns_env st) (ns_env st1) \<and>
    ns_sent st1 = ns_sent st @ [udp_frame w NetBcastAddr 0xFFFFFFFF PORT_BOOTPS PORT_BOOTPC body] \<and>
    take 8 body = [OP_BOOTREQUEST, HWT_ETHER, HWL_ETHER, 0] @ be32 (BootpID st) \<and>
    drop 236 body = DhcpExtended (nc_bootp cfg) DHCP_REQUEST si yi"
proof -
  let ?bo = "nc_bootp cfg" and ?r = "bootp_reply (BootpID st) yi si mid file vend" and ?st = "st\<lparr>ns_now := t\<rparr>"
  have w0: "net_wf st" "packetHandler st = Some DhcpHandler_ptr" "NetState st = NETLOOP_CONTINUE" using st(1) by (simp_all add: dhcp_waiting_def)
  have lr: "length ?r \<le> 1460" using rep(1) by (simp add: length_bootp_reply [OF rep(1)]) (simp add: wf_reply_def)
  let ?in = "in_buffer (buf, fr) ?st"
  have i: "net_wf ?in" "dhcp_state ?in = SELECTING" "BootpID ?in = BootpID st" "ns_env ?in = ns_env st"
    using w0(1) st(2) by (simp_all add: in_buffer_def)
  have dst: "NetOurIP ?st = 0 \<or> NetOurIP ?st = dest \<or> dest = 0xFFFFFFFF" "packetHandler ?st = Some DhcpHandler_ptr" using dest w0(2) by simp_all
  note rx = dhcp_frame_received [OF fr l lr dst, where buf = buf]
  define st2 where "st2 env = NetSetTimeout (BOOTP_TIMEOUT * CFG_HZ) (Some BootpTimeout_ptr) (?in\<lparr>dhcp_state := REQUESTING, NetOurIP := yi,
    NetServerIP := si, NetServerEther := mread (ns_mem ?in) (NetRxPkt ?in + 6) 6, ns_env := env\<rparr>)" for env
  obtain env where o: "receive_frame cfg (buf, fr) ?st = Some (DhcpSendRequestPkt ?bo (buf + 42) (st2 env))"
    "env_wf env" "BootFile env = file" "env_same {str ''bootfile''} (ns_env st) env"
    using offer_taken [OF i(1,2) rx(2) _ rep, where cfg = "nc_env cfg"] unfolding rx(1) [of cfg] i(3,4) st2_def by blast
  let ?s = "st2 env"
  have f: "length (NetOurEther ?s) = 6" "ns_mem ?s = ns_mem ?in" "NetServerIP ?s = si" "packetHandler ?s = Some DhcpHandler_ptr"
    "NetState ?s = NETLOOP_CONTINUE" "dhcp_state ?s = REQUESTING" "BootpID ?s = BootpID st" "NetOurIP ?s = yi" "ns_env ?s = env"
    "NetBootFileXferSize ?s = NetBootFileXferSize st" "ns_sent ?s = ns_sent st" "timeHandler ?s = Some BootpTimeout_ptr"
    "timeValue ?s = t + 5000" "ns_now ?s = t"
    using w0 by (simp_all add: st2_def NetSetTimeout_def in_buffer_def BOOTP_TIMEOUT_def CFG_HZ_def net_wf_lengths)
  define body where "body = request_body ?bo ?s (ns_mem ?s) (buf + 42)"
  let ?p = "udp_frame ?s NetBcastAddr 0xFFFFFFFF PORT_BOOTPS PORT_BOOTPC body"
  define st1 where "st1 = NetSendPacket ?p (?s\<lparr>NetIPID := NetIPID ?s + 1\<rparr>)"
  have rs: "receive_frame cfg (buf, fr) ?st = Some st1" unfolding o(1) st1_def body_def DhcpSendRequestPkt_frame [OF f(1)] ..
  note fields = reply_fields [OF rx(2) refl rep(1)]
  have body: "take 8 body = [OP_BOOTREQUEST, HWT_ETHER, HWL_ETHER, 0] @ be32 (BootpID st)" "drop 236 body = DhcpExtended ?bo DHCP_REQUEST si yi"
    "length body \<le> 1300"
    using fields(5,9) f(1) length_DhcpExtended [OF cfg, of DHCP_REQUEST si yi] unfolding body_def request_body_def f(2,3) by simp_all
  have "length ?p = 42 + length body"
    using f(1) by (simp add: udp_frame_def NetSetEther_def NetBcastAddr_def length_NetSetIP)
  moreover have "net_wf ?s"
  proof -
    have "net_wf (?in\<lparr>dhcp_state := REQUESTING, NetOurIP := yi, NetServerIP := si, NetServerEther := mread (ns_mem ?in) (NetRxPkt ?in + 6) 6\<rparr>)"
      using i(1) by (simp add: net_wf_def)
    moreover have "c_string 127 (BootFile env)" using o(3) rep(1) by (simp add: wf_reply_def c_string_def)
    ultimately show ?thesis using net_wf_same_env [OF _ o(2), of _ "{str ''bootfile''}"] o(4) i(4) by (simp add: st2_def)
  qed
  ultimately have wf1: "net_wf st1" using body(3) by (simp add: st1_def)
  have g: "packetHandler st1 = Some DhcpHandler_ptr" "NetState st1 = NETLOOP_CONTINUE" "dhcp_state st1 = REQUESTING" "BootpID st1 = BootpID st"
    "NetOurIP st1 = yi" "NetServerIP st1 = si" "ns_env st1 = env" "NetBootFileXferSize st1 = NetBootFileXferSize st"
    "ns_sent st1 = ns_sent st @ [?p]" "timeHandler st1 = Some BootpTimeout_ptr" "timeValue st1 = ns_now st1 + 5000" "ns_now st1 = t"
    using f by (simp_all add: st1_def NetSendPacket_def)
  have "net_loop cfg protocol (dhcp_turn buf fr t # ts) st = net_loop cfg protocol ts st1"
    by (rule net_loop_turn [OF rs g(10,11,12) t g(2)])
  then show ?thesis using wf1 g o(4) body(1,2) unfolding dhcp_waiting_def by metis
qed

lemma ack_turn:
  assumes st: "dhcp_waiting st" "dhcp_state st = REQUESTING"
    and fr: "fr = dhcp_frame srv ether dest (bootp_reply (BootpID st) yi si mid file (dhcp_vendor os pad))"
    and l: "length ether = 6" "length (NetOurEther srv) = 6" and rep: "wf_reply mid file (dhcp_vendor os pad)"
    and os: "list_all wf_option os" "message_type os = 5" "length (option_bytes os) \<le> 548" and buf: "low_buffer buf"
    and dest: "NetOurIP st = 0 \<or> NetOurIP st = dest \<or> dest = 0xFFFFFFFF" and t: "unat t + 5000 < 2 ^ 32"
    and auto: "\<not> no_autoload (env_lookup (env_data (ns_env st)) (str ''autoload''))"
  shows "\<exists>st1 arp. net_loop cfg protocol (dhcp_turn buf fr t # ts) st = net_loop cfg protocol ts st1 \<and>
    net_ok st1 \<and> packetHandler st1 = Some ArpHandler_ptr \<and> NetState st1 = NETLOOP_CONTINUE \<and> calm cfg st1 \<and>
    dhcp_state st1 = BOUND \<and> NetOurIP st1 = yi \<and> NetServerIP st1 = si \<and> BootFile (ns_env st1) = file \<and>
    NetOurSubnetMask st1 = NetOurSubnetMask (fold take_option os st) \<and> NetOurGatewayIP st1 = NetOurGatewayIP (fold take_option os st) \<and>
    NetBootFileXferSize st1 = NetBootFileXferSize st \<and> env_same {str ''bootfile''} (ns_env st) (ns_env st1) \<and>
    ns_sent st1 = ns_sent st @ [arp]"
proof -
  let ?bo = "nc_bootp cfg" and ?r = "bootp_reply (BootpID st) yi si mid file (dhcp_vendor os pad)" and ?st = "st\<lparr>ns_now := t\<rparr>"
  have w0: "net_wf st" "packetHandler st = Some DhcpHandler_ptr" "NetState st = NETLOOP_CONTINUE" using st(1) by (simp_all add: dhcp_waiting_def)
  have lr: "length ?r \<le> 1460" using rep(1) by (simp add: length_bootp_reply [OF rep(1)]) (simp add: wf_reply_def)
  let ?in = "in_buffer (buf, fr) ?st"
  have i: "net_wf ?in" "dhcp_state ?in = REQUESTING" "BootpID ?in = BootpID st" "ns_env ?in = ns_env st"
    using w0(1) st(2) by (simp_all add: in_buffer_def)
  have dst: "NetOurIP ?st = 0 \<or> NetOurIP ?st = dest \<or> dest = 0xFFFFFFFF" "packetHandler ?st = Some DhcpHandler_ptr" using dest w0(2) by simp_all
  note rx = dhcp_frame_received [OF fr l lr dst, where buf = buf]
  have low: "unat (buf + 42) + 1024 \<le> 2 ^ 32"
  proof -
    have "unat (buf + of_nat 42) = unat buf + 42" by (rule unat_add_of_nat) (use buf in \<open>simp add: low_buffer_def\<close>)
    then show ?thesis using buf by (simp add: low_buffer_def)
  qed
  have auto': "\<not> no_autoload (env_lookup (env_data (ns_env ?in)) (str ''autoload''))" using auto i(4) by simp
  have r': "?r = bootp_reply (BootpID ?in) yi si mid file (dhcp_vendor os pad)" using i(3) by simp
  obtain env where o: "receive_frame cfg (buf, fr) ?st = Some (ArpRequest ((fold take_option os ?in)\<lparr>NetOurIP := yi, NetServerIP := si,
      NetServerEther := mread (ns_mem ?in) (NetRxPkt ?in + 6) 6, ns_env := env, dhcp_state := BOUND\<rparr>))"
    "env_wf env" "BootFile env = file" "env_same {str ''bootfile''} (ns_env st) env"
    using ack_taken [OF i(1,2) rx(2) r' rep os low auto', where cfg = "nc_env cfg" and bo = ?bo] unfolding rx(1) [of cfg] i(4) by blast
  let ?f = "fold take_option os ?in"
  define s where "s = ?f\<lparr>NetOurIP := yi, NetServerIP := si,
      NetServerEther := mread (ns_mem ?in) (NetRxPkt ?in + 6) 6, ns_env := env, dhcp_state := BOUND\<rparr>"
  have "net_wf (?f\<lparr>NetOurIP := yi, NetServerIP := si, NetServerEther := mread (ns_mem ?in) (NetRxPkt ?in + 6) 6\<rparr>)"
    using take_options_wf [OF i(1), of os] by (simp add: net_wf_def)
  moreover have "c_string 127 (BootFile env)" using o(3) rep(1) by (simp add: wf_reply_def c_string_def)
  ultimately have "net_wf (?f\<lparr>NetOurIP := yi, NetServerIP := si, NetServerEther := mread (ns_mem ?in) (NetRxPkt ?in + 6) 6, ns_env := env\<rparr>)"
    using net_wf_same_env [OF _ o(2), of _ "{str ''bootfile''}"] o(4) i(4) by simp
  then have ws: "net_wf s" by (simp add: s_def net_wf_def)
  have sub: "NetOurSubnetMask (fold take_option os ?in) = NetOurSubnetMask (fold take_option os st)"
    "NetOurGatewayIP (fold take_option os ?in) = NetOurGatewayIP (fold take_option os st)"
  proof -
    have mask: "NetOurSubnetMask (fold take_option os a) = NetOurSubnetMask (fold take_option os b)"
      if "NetOurSubnetMask a = NetOurSubnetMask b" for a b using that
      by (induction os arbitrary: a b) (simp_all add: take_option_addresses)
    have "NetOurGatewayIP (fold take_option os a) = NetOurGatewayIP (fold take_option os b)"
      if "NetOurGatewayIP a = NetOurGatewayIP b" for a b using that
      by (induction os arbitrary: a b) (simp_all add: take_option_addresses)
    then show "NetOurGatewayIP (fold take_option os ?in) = NetOurGatewayIP (fold take_option os st)" by (rule) (simp add: in_buffer_def)
    show "NetOurSubnetMask (fold take_option os ?in) = NetOurSubnetMask (fold take_option os st)" by (rule mask) (simp add: in_buffer_def)
  qed
  obtain arp where arp: "ArpRequest s = NetSetHandler ArpHandler_ptr (NetSetTimeout (ARP_TIMEOUT * CFG_HZ) (Some ArpTimeout_ptr)
      (NetSendPacket arp (s\<lparr>ArpTry := ArpTry s + 1\<rparr>)))" by (simp add: ArpRequest_def Let_def)
  have g: "timeHandler (ArpRequest s) = Some ArpTimeout_ptr" "timeValue (ArpRequest s) = ns_now (ArpRequest s) + 5000" "ns_now (ArpRequest s) = t"
    "NetState (ArpRequest s) = NETLOOP_CONTINUE" "packetHandler (ArpRequest s) = Some ArpHandler_ptr"
    "dhcp_state (ArpRequest s) = BOUND" "NetOurIP (ArpRequest s) = yi" "NetServerIP (ArpRequest s) = si" "ns_env (ArpRequest s) = env"
    "NetOurSubnetMask (ArpRequest s) = NetOurSubnetMask ?f" "NetOurGatewayIP (ArpRequest s) = NetOurGatewayIP ?f"
    "NetBootFileXferSize (ArpRequest s) = NetBootFileXferSize st" "ns_sent (ArpRequest s) = ns_sent st @ [arp]"
    unfolding arp using w0(3)
    by (simp_all add: s_def NetSetTimeout_def NetSetHandler_def NetSendPacket_def ARP_TIMEOUT_def CFG_HZ_def in_buffer_def)
  have "net_loop cfg protocol (dhcp_turn buf fr t # ts) st = net_loop cfg protocol ts (ArpRequest s)"
    by (rule net_loop_turn [OF o(1) [folded s_def] g(1-3) t g(4)])
  then show ?thesis
    using net_ok_ArpRequest [OF ws] calm_requests(1) [of cfg s] g(4-13) sub o(3,4)
    by (intro exI [of _ "ArpRequest s"] exI [of _ arp] conjI) (simp_all only:)
qed

end
