(* ===== verification/DhcpBoot.thy ===== *)
theory DhcpBoot
  imports NetBootCorrect DhcpCorrect NetRetry
begin

text \<open>
  A board boots with DHCP: from the first request over the lease and the transfer of the file to the start of the
  kernel. And two failures of the client: it never repeats its request once it has started again, and a reply without an
  end mark stops it for good.
\<close>

section \<open>The start\<close>

lemma dhcp_net_start:
  assumes wf: "net_wf st" and cfg: "bo_dhcp (nc_bootp cfg)" "bo_min_ext_len (nc_bootp cfg) \<le> 1000"
    and ether: "env_state.bi_enetaddr (ns_env st) \<noteq> replicate 6 0"
  shows "\<exists>st0 p. net_start cfg DHCP st = Some (True, st0) \<and> dhcp_waiting st0 \<and> dhcp_state st0 = SELECTING \<and>
    BootpID st0 = be32_dec (drop 2 (env_state.bi_enetaddr (ns_env st))) + ns_now st \<and> BootpTry st0 = BootpTry st + 1 \<and>
    timeHandler st0 = Some BootpTimeout_ptr \<and> NetOurIP st0 = 0 \<and> NetBootFileXferSize st0 = 0 \<and> ns_env st0 = ns_env st \<and>
    ns_sent st0 = ns_sent st @ [p]"
proof -
  let ?bo = "nc_bootp cfg"
  define s where "s = st\<lparr>NetOurEther := env_state.bi_enetaddr (ns_env st), NetState := NETLOOP_CONTINUE, NetOurIP := 0, NetServerIP := 0\<rparr>"
  have ws: "net_wf s" using wf by (simp add: s_def net_wf_def)
  obtain p where p: "BootpRequest ?bo s = NetSendPacket p (NetSetHandler DhcpHandler_ptr ((NetSetTimeout (SELECT_TIMEOUT * CFG_HZ) (Some BootpTimeout_ptr)
      (s\<lparr>BootpTry := BootpTry s + 1, BootpID := be32_dec (drop 2 (NetOurEther s)) + ns_now s, NetIPID := NetIPID s + 1\<rparr>))\<lparr>dhcp_state := SELECTING\<rparr>))"
    and lp: "length p = 42 + (236 + length (DhcpExtended ?bo DHCP_DISCOVER 0 0))"
  proof
    let ?file = "copy_filename (BootFile (ns_env s)) 128"
    show "BootpRequest ?bo s = NetSendPacket (NetSetEther s NetBcastAddr PROT_IP @ fst (NetSetIP s 0xFFFFFFFF PORT_BOOTPS PORT_BOOTPC (BOOTP_FIXED + length (DhcpExtended ?bo DHCP_DISCOVER 0 0))) @
        [OP_BOOTREQUEST, HWT_ETHER, HWL_ETHER, 0] @ be32 (be32_dec (drop 2 (NetOurEther s)) + ns_now s) @
        be16 (ucast (ns_now s div CFG_HZ)) @ be16 0 @ be32 0 @ be32 0 @ be32 0 @ be32 0 @
        NetOurEther s @ replicate 10 0 @ replicate 64 0 @ ?file @ replicate (128 - length ?file) 0 @ DhcpExtended ?bo DHCP_DISCOVER 0 0)
        (NetSetHandler DhcpHandler_ptr ((NetSetTimeout (SELECT_TIMEOUT * CFG_HZ) (Some BootpTimeout_ptr)
          (s\<lparr>BootpTry := BootpTry s + 1, BootpID := be32_dec (drop 2 (NetOurEther s)) + ns_now s, NetIPID := NetIPID s + 1\<rparr>))\<lparr>dhcp_state := SELECTING\<rparr>))"
      using cfg(1) by (simp add: BootpRequest_def Let_def NetSetIP_def ip_header_def NetSetEther_def NetSetTimeout_def NetSetHandler_def)
    show "length (NetSetEther s NetBcastAddr PROT_IP @ fst (NetSetIP s 0xFFFFFFFF PORT_BOOTPS PORT_BOOTPC (BOOTP_FIXED + length (DhcpExtended ?bo DHCP_DISCOVER 0 0))) @
        [OP_BOOTREQUEST, HWT_ETHER, HWL_ETHER, 0] @ be32 (be32_dec (drop 2 (NetOurEther s)) + ns_now s) @
        be16 (ucast (ns_now s div CFG_HZ)) @ be16 0 @ be32 0 @ be32 0 @ be32 0 @ be32 0 @
        NetOurEther s @ replicate 10 0 @ replicate 64 0 @ ?file @ replicate (128 - length ?file) 0 @ DhcpExtended ?bo DHCP_DISCOVER 0 0) =
        42 + (236 + length (DhcpExtended ?bo DHCP_DISCOVER 0 0))"
      using net_wf_lengths(1) [OF ws] length_copy_filename [of "BootFile (ns_env s)"]
      by (simp add: length_NetSetIP NetSetEther_def NetBcastAddr_def)
  qed
  let ?st = "(BootpRequest ?bo s)\<lparr>NetBootFileXferSize := 0\<rparr>"
  have r: "net_start cfg DHCP st = Some (True, ?st)"
    using cfg(1) ether by (simp add: net_start_def net_check_prereq_def Let_def s_def DhcpRequest_def)
  have "net_wf ?st"
  proof -
    have "net_wf ((NetSetTimeout iv h (s\<lparr>BootpTry := n, BootpID := i, NetIPID := j\<rparr>))\<lparr>dhcp_state := SELECTING\<rparr>)" for n i j iv h
      using ws by (simp add: net_wf_def NetSetTimeout_def)
    then show ?thesis using lp length_DhcpExtended [OF cfg(2), of DHCP_DISCOVER 0 0] by (simp add: p)
  qed
  then show ?thesis
    by (intro exI [of _ ?st] exI [of _ p] conjI r) (simp_all add: dhcp_waiting_def p, simp_all add: s_def NetSetTimeout_def NetSetHandler_def NetSendPacket_def SELECT_TIMEOUT_def CFG_HZ_def)
qed

section \<open>The whole boot\<close>

text \<open>What the two messages of the DHCP server have to be: an offer, and an acknowledgement whose options end.\<close>

record dhcp_server =
  ds_state :: net_state
  ds_ether :: "byte list"
  ds_dest :: u32
  ds_yi :: u32
  ds_si :: u32
  ds_mid :: "byte list"
  ds_file :: "byte list"
  ds_options :: "dhcp_option list"
  ds_pad :: "byte list"
  ds_buf :: u32
  ds_time :: u32

definition ds_turn :: "dhcp_server \<Rightarrow> u32 \<Rightarrow> net_turn" where
  "ds_turn ds xid = dhcp_turn (ds_buf ds)
     (dhcp_frame (ds_state ds) (ds_ether ds) (ds_dest ds)
       (bootp_reply xid (ds_yi ds) (ds_si ds) (ds_mid ds) (ds_file ds) (dhcp_vendor (ds_options ds) (ds_pad ds)))) (ds_time ds)"

definition good_ds :: "dhcp_server \<Rightarrow> bool" where
  "good_ds ds \<longleftrightarrow> length (ds_ether ds) = 6 \<and> length (NetOurEther (ds_state ds)) = 6 \<and>
     wf_reply (ds_mid ds) (ds_file ds) (dhcp_vendor (ds_options ds) (ds_pad ds)) \<and> unat (ds_time ds) + 5000 < 2 ^ 32"

definition good_ack :: "dhcp_server \<Rightarrow> u32 \<Rightarrow> bool" where
  "good_ack ds ip \<longleftrightarrow> good_ds ds \<and> list_all wf_option (ds_options ds) \<and> message_type (ds_options ds) = 5 \<and>
     length (option_bytes (ds_options ds)) \<le> 548 \<and> low_buffer (ds_buf ds) \<and> ds_yi ds \<noteq> 0 \<and>
     (ds_dest ds = ip \<or> ds_dest ds = 0xFFFFFFFF)"

definition dhcp_xid :: "net_state \<Rightarrow> u32" where
  "dhcp_xid st = be32_dec (drop 2 (env_state.bi_enetaddr (ns_env st))) + ns_now st"

lemma dhcp_lease:
  assumes wf: "net_wf st" and cfg: "bo_dhcp (nc_bootp cfg)" "bo_min_ext_len (nc_bootp cfg) \<le> 1000"
    and ether: "env_state.bi_enetaddr (ns_env st) \<noteq> replicate 6 0"
    and offer: "good_ds offer" "prefix_ok (nc_bootp cfg) (ds_file offer)" and ack: "good_ack ack (ds_yi offer)"
    and auto: "\<not> no_autoload (env_lookup (env_data (ns_env st)) (str ''autoload''))"
  shows "\<exists>st1 discover w body pad arp.
    NetLoop cfg DHCP (ds_turn offer (dhcp_xid st) # ds_turn ack (dhcp_xid st) # ts) st = net_loop cfg DHCP ts st1 \<and>
    ns_sent st1 = ns_sent st @ [discover, udp_frame w NetBcastAddr 0xFFFFFFFF PORT_BOOTPS PORT_BOOTPC body, arp] \<and>
    take 8 body = [OP_BOOTREQUEST, HWT_ETHER, HWL_ETHER, 0] @ be32 (dhcp_xid st) \<and>
    drop 236 body = dhcp_vendor (request_options (nc_bootp cfg) DHCP_REQUEST (ds_si offer) (ds_yi offer)) pad \<and>
    dhcp_state st1 = BOUND \<and> NetOurIP st1 = ds_yi ack \<and> NetServerIP st1 = ds_si ack \<and> BootFile (ns_env st1) = ds_file ack \<and>
    net_ok st1 \<and> calm cfg st1 \<and> packetHandler st1 = Some ArpHandler_ptr \<and> NetState st1 = NETLOOP_CONTINUE \<and>
    NetBootFileXferSize st1 = 0 \<and> env_same {str ''bootfile''} (ns_env st) (ns_env st1)"
proof -
  let ?xid = "dhcp_xid st"
  obtain st0 p where st0: "net_start cfg DHCP st = Some (True, st0)" "dhcp_waiting st0" "dhcp_state st0 = SELECTING" "BootpID st0 = ?xid"
    "NetOurIP st0 = 0" "NetBootFileXferSize st0 = 0" "ns_env st0 = ns_env st" "ns_sent st0 = ns_sent st @ [p]"
    using dhcp_net_start [OF wf cfg ether] unfolding dhcp_xid_def by blast
  have o: "length (ds_ether offer) = 6" "length (NetOurEther (ds_state offer)) = 6"
    "wf_reply (ds_mid offer) (ds_file offer) (dhcp_vendor (ds_options offer) (ds_pad offer))" "unat (ds_time offer) + 5000 < 2 ^ 32"
    using offer(1) by (simp_all add: good_ds_def)
  have a: "length (ds_ether ack) = 6" "length (NetOurEther (ds_state ack)) = 6"
    "wf_reply (ds_mid ack) (ds_file ack) (dhcp_vendor (ds_options ack) (ds_pad ack))" "unat (ds_time ack) + 5000 < 2 ^ 32"
    "list_all wf_option (ds_options ack)" "message_type (ds_options ack) = 5" "length (option_bytes (ds_options ack)) \<le> 548"
    "low_buffer (ds_buf ack)" "ds_dest ack = ds_yi offer \<or> ds_dest ack = 0xFFFFFFFF"
    using ack by (simp_all add: good_ack_def good_ds_def)
  have dst: "NetOurIP st0 = 0 \<or> NetOurIP st0 = ds_dest offer \<or> ds_dest offer = 0xFFFFFFFF" using st0(5) by simp
  obtain st1 w body where st1:
    "net_loop cfg DHCP (ds_turn offer ?xid # ds_turn ack ?xid # ts) st0 = net_loop cfg DHCP (ds_turn ack ?xid # ts) st1"
    "dhcp_waiting st1" "dhcp_state st1 = REQUESTING" "BootpID st1 = ?xid" "NetOurIP st1 = ds_yi offer" "NetBootFileXferSize st1 = 0"
    "env_same {str ''bootfile''} (ns_env st) (ns_env st1)"
    "ns_sent st1 = ns_sent st @ [p, udp_frame w NetBcastAddr 0xFFFFFFFF PORT_BOOTPS PORT_BOOTPC body]"
    "take 8 body = [OP_BOOTREQUEST, HWT_ETHER, HWL_ETHER, 0] @ be32 ?xid"
    "drop 236 body = DhcpExtended (nc_bootp cfg) DHCP_REQUEST (ds_si offer) (ds_yi offer)"
    using offer_turn [OF st0(2,3) cfg(2) refl o(1,2,3) offer(2) dst o(4), where protocol = DHCP and buf = "ds_buf offer" and ts = "ds_turn ack ?xid # ts"
        and yi = "ds_yi offer" and si = "ds_si offer"]
    unfolding st0(4,6,7,8) ds_turn_def append_assoc append.simps by blast
  have dst2: "NetOurIP st1 = 0 \<or> NetOurIP st1 = ds_dest ack \<or> ds_dest ack = 0xFFFFFFFF" using st1(5) a(9) by auto
  have "env_lookup (env_data (ns_env st1)) (str ''autoload'') = env_lookup (env_data (ns_env st)) (str ''autoload'')"
    using st1(7) bootfile_name(3) by (simp add: env_same_def)
  then have auto1: "\<not> no_autoload (env_lookup (env_data (ns_env st1)) (str ''autoload''))" using auto by simp
  obtain st2 arp where st2: "net_loop cfg DHCP (ds_turn ack ?xid # ts) st1 = net_loop cfg DHCP ts st2"
    "net_ok st2" "packetHandler st2 = Some ArpHandler_ptr" "NetState st2 = NETLOOP_CONTINUE" "calm cfg st2"
    "dhcp_state st2 = BOUND" "NetOurIP st2 = ds_yi ack" "NetServerIP st2 = ds_si ack" "BootFile (ns_env st2) = ds_file ack"
    "NetBootFileXferSize st2 = 0" "env_same {str ''bootfile''} (ns_env st1) (ns_env st2)" "ns_sent st2 = ns_sent st1 @ [arp]"
    using ack_turn [OF st1(2,3) refl a(1,2,3,5-8) dst2 a(4) auto1, where protocol = DHCP and ts = ts and yi = "ds_yi ack" and si = "ds_si ack"]
    unfolding st1(4,6) ds_turn_def by blast
  have same: "env_same {str ''bootfile''} (ns_env st) (ns_env st2)" using env_same_trans [OF st1(7) st2(11)] by simp
  have run: "NetLoop cfg DHCP (ds_turn offer ?xid # ds_turn ack ?xid # ts) st = net_loop cfg DHCP ts st2"
    by (simp only: NetLoop_def st0(1) bind.bind_lunit prod.case if_True st1(1) st2(1))
  have sent: "ns_sent st2 = ns_sent st @ [p, udp_frame w NetBcastAddr 0xFFFFFFFF PORT_BOOTPS PORT_BOOTPC body, arp]"
    using st2(12) st1(8) by simp
  obtain pad where "drop 236 body = dhcp_vendor (request_options (nc_bootp cfg) DHCP_REQUEST (ds_si offer) (ds_yi offer)) pad"
    unfolding st1(10) DhcpExtended_options Let_def dhcp_vendor_def append_assoc by blast
  then show ?thesis using run sent st1(9) st2(2-10) same by blast
qed

text \<open>
  C2: a board boots with DHCP. Its environment asks for an automatic start. The DHCP server offers an address and acknowledges it, the
  TFTP server answers the ARP request and sends the file, a kernel image made by \<^verbatim>\<open>mkimage\<close>: then \<^verbatim>\<open>dhcp\<close> ends
  in the kernel: the jump to the image's entry point, with the image's data at its load address and the boot arguments
  from the environment.
\<close>

theorem dhcp_starts_kernel:
  assumes wf: "net_wf st" and argv: "\<forall>a \<in> set argv. 0 \<notin> set a" and args: "netboot_args argv (ns_env st) = Some (True, env)"
    and cfg: "bo_dhcp (nc_bootp cfg)" "bo_min_ext_len (nc_bootp cfg) \<le> 1000" "prefix_ok (nc_bootp cfg) (ds_file offer)"
    and ether: "env_state.bi_enetaddr (ns_env st) \<noteq> replicate 6 0"
    and offer: "good_ds offer" and ack: "good_ack ack (ds_yi offer)"
    and auto: "\<not> no_autoload (env_lookup (env_data (ns_env st)) (str ''autoload''))"
      "env_lookup (env_data (ns_env st)) (str ''autostart'') = Some (str ''yes'')"
    and sv: "good_server sv (load_addr env) img"
    and img: "mkimage opts fs datafile mtime = Some img"
    and boot: "bootable bt (load_addr env) (boot_args (env_lookup (env_data (ns_env st)))) opts img"
  shows "kernel_runs bt opts img (boot_args (env_lookup (env_data (ns_env st))))
    (do_dhcp cfg bt z appl argv (ds_turn offer (dhcp_xid st) # ds_turn ack (dhcp_xid st) # load_turns sv (ds_yi ack) img) st)"
proof -
  let ?st = "st\<lparr>ns_env := env\<rparr>"
  note a = netboot_args_wf [OF wf argv args]
  have e: "env_state.bi_enetaddr (ns_env ?st) \<noteq> replicate 6 0" "\<not> no_autoload (env_lookup (env_data (ns_env ?st)) (str ''autoload''))"
    "dhcp_xid ?st = dhcp_xid st" using ether auto(1) a by (simp_all add: dhcp_xid_def)
  obtain st1 where st1: "NetLoop cfg DHCP (ds_turn offer (dhcp_xid st) # ds_turn ack (dhcp_xid st) # load_turns sv (ds_yi ack) img) ?st =
      net_loop cfg DHCP (load_turns sv (ds_yi ack) img) st1" "NetOurIP st1 = ds_yi ack" "net_ok st1" "calm cfg st1"
    "packetHandler st1 = Some ArpHandler_ptr" "NetState st1 = NETLOOP_CONTINUE" "NetBootFileXferSize st1 = 0"
    "env_same {str ''bootfile''} env (ns_env st1)"
    using dhcp_lease [OF a(1) cfg(1,2) e(1) offer cfg(3) ack e(2), where ts = "load_turns sv (ds_yi ack) img"] unfolding e(3) by auto
  have la: "load_addr (ns_env st1) = load_addr env" using st1(8) by (simp add: env_same_def)
  have yi: "NetOurIP st1 \<noteq> 0" using ack st1(2) by (simp add: good_ack_def)
  obtain st2 where st2: "\<forall>protocol. net_loop cfg protocol (load_turns sv (ds_yi ack) img) st1 = Some (Net_Returned (of_nat (length img)) st2)"
    "env_same netboot_vars (ns_env st1) (ns_env st2)" "net_wf st2" "mread (ns_mem st2) (load_addr (ns_env st2)) (length img) = img"
    using net_loop_loads [OF st1(3,4,5) yi st1(6,7), of sv img] sv la unfolding st1(2) by auto
  have same: "env_same netboot_vars env (ns_env st2)"
    by (rule env_same_mono [OF env_same_trans [OF st1(8) st2(2)]]) (simp add: netboot_vars_def)
  have w: "length (env_state.bi_enetaddr env) = 6" "env_lookup (env_data env) (str ''autostart'') = Some (str ''yes'')" "env_wf env"
    using a(1) auto(2) by (simp_all add: a(2) net_wf_def)
  have size: "length img < 65535 * 512" "unat (load_addr env) + length img \<le> 2 ^ 32" using sv by (auto simp: good_server_def disjoint_blocks_def)
  note run = trans [OF st1(1) st2(1) [rule_format]]
  have "bootable bt (load_addr env) (boot_args (env_lookup (env_data env))) opts img" using boot by (simp add: a(2))
  from netboot_starts_kernel [OF args w(1,2) run same st2(3,4) size img this w(3), of z appl]
  show ?thesis by (simp add: do_dhcp_def a(2))
qed

text \<open>The demonstration image again, with a server at 10.0.0.1 that offers the address 10.0.0.2.\<close>

definition demo_offer :: dhcp_server where
  "demo_offer = \<lparr>ds_state = demo_net, ds_ether = replicate 6 0xff, ds_dest = 0xFFFFFFFF, ds_yi = 0x0a000002, ds_si = 0x0a000001,
     ds_mid = replicate 84 0, ds_file = str ''uImage'', ds_options = [(53, [2])], ds_pad = [], ds_buf = 0x200000, ds_time = 100\<rparr>"

definition demo_ack :: dhcp_server where
  "demo_ack = demo_offer\<lparr>ds_options := [(53, [5]), (1, [255, 255, 255, 0]), (3, [10, 0, 0, 1])]\<rparr>"

lemma demo_ds: "good_ds demo_offer" "good_ack demo_ack 0x0a000002" "ds_yi demo_offer = 0x0a000002" "ds_yi demo_ack = 0x0a000002"
  "prefix_ok (nc_bootp demo_config) (ds_file demo_offer)"
  by (simp_all add: good_ack_def good_ds_def demo_offer_def demo_ack_def wf_reply_def dhcp_vendor_def demo_net_def wf_option_def
      low_buffer_def prefix_ok_def demo_config_def)

theorem dhcp_starts_kernel_witness:
  "\<forall>z appl. kernel_runs demo_cfg demo_opts demo_img []
     (do_dhcp demo_config demo_cfg z appl [str ''dhcp'']
       (ds_turn demo_offer (dhcp_xid boot_net) # ds_turn demo_ack (dhcp_xid boot_net) # load_turns demo_server 0x0a000002 demo_img) boot_net)"
proof (intro allI)
  fix z appl
  note b = boot_net_facts boot_net_wf
  have c: "bo_dhcp (nc_bootp demo_config)" "bo_min_ext_len (nc_bootp demo_config) \<le> 1000" by (simp_all add: demo_config_def)
  have args: "netboot_args [str ''dhcp''] (ns_env boot_net) = Some (True, boot_env)" by (rule boot_net_args) simp
  have "env_lookup (env_data boot_env) (str ''autoload'') = None"
    using env_lookup_models [OF boot_env_models] by (simp add: wf_name_def)
  then have auto: "\<not> no_autoload (env_lookup (env_data (ns_env boot_net)) (str ''autoload''))" by (simp add: no_autoload_def b)
  have ba: "boot_args (env_lookup (env_data (ns_env boot_net))) = []" unfolding boot_args_def b boot_env_lookup by simp
  have "bootable demo_cfg (load_addr boot_env) [] demo_opts demo_img"
    using demo_kernel by (simp add: bootable_def b demo_places demo_clear forward_safe_def disjoint_blocks_def IH_SIZE_def BD_SIZE_def)
  then have boot: "bootable demo_cfg (load_addr boot_env) (boot_args (env_lookup (env_data (ns_env boot_net)))) demo_opts demo_img" by (simp only: ba)
  have a: "\<forall>a \<in> set [str ''dhcp'']. 0 \<notin> set a" by simp
  have auto2: "env_lookup (env_data (ns_env boot_net)) (str ''autostart'') = Some (str ''yes'')" unfolding b by (rule boot_env_lookup)
  show "kernel_runs demo_cfg demo_opts demo_img []
     (do_dhcp demo_config demo_cfg z appl [str ''dhcp'']
       (ds_turn demo_offer (dhcp_xid boot_net) # ds_turn demo_ack (dhcp_xid boot_net) # load_turns demo_server 0x0a000002 demo_img) boot_net)"
    using dhcp_starts_kernel [OF boot_net_wf a args c demo_ds(5) b(2) demo_ds(1) _ auto auto2 demo_server_good demo_image [folded demo_img_def] boot,
      of demo_ack z appl] demo_ds(2-4) unfolding ba demo_ds(3,4) by blast
qed

section \<open>Starting again\<close>

text \<open>
  C37: \<open>NetLoop\<close> resets \<^verbatim>\<open>BootpTry\<close> for BOOTP but not for DHCP. Once the client has given up it sends a single request
  each time it starts again, whatever the limit of attempts is, and that for good: the number of attempts only grows.
\<close>

theorem dhcp_gives_up_at_once:
  assumes start: "net_start cfg DHCP st = Some (True, st1)" and cfg: "bo_dhcp (nc_bootp cfg)"
    and tries: "BOOTP_TIMEOUT_COUNT \<le> BootpTry st" and ts: "overdue cfg [t, t'] st1"
  shows "NetLoop cfg DHCP (map silent [t, t'] @ rest) st = NetLoop cfg DHCP rest (expiries cfg [t, t'] st1) \<and>
    length (ns_sent (expiries cfg [t, t'] st1)) = length (ns_sent st) + 1 \<and>
    BOOTP_TIMEOUT_COUNT \<le> BootpTry (expiries cfg [t, t'] st1)"
proof -
  have s: "timeHandler st1 = Some BootpTimeout_ptr" "NetState st1 = NETLOOP_CONTINUE" "BootpTry st1 = BootpTry st + 1"
    "length (ns_sent st1) = length (ns_sent st) + 1"
    using start cfg by (auto simp: net_start_def DhcpRequest_def BootpRequest_def timeout_defs SELECT_TIMEOUT_def NetSetIP_def Let_def
      split: if_splits)
  have n: "length [t, t'] = BOOTP_TIMEOUT_COUNT - BootpTry st1 + 2" using tries s(3) by simp
  have t: "timeValue st1 < t" using ts by simp
  have c: "check_timeout cfg (st1\<lparr>ns_now := t\<rparr>) = NetStartAgain (st1\<lparr>ns_now := t, timeHandler := None\<rparr>)"
    using check_timeout_due [OF s(1) t] tries s(3) by (simp add: call_timeout_def BootpTimeout_def)
  have "BootpTry (expiries cfg [t, t'] st1) = BootpTry st1"
    unfolding expiries.simps c by (simp add: check_timeout_def call_timeout_def startAgainTimeout_def timeout_defs)
  then show ?thesis
    using bootp.silent_run [OF s(1,2) n ts, of DHCP rest] NetLoop_started [OF start] s(3,4) tries by simp
qed

definition tired_net :: net_state where
  "tired_net = demo_net\<lparr>BootpTry := 5\<rparr>"

definition tired_start :: net_state where
  "tired_start = (BootpRequest (nc_bootp demo_config) (tired_net\<lparr>NetOurIP := 0, NetServerIP := 0\<rparr>))\<lparr>NetBootFileXferSize := 0\<rparr>"

lemma tired_start: "net_start demo_config DHCP tired_net = Some (True, tired_start)"
proof -
  have "tired_net\<lparr>NetOurEther := [0, 1, 2, 3, 4, 5], NetState := NETLOOP_CONTINUE\<rparr> = tired_net"
    "env_state.bi_enetaddr (ns_env tired_net) = [0, 1, 2, 3, 4, 5]" "NetOurEther tired_net = [0, 1, 2, 3, 4, 5]"
    by (simp_all add: tired_net_def demo_net_def demo_env_def)
  moreover have "bo_dhcp (nc_bootp demo_config)" by (simp add: demo_config_def)
  ultimately show ?thesis
    by (simp add: net_start_def net_check_prereq_def tired_start_def DhcpRequest_def Let_def eval_nat_numeral)
qed

lemma tired_overdue: "overdue demo_config [4000, 15000] tired_start"
proof -
  have s: "timeHandler tired_start = Some BootpTimeout_ptr" "timeValue tired_start = 3000" "BootpTry tired_start = 6"
    by (simp_all add: tired_start_def BootpRequest_def timeout_defs SELECT_TIMEOUT_def NetSetIP_def Let_def tired_net_def demo_net_def)
  have "check_timeout demo_config (tired_start\<lparr>ns_now := 4000\<rparr>) = NetStartAgain (tired_start\<lparr>ns_now := 4000, timeHandler := None\<rparr>)"
    using check_timeout_due [OF s(1), of 4000] s(2,3) by (simp add: call_timeout_def BootpTimeout_def BOOTP_TIMEOUT_COUNT_def)
  then show ?thesis using s(2) by (simp add: timeout_defs)
qed

theorem dhcp_gives_up_at_once_witness:
  "let st = expiries demo_config [4000, 15000] tired_start
   in NetLoop demo_config DHCP (map silent [4000, 15000]) tired_net = NetLoop demo_config DHCP [] st \<and> length (ns_sent st) = 1"
  using dhcp_gives_up_at_once [OF tired_start _ _ tired_overdue, where rest = "[]"] unfolding Let_def
  by (simp add: demo_config_def tired_net_def BOOTP_TIMEOUT_COUNT_def demo_net_def del: expiries.simps list.map)

section \<open>Options without an end\<close>

text \<open>
  The search for the message type of a reply whose options have neither a type nor an end mark goes on behind them, in
  whatever the memory holds there.
\<close>

definition open_options :: "dhcp_option list \<Rightarrow> byte list" where
  "open_options os = concat (map (\<lambda>(c, v). c # of_nat (length v) # v) os)"

lemma type_loop_open:
  assumes "mread m a (length (open_options os)) = open_options os" and "\<forall>(c, v) \<in> set os. c \<noteq> 0xff \<and> c \<noteq> 53 \<and> length v < 256"
  shows "type_loop m a = type_loop m (a + of_nat (length (open_options os)))"
  using assms
proof (induction os arbitrary: a)
  case (Cons opt os)
  obtain c v where opt: "opt = (c, v)" by (cases opt)
  have wf: "c \<noteq> 0xff" "c \<noteq> 53" "length v < 256" using Cons.prems(2) by (simp_all add: opt)
  have b: "open_options ((c, v) # os) = c # of_nat (length v) # v @ open_options os" by (simp add: open_options_def)
  note m = Cons.prems(1) [unfolded opt b]
  have at: "m a = c" "m (a + 1) = of_nat (length v)" using mread_at [OF m, of 0] mread_at [OF m, of 1] by simp_all
  have "(ucast (m (a + 1)) :: u32) = of_nat (length v)" using unat_of_nat_byte [OF wf(3)] at(2) by (metis of_nat_unat)
  then have "type_loop m a = type_loop m (a + of_nat (2 + length v))"
    using at(1) wf by (subst type_loop.simps) (simp add: ac_simps)
  also have "\<dots> = type_loop m (a + of_nat (2 + length v) + of_nat (length (open_options os)))"
    by (rule Cons.IH) (use Cons.prems(2) mread_part [OF m, of "2 + length v" "length (open_options os)"] in \<open>simp_all\<close>)
  finally show ?case by (simp add: opt b ac_simps)
qed (simp add: open_options_def)

lemma dhcp_type_behind_packet:
  assumes "mem_be32 m popt = BOOTP_VENDOR_MAGIC" and "mread m (popt + 4) (length (open_options os)) = open_options os"
    and "\<forall>(c, v) \<in> set os. c \<noteq> 0xff \<and> c \<noteq> 53 \<and> length v < 256"
  shows "DhcpMessageType m popt = type_loop m (popt + 4 + of_nat (length (open_options os)))"
  using assms(1) type_loop_open [OF assms(2,3)] by (simp add: DhcpMessageType_def)

end
