(* ===== verification/Flash.thy ===== *)
theory Flash
  imports Memory
begin

text \<open>
  Flash memory: \<^verbatim>\<open>common/flash.c\<close>, the sector functions of \<^verbatim>\<open>common/cmd_flash.c\<close> and the driver of the
  TQM8xx boards (\<^verbatim>\<open>board/tqm8xx/flash.c\<close>). The chip is the boundary: programming a word or erasing
  sectors takes the next element of a list of events, which says whether the operation completes, the driver
  gives up waiting for it, or the power fails meanwhile. Programming clears bits and nothing else, so a bit of an
  interrupted word has its old or its new value; an interrupted erasure leaves anything in the sectors.
\<close>

section \<open>Banks and sectors\<close>

definition FLASH_UNKNOWN :: u32 where "FLASH_UNKNOWN = 0xFFFF"
definition FLASH_AMD_COMP :: u32 where "FLASH_AMD_COMP = 0x000FFFFF"

definition ERR_OK :: int where "ERR_OK = 0"
definition ERR_TIMOUT :: int where "ERR_TIMOUT = 1"
definition ERR_NOT_ERASED :: int where "ERR_NOT_ERASED = 2"
definition ERR_PROTECTED :: int where "ERR_PROTECTED = 4"
definition ERR_INVAL :: int where "ERR_INVAL = 8"

text \<open>The arrays \<^verbatim>\<open>start\<close> and \<^verbatim>\<open>protect\<close> are lists of at least \<^verbatim>\<open>sector_count\<close> elements.\<close>

record flash_info =
  fi_size :: u32
  sector_count :: u16
  flash_id :: u32
  fi_start :: "u32 list"
  fi_protect :: "byte list"

definition sectors :: "flash_info \<Rightarrow> nat list" where
  "sectors info = [0..<unat (sector_count info)]"

text \<open>\<^verbatim>\<open>short s_end = info->sector_count - 1\<close>, and the last address of the bank and of a sector.\<close>

definition s_end :: "flash_info \<Rightarrow> int" where
  "s_end info = sint (sector_count info - 1)"

definition b_end :: "flash_info \<Rightarrow> u32" where
  "b_end info = fi_start info ! 0 + fi_size info - 1"

definition sect_end :: "flash_info \<Rightarrow> nat \<Rightarrow> u32" where
  "sect_end info i = (if int i = s_end info then b_end info else fi_start info ! (i + 1) - 1)"

text \<open>\<open>flash_protect\<close>, without \<^verbatim>\<open>CFG_FLASH_PROTECTION\<close>.\<close>

definition FLAG_PROTECT_SET :: u32 where "FLAG_PROTECT_SET = 1"
definition FLAG_PROTECT_CLEAR :: u32 where "FLAG_PROTECT_CLEAR = 2"

definition protect_sector :: "u32 \<Rightarrow> u32 \<Rightarrow> u32 \<Rightarrow> nat \<Rightarrow> flash_info \<Rightarrow> flash_info" where
  "protect_sector flag from to i info =
     (if from \<le> sect_end info i \<and> to \<ge> fi_start info ! i
      then if flag AND FLAG_PROTECT_CLEAR \<noteq> 0 then info\<lparr>fi_protect := (fi_protect info)[i := 0]\<rparr>
           else if flag AND FLAG_PROTECT_SET \<noteq> 0 then info\<lparr>fi_protect := (fi_protect info)[i := 1]\<rparr>
           else info
      else info)"

definition flash_protect :: "u32 \<Rightarrow> u32 \<Rightarrow> u32 \<Rightarrow> flash_info \<Rightarrow> flash_info" where
  "flash_protect flag from to info =
     (if sector_count info = 0 \<or> fi_size info = 0 \<or> to < from then info
      else if flash_id info = FLASH_UNKNOWN \<or> to < fi_start info ! 0 \<or> from > b_end info then info
      else fold (protect_sector flag from to) (sectors info) info)"

text \<open>\<open>addr2info\<close>: the index of the bank, \<open>None\<close> for null.\<close>

fun addr2info :: "flash_info list \<Rightarrow> u32 \<Rightarrow> nat option" where
  "addr2info [] addr = None"
| "addr2info (info # infos) addr =
     (if flash_id info \<noteq> FLASH_UNKNOWN \<and> addr \<ge> fi_start info ! 0 \<and> addr \<le> fi_start info ! 0 + fi_size info - 1
      then Some 0 else map_option Suc (addr2info infos addr))"

section \<open>The chip\<close>

datatype chip_event = Completes | Times_out "u32 \<Rightarrow> byte" | Power_fails "u32 \<Rightarrow> byte"

record flash_state =
  fl_mem :: mem
  fl_banks :: "flash_info list"
  fl_events :: "chip_event list"

text \<open>The result of an operation: the power failed and this is what the memory holds, or it returned.\<close>

datatype 'a powered = Off mem | Ret 'a flash_state

fun andthen :: "'a powered \<Rightarrow> ('a \<Rightarrow> flash_state \<Rightarrow> 'b powered) \<Rightarrow> 'b powered" where
  "andthen (Off m) k = Off m"
| "andthen (Ret r st) k = k r st"

text \<open>One chip operation with its polling loop: \<open>fin\<close> is its full effect, \<open>part\<close> the effect of an interrupted one.\<close>

definition chip_op :: "(mem \<Rightarrow> mem) \<Rightarrow> ((u32 \<Rightarrow> byte) \<Rightarrow> mem \<Rightarrow> mem) \<Rightarrow> flash_state \<Rightarrow> int powered" where
  "chip_op fin part st =
     (case fl_events st of
        [] \<Rightarrow> Ret 0 (st\<lparr>fl_mem := fin (fl_mem st)\<rparr>)
      | Completes # es \<Rightarrow> Ret 0 (st\<lparr>fl_mem := fin (fl_mem st), fl_events := es\<rparr>)
      | Times_out c # es \<Rightarrow> Ret 1 (st\<lparr>fl_mem := part c (fl_mem st), fl_events := es\<rparr>)
      | Power_fails c # es \<Rightarrow> Off (part c (fl_mem st)))"

definition word_cut :: "u32 \<Rightarrow> u32 \<Rightarrow> (u32 \<Rightarrow> byte) \<Rightarrow> mem \<Rightarrow> mem" where
  "word_cut dest data c m = (\<lambda>a. m a AND (c a OR mwrite m dest (be32 data) a))"

definition write_word :: "u32 \<Rightarrow> u32 \<Rightarrow> flash_state \<Rightarrow> int powered" where
  "write_word dest data st =
     (if mem_be32 (fl_mem st) dest AND data \<noteq> data then Ret ERR_NOT_ERASED st
      else chip_op (\<lambda>m. mwrite m dest (be32 data)) (word_cut dest data) st)"

section \<open>Programming\<close>

text \<open>The loop of \<open>write_buff\<close> over the aligned words and the tail behind it.\<close>

function write_words :: "byte list \<Rightarrow> u32 \<Rightarrow> flash_state \<Rightarrow> int powered" where
  "write_words src wp st =
     (if length src \<ge> 4
      then andthen (write_word wp (be_dec (take 4 src) 0) st)
             (\<lambda>rc st. if rc \<noteq> 0 then Ret rc st else write_words (drop 4 src) (wp + 4) st)
      else if src = [] then Ret 0 st
      else write_word wp (be_dec (src @ mread (fl_mem st) (wp + of_nat (length src)) (4 - length src)) 0) st)"
  by pat_completeness auto
termination by (relation "measure (\<lambda>(src, wp, st). length src)") auto

declare write_words.simps [simp del]

text \<open>\<open>write_buff\<close>: the unaligned start first, filled up with what the flash holds around it.\<close>

definition write_buff :: "byte list \<Rightarrow> u32 \<Rightarrow> flash_state \<Rightarrow> int powered" where
  "write_buff src addr st =
     (let wp = addr AND NOT 3; l = unat (addr - wp)
      in if l \<noteq> 0
         then let bytes = take (4 - l) src;
                  data = be_dec (mread (fl_mem st) wp l @ bytes @
                                 mread (fl_mem st) (addr + of_nat (length bytes)) (4 - l - length bytes)) 0
              in andthen (write_word wp data st)
                   (\<lambda>rc st. if rc \<noteq> 0 then Ret rc st else write_words (drop (4 - l) src) (wp + 4) st)
         else write_words src wp st)"

text \<open>
  \<open>flash_write\<close>: the check for protected sectors, where \<open>e_addr\<close> is the address behind a sector, and the loop over
  the banks from \<^verbatim>\<open>info_first\<close> to \<^verbatim>\<open>info_last\<close>.
\<close>

definition sect_behind :: "flash_info \<Rightarrow> nat \<Rightarrow> u32" where
  "sect_behind info i = (if int i = s_end info then fi_start info ! 0 + fi_size info else fi_start info ! (i + 1))"

definition protected_hit :: "u32 \<Rightarrow> u32 \<Rightarrow> flash_info \<Rightarrow> bool" where
  "protected_hit addr stop info =
     list_ex (\<lambda>i. stop \<ge> fi_start info ! i \<and> addr < sect_behind info i \<and> fi_protect info ! i \<noteq> 0) (sectors info)"

fun write_banks :: "flash_info list \<Rightarrow> byte list \<Rightarrow> u32 \<Rightarrow> flash_state \<Rightarrow> int powered" where
  "write_banks [] src addr st = Ret ERR_OK st"
| "write_banks (info # infos) src addr st =
     (if src = [] then Ret ERR_OK st
      else let len = min (unat (fi_start info ! 0 + fi_size info - addr)) (length src)
           in andthen (write_buff (take len src) addr st)
                (\<lambda>rc st. if rc \<noteq> 0 then Ret rc st else write_banks infos (drop len src) (addr + of_nat len) st))"

definition flash_write :: "byte list \<Rightarrow> u32 \<Rightarrow> flash_state \<Rightarrow> int powered" where
  "flash_write src addr st =
     (let stop = addr + of_nat (length src) - 1 in
      if src = [] then Ret ERR_OK st
      else case (addr2info (fl_banks st) addr, addr2info (fl_banks st) stop) of
             (Some f, Some l) \<Rightarrow>
               let infos = map ((!) (fl_banks st)) [f..<Suc l]
               in if list_ex (protected_hit addr stop) infos then Ret ERR_PROTECTED st
                  else write_banks infos src addr st
           | _ \<Rightarrow> Ret ERR_INVAL st)"

section \<open>Erasing and protecting\<close>

definition in_sectors :: "flash_info \<Rightarrow> nat list \<Rightarrow> u32 \<Rightarrow> bool" where
  "in_sectors info sects a = list_ex (\<lambda>i. fi_start info ! i \<le> a \<and> a \<le> sect_end info i) sects"

text \<open>\<open>flash_erase\<close>: all sectors that are not protected are erased at once; the driver waits for the last one.\<close>

definition flash_erase :: "flash_info \<Rightarrow> int \<Rightarrow> int \<Rightarrow> flash_state \<Rightarrow> int powered" where
  "flash_erase info s_first s_last st =
     (if s_first < 0 \<or> s_first > s_last then Ret 1 st
      else if flash_id info = FLASH_UNKNOWN \<or> flash_id info > FLASH_AMD_COMP then Ret 1 st
      else let sects = [i \<leftarrow> [nat s_first..<Suc (nat s_last)]. fi_protect info ! i = 0]
           in if sects = [] then Ret 0 st
              else chip_op (\<lambda>m a. if in_sectors info sects a then 0xFF else m a)
                           (\<lambda>c m a. if in_sectors info sects a then c a else m a) st)"

text \<open>The loop over the sectors of a bank that \<open>flash_sect_erase\<close> and \<open>flash_sect_protect\<close> share: \<^verbatim>\<open>s_first\<close>, \<^verbatim>\<open>s_last\<close>.\<close>

definition sect_find :: "flash_info \<Rightarrow> u32 \<Rightarrow> u32 \<Rightarrow> nat \<Rightarrow> int \<times> int \<Rightarrow> int \<times> int" where
  "sect_find info addr_first addr_last sect = (\<lambda>(s_first, s_last).
     let stop = sect_end info sect
     in if addr_first > stop then (s_first, s_last)
        else if addr_last < fi_start info ! sect then (s_first, s_last)
        else (if addr_first = fi_start info ! sect then int sect else s_first,
              if addr_last = stop then int sect else s_last))"

definition sect_range :: "flash_info \<Rightarrow> u32 \<Rightarrow> u32 \<Rightarrow> int \<times> int" where
  "sect_range info addr_first addr_last = fold (sect_find info addr_first addr_last) (sectors info) (-1, -1)"

fun erase_banks :: "flash_info list \<Rightarrow> u32 \<Rightarrow> u32 \<Rightarrow> int \<Rightarrow> int \<Rightarrow> flash_state \<Rightarrow> int powered" where
  "erase_banks [] addr_first addr_last erased rcode st = Ret (if erased \<noteq> 0 then rcode else 1) st"
| "erase_banks (info # infos) addr_first addr_last erased rcode st =
     (if flash_id info = FLASH_UNKNOWN then erase_banks infos addr_first addr_last erased rcode st
      else case sect_range info addr_first addr_last of (s_first, s_last) \<Rightarrow>
        if s_first \<ge> 0 \<and> s_first \<le> s_last
        then andthen (flash_erase info s_first s_last st)
               (\<lambda>rc st. erase_banks infos addr_first addr_last (erased + s_last - s_first + 1) rc st)
        else erase_banks infos addr_first addr_last erased rcode st)"

definition flash_sect_erase :: "u32 \<Rightarrow> u32 \<Rightarrow> flash_state \<Rightarrow> int powered" where
  "flash_sect_erase addr_first addr_last st = erase_banks (fl_banks st) addr_first addr_last 0 0 st"

definition protect_sectors :: "byte \<Rightarrow> int \<Rightarrow> int \<Rightarrow> flash_info \<Rightarrow> flash_info" where
  "protect_sectors p s_first s_last info =
     info\<lparr>fi_protect := fold (\<lambda>i ps. ps[i := p]) [nat s_first..<Suc (nat s_last)] (fi_protect info)\<rparr>"

fun protect_banks :: "byte \<Rightarrow> u32 \<Rightarrow> u32 \<Rightarrow> flash_info list \<Rightarrow> int \<times> flash_info list" where
  "protect_banks p addr_first addr_last [] = (0, [])"
| "protect_banks p addr_first addr_last (info # infos) =
     (let (n, infos') = protect_banks p addr_first addr_last infos in
      if flash_id info = FLASH_UNKNOWN then (n, info # infos')
      else case sect_range info addr_first addr_last of (s_first, s_last) \<Rightarrow>
        if s_first \<ge> 0 \<and> s_first \<le> s_last
        then (s_last - s_first + 1 + n, protect_sectors p s_first s_last info # infos')
        else (n, info # infos'))"

definition flash_sect_protect :: "byte \<Rightarrow> u32 \<Rightarrow> u32 \<Rightarrow> flash_state \<Rightarrow> int \<times> flash_state" where
  "flash_sect_protect p addr_first addr_last st =
     (let (n, banks) = protect_banks p addr_first addr_last (fl_banks st)
      in (if n \<noteq> 0 then 0 else 1, st\<lparr>fl_banks := banks\<rparr>))"

section \<open>Finding the chips\<close>

text \<open>
  \<open>flash_get_size\<close>: \<open>manuf\<close>, \<open>device\<close> and \<open>prot\<close> are what the chips at \<open>base\<close> answer in auto-select mode. The
  tables say for each device the type, the number of sectors, the size and where its sectors start.
\<close>

definition AMD_MANUFACT :: u32 where "AMD_MANUFACT = 0x00010001"
definition FUJ_MANUFACT :: u32 where "FUJ_MANUFACT = 0x00040004"
definition FLASH_MAN_AMD :: u32 where "FLASH_MAN_AMD = 0x00000000"
definition FLASH_MAN_FUJ :: u32 where "FLASH_MAN_FUJ = 0x00010000"

definition AMD_ID_LV400T :: u32 where "AMD_ID_LV400T = 0x22B922B9"
definition AMD_ID_LV400B :: u32 where "AMD_ID_LV400B = 0x22BA22BA"
definition AMD_ID_LV800T :: u32 where "AMD_ID_LV800T = 0x22DA22DA"
definition AMD_ID_LV800B :: u32 where "AMD_ID_LV800B = 0x225B225B"
definition AMD_ID_LV160T :: u32 where "AMD_ID_LV160T = 0x22C422C4"
definition AMD_ID_LV160B :: u32 where "AMD_ID_LV160B = 0x22492249"
definition AMD_ID_LV320T :: u32 where "AMD_ID_LV320T = 0x22F622F6"
definition AMD_ID_LV320B :: u32 where "AMD_ID_LV320B = 0x22F922F9"

definition chip_table :: "(u32 \<times> u32 \<times> u16 \<times> u32) list" where
  "chip_table =
    [(AMD_ID_LV400T, 2, 11, 0x00100000), (AMD_ID_LV400B, 3, 11, 0x00100000),
     (AMD_ID_LV800T, 4, 19, 0x00200000), (AMD_ID_LV800B, 5, 19, 0x00200000),
     (AMD_ID_LV160T, 6, 35, 0x00400000), (AMD_ID_LV160B, 7, 35, 0x00400000),
     (AMD_ID_LV320T, 8, 71, 0x00800000), (AMD_ID_LV320B, 9, 71, 0x00800000)]"

fun start_loop :: "(nat \<Rightarrow> bool) \<Rightarrow> nat list \<Rightarrow> u32 \<Rightarrow> u32 list" where
  "start_loop small [] base = []"
| "start_loop small (i # is) base = base # start_loop small is (base + (if small i then 0x4000 else 0x20000))"

definition start_table :: "u32 \<Rightarrow> u32 \<Rightarrow> nat \<Rightarrow> u32 \<Rightarrow> u32 list" where
  "start_table device base n sz =
     (if device \<in> {AMD_ID_LV400B, AMD_ID_LV800B, AMD_ID_LV160B}
      then [base, base + 0x8000, base + 0xC000, base + 0x10000] @
           map (\<lambda>i. base + of_nat i * 0x20000 - 0x60000) [4..<n]
      else if device \<in> {AMD_ID_LV400T, AMD_ID_LV800T, AMD_ID_LV160T}
      then map (\<lambda>i. base + of_nat i * 0x20000) [0..<n - 3] @
           [base + sz - 0x10000, base + sz - 0xC000, base + sz - 0x8000]
      else if device = AMD_ID_LV320B then start_loop (\<lambda>i. i < 8) [0..<n] base
      else start_loop (\<lambda>i. n - 8 \<le> i) [0..<n] base)"

definition flash_get_size :: "u32 \<Rightarrow> u32 \<Rightarrow> (nat \<Rightarrow> bool) \<Rightarrow> u32 \<Rightarrow> flash_info \<Rightarrow> u32 \<times> flash_info" where
  "flash_get_size manuf device prot base info =
     (if manuf \<noteq> AMD_MANUFACT \<and> manuf \<noteq> FUJ_MANUFACT
      then (0, info\<lparr>flash_id := FLASH_UNKNOWN, sector_count := 0, fi_size := 0\<rparr>)
      else let man = (if manuf = AMD_MANUFACT then FLASH_MAN_AMD else FLASH_MAN_FUJ) in
           case map_of chip_table device of
             None \<Rightarrow> (0, info\<lparr>flash_id := FLASH_UNKNOWN\<rparr>)
           | Some (ty, count, sz) \<Rightarrow>
               (sz, \<lparr>fi_size = sz, sector_count = count, flash_id = man + ty,
                       fi_start = start_table device base (unat count) sz,
                       fi_protect = map (\<lambda>i. if prot i then 1 else 0) [0..<unat count]\<rparr>))"

end
