(* ===== verification/FlashCmd.thy ===== *)
theory FlashCmd
  imports Flash Vsprintf "HOL-Library.Monad_Syntax"
begin

text \<open>
  The flash commands of \<^verbatim>\<open>common/cmd_flash.c\<close>: the abbreviated sector specification, \<^verbatim>\<open>erase\<close> and \<^verbatim>\<open>protect\<close>. What they
  print is left out. \<open>argv\<close> are the words of the command line; \<open>None\<close> is a write outside the array \<^verbatim>\<open>protect\<close>.
\<close>

datatype abbrev = No_Spec | Bad_Spec | Spec nat int int

text \<open>A decimal number that takes up the whole string: \<^verbatim>\<open>ep == str || *ep\<close> rules out anything else. \<^verbatim>\<open>int\<close> takes the \<^verbatim>\<open>ulong\<close>.\<close>

definition spec_number :: "byte list \<Rightarrow> int option" where
  "spec_number s = (let (v, ep) = simple_strtoul s 10 in if ep = s \<or> ep \<noteq> [] then None else Some (sint v))"

definition abbrev_spec :: "flash_info list \<Rightarrow> byte list \<Rightarrow> abbrev" where
  "abbrev_spec banks s =
     (if ch CHR '':'' \<notin> set s then No_Spec
      else let bank_str = takeWhile (\<lambda>c. c \<noteq> ch CHR '':'') s;
               rest = tl (dropWhile (\<lambda>c. c \<noteq> ch CHR '':'') s)
      in case spec_number bank_str of
           None \<Rightarrow> Bad_Spec
         | Some bank \<Rightarrow>
             if bank < 1 \<or> bank > int (length banks) \<or> flash_id (banks ! nat (bank - 1)) = FLASH_UNKNOWN then Bad_Spec
             else let count = int (unat (sector_count (banks ! nat (bank - 1)))) in
               case spec_number (takeWhile (\<lambda>c. c \<noteq> ch CHR ''-'') rest) of
                 None \<Rightarrow> Bad_Spec
               | Some sf \<Rightarrow>
                   if sf \<ge> count then Bad_Spec
                   else if ch CHR ''-'' \<in> set rest
                   then case spec_number (tl (dropWhile (\<lambda>c. c \<noteq> ch CHR ''-'') rest)) of
                          None \<Rightarrow> Bad_Spec
                        | Some sl \<Rightarrow> if sl < sf \<or> sl \<ge> count then Bad_Spec else Spec (nat (bank - 1)) sf sl
                   else Spec (nat (bank - 1)) sf sf)"

text \<open>\<^verbatim>\<open>flash_erase (info, 0, info->sector_count-1)\<close> for one bank, and for all of them; the result of the last one counts.\<close>

definition erase_bank :: "flash_info \<Rightarrow> flash_state \<Rightarrow> int powered" where
  "erase_bank info st = flash_erase info 0 (int (unat (sector_count info)) - 1) st"

fun erase_all :: "flash_info list \<Rightarrow> int \<Rightarrow> flash_state \<Rightarrow> int powered" where
  "erase_all [] rcode st = Ret rcode st"
| "erase_all (info # infos) rcode st = andthen (erase_bank info st) (\<lambda>rc st. erase_all infos rc st)"

definition bank_number :: "flash_info list \<Rightarrow> byte list \<Rightarrow> nat option" where
  "bank_number banks s = (let bank = fst (simple_strtoul s 16)
     in if bank < 1 \<or> unat bank > length banks then None else Some (unat bank - 1))"

definition do_flerase :: "byte list list \<Rightarrow> flash_state \<Rightarrow> int powered" where
  "do_flerase argv st =
     (if length argv < 2 then Ret 1 st
      else if argv ! 1 = str ''all'' then erase_all (fl_banks st) 0 st
      else case abbrev_spec (fl_banks st) (argv ! 1) of
        Bad_Spec \<Rightarrow> Ret 1 st
      | Spec b sf sl \<Rightarrow> flash_erase (fl_banks st ! b) sf sl st
      | No_Spec \<Rightarrow>
          if length argv \<noteq> 3 then Ret 1 st
          else if argv ! 1 = str ''bank''
          then (case bank_number (fl_banks st) (argv ! 2) of None \<Rightarrow> Ret 1 st | Some b \<Rightarrow> erase_bank (fl_banks st ! b) st)
          else let addr_first = fst (simple_strtoul (argv ! 1) 16); addr_last = fst (simple_strtoul (argv ! 2) 16)
               in if addr_first \<ge> addr_last then Ret 1 st else flash_sect_erase addr_first addr_last st)"

text \<open>The loop of \<open>do_protect\<close> over the sectors from \<open>sf\<close> to \<open>sl\<close> of bank \<open>b\<close>.\<close>

definition protect_range :: "byte \<Rightarrow> nat \<Rightarrow> int \<Rightarrow> int \<Rightarrow> flash_state \<Rightarrow> flash_state option" where
  "protect_range p b sf sl st =
     (if sf > sl then Some st
      else if sf < 0 then None
      else Some (st\<lparr>fl_banks := (fl_banks st)[b := protect_sectors p sf sl (fl_banks st ! b)]\<rparr>))"

definition protect_bank :: "byte \<Rightarrow> nat \<Rightarrow> flash_state \<Rightarrow> flash_state option" where
  "protect_bank p b st = protect_range p b 0 (int (unat (sector_count (fl_banks st ! b))) - 1) st"

fun protect_all :: "byte \<Rightarrow> nat list \<Rightarrow> flash_state \<Rightarrow> flash_state option" where
  "protect_all p [] st = Some st"
| "protect_all p (b # bs) st =
     (if flash_id (fl_banks st ! b) = FLASH_UNKNOWN then protect_all p bs st
      else do { st \<leftarrow> protect_bank p b st; protect_all p bs st })"

definition do_protect :: "byte list list \<Rightarrow> flash_state \<Rightarrow> (int \<times> flash_state) option" where
  "do_protect argv st =
     (if length argv < 3 then Some (1, st)
      else if argv ! 1 \<noteq> str ''off'' \<and> argv ! 1 \<noteq> str ''on'' then Some (1, st)
      else let p = (if argv ! 1 = str ''off'' then 0 else 1) in
      if argv ! 2 = str ''all'' then do { st \<leftarrow> protect_all p [0..<length (fl_banks st)] st; Some (0, st) }
      else case abbrev_spec (fl_banks st) (argv ! 2) of
        Bad_Spec \<Rightarrow> Some (1, st)
      | Spec b sf sl \<Rightarrow> do { st \<leftarrow> protect_range p b sf sl st; Some (0, st) }
      | No_Spec \<Rightarrow>
          if length argv \<noteq> 4 then Some (1, st)
          else if argv ! 2 = str ''bank''
          then (case bank_number (fl_banks st) (argv ! 3) of
                  None \<Rightarrow> Some (1, st)
                | Some b \<Rightarrow> if flash_id (fl_banks st ! b) = FLASH_UNKNOWN then Some (1, st)
                            else do { st \<leftarrow> protect_bank p b st; Some (0, st) })
          else let addr_first = fst (simple_strtoul (argv ! 2) 16); addr_last = fst (simple_strtoul (argv ! 3) 16)
               in if addr_first \<ge> addr_last then Some (1, st)
                  else Some (flash_sect_protect p addr_first addr_last st))"

section \<open>Errors\<close>

text \<open>
  A specification with a number above 2^31 is taken for a sector before the first one.
\<close>

lemma protect_negative_sector:
  "do_protect [str ''protect'', str ''on'', str ''1:4294967295'']
     \<lparr>fl_mem = m, fl_banks = [\<lparr>fi_size = 48, sector_count = 3, flash_id = 5, fi_start = ss, fi_protect = ps\<rparr>], fl_events = es\<rparr> = None"
proof -
  have "spec_number (str ''1'') = Some 1" "spec_number (str ''4294967295'') = Some (- 1)" by code_simp+
  then show ?thesis
    by (simp add: do_protect_def abbrev_spec_def protect_range_def FLASH_UNKNOWN_def)
qed

end
