(* ===== verification/EnvFlash.thy ===== *)
theory EnvFlash
  imports Flash Environment
begin

text \<open>
  The environment in flash with a redundant copy: \<^verbatim>\<open>common/env_flash.c\<close> with \<^verbatim>\<open>CFG_ENV_ADDR_REDUND\<close>, and
  \<open>env_relocate\<close> of \<^verbatim>\<open>common/env_common.c\<close> for it. Each copy is an \<open>env_t\<close>: the CRC, a flag byte and the data; the
  flags say which of two valid copies counts. The static variables of the file and the fields of \<^verbatim>\<open>gd\<close> are the
  record \<open>env_vars\<close>.
\<close>

record env_t =
  et_crc :: u32
  et_flags :: byte
  et_data :: "byte list"

text \<open>
  The configuration: where the copies are (\<^verbatim>\<open>CFG_ENV_ADDR\<close>, \<^verbatim>\<open>CFG_ENV_ADDR_REDUND\<close>), their sizes, the default
  environment with its address, and the address of the buffer \<^verbatim>\<open>env_ptr\<close> points to after relocation.
\<close>

record flash_env =
  fe_addr :: u32
  fe_addr_redund :: u32
  fe_size :: nat
  fe_size_redund :: nat
  fe_default :: "byte list"
  fe_default_addr :: u32
  fe_buffer :: u32

record env_vars =
  flash_addr :: u32
  flash_addr_new :: u32
  end_addr :: u32
  end_addr_new :: u32
  gd_env_addr :: u32
  gd_env_valid :: nat
  env_ptr :: env_t

definition ENV_HEADER_SIZE_REDUND :: nat where "ENV_HEADER_SIZE_REDUND = 5"

definition ENV_SIZE :: "flash_env \<Rightarrow> nat" where
  "ENV_SIZE cfg = fe_size cfg - ENV_HEADER_SIZE_REDUND"

text \<open>The members \<^verbatim>\<open>flags\<close> and \<^verbatim>\<open>data\<close> of the copy at an address, and the check of its CRC.\<close>

definition flags_at :: "u32 \<Rightarrow> u32" where "flags_at a = a + 4"
definition data_at :: "u32 \<Rightarrow> u32" where "data_at a = a + 5"

definition read_env :: "flash_env \<Rightarrow> mem \<Rightarrow> u32 \<Rightarrow> env_t" where
  "read_env cfg m a = \<lparr>et_crc = mem_be32 m a, et_flags = m (flags_at a), et_data = mread m (data_at a) (ENV_SIZE cfg)\<rparr>"

definition crc_ok :: "flash_env \<Rightarrow> mem \<Rightarrow> u32 \<Rightarrow> bool" where
  "crc_ok cfg m a \<longleftrightarrow> crc32 0 (Some (mread m (data_at a) (ENV_SIZE cfg))) = mem_be32 m a"

definition active_flag :: byte where "active_flag = 1"
definition obsolete_flag :: byte where "obsolete_flag = 0"

definition static_vars :: "flash_env \<Rightarrow> env_vars" where
  "static_vars cfg =
     \<lparr>flash_addr = fe_addr cfg, flash_addr_new = fe_addr_redund cfg,
      end_addr = fe_addr cfg + of_nat (fe_size cfg) - 1,
      end_addr_new = fe_addr_redund cfg + of_nat (fe_size_redund cfg) - 1,
      gd_env_addr = 0, gd_env_valid = 0,
      env_ptr = \<lparr>et_crc = 0, et_flags = 0, et_data = []\<rparr>\<rparr>"

section \<open>Start-up\<close>

text \<open>\<open>env_init\<close> runs before relocation, with \<^verbatim>\<open>flash_addr\<close> and \<^verbatim>\<open>flash_addr_new\<close> as they are initialised.\<close>

definition env_init :: "flash_env \<Rightarrow> mem \<Rightarrow> env_vars \<Rightarrow> env_vars" where
  "env_init cfg m v =
     (let crc1_ok = crc_ok cfg m (flash_addr v); crc2_ok = crc_ok cfg m (flash_addr_new v);
          flag1 = m (flags_at (flash_addr v)); flag2 = m (flags_at (flash_addr_new v));
          addr1 = data_at (flash_addr v); addr2 = data_at (flash_addr_new v);
          use = (\<lambda>addr valid. v\<lparr>gd_env_addr := addr, gd_env_valid := valid\<rparr>)
      in if crc1_ok \<and> \<not> crc2_ok then use addr1 1
         else if \<not> crc1_ok \<and> crc2_ok then use addr2 1
         else if \<not> crc1_ok \<and> \<not> crc2_ok then use (fe_default_addr cfg) 0
         else if flag1 = active_flag \<and> flag2 = obsolete_flag then use addr1 1
         else if flag1 = obsolete_flag \<and> flag2 = active_flag then use addr2 1
         else if flag1 = flag2 then use addr1 2
         else if flag1 = 0xFF then use addr1 2
         else if flag2 = 0xFF then use addr2 2
         else v)"

definition env_get_char_init :: "flash_env \<Rightarrow> mem \<Rightarrow> env_vars \<Rightarrow> nat \<Rightarrow> byte option" where
  "env_get_char_init cfg m v i =
     (if gd_env_valid v \<noteq> 0 then Some (m (gd_env_addr v + of_nat i))
      else if i < length (fe_default cfg) then Some (fe_default cfg ! i) else None)"

definition swap_copies :: "env_vars \<Rightarrow> env_vars" where
  "swap_copies v = v\<lparr>flash_addr := flash_addr_new v, flash_addr_new := flash_addr v,
                      end_addr := end_addr_new v, end_addr_new := end_addr v\<rparr>"

text \<open>One of the two repairs of \<open>env_relocate_spec\<close>: the flag byte is rewritten, whatever \<open>flash_write\<close> returns.\<close>

definition write_flag :: "byte \<Rightarrow> u32 \<Rightarrow> u32 \<Rightarrow> flash_state \<Rightarrow> unit powered" where
  "write_flag flag addr stop st =
     (let (_, st) = flash_sect_protect 0 addr stop st
      in andthen (flash_write [flag] (flags_at addr) st)
           (\<lambda>rc st. let (_, st) = flash_sect_protect 1 addr stop st in Ret () st))"

definition mark_obsolete :: "flash_env \<Rightarrow> env_vars \<Rightarrow> flash_state \<Rightarrow> env_vars powered" where
  "mark_obsolete cfg v st =
     (if fl_mem st (flags_at (flash_addr_new v)) \<noteq> obsolete_flag \<and> crc_ok cfg (fl_mem st) (flash_addr_new v)
      then andthen (write_flag obsolete_flag (flash_addr_new v) (end_addr_new v) st)
             (\<lambda>_ st. Ret (v\<lparr>gd_env_valid := 2\<rparr>) st)
      else Ret v st)"

definition mark_active :: "env_vars \<Rightarrow> flash_state \<Rightarrow> env_vars powered" where
  "mark_active v st =
     (if fl_mem st (flags_at (flash_addr v)) \<noteq> active_flag \<and>
         fl_mem st (flags_at (flash_addr v)) AND active_flag = active_flag
      then andthen (write_flag active_flag (flash_addr v) (end_addr v) st)
             (\<lambda>_ st. Ret (v\<lparr>gd_env_valid := 2\<rparr>) st)
      else Ret v st)"

definition env_relocate_spec :: "flash_env \<Rightarrow> env_vars \<Rightarrow> flash_state \<Rightarrow> env_vars powered" where
  "env_relocate_spec cfg v st =
     (let v = (if gd_env_addr v \<noteq> data_at (flash_addr v) then swap_copies v else v)
      in andthen (mark_obsolete cfg v st) (\<lambda>v st.
         andthen (mark_active v st) (\<lambda>v st.
           Ret (v\<lparr>env_ptr := read_env cfg (fl_mem st) (flash_addr v)\<rparr>) st)))"

text \<open>\<open>env_relocate\<close> with \<^verbatim>\<open>CFG_REDUNDAND_ENVIRONMENT\<close>; a default environment that is too large is not copied.\<close>

definition env_relocate_redund :: "flash_env \<Rightarrow> env_vars \<Rightarrow> flash_state \<Rightarrow> env_vars powered" where
  "env_relocate_redund cfg v st =
     (if gd_env_valid v = 0
      then if length (fe_default cfg) > ENV_SIZE cfg then Ret v st
           else let d = fe_default cfg @ replicate (ENV_SIZE cfg - length (fe_default cfg)) 0
                in Ret (v\<lparr>env_ptr := \<lparr>et_crc = crc32 0 (Some d), et_flags = 0xFF, et_data = d\<rparr>,
                           gd_env_valid := 1, gd_env_addr := data_at (fe_buffer cfg)\<rparr>) st
      else andthen (env_relocate_spec cfg v st) (\<lambda>v st. Ret (v\<lparr>gd_env_addr := data_at (fe_buffer cfg)\<rparr>) st))"

text \<open>What a board does with the environment when it starts: \<open>env_init\<close> from flash, \<open>env_relocate\<close> from memory.\<close>

definition env_boot :: "flash_env \<Rightarrow> flash_state \<Rightarrow> env_vars powered" where
  "env_boot cfg st = env_relocate_redund cfg (env_init cfg (fl_mem st) (static_vars cfg)) st"

section \<open>Saving\<close>

text \<open>\<open>saveenv\<close>: the four writes in their order, and the whole command. All paths behind \<^verbatim>\<open>Done\<close> protect both copies again.\<close>

definition save_writes :: "env_vars \<Rightarrow> flash_state \<Rightarrow> int powered" where
  "save_writes v st =
     andthen (flash_write (et_data (env_ptr v)) (data_at (flash_addr_new v)) st) (\<lambda>rc st. if rc \<noteq> 0 then Ret rc st else
     andthen (flash_write (be32 (et_crc (env_ptr v))) (flash_addr_new v) st) (\<lambda>rc st. if rc \<noteq> 0 then Ret rc st else
     andthen (flash_write [obsolete_flag] (flags_at (flash_addr v)) st) (\<lambda>rc st. if rc \<noteq> 0 then Ret rc st else
     flash_write [active_flag] (flags_at (flash_addr_new v)) st)))"

definition save_done :: "int \<Rightarrow> env_vars \<Rightarrow> flash_state \<Rightarrow> (int \<times> env_vars) powered" where
  "save_done rc v st =
     (let (_, st) = flash_sect_protect 1 (flash_addr v) (end_addr v) st;
          (_, st) = flash_sect_protect 1 (flash_addr_new v) (end_addr_new v) st
      in Ret (rc, v) st)"

definition saveenv :: "env_vars \<Rightarrow> flash_state \<Rightarrow> (int \<times> env_vars) powered" where
  "saveenv v st =
     (let (rc, st) = flash_sect_protect 0 (flash_addr v) (end_addr v) st in
      if rc \<noteq> 0 then save_done 1 v st
      else let (rc, st) = flash_sect_protect 0 (flash_addr_new v) (end_addr_new v) st in
      if rc \<noteq> 0 then save_done 1 v st
      else andthen (flash_sect_erase (flash_addr_new v) (end_addr_new v) st) (\<lambda>rc st.
           if rc \<noteq> 0 then save_done 1 v st
           else andthen (save_writes v st) (\<lambda>rc st.
                if rc \<noteq> 0 then save_done 1 v st
                else save_done 0 (swap_copies v) st)))"

section \<open>A single copy\<close>

text \<open>
  The same file without \<^verbatim>\<open>CFG_ENV_ADDR_REDUND\<close>: the copy has no flag byte, and a sector that is larger than the environment
  (\<open>sect_size\<close> is \<^verbatim>\<open>CFG_ENV_SECT_SIZE\<close>) is read, patched and written back. \<open>None\<close>: the environment does not fit into the buffer
  for the sector.
\<close>

definition env_init_single :: "u32 \<Rightarrow> nat \<Rightarrow> u32 \<Rightarrow> mem \<Rightarrow> u32 \<times> nat" where
  "env_init_single addr size_data addr_default m =
     (if crc32 0 (Some (mread m (addr + 4) size_data)) = mem_be32 m addr then (addr + 4, 1) else (addr_default, 0))"

definition sector_buffer :: "u32 \<Rightarrow> u32 option \<Rightarrow> byte list \<Rightarrow> mem \<Rightarrow> (u32 \<times> byte list) option" where
  "sector_buffer addr sect_size env m =
     (case sect_size of
        None \<Rightarrow> Some (addr, env)
      | Some ss \<Rightarrow>
          let flash_offset = unat (addr AND (ss - 1)); flash_sect_addr = addr AND NOT (ss - 1);
              old = mread m flash_sect_addr (unat ss)
          in if flash_offset + length env > unat ss then None
             else Some (flash_sect_addr, take flash_offset old @ env @ drop (flash_offset + length env) old))"

definition saveenv_single :: "u32 \<Rightarrow> u32 option \<Rightarrow> byte list \<Rightarrow> flash_state \<Rightarrow> int powered option" where
  "saveenv_single addr sect_size env st =
     (case sector_buffer addr sect_size env (fl_mem st) of
        None \<Rightarrow> None
      | Some (sect_addr, buf) \<Rightarrow> Some (
          let stop = sect_addr + of_nat (length buf) - 1; (rc, st) = flash_sect_protect 0 sect_addr stop st in
          if rc \<noteq> 0 then Ret 1 st
          else andthen (flash_sect_erase sect_addr stop st) (\<lambda>rc st. if rc \<noteq> 0 then Ret 1 st else
               andthen (flash_write buf sect_addr st) (\<lambda>rc st.
                 let (_, st) = flash_sect_protect 1 sect_addr stop st in Ret (if rc \<noteq> 0 then 1 else 0) st))))"

end
