(* ===== verification/FlashCorrect.thy ===== *)
theory FlashCorrect
  imports Flash
begin

text \<open>
  The flash functions: what a write leaves in the memory whether it ends well, with an error or by a power failure,
  that erasing keeps to the sectors of its range and protected sectors are not written, and the sector tables.
\<close>

section \<open>Sequences of operations\<close>

lemma andthen_Ret [simp]: "andthen (Ret r st) k = k r st"
  by simp

lemma andthen_eq_Ret:
  "andthen x k = Ret r st \<longleftrightarrow> (\<exists>r' st'. x = Ret r' st' \<and> k r' st' = Ret r st)"
  by (cases x) auto

lemma andthen_eq_Off:
  "andthen x k = Off m \<longleftrightarrow> x = Off m \<or> (\<exists>r' st'. x = Ret r' st' \<and> k r' st' = Off m)"
  by (cases x) auto

lemmas andthen_iffs = andthen_eq_Ret andthen_eq_Off

section \<open>Programming\<close>

text \<open>Every bit of the memory is still the old one or the new one, as programming leaves it.\<close>

definition programmed :: "mem \<Rightarrow> mem \<Rightarrow> mem \<Rightarrow> bool" where
  "programmed m new m' \<longleftrightarrow> (\<forall>a. \<exists>c. m' a = m a AND (c OR new a))"

definition clears :: "mem \<Rightarrow> mem \<Rightarrow> bool" where
  "clears m m' \<longleftrightarrow> (\<forall>a. m a AND m' a = m' a)"

lemma and_or_self [simp]: "(x :: 'a::len word) AND (c OR x) = x"
  by (rule bit_word_eqI) (auto simp: bit_simps)

lemma programmedI: "(\<And>a. m' a = m a \<or> (\<exists>c. m' a = m a AND (c OR new a))) \<Longrightarrow> programmed m new m'"
  unfolding programmed_def by (metis and.right_neutral bit.disj_one_left)

lemma programmed_refl [simp]: "programmed m new m"
  by (rule programmedI) simp

lemma programmedE:
  assumes "programmed m new m'"
  obtains c where "m' a = m a AND (c OR new a)"
  using assms unfolding programmed_def by blast

lemma programmed_same: "programmed m new m' \<Longrightarrow> new a = m a \<Longrightarrow> m' a = m a"
  by (erule programmedE [where a = a]) simp

text \<open>The outcomes of writing \<open>src\<close> at \<open>addr\<close>.\<close>

definition writes :: "flash_state \<Rightarrow> u32 \<Rightarrow> byte list \<Rightarrow> int powered \<Rightarrow> bool" where
  "writes st addr src r \<longleftrightarrow>
     (case r of
        Off m' \<Rightarrow> programmed (fl_mem st) (mwrite (fl_mem st) addr src) m'
      | Ret rc st' \<Rightarrow> fl_banks st' = fl_banks st \<and>
          (if rc = 0 then fl_mem st' = mwrite (fl_mem st) addr src \<and> clears (fl_mem st) (fl_mem st')
           else programmed (fl_mem st) (mwrite (fl_mem st) addr src) (fl_mem st')))"

lemma writes_Nil [simp]: "writes st addr [] (Ret 0 st)"
  by (simp add: writes_def clears_def)

lemma writes_error: "rc \<noteq> 0 \<Longrightarrow> writes st addr src (Ret rc st)"
  by (simp add: writes_def)

lemma be32_and: "be32 (v AND w) = map2 (AND) (be32 v) (be32 w)"
  by (simp add: be32_def drop_bit_and unsigned_and_eq)

lemma clears_word:
  assumes "mem_be32 m dest AND data = data"
  shows "clears m (mwrite m dest (be32 data))"
  unfolding clears_def
proof
  fix a
  have eq: "map2 (AND) (mread m dest 4) (be32 data) = be32 data"
    using arg_cong [OF assms, of be32] by (simp add: be32_and be32_be32_dec)
  show "m a AND mwrite m dest (be32 data) a = mwrite m dest (be32 data) a"
  proof (cases "unat (a - dest) < 4")
    case True
    then have "mread m dest 4 ! unat (a - dest) = m a" by simp
    then show ?thesis
      using True arg_cong [OF eq, of "\<lambda>l. l ! unat (a - dest)"]
      by (simp add: mwrite_apply)
  qed (simp add: mwrite_apply)
qed

lemma word_cut_programmed: "programmed m (mwrite m dest (be32 data)) (word_cut dest data c m)"
  by (auto simp: programmed_def word_cut_def)

lemma write_word_writes: "writes st dest (be32 data) (write_word dest data st)"
  by (auto simp: write_word_def chip_op_def writes_def ERR_NOT_ERASED_def clears_word word_cut_programmed
      split: list.splits chip_event.splits)

text \<open>Two writes one behind the other are a write of both.\<close>

lemma programmed_append:
  assumes cl: "clears m (mwrite m a x)" and len: "length x + length y \<le> 2 ^ 32"
    and pr: "programmed (mwrite m a x) (mwrite m a (x @ y)) m'"
  shows "programmed m (mwrite m a (x @ y)) m'"
proof (rule programmedI)
  fix p
  let ?m = "mwrite m a x"
  obtain c where c: "m' p = ?m p AND (c OR mwrite m a (x @ y) p)"
    using pr by (rule programmedE)
  have cl: "m p AND ?m p = ?m p" using cl by (simp add: clears_def)
  show "m' p = m p \<or> (\<exists>c. m' p = m p AND (c OR mwrite m a (x @ y) p))"
  proof (cases "unat (p - a) < length x")
    case True
    then have new: "mwrite m a (x @ y) p = ?m p"
      using len by (simp add: mwrite_apply nth_append)
    then have "m' p = m p AND (0 OR mwrite m a (x @ y) p)" using c cl by simp
    then show ?thesis by blast
  next
    case False
    then have "?m p = m p" using len by (simp add: mwrite_apply)
    then show ?thesis using c by auto
  qed
qed

lemma programmed_prefix:
  assumes len: "length x + length y \<le> 2 ^ 32" and pr: "programmed m (mwrite m a x) m'"
  shows "programmed m (mwrite m a (x @ y)) m'"
proof (rule programmedI)
  fix p
  obtain c where c: "m' p = m p AND (c OR mwrite m a x p)"
    using pr by (rule programmedE)
  show "m' p = m p \<or> (\<exists>c. m' p = m p AND (c OR mwrite m a (x @ y) p))"
    using c len by (cases "unat (p - a) < length x") (auto simp: mwrite_apply nth_append)
qed

lemma clears_trans: "clears m m1 \<Longrightarrow> clears m1 m2 \<Longrightarrow> clears m m2"
  unfolding clears_def by (metis and.assoc)

lemma writes_andthen:
  assumes r: "writes st a x r" and len: "length x + length y \<le> 2 ^ 32"
    and k: "\<And>st'. fl_banks st' = fl_banks st \<Longrightarrow> writes st' (a + of_nat (length x)) y (k st')"
  shows "writes st a (x @ y) (andthen r (\<lambda>rc st. if rc \<noteq> 0 then Ret rc st else k st))"
proof (cases r)
  case (Off m')
  then show ?thesis using r programmed_prefix [OF len] by (simp add: writes_def)
next
  case (Ret rc st')
  show ?thesis
  proof (cases "rc = 0")
    case False
    then show ?thesis using r Ret programmed_prefix [OF len] by (simp add: writes_def)
  next
    case True
    then have st': "fl_banks st' = fl_banks st" "fl_mem st' = mwrite (fl_mem st) a x"
        "clears (fl_mem st) (mwrite (fl_mem st) a x)"
      using r Ret by (auto simp: writes_def)
    have new: "mwrite (fl_mem st') (a + of_nat (length x)) y = mwrite (fl_mem st) a (x @ y)"
      by (simp add: st'(2) mwrite_append)
    have "writes st' (a + of_nat (length x)) y (k st')" using k st'(1) by blast
    then have "writes st a (x @ y) (k st')"
      unfolding writes_def new st'(1) [symmetric]
      using programmed_append [OF st'(3) len] clears_trans [OF st'(3)]
      by (auto simp: st'(2) split: powered.splits if_splits)
    then show ?thesis by (simp add: Ret True)
  qed
qed

text \<open>A word filled up with what the memory holds around the bytes writes just the bytes.\<close>

lemma mwrite_padded:
  assumes "l + length x + k \<le> 2 ^ 32"
  shows "mwrite m a (mread m a l @ x @ mread m (a + of_nat l + of_nat (length x)) k) = mwrite m (a + of_nat l) x"
proof (rule ext)
  fix p
  let ?w = "mread m a l @ x @ mread m (a + of_nat l + of_nat (length x)) k" and ?i = "unat (p - a)"
  have p: "p = a + of_nat ?i" by simp
  have i: "unat (p - (a + of_nat l)) = ?i - l" if "l \<le> ?i"
  proof -
    have "p - (a + of_nat l) = of_nat (?i - l)" using that by (simp add: of_nat_diff)
    then show ?thesis using unsigned_less [of "p - a", where ?'a = nat] by (simp add: unat_of_nat_u32)
  qed
  have w: "mwrite m a ?w p = (if ?i < length ?w then ?w ! ?i else m p)" using assms by (subst mwrite_apply) auto
  have x: "mwrite m (a + of_nat l) x p = (if unat (p - (a + of_nat l)) < length x then x ! unat (p - (a + of_nat l)) else m p)"
    using assms by (subst mwrite_apply) auto
  show "mwrite m a ?w p = mwrite m (a + of_nat l) x p"
  proof (cases "l \<le> ?i")
    case False
    have "\<not> unat (p - (a + of_nat l)) < length x"
    proof
      assume lt: "unat (p - (a + of_nat l)) < length x"
      have "p - a = of_nat (l + unat (p - (a + of_nat l)))" by simp
      then have "?i = l + unat (p - (a + of_nat l))" using lt assms by (simp add: unat_of_nat_u32 del: of_nat_add)
      with False show False by simp
    qed
    then show ?thesis unfolding w x using False by (simp add: nth_append)
  next
    case True
    show ?thesis unfolding w x i [OF True]
      using True by (auto simp: nth_append not_less simp flip: add.assoc of_nat_add)
  qed
qed

lemma length4_be32: "length bs = 4 \<Longrightarrow> be32 (be_dec bs 0) = bs"
  using be32_be32_dec [of bs] by (simp add: be32_dec_def)

lemma write_bytes_writes: "length bs = 4 \<Longrightarrow> writes st dest bs (write_word dest (be_dec bs 0) st)"
  using write_word_writes [of st dest "be_dec bs 0"] by (simp add: length4_be32)

lemma writes_cong:
  assumes w: "writes st a x r" and eq: "mwrite (fl_mem st) a x = mwrite (fl_mem st) b y"
  shows "writes st b y r"
  using w unfolding writes_def eq .

lemma write_padded_writes:
  assumes "l + length x + k = 4"
  shows "writes st (a + of_nat l) x
    (write_word a (be_dec (mread (fl_mem st) a l @ x @ mread (fl_mem st) (a + of_nat l + of_nat (length x)) k) 0) st)"
  by (rule writes_cong [OF write_bytes_writes mwrite_padded]) (use assms in auto)

lemma write_words_writes: "length src \<le> 2 ^ 32 \<Longrightarrow> writes st wp src (write_words src wp st)"
proof (induction src wp st rule: write_words.induct)
  case (1 src wp st)
  show ?case
  proof (cases "length src \<ge> 4")
    case True
    have "writes st wp (take 4 src @ drop 4 src)
      (andthen (write_word wp (be_dec (take 4 src) 0) st)
             (\<lambda>rc st. if rc \<noteq> 0 then Ret rc st else write_words (drop 4 src) (wp + 4) st))"
    proof (rule writes_andthen)
      show "writes st' (wp + of_nat (length (take 4 src))) (drop 4 src) (write_words (drop 4 src) (wp + 4) st')" for st'
        using 1 True by simp
    qed (use True 1 in \<open>auto intro: write_bytes_writes\<close>)
    then show ?thesis using True by (subst write_words.simps) simp
  next
    case False
    then show ?thesis
      using write_padded_writes [of 0 src "4 - length src" st wp] by (subst write_words.simps) auto
  qed
qed

lemma word_offset: "unat (addr - (addr AND NOT 3) :: u32) < 4"
proof -
  have m3: "(3 :: u32) = mask 2" by (simp add: mask_eq_exp_minus_1)
  have "(addr AND 3) + (addr AND NOT 3) = (addr AND 3) OR (addr AND NOT 3)" by (rule disjunctive_add) (simp add: bit_simps)
  also have "\<dots> = addr" by (rule bit_word_eqI) (auto simp: bit_simps)
  finally have "addr - (addr AND NOT 3) = addr AND 3" by (metis add_diff_cancel_right')
  then show ?thesis unfolding m3 by (simp add: unsigned_take_bit_eq take_bit_eq_mod unat_mod_distrib flip: take_bit_eq_mask)
qed

lemma write_buff_writes:
  assumes "length src \<le> 2 ^ 32"
  shows "writes st addr src (write_buff src addr st)"
proof (cases "addr - (addr AND NOT 3) = 0")
  case True
  then show ?thesis using write_words_writes [OF assms] by (simp add: write_buff_def)
next
  case False
  define wp where "wp = addr AND NOT 3"
  define l where "l = unat (addr - wp)"
  note l = word_offset [of addr, folded wp_def, folded l_def]
  have addr: "addr = wp + of_nat l" by (simp add: l_def)
  have "writes st addr (take (4 - l) src @ drop (4 - l) src)
      (andthen (write_word wp (be_dec (mread (fl_mem st) wp l @ take (4 - l) src @
            mread (fl_mem st) (addr + of_nat (length (take (4 - l) src))) (4 - l - length (take (4 - l) src))) 0) st)
        (\<lambda>rc st. if rc \<noteq> 0 then Ret rc st else write_words (drop (4 - l) src) (wp + 4) st))"
  proof (rule writes_andthen)
    show "writes st' (addr + of_nat (length (take (4 - l) src))) (drop (4 - l) src) (write_words (drop (4 - l) src) (wp + 4) st')" for st'
    proof (cases "length src \<le> 4 - l")
      case True
      then show ?thesis by (simp add: write_words.simps)
    next
      case False
      then have "addr + of_nat (length (take (4 - l) src)) = wp + of_nat (l + (4 - l))"
        by (simp only: addr of_nat_add) (simp add: min_def)
      then have "addr + of_nat (length (take (4 - l) src)) = wp + 4" using l by simp
      then show ?thesis using assms by (simp add: write_words_writes)
    qed
  next
    show "writes st addr (take (4 - l) src) (write_word wp (be_dec (mread (fl_mem st) wp l @ take (4 - l) src @
            mread (fl_mem st) (addr + of_nat (length (take (4 - l) src))) (4 - l - length (take (4 - l) src))) 0) st)"
      unfolding addr by (rule write_padded_writes) (use l in auto)
  qed (use assms in auto)
  moreover have "l \<noteq> 0" using False by (simp add: l_def wp_def unat_eq_0)
  ultimately show ?thesis unfolding write_buff_def Let_def wp_def [symmetric] l_def [symmetric] by (simp del: length_take)
qed

section \<open>Banks\<close>

text \<open>
  A bank as the driver finds it: the starts of its sectors ascend from its base to its end and it has room for their
  protection. The banks of the board lie one behind the other in the address space.
\<close>

definition bank_wf :: "flash_info \<Rightarrow> bool" where
  "bank_wf info \<longleftrightarrow> (let n = unat (sector_count info) in
     0 < n \<and> n < 2 ^ 15 \<and> n \<le> length (fi_start info) \<and> n \<le> length (fi_protect info) \<and> fi_size info \<noteq> 0 \<and>
     list_all (\<lambda>i. fi_start info ! i < fi_start info ! Suc i) [0..<n - 1] \<and> fi_start info ! (n - 1) \<le> b_end info)"

definition banks_wf :: "flash_info list \<Rightarrow> bool" where
  "banks_wf banks \<longleftrightarrow> list_all (\<lambda>info. flash_id info \<noteq> FLASH_UNKNOWN \<longrightarrow> bank_wf info) banks \<and>
     (\<forall>j < length banks. \<forall>i < j. flash_id (banks ! i) \<noteq> FLASH_UNKNOWN \<longrightarrow> flash_id (banks ! j) \<noteq> FLASH_UNKNOWN \<longrightarrow>
        b_end (banks ! i) < fi_start (banks ! j) ! 0)"

lemma word_le_pred: "(x :: 'a::len word) < y \<Longrightarrow> x \<le> y - 1"
  by (metis unat_gt_0 unat_minus_one word_le_nat_alt word_less_nat_alt Suc_pred' less_Suc_eq_le not_less_zero neq0_conv unsigned_0)

lemma word_pred_less: "(x :: 'a::len word) < y \<Longrightarrow> y - 1 < y"
  by (metis unat_gt_0 unat_minus_one word_less_nat_alt diff_less less_one not_less_zero neq0_conv unsigned_0)

lemma s_end_iff:
  assumes "bank_wf info"
  shows "int i = s_end info \<longleftrightarrow> Suc i = unat (sector_count info)"
proof -
  have n: "0 < unat (sector_count info)" "unat (sector_count info) < 2 ^ 15"
    using assms by (auto simp: bank_wf_def Let_def)
  then have "sector_count info \<noteq> 0" by auto
  then have e: "unat (sector_count info - 1) = unat (sector_count info) - 1" by (rule unat_minus_one)
  then have u: "uint (sector_count info - 1) = int (unat (sector_count info) - 1)"
    by (metis of_nat_unat)
  have "s_end info = int (unat (sector_count info) - 1)"
    unfolding s_end_def sint_uint u by (rule signed_take_bit_int_eq_self) (use n in \<open>auto simp del: of_nat_diff\<close>)
  then show ?thesis using n(1) by (simp only:) linarith
qed

text \<open>Inside a bank the sectors ascend and follow one another without gap.\<close>

lemma bank_facts:
  assumes "bank_wf info" and "n = unat (sector_count info)"
  shows "0 < n" "n \<le> length (fi_protect info)" "\<And>i. Suc i < n \<Longrightarrow> fi_start info ! i < fi_start info ! Suc i"
    "fi_start info ! (n - 1) \<le> b_end info" "\<And>i. sect_end info i = (if Suc i = n then b_end info else fi_start info ! Suc i - 1)"
    "\<And>i. sect_behind info i = (if Suc i = n then fi_start info ! 0 + fi_size info else fi_start info ! Suc i)"
  using assms(1) unfolding assms(2)
  by (auto simp: bank_wf_def Let_def list_all_iff sect_end_def sect_behind_def s_end_iff [OF assms(1)])

lemma starts_ascend:
  assumes "bank_wf info" and "i \<le> j" and "j < unat (sector_count info)"
  shows "fi_start info ! i \<le> fi_start info ! j"
  using assms(2,3)
proof (induction j rule: dec_induct)
  case (step j)
  then show ?case using bank_facts(3) [OF assms(1) refl, of j] by simp
qed simp

lemma sect_nonempty:
  assumes wf: "bank_wf info" and i: "i < unat (sector_count info)"
  shows "fi_start info ! i \<le> sect_end info i"
proof (cases "Suc i = unat (sector_count info)")
  case True
  then show ?thesis using bank_facts(4,5) [OF wf refl] by (simp flip: True)
next
  case False
  then have "fi_start info ! i < fi_start info ! Suc i" using bank_facts(3) [OF wf refl, of i] i by simp
  then have "fi_start info ! i \<le> fi_start info ! Suc i - 1" by (rule word_le_pred)
  then show ?thesis using False by (simp add: bank_facts(5) [OF wf refl])
qed

lemma sect_end_below:
  assumes wf: "bank_wf info" and ij: "i < j" "j < unat (sector_count info)"
  shows "sect_end info i < fi_start info ! j"
proof -
  have "fi_start info ! i < fi_start info ! Suc i" using bank_facts(3) [OF wf refl, of i] ij by simp
  then have "fi_start info ! Suc i - 1 < fi_start info ! Suc i" by (rule word_pred_less)
  also have "\<dots> \<le> fi_start info ! j" using ij by (intro starts_ascend [OF wf]) auto
  finally show ?thesis using ij by (simp add: bank_facts(5) [OF wf refl])
qed

lemma sect_end_ascend:
  assumes wf: "bank_wf info" and ij: "i \<le> j" "j < unat (sector_count info)"
  shows "sect_end info i \<le> sect_end info j"
  using sect_end_below [OF wf, of i j] sect_nonempty [OF wf, of j] ij by (cases "i = j") auto

text \<open>Every address of a range of sectors lies in one of them.\<close>

lemma in_sectors_range:
  assumes wf: "bank_wf info" and le: "f \<le> l" and l: "l < unat (sector_count info)"
  shows "in_sectors info [f..<Suc l] a \<longleftrightarrow> fi_start info ! f \<le> a \<and> a \<le> sect_end info l"
proof
  assume "in_sectors info [f..<Suc l] a"
  then obtain i where i: "f \<le> i" "i \<le> l" "fi_start info ! i \<le> a" "a \<le> sect_end info i"
    by (auto simp: in_sectors_def list_ex_iff)
  have "fi_start info ! f \<le> fi_start info ! i" using i l by (intro starts_ascend [OF wf]) auto
  moreover have "sect_end info i \<le> sect_end info l" using i l by (intro sect_end_ascend [OF wf]) auto
  ultimately show "fi_start info ! f \<le> a \<and> a \<le> sect_end info l" using i by auto
next
  assume a: "fi_start info ! f \<le> a \<and> a \<le> sect_end info l"
  have "\<exists>i\<ge>f. i \<le> l \<and> fi_start info ! i \<le> a \<and> a \<le> sect_end info i"
    using le l a
  proof (induction l rule: dec_induct)
    case (step j)
    show ?case
    proof (cases "fi_start info ! Suc j \<le> a")
      case True
      then show ?thesis using step by (intro exI [of _ "Suc j"]) auto
    next
      case False
      then have "a \<le> fi_start info ! Suc j - 1" by (intro word_le_pred) simp
      then have "a \<le> sect_end info j" using step.prems by (simp add: bank_facts(5) [OF wf refl])
      then obtain i where "i \<ge> f" "i \<le> j" "fi_start info ! i \<le> a" "a \<le> sect_end info i"
        using step by auto
      then show ?thesis by auto
    qed
  qed auto
  then show "in_sectors info [f..<Suc l] a" by (auto simp: in_sectors_def list_ex_iff)
qed

text \<open>The sector loop finds the first and the last sector of the range by their exact limits.\<close>

lemma sect_range_found:
  assumes wf: "bank_wf info" and found: "sect_range info first stop = (s_first, s_last)" "s_first \<ge> 0" "s_first \<le> s_last"
  obtains f l where "s_first = int f" "s_last = int l" "f \<le> l" "l < unat (sector_count info)"
    "fi_start info ! f = first" "sect_end info l = stop"
proof -
  define P where "P = (\<lambda>(sf, sl). (sf = -1 \<or> (\<exists>f < unat (sector_count info). sf = int f \<and> fi_start info ! f = first)) \<and>
     (sl = -1 \<or> (\<exists>l < unat (sector_count info). sl = int l \<and> sect_end info l = stop)))"
  have step: "P (sect_find info first stop i r)" if "P r" "i < unat (sector_count info)" for i r
    using that by (cases r) (auto simp: P_def sect_find_def Let_def)
  have "P (fold (sect_find info first stop) is r)" if "P r" "set is \<subseteq> {..<unat (sector_count info)}" for "is" r
    using that by (induction "is" arbitrary: r) (simp_all add: step)
  from this [of "(-1, -1)" "sectors info"] have "P (sect_range info first stop)"
    by (simp add: sect_range_def sectors_def P_def lessThan_atLeast0)
  then have "P (s_first, s_last)" by (simp only: found(1))
  then show thesis using that found(2,3) by (auto simp: P_def)
qed

section \<open>Erasing\<close>

text \<open>Erasing changes nothing outside the range, however it ends.\<close>

definition same_outside :: "u32 \<Rightarrow> u32 \<Rightarrow> mem \<Rightarrow> mem \<Rightarrow> bool" where
  "same_outside first stop m m' \<longleftrightarrow> (\<forall>a. a < first \<or> stop < a \<longrightarrow> m' a = m a)"

lemma same_outside_refl [simp]: "same_outside first stop m m"
  by (simp add: same_outside_def)

lemma same_outside_trans: "same_outside first stop m m1 \<Longrightarrow> same_outside first stop m1 m2 \<Longrightarrow> same_outside first stop m m2"
  by (simp add: same_outside_def)

definition erases :: "u32 \<Rightarrow> u32 \<Rightarrow> flash_state \<Rightarrow> int powered \<Rightarrow> bool" where
  "erases first stop st r \<longleftrightarrow>
     (case r of Off m' \<Rightarrow> same_outside first stop (fl_mem st) m'
      | Ret rc st' \<Rightarrow> fl_banks st' = fl_banks st \<and> same_outside first stop (fl_mem st) (fl_mem st'))"

lemma in_sectors_filter: "in_sectors info (filter P is) a \<Longrightarrow> in_sectors info is a"
  by (auto simp: in_sectors_def list_ex_iff)

lemma flash_erase_erases:
  assumes wf: "bank_wf info" and "f \<le> l" "l < unat (sector_count info)"
  shows "erases (fi_start info ! f) (sect_end info l) st (flash_erase info (int f) (int l) st)"
proof -
  have "in_sectors info [i \<leftarrow> [f..<Suc l]. P i] a \<Longrightarrow> fi_start info ! f \<le> a \<and> a \<le> sect_end info l" for P a
    using in_sectors_filter in_sectors_range [OF assms] by blast
  then have "a < fi_start info ! f \<or> sect_end info l < a \<Longrightarrow> \<not> in_sectors info [i \<leftarrow> [f..<Suc l]. P i] a" for P a
    using leD by blast
  then show ?thesis
    by (auto simp: flash_erase_def chip_op_def erases_def same_outside_def Let_def simp del: upt_Suc
        split: list.splits chip_event.splits)
qed

lemma erases_andthen:
  "erases first stop st r \<Longrightarrow> (\<And>rc st'. erases first stop st' (k rc st')) \<Longrightarrow> erases first stop st (andthen r k)"
  by (cases r) (fastforce simp: erases_def split: powered.splits intro: same_outside_trans)+

lemma flash_sect_erase_erases:
  assumes "banks_wf (fl_banks st)"
  shows "erases first stop st (flash_sect_erase first stop st)"
proof -
  have "erases first stop st (erase_banks infos first stop n rc st)"
    if "list_all (\<lambda>info. flash_id info \<noteq> FLASH_UNKNOWN \<longrightarrow> bank_wf info) infos" for infos n rc st
    using that
  proof (induction infos arbitrary: n rc st)
    case Nil
    then show ?case by (simp add: erases_def)
  next
    case (Cons info infos)
    obtain s_first s_last where r: "sect_range info first stop = (s_first, s_last)" by fastforce
    show ?case
    proof (cases "flash_id info \<noteq> FLASH_UNKNOWN \<and> s_first \<ge> 0 \<and> s_first \<le> s_last")
      case True
      then obtain f l where fl: "s_first = int f" "s_last = int l" "f \<le> l" "l < unat (sector_count info)"
          "fi_start info ! f = first" "sect_end info l = stop"
        using sect_range_found [OF _ r] Cons.prems by auto
      have "erases first stop st (flash_erase info s_first s_last st)"
        using flash_erase_erases [of info f l st] fl Cons.prems True by simp
      then show ?thesis using True r Cons by (auto intro!: erases_andthen)
    next
      case False
      then show ?thesis using r Cons by auto
    qed
  qed
  then show ?thesis using assms by (simp add: flash_sect_erase_def banks_wf_def)
qed

section \<open>Writing over several banks\<close>

lemma unat_bank_room:
  assumes "addr \<le> (e :: u32)" and "addr \<noteq> 0 \<or> e \<noteq> -1"
  shows "unat (e + 1 - addr) = Suc (unat e - unat addr)"
proof -
  have "e - addr + 1 \<noteq> 0"
  proof
    assume "e - addr + 1 = 0"
    then have "e - addr = -1" by (simp add: eq_neg_iff_add_eq_0)
    moreover have u: "unat (-1 :: u32) = 4294967295" by (simp add: unsigned_minus_1_eq_mask mask_eq_exp_minus_1)
    ultimately have "unat e - unat addr = 4294967295" using unat_sub [OF assms(1)] by simp
    moreover have "unat e < 4294967296" using unsigned_less [of e, where ?'a = nat] by simp
    ultimately have "unat addr = 0 \<and> unat e = unat (-1 :: u32)" unfolding u by linarith
    then show False using assms(2) by (metis unsigned_word_eqI unsigned_0)
  qed
  then have "unat (e - addr + 1) = Suc (unat (e - addr))"
    by (metis Suc_pred' add_diff_cancel_right' unat_gt_0 unat_minus_one)
  moreover have "e + 1 - addr = e - addr + 1" by (simp add: algebra_simps)
  ultimately show ?thesis using unat_sub [OF assms(1)] by metis
qed

lemma unat_stop:
  assumes "unat addr + length src \<le> 2 ^ 32" and "src \<noteq> []"
  shows "unat (addr + of_nat (length src) - 1 :: u32) = unat addr + (length src - 1)"
proof -
  have "addr + of_nat (length src) - 1 = addr + of_nat (length src - 1)"
    using assms(2) by (simp add: of_nat_diff Suc_leI)
  moreover have "unat addr + (length src - 1) < 2 ^ 32" using assms by (cases src) auto
  ultimately show ?thesis using unat_add_of_nat by metis
qed

lemma write_banks_writes:
  "infos \<noteq> [] \<Longrightarrow> unat addr + length src \<le> 2 ^ 32 \<Longrightarrow> src \<noteq> [] \<Longrightarrow> addr + of_nat (length src) - 1 \<le> b_end (last infos) \<Longrightarrow>
   addr \<noteq> 0 \<or> b_end (hd infos) \<noteq> -1 \<Longrightarrow> writes st addr src (write_banks infos src addr st)"
proof (induction infos arbitrary: src addr st)
  case (Cons info infos)
  let ?room = "unat (fi_start info ! 0 + fi_size info - addr)"
  let ?len = "min ?room (length src)"
  let ?stop = "addr + of_nat (length src) - 1"
  have room: "?room = unat (b_end info + 1 - addr)" by (simp add: b_end_def)
  have len: "length src \<le> 2 ^ 32" using Cons.prems(2) by linarith
  note stop = unat_stop [OF Cons.prems(2,3)]
  have w: "writes st addr (take ?len src @ drop ?len src)
      (andthen (write_buff (take ?len src) addr st)
        (\<lambda>rc st. if rc \<noteq> 0 then Ret rc st else write_banks infos (drop ?len src) (addr + of_nat ?len) st))"
  proof (rule writes_andthen)
    fix st'
    show "writes st' (addr + of_nat (length (take ?len src))) (drop ?len src)
        (write_banks infos (drop ?len src) (addr + of_nat ?len) st')"
    proof (cases "length src \<le> ?room")
      case True
      then show ?thesis by (cases infos) (simp_all add: ERR_OK_def)
    next
      case False
      have "infos \<noteq> []"
      proof
        assume "infos = []"
        then have le: "?stop \<le> b_end info" using Cons.prems(4) by simp
        have "addr \<le> ?stop" unfolding word_le_nat_alt stop by simp
        then have "?room = Suc (unat (b_end info) - unat addr)"
          unfolding room using le Cons.prems(5) by (intro unat_bank_room) auto
        then show False using False le stop by (simp add: word_le_nat_alt)
      qed
      moreover have "unat (addr + of_nat ?room) = unat addr + ?room"
        using False Cons.prems(2) by (intro unat_add_of_nat) simp
      moreover have "addr + of_nat ?room \<noteq> 0 \<or> b_end (hd infos) \<noteq> -1"
      proof (cases "?room = 0")
        case True
        then have "fi_start info ! 0 + fi_size info = addr" by (simp add: unat_eq_0)
        then have "b_end info = addr - 1" by (simp add: b_end_def)
        then have "addr \<noteq> 0" using Cons.prems(5) by auto
        then show ?thesis using True by simp
      next
        case False
        then show ?thesis using calculation(2) by (metis add_is_0 unsigned_0)
      qed
      ultimately show ?thesis
        using False Cons.prems by (auto simp: min_def not_le ac_simps intro!: Cons.IH)
    qed
  qed (use len in \<open>auto intro!: write_buff_writes\<close>)
  show ?case using w Cons.prems(3) by (simp add: Let_def)
qed simp

lemma addr2info_Some:
  "addr2info banks addr = Some k \<Longrightarrow> k < length banks \<and> flash_id (banks ! k) \<noteq> FLASH_UNKNOWN \<and>
     fi_start (banks ! k) ! 0 \<le> addr \<and> addr \<le> b_end (banks ! k)"
proof (induction banks arbitrary: k)
  case (Cons info banks)
  then show ?case by (cases k) (auto simp: b_end_def split: if_splits)
qed simp

lemma bank_le_bank:
  assumes wf: "banks_wf banks" and k: "k < length banks" "flash_id (banks ! k) \<noteq> FLASH_UNKNOWN"
    and j: "j < length banks" "flash_id (banks ! j) \<noteq> FLASH_UNKNOWN"
    and a: "fi_start (banks ! k) ! 0 \<le> a" "a \<le> b" "b \<le> b_end (banks ! j)"
  shows "k \<le> j"
proof (rule ccontr)
  assume "\<not> k \<le> j"
  then have "b_end (banks ! j) < fi_start (banks ! k) ! 0" using wf k j by (auto simp: banks_wf_def)
  then show False using a by auto
qed

lemma banks_wf_bank: "banks_wf banks \<Longrightarrow> k < length banks \<Longrightarrow> flash_id (banks ! k) \<noteq> FLASH_UNKNOWN \<Longrightarrow> bank_wf (banks ! k)"
  by (auto simp: banks_wf_def list_all_length)

lemma writes_flash_write:
  assumes wf: "banks_wf (fl_banks st)" and fit: "unat addr + length src \<le> 2 ^ 32"
  shows "writes st addr src (flash_write src addr st)"
proof (cases "src = []")
  case True
  then show ?thesis by (simp add: flash_write_def ERR_OK_def)
next
  case False
  let ?stop = "addr + of_nat (length src) - 1" and ?banks = "fl_banks st"
  note err = writes_error [of ERR_INVAL] writes_error [of ERR_PROTECTED]
  show ?thesis
  proof (cases "addr2info ?banks addr = None \<or> addr2info ?banks ?stop = None")
    case True
    then show ?thesis using False err(1) by (auto simp: flash_write_def Let_def ERR_INVAL_def split: option.split)
  next
    case known: False
    then obtain f l where fl: "addr2info ?banks addr = Some f" "addr2info ?banks ?stop = Some l" by auto
    note f = addr2info_Some [OF fl(1)] and l = addr2info_Some [OF fl(2)]
    have le: "addr \<le> ?stop" unfolding word_le_nat_alt unat_stop [OF fit False] by simp
    have fl_le: "f \<le> l" using bank_le_bank [OF wf, of f l addr ?stop] f l le by auto
    let ?infos = "map ((!) ?banks) [f..<Suc l]"
    have "writes st addr src (write_banks ?infos src addr st)"
    proof (rule write_banks_writes)
      show "?stop \<le> b_end (last ?infos)" using l fl_le by (simp add: last_map)
      have "fi_size (?banks ! f) \<noteq> 0" using banks_wf_bank [OF wf] f by (auto simp: bank_wf_def Let_def)
      then show "addr \<noteq> 0 \<or> b_end (hd ?infos) \<noteq> - 1"
        using f fl_le by (auto simp: hd_map b_end_def simp del: upt_Suc)
    qed (use fl_le fit False in auto)
    then show ?thesis
      using False fl err(2) by (simp add: flash_write_def Let_def ERR_PROTECTED_def del: upt_Suc)
  qed
qed

text \<open>
  C9: \<open>flash_write\<close>, whatever the chip does: when it returns 0, the bytes are in the flash; when it returns an error or the
  power fails, every bit is the old one or the one to be written, so nothing outside the destination has changed. The table of the
  banks is not changed.
\<close>

theorem flash_write_outcome:
  assumes "banks_wf (fl_banks st)" and "unat addr + length src \<le> 2 ^ 32"
  shows "case flash_write src addr st of
      Off m' \<Rightarrow> \<forall>a. \<exists>c. m' a = fl_mem st a AND (c OR mwrite (fl_mem st) addr src a)
    | Ret rc st' \<Rightarrow> fl_banks st' = fl_banks st \<and>
        (if rc = 0 then fl_mem st' = mwrite (fl_mem st) addr src
         else \<forall>a. \<exists>c. fl_mem st' a = fl_mem st a AND (c OR mwrite (fl_mem st) addr src a))"
  using writes_flash_write [OF assms] by (auto simp: writes_def programmed_def split: powered.splits if_splits)

definition sample_bank :: flash_info where
  "sample_bank = \<lparr>fi_size = 48, sector_count = 3, flash_id = 5, fi_start = [0x40000000, 0x40000010, 0x40000020], fi_protect = [0, 1, 0]\<rparr>"

lemma sample_bank_wf [simp]: "banks_wf [sample_bank]"
  by (simp add: banks_wf_def bank_wf_def sample_bank_def b_end_def Let_def FLASH_UNKNOWN_def upt_rec)

text \<open>The driver gives up in the second word: the first byte is in the flash, the rest not.\<close>

definition sample_flash :: "chip_event list \<Rightarrow> flash_state" where
  "sample_flash es = \<lparr>fl_mem = (\<lambda>_. 0xFF), fl_banks = [sample_bank], fl_events = es\<rparr>"

theorem flash_write_outcome_witness:
  "case flash_write [1, 2, 3] 0x40000023 (sample_flash [Completes, Times_out (\<lambda>_. 0xFF)]) of
      Off m' \<Rightarrow> False
    | Ret rc st' \<Rightarrow> rc = 1 \<and> fl_mem st' 0x40000023 = 1 \<and> fl_mem st' 0x40000024 = 0xFF \<and> fl_banks st' = [sample_bank]"
proof -
  let ?st = "sample_flash [Completes, Times_out (\<lambda>_. 0xFF)]"
  have "banks_wf (fl_banks ?st)" "unat (0x40000023 :: u32) + length [1, 2, 3 :: byte] \<le> 2 ^ 32"
    by (simp_all add: sample_flash_def)
  note o = flash_write_outcome [OF this]
  have "case flash_write [1, 2, 3] 0x40000023 ?st of Off m' \<Rightarrow> False
    | Ret rc st' \<Rightarrow> rc = 1 \<and> fl_mem st' 0x40000023 = 1 \<and> fl_mem st' 0x40000024 = 0xFF"
    by code_simp
  with o show ?thesis by (auto simp: sample_flash_def split: powered.splits)
qed

section \<open>Protection\<close>

text \<open>
  C10: a write that touches a protected sector is refused and changes nothing, in every bank that does not end at the top of the
  address space.
\<close>

theorem flash_write_protected:
  assumes wf: "banks_wf (fl_banks st)" and fit: "unat addr + length src \<le> 2 ^ 32"
    and k: "k < length (fl_banks st)" "flash_id (fl_banks st ! k) \<noteq> FLASH_UNKNOWN" "b_end (fl_banks st ! k) \<noteq> -1"
    and i: "i < unat (sector_count (fl_banks st ! k))" "fi_protect (fl_banks st ! k) ! i \<noteq> 0"
    and a: "a \<in> {addr..addr + of_nat (length src) - 1}" "a \<in> {fi_start (fl_banks st ! k) ! i..sect_end (fl_banks st ! k) i}" "src \<noteq> []"
  shows "flash_write src addr st \<in> {Ret ERR_PROTECTED st, Ret ERR_INVAL st}"
proof (cases "addr2info (fl_banks st) addr = None \<or> addr2info (fl_banks st) (addr + of_nat (length src) - 1) = None")
  case True
  then show ?thesis using a(3) by (auto simp: flash_write_def Let_def split: option.split)
next
  case False
  let ?stop = "addr + of_nat (length src) - 1" and ?banks = "fl_banks st"
  let ?info = "?banks ! k" and ?n = "unat (sector_count (?banks ! k))"
  obtain f l where fl: "addr2info ?banks addr = Some f" "addr2info ?banks ?stop = Some l" using False by auto
  note f = addr2info_Some [OF fl(1)] and l = addr2info_Some [OF fl(2)] and bw = banks_wf_bank [OF wf k(1,2)]
  have a0: "fi_start ?info ! 0 \<le> a" using starts_ascend [OF bw, of 0 i] i(1) a(2) by auto
  have "sect_end ?info i \<le> sect_end ?info (?n - 1)" using i(1) by (intro sect_end_ascend [OF bw]) auto
  also have "\<dots> = b_end ?info" using bank_facts(1,5) [OF bw refl] by simp
  finally have ab: "a \<le> b_end ?info" using a(2) by auto
  have "f \<le> k" using bank_le_bank [OF wf _ _ k(1,2), of f addr a] f a(1) ab by auto
  moreover have "k \<le> l" using bank_le_bank [OF wf k(1,2) _ _ a0, of l ?stop] l a(1) by auto
  ultimately have kin: "?info \<in> set (map ((!) ?banks) [f..<Suc l])" by (auto simp del: upt_Suc)
  have "addr < sect_behind ?info i"
  proof -
    have "sect_behind ?info i = sect_end ?info i + 1"
      by (simp add: bank_facts(5,6) [OF bw refl] b_end_def)
    moreover have "sect_end ?info i \<noteq> -1"
    proof (cases "Suc i = ?n")
      case True
      then show ?thesis using k(3) by (simp add: bank_facts(5) [OF bw refl])
    next
      case False
      then have "sect_end ?info i < fi_start ?info ! Suc i" using i(1) by (intro sect_end_below [OF bw]) auto
      then show ?thesis using word_order.extremum_strict by fastforce
    qed
    ultimately have "sect_end ?info i < sect_behind ?info i" by (metis word_pred_less add_diff_cancel_right' eq_neg_iff_add_eq_0 word_coorder.not_eq_extremum)
    then show ?thesis using a by auto
  qed
  then have "protected_hit addr ?stop ?info"
    using i a by (auto simp: protected_hit_def sectors_def list_ex_iff intro!: bexI [of _ i])
  then have "list_ex (protected_hit addr ?stop) (map ((!) ?banks) [f..<Suc l])" using kin by (auto simp: list_ex_iff)
  then show ?thesis using a(3) fl by (simp add: flash_write_def Let_def del: upt_Suc)
qed

section \<open>A chip that works\<close>

text \<open>Bytes that only clear bits of what the flash holds are written without error when the chip completes every operation.\<close>

lemma and_FF [simp]: "0xFF AND (a :: byte) = a"
proof -
  have "(0xFF :: byte) = - 1" by simp
  then show ?thesis by (metis and.left_neutral)
qed

definition writable :: "mem \<Rightarrow> u32 \<Rightarrow> byte list \<Rightarrow> bool" where
  "writable m addr src \<longleftrightarrow> map2 (AND) (mread m addr (length src)) src = src"

definition completes :: "int powered \<Rightarrow> bool" where
  "completes r \<longleftrightarrow> (\<exists>st'. r = Ret 0 st' \<and> fl_events st' = [])"

lemma writable_append:
  "writable m addr (x @ y) \<longleftrightarrow> writable m addr x \<and> writable m (addr + of_nat (length x)) y"
  by (simp add: writable_def mread_append)

lemma writable_mread: "writable m addr (mread m addr n)"
  by (simp add: writable_def list_eq_iff_nth_eq)

lemma writable_after:
  assumes "writable m (addr + of_nat (length x)) y" and "length x + length y \<le> 2 ^ 32"
  shows "writable (mwrite m addr x) (addr + of_nat (length x)) y"
proof -
  have "mread (mwrite m addr x) (addr + of_nat (length x)) (length y) = mread m (addr + of_nat (length x)) (length y)"
  proof (rule mread_eqI)
    fix i assume "i < length y"
    then have "unat (of_nat (length x + i) :: u32) = length x + i"
      using assms(2) by (intro unat_of_nat_u32) simp
    then show "mwrite m addr x (addr + of_nat (length x) + of_nat i) = m (addr + of_nat (length x) + of_nat i)"
      using assms(2) by (simp add: mwrite_apply add.assoc)
  qed
  then show ?thesis using assms(1) by (simp add: writable_def)
qed

lemma write_word_completes:
  assumes "fl_events st = []" and "length bs = 4" and "writable (fl_mem st) dest bs"
  shows "completes (write_word dest (be_dec bs 0) st)"
proof -
  have "be32 (mem_be32 (fl_mem st) dest AND be_dec bs 0) = be32 (be_dec bs 0)"
    using assms(2,3) by (simp add: be32_and be32_be32_dec length4_be32 writable_def)
  then show ?thesis using assms(1) by (simp add: write_word_def chip_op_def completes_def)
qed

lemma completes_andthen:
  "completes r \<Longrightarrow> (\<And>st'. r = Ret 0 st' \<Longrightarrow> fl_events st' = [] \<Longrightarrow> completes (k st')) \<Longrightarrow>
   completes (andthen r (\<lambda>rc st. if rc \<noteq> 0 then Ret rc st else k st))"
  by (auto simp: completes_def)

lemma writes_mem: "writes st addr src r \<Longrightarrow> r = Ret 0 st' \<Longrightarrow> fl_mem st' = mwrite (fl_mem st) addr src"
  by (simp add: writes_def)

lemma write_words_completes:
  "fl_events st = [] \<Longrightarrow> writable (fl_mem st) wp src \<Longrightarrow> length src \<le> 2 ^ 32 \<Longrightarrow> completes (write_words src wp st)"
proof (induction src wp st rule: write_words.induct)
  case (1 src wp st)
  show ?case
  proof (cases "length src \<ge> 4")
    case True
    have w: "writable (fl_mem st) wp (take 4 src)" "writable (fl_mem st) (wp + 4) (drop 4 src)"
      using 1(3) writable_append [of "fl_mem st" wp "take 4 src" "drop 4 src"] True by simp_all
    have "completes (andthen (write_word wp (be_dec (take 4 src) 0) st)
        (\<lambda>rc st. if rc \<noteq> 0 then Ret rc st else write_words (drop 4 src) (wp + 4) st))"
    proof (rule completes_andthen)
      fix st'
      assume r: "write_word wp (be_dec (take 4 src) 0) st = Ret 0 st'" and ev: "fl_events st' = []"
      have "fl_mem st' = mwrite (fl_mem st) wp (take 4 src)"
        by (rule writes_mem [OF write_bytes_writes r]) (use True in simp)
      moreover have "writable (mwrite (fl_mem st) wp (take 4 src)) (wp + 4) (drop 4 src)"
        using writable_after [of "fl_mem st" wp "take 4 src" "drop 4 src"] w(2) True 1(4) by simp
      ultimately show "completes (write_words (drop 4 src) (wp + 4) st')"
        using 1 True r ev by auto
    qed (use True w 1 in \<open>auto intro: write_word_completes\<close>)
    then show ?thesis using True by (subst write_words.simps) simp
  next
    case False
    have "writable (fl_mem st) wp (src @ mread (fl_mem st) (wp + of_nat (length src)) (4 - length src))"
      using 1(3) by (simp add: writable_append writable_mread)
    then show ?thesis
      using False 1(2) write_word_completes by (subst write_words.simps) (auto simp: completes_def)
  qed
qed

lemma write_buff_completes:
  assumes ev: "fl_events st = []" and w: "writable (fl_mem st) addr src" and len: "length src \<le> 2 ^ 32"
  shows "completes (write_buff src addr st)"
proof (cases "addr - (addr AND NOT 3) = 0")
  case True
  then show ?thesis using write_words_completes [OF assms(1) _ len, of addr] w by (simp add: write_buff_def)
next
  case False
  define wp where "wp = addr AND NOT 3"
  define l where "l = unat (addr - wp)"
  note l = word_offset [of addr, folded wp_def, folded l_def]
  have addr: "addr = wp + of_nat l" by (simp add: l_def)
  let ?x = "take (4 - l) src" and ?y = "drop (4 - l) src"
  have wx: "writable (fl_mem st) addr ?x" "writable (fl_mem st) (addr + of_nat (length ?x)) ?y"
    using w writable_append [of "fl_mem st" addr ?x ?y] by simp_all
  have "completes (andthen (write_word wp (be_dec (mread (fl_mem st) wp l @ ?x @
          mread (fl_mem st) (addr + of_nat (length ?x)) (4 - l - length ?x)) 0) st)
        (\<lambda>rc st. if rc \<noteq> 0 then Ret rc st else write_words ?y (wp + 4) st))" (is "completes (andthen ?r _)")
  proof (rule completes_andthen)
    show "completes ?r"
      using wx(1) l ev by (intro write_word_completes) (simp_all add: writable_append writable_mread addr)
  next
    fix st' assume r: "?r = Ret 0 st'" and ev': "fl_events st' = []"
    have "writes st addr ?x ?r"
      unfolding addr by (rule write_padded_writes) (use l in auto)
    then have m: "fl_mem st' = mwrite (fl_mem st) addr ?x" using r by (rule writes_mem)
    show "completes (write_words ?y (wp + 4) st')"
    proof (cases "length src \<le> 4 - l")
      case True
      then show ?thesis using ev' by (simp add: write_words.simps completes_def)
    next
      case False
      then have "addr + of_nat (length ?x) = wp + of_nat (l + (4 - l))"
        by (simp only: addr of_nat_add) (simp add: min_def)
      then have e: "addr + of_nat (length ?x) = wp + 4" using l by simp
      have "writable (fl_mem st') (addr + of_nat (length ?x)) ?y"
        unfolding m using wx(2) len by (intro writable_after) auto
      then show ?thesis unfolding e using len ev' by (intro write_words_completes) auto
    qed
  qed
  moreover have "l \<noteq> 0" using False by (simp add: l_def wp_def unat_eq_0)
  ultimately show ?thesis unfolding write_buff_def Let_def wp_def [symmetric] l_def [symmetric] by (simp del: length_take)
qed

lemma write_banks_completes:
  "fl_events st = [] \<Longrightarrow> writable (fl_mem st) addr src \<Longrightarrow> length src \<le> 2 ^ 32 \<Longrightarrow> completes (write_banks infos src addr st)"
proof (induction infos arbitrary: src addr st)
  case Nil
  then show ?case by (simp add: completes_def ERR_OK_def)
next
  case (Cons info infos)
  let ?len = "min (unat (fi_start info ! 0 + fi_size info - addr)) (length src)"
  let ?x = "take ?len src" and ?y = "drop ?len src"
  have wx: "writable (fl_mem st) addr ?x" "writable (fl_mem st) (addr + of_nat (length ?x)) ?y"
    using Cons.prems(2) writable_append [of "fl_mem st" addr ?x ?y] by simp_all
  have "completes (andthen (write_buff ?x addr st)
      (\<lambda>rc st. if rc \<noteq> 0 then Ret rc st else write_banks infos ?y (addr + of_nat ?len) st))"
  proof (rule completes_andthen)
    show "completes (write_buff ?x addr st)" using Cons.prems wx by (intro write_buff_completes) auto
  next
    fix st' assume r: "write_buff ?x addr st = Ret 0 st'" and ev: "fl_events st' = []"
    have m: "fl_mem st' = mwrite (fl_mem st) addr ?x"
      by (rule writes_mem [OF write_buff_writes r]) (use Cons.prems(3) in simp)
    have "writable (fl_mem st') (addr + of_nat (length ?x)) ?y"
      unfolding m using wx(2) Cons.prems(3) by (intro writable_after) auto
    then show "completes (write_banks infos ?y (addr + of_nat ?len) st')"
      using ev Cons.prems(3) by (intro Cons.IH) auto
  qed
  then show ?case using Cons.prems(1) by (simp add: Let_def completes_def ERR_OK_def)
qed

theorem flash_write_protected_witness:
  "flash_write [0] 0x40000010 (sample_flash []) = Ret ERR_PROTECTED (sample_flash [])"
proof -
  have "flash_write [0] 0x40000010 (sample_flash []) \<in> {Ret ERR_PROTECTED (sample_flash []), Ret ERR_INVAL (sample_flash [])}"
    by (rule flash_write_protected [where k = 0 and i = 1 and a = "0x40000010"])
      (simp_all add: sample_flash_def, simp_all add: sample_bank_def FLASH_UNKNOWN_def b_end_def sect_end_def s_end_def)
  moreover have "addr2info [sample_bank] 0x40000010 = Some 0" "protected_hit 0x40000010 0x40000010 sample_bank"
    by code_simp+
  ultimately show ?thesis
    by (simp add: flash_write_def sample_flash_def ERR_INVAL_def ERR_PROTECTED_def Let_def del: addr2info.simps)
qed

text \<open>
  C11: a bank that ends at the top of the address space: the address behind its last sector wraps round to 0 in the check of
  \<open>flash_write\<close>, so data is written to that sector although it is protected.
\<close>

theorem flash_write_top_unprotected:
  assumes bank: "fl_banks st = [info]" "bank_wf info" "flash_id info \<noteq> FLASH_UNKNOWN" "b_end info = -1"
    and n: "n = unat (sector_count info)" and prot: "\<And>i. Suc i < n \<Longrightarrow> fi_protect info ! i = 0"
    and addr: "fi_start info ! (n - 1) \<le> addr" "unat addr + length src \<le> 2 ^ 32" "src \<noteq> []"
    and erased: "mread (fl_mem st) addr (length src) = replicate (length src) 0xFF" and ev: "fl_events st = []"
  shows "\<exists>st'. flash_write src addr st = Ret 0 st' \<and> fl_mem st' = mwrite (fl_mem st) addr src"
proof -
  note b = bank_facts [OF bank(2) n]
  have top: "fi_start info ! 0 + fi_size info = 0" using bank(4) by (simp add: b_end_def)
  have s0: "fi_start info ! 0 \<le> fi_start info ! (n - 1)" using b(1) n by (intro starts_ascend [OF bank(2)]) auto
  have lo: "addr \<le> addr + of_nat (length src) - 1" unfolding word_le_nat_alt unat_stop [OF addr(2,3)] by simp
  then have info: "addr2info [info] addr = Some 0" "addr2info [info] (addr + of_nat (length src) - 1) = Some 0"
    using addr(1) s0 bank(3,4) by (auto simp: b_end_def)
  have "\<not> protected_hit addr (addr + of_nat (length src) - 1) info"
    using prot n by (auto simp: protected_hit_def sectors_def list_ex_iff b(6) top)
  then have fw: "flash_write src addr st = write_banks [info] src addr st"
    using addr(3) info by (simp add: flash_write_def bank(1) Let_def)
  have "map2 (AND) (replicate (length src) 0xFF) src = src"
    by (induction src) simp_all
  then have "writable (fl_mem st) addr src" by (simp add: writable_def erased)
  then have "completes (flash_write src addr st)" unfolding fw using ev addr(2) by (intro write_banks_completes) auto
  then obtain st' where st': "flash_write src addr st = Ret 0 st'" by (auto simp: completes_def)
  have "banks_wf (fl_banks st)" using bank by (simp add: banks_wf_def)
  then have "fl_mem st' = mwrite (fl_mem st) addr src" by (rule writes_mem [OF writes_flash_write [OF _ addr(2)] st'])
  then show ?thesis using st' by blast
qed

definition top_bank :: flash_info where
  "top_bank = \<lparr>fi_size = 32, sector_count = 2, flash_id = 5, fi_start = [0xFFFFFFE0, 0xFFFFFFF0], fi_protect = [0, 1]\<rparr>"

theorem flash_write_top_unprotected_witness:
  "\<exists>st'. flash_write [1] 0xFFFFFFF0 \<lparr>fl_mem = (\<lambda>_. 0xFF), fl_banks = [top_bank], fl_events = []\<rparr> = Ret 0 st' \<and>
     fl_mem st' = mwrite (\<lambda>_. 0xFF) 0xFFFFFFF0 [1]"
proof -
  let ?st = "\<lparr>fl_mem = (\<lambda>_. 0xFF), fl_banks = [top_bank], fl_events = []\<rparr> :: flash_state"
  have wf: "bank_wf top_bank" by (simp add: bank_wf_def top_bank_def b_end_def Let_def upt_rec)
  have "\<exists>st'. flash_write [1] 0xFFFFFFF0 ?st = Ret 0 st' \<and> fl_mem st' = mwrite (fl_mem ?st) 0xFFFFFFF0 [1]"
    by (rule flash_write_top_unprotected [OF _ wf, where n = 2])
      (simp_all, simp_all add: top_bank_def b_end_def FLASH_UNKNOWN_def)
  then show ?thesis by simp
qed

section \<open>The sector tables\<close>

text \<open>Where the sectors of each chip start, counted from the base of the bank.\<close>

definition bottom_offsets :: "nat \<Rightarrow> nat list" where
  "bottom_offsets n = [0, 0x8000, 0xC000, 0x10000] @ map (\<lambda>i. i * 0x20000 - 0x60000) [4..<n]"

definition top_offsets :: "nat \<Rightarrow> nat \<Rightarrow> nat list" where
  "top_offsets n sz = map (\<lambda>i. i * 0x20000) [0..<n - 3] @ [sz - 0x10000, sz - 0xC000, sz - 0x8000]"

fun loop_offsets :: "(nat \<Rightarrow> bool) \<Rightarrow> nat list \<Rightarrow> nat \<Rightarrow> nat list" where
  "loop_offsets small [] o0 = []"
| "loop_offsets small (i # is) o0 = o0 # loop_offsets small is (o0 + (if small i then 0x4000 else 0x20000))"

lemma start_loop_offsets:
  "start_loop small is (base + of_nat o0) = map (\<lambda>k. base + of_nat k) (loop_offsets small is o0)"
proof (induction "is" arbitrary: o0)
  case (Cons i "is")
  show ?case using Cons [of "o0 + 0x4000"] Cons [of "o0 + 0x20000"] by (simp add: add.assoc)
qed simp

lemma bank_wf_offsets:
  assumes offs: "fi_start info = map (\<lambda>k. base + of_nat k) offs" "successively (<) offs" "hd offs = 0" "last offs < unat (fi_size info)"
    and n: "unat (sector_count info) = length offs" "0 < length offs" "length offs < 2 ^ 15" "length (fi_protect info) = length offs"
    and room: "unat base + unat (fi_size info) \<le> 2 ^ 32"
  shows "bank_wf info"
proof -
  have srt: "sorted_wrt (<) offs" using offs(2) by (simp add: successively_iff_sorted_wrt_strong transp_on_def)
  have le: "offs ! i \<le> last offs" if "i < length offs" for i
    using srt that sorted_wrt_nth_less [OF srt, of i "length offs - 1"] n(2)
    by (cases "i < length offs - 1") (auto simp: last_conv_nth not_less dest: order_antisym)
  have val: "unat (base + of_nat (offs ! i)) = unat base + offs ! i" if "i < length offs" for i
    using le [OF that] offs(4) room by (intro unat_add_of_nat) linarith
  have up: "fi_start info ! i < fi_start info ! Suc i" if "Suc i < length offs" for i
    using that sorted_wrt_nth_less [OF srt, of i "Suc i"] by (simp add: offs(1) word_less_nat_alt val)
  have h0: "fi_start info ! 0 = base" using offs(3) n(2) by (simp add: offs(1) hd_conv_nth)
  have "b_end info = base + of_nat (unat (fi_size info) - 1)"
    using offs(4) by (simp add: b_end_def h0 of_nat_diff)
  then have "unat (b_end info) = unat base + (unat (fi_size info) - 1)"
    using room offs(4) unat_add_of_nat [of base "unat (fi_size info) - 1"] by auto
  then have "fi_start info ! (length offs - 1) \<le> b_end info"
    using n(2) offs(4) by (simp add: offs(1) word_le_nat_alt val last_conv_nth)
  moreover have "fi_size info \<noteq> 0" using offs(4) by auto
  ultimately show ?thesis using n up by (auto simp: bank_wf_def Let_def list_all_iff offs(1))
qed

lemma start_table_offsets:
  "device \<in> {AMD_ID_LV400B, AMD_ID_LV800B, AMD_ID_LV160B} \<Longrightarrow>
     start_table device base n sz = map (\<lambda>k. base + of_nat k) (bottom_offsets n)"
  "device \<in> {AMD_ID_LV400T, AMD_ID_LV800T, AMD_ID_LV160T} \<Longrightarrow> 0x10000 \<le> unat sz \<Longrightarrow>
     start_table device base n sz = map (\<lambda>k. base + of_nat k) (top_offsets n (unat sz))"
  "start_table AMD_ID_LV320B base n sz = map (\<lambda>k. base + of_nat k) (loop_offsets (\<lambda>i. i < 8) [0..<n] 0)"
  "start_table AMD_ID_LV320T base n sz = map (\<lambda>k. base + of_nat k) (loop_offsets (\<lambda>i. n - 8 \<le> i) [0..<n] 0)"
     apply (simp_all add: start_table_def bottom_offsets_def top_offsets_def of_nat_diff add_diff_eq)
  using start_loop_offsets [of _ _ _ 0] by (auto simp: AMD_ID_LV400B_def AMD_ID_LV800B_def AMD_ID_LV160B_def
      AMD_ID_LV400T_def AMD_ID_LV800T_def AMD_ID_LV160T_def AMD_ID_LV320T_def AMD_ID_LV320B_def)

definition good_offsets :: "nat list \<Rightarrow> nat \<Rightarrow> nat \<Rightarrow> bool" where
  "good_offsets offs n sz \<longleftrightarrow> successively (<) offs \<and> length offs = n \<and> last offs < sz \<and> hd offs = 0"

lemma good_bottom: "(n, sz) \<in> {(11, 0x100000), (19, 0x200000), (35, 0x400000)} \<Longrightarrow> good_offsets (bottom_offsets n) n sz"
  by (elim insertE emptyE; simp add: good_offsets_def bottom_offsets_def upt_rec)

lemma good_top: "(n, sz) \<in> {(11, 0x100000), (19, 0x200000), (35, 0x400000)} \<Longrightarrow> good_offsets (top_offsets n sz) n sz"
  by (elim insertE emptyE; simp add: good_offsets_def top_offsets_def upt_rec)

lemma good_loop: "good_offsets (loop_offsets (\<lambda>i. i < 8) [0..<71] 0) 71 0x800000"
  "good_offsets (loop_offsets (\<lambda>i. 63 \<le> i) [0..<71] 0) 71 0x800000"
  by (simp_all add: good_offsets_def upt_rec)

lemma bank_wf_good:
  assumes "good_offsets offs (unat count) (unat sz)" and "0 < unat count" "unat count < 2 ^ 15" and "unat base + unat sz \<le> 2 ^ 32"
  shows "bank_wf \<lparr>fi_size = sz, sector_count = count, flash_id = i, fi_start = map (\<lambda>k. base + of_nat k) offs,
    fi_protect = map prot [0..<unat count]\<rparr>"
  using assms by (intro bank_wf_offsets [where base = base and offs = offs]) (auto simp: good_offsets_def)

lemmas chip_ids = AMD_ID_LV400T_def AMD_ID_LV400B_def AMD_ID_LV800T_def AMD_ID_LV800B_def AMD_ID_LV160T_def AMD_ID_LV160B_def
  AMD_ID_LV320T_def AMD_ID_LV320B_def

text \<open>
  every chip that \<open>flash_get_size\<close> knows gets a sector table that is well formed: the starts ascend from the base, and every
  address of the bank lies in a sector. A bank that is not recognised is marked unknown.
\<close>

theorem flash_get_size_sectors:
  assumes r: "flash_get_size manuf device prot base info = (sz, info')" and room: "unat base + unat sz \<le> 2 ^ 32"
  shows "if sz = 0 then flash_id info' = FLASH_UNKNOWN
         else bank_wf info' \<and> fi_size info' = sz \<and> (\<forall>a. in_sectors info' (sectors info') a \<longleftrightarrow> base \<le> a \<and> a \<le> base + sz - 1)"
proof (cases "manuf \<noteq> AMD_MANUFACT \<and> manuf \<noteq> FUJ_MANUFACT \<or> map_of chip_table device = None")
  case True
  then show ?thesis using r by (auto simp: flash_get_size_def Let_def split: if_splits)
next
  case False
  then obtain ty count sz' where c: "map_of chip_table device = Some (ty, count, sz')" by auto
  then have mem: "(device, ty, count, sz') \<in> set chip_table" by (rule map_of_SomeD)
  have info: "sz' = sz" "fi_size info' = sz" "fi_start info' = start_table device base (unat count) sz"
      "info' = \<lparr>fi_size = sz, sector_count = count, flash_id = flash_id info', fi_start = start_table device base (unat count) sz,
        fi_protect = map (\<lambda>i. if prot i then 1 else 0) [0..<unat count]\<rparr>"
    using r c False by (auto simp: flash_get_size_def Let_def split: if_splits)
  consider "device \<in> {AMD_ID_LV400B, AMD_ID_LV800B, AMD_ID_LV160B}" "(unat count, unat sz) \<in> {(11, 0x100000), (19, 0x200000), (35, 0x400000)}"
    | "device \<in> {AMD_ID_LV400T, AMD_ID_LV800T, AMD_ID_LV160T}" "(unat count, unat sz) \<in> {(11, 0x100000), (19, 0x200000), (35, 0x400000)}"
    | "device = AMD_ID_LV320B" "unat count = 71" "unat sz = 0x800000"
    | "device = AMD_ID_LV320T" "unat count = 71" "unat sz = 0x800000"
    using mem unfolding chip_table_def info(1) by auto
  then obtain offs where offs: "start_table device base (unat count) sz = map (\<lambda>k. base + of_nat k) offs"
      "good_offsets offs (unat count) (unat sz)" "0 < unat count" "unat count < 2 ^ 15"
  proof cases
    case 1
    show thesis by (rule that [OF start_table_offsets(1) [OF 1(1)] good_bottom [OF 1(2)]]) (use 1(2) in auto)
  next
    case 2
    have "0x10000 \<le> unat sz" using 2(2) by auto
    show thesis by (rule that [OF start_table_offsets(2) [OF 2(1)] good_top [OF 2(2)]]) (use 2(2) in auto)
  next
    case 3
    show thesis by (rule that [unfolded 3(1), OF start_table_offsets(3)]) (use 3(2,3) good_loop in simp_all)
  next
    case 4
    show thesis by (rule that [unfolded 4(1), OF start_table_offsets(4)]) (use 4(2,3) good_loop in simp_all)
  qed
  have wf: "bank_wf info'" using room offs by (subst info(4)) (simp add: bank_wf_good)
  have cnt: "unat (sector_count info') = unat count" by (subst info(4)) simp
  have h0: "fi_start info' ! 0 = base"
  proof -
    have "offs ! 0 = 0" "offs \<noteq> []" using offs(2,3) by (cases offs; simp add: good_offsets_def)+
    then show ?thesis by (simp add: info(3) offs(1))
  qed
  have "sectors info' = [0..<Suc (unat count - 1)]" using offs(3) by (simp add: sectors_def cnt del: upt_Suc)
  then have "in_sectors info' (sectors info') a \<longleftrightarrow> base \<le> a \<and> a \<le> base + sz - 1" for a
    using in_sectors_range [OF wf, of 0 "unat count - 1" a] offs(3) bank_facts(5) [OF wf cnt [symmetric], of "unat count - 1"]
    by (simp add: cnt h0 b_end_def info(2) del: upt_Suc)
  then show ?thesis using wf info(2) bank_facts(1) [OF wf refl] bank_wf_def [of info'] by (auto simp: Let_def)
qed

theorem flash_get_size_sectors_witness:
  "\<exists>info'. flash_get_size AMD_MANUFACT AMD_ID_LV160B (\<lambda>_. False) 0x40000000 sample_bank = (0x400000, info') \<and> bank_wf info'"
proof -
  obtain info' where r: "flash_get_size AMD_MANUFACT AMD_ID_LV160B (\<lambda>_. False) 0x40000000 sample_bank = (0x400000, info')"
    by (simp add: flash_get_size_def chip_table_def chip_ids Let_def)
  then show ?thesis using flash_get_size_sectors [OF r] by simp
qed

end
