(* ===== verification/EnvFlashInvariant.thy ===== *)
theory EnvFlashInvariant
  imports EnvFlash FlashCorrect
begin

text \<open>
  The redundant environment under failures of the chip and the power: what the two copies commit (\<open>stored\<close>), that starting
  and saving keep it at every point where they may be interrupted, and the machine of starts, edits, saves and
  power failures with its invariant.
\<close>

section \<open>Layout\<close>

text \<open>The two copies of the environment do not overlap, lie within the address space and hold the default environment.\<close>

definition copies_wf :: "flash_env \<Rightarrow> bool" where
  "copies_wf cfg \<longleftrightarrow> 5 < fe_size cfg \<and> fe_size cfg \<le> fe_size_redund cfg \<and>
     unat (fe_addr cfg) + fe_size cfg \<le> 2 ^ 32 \<and> unat (fe_addr_redund cfg) + fe_size_redund cfg \<le> 2 ^ 32 \<and>
     (unat (fe_addr cfg) + fe_size cfg \<le> unat (fe_addr_redund cfg) \<or>
      unat (fe_addr_redund cfg) + fe_size_redund cfg \<le> unat (fe_addr cfg)) \<and>
     length (fe_default cfg) \<le> ENV_SIZE cfg"

text \<open>\<open>a\<close> and \<open>b\<close> are the two copies, in one or the other order, and \<open>e\<close> is the last address of \<open>b\<close>.\<close>

definition copies :: "flash_env \<Rightarrow> u32 \<Rightarrow> u32 \<Rightarrow> u32 \<Rightarrow> bool" where
  "copies cfg a b e \<longleftrightarrow>
     (a = fe_addr cfg \<and> b = fe_addr_redund cfg \<and> e = fe_addr_redund cfg + of_nat (fe_size_redund cfg) - 1) \<or>
     (b = fe_addr cfg \<and> a = fe_addr_redund cfg \<and> e = fe_addr cfg + of_nat (fe_size cfg) - 1)"

lemma copies_layout:
  assumes "copies_wf cfg" and "copies cfg a b e"
  obtains n where "fe_size cfg \<le> n" "unat b + n \<le> 2 ^ 32" "unat a + fe_size cfg \<le> 2 ^ 32" "unat e = unat b + n - 1"
    "unat a + fe_size cfg \<le> unat b \<or> unat b + n \<le> unat a" "5 < fe_size cfg"
proof -
  have e: "unat (x + of_nat n - 1 :: u32) = unat x + n - 1" if "unat x + n \<le> 2 ^ 32" "0 < n" for x n
    using unat_stop [of x "replicate n 0"] that by simp
  show thesis
    using assms(2) unfolding copies_def
  proof (elim disjE conjE)
    assume c: "a = fe_addr cfg" "b = fe_addr_redund cfg" "e = fe_addr_redund cfg + of_nat (fe_size_redund cfg) - 1"
    show thesis
      by (rule that [of "fe_size_redund cfg"]) (use assms(1) c e [of b "fe_size_redund cfg"] in \<open>auto simp: copies_wf_def\<close>)
  next
    assume c: "b = fe_addr cfg" "a = fe_addr_redund cfg" "e = fe_addr cfg + of_nat (fe_size cfg) - 1"
    show thesis
      by (rule that [of "fe_size cfg"]) (use assms(1) c e [of b "fe_size cfg"] in \<open>auto simp: copies_wf_def\<close>)
  qed
qed

text \<open>What a copy holds depends on the bytes of its block alone.\<close>

lemma in_copy: "unat a + fe_size cfg \<le> 2 ^ 32 \<Longrightarrow> i < fe_size cfg \<Longrightarrow> in_block a (fe_size cfg) (a + of_nat i)"
  by (simp add: in_block_def unat_of_nat_u32)

lemma read_env_same:
  assumes "5 < fe_size cfg" "unat a + fe_size cfg \<le> 2 ^ 32" and same: "\<And>x. in_block a (fe_size cfg) x \<Longrightarrow> m' x = m x"
  shows "read_env cfg m' a = read_env cfg m a"
proof -
  have s: "m' (a + of_nat i) = m (a + of_nat i)" if "i < fe_size cfg" for i using same in_copy [OF assms(2) that] by blast
  have "mread m' a 4 = mread m a 4" by (rule mread_eqI) (use s assms(1) in auto)
  moreover have "mread m' (data_at a) (ENV_SIZE cfg) = mread m (data_at a) (ENV_SIZE cfg)"
  proof (rule mread_eqI)
    fix i assume "i < ENV_SIZE cfg"
    then show "m' (data_at a + of_nat i) = m (data_at a + of_nat i)"
      using s [of "5 + i"] by (simp add: data_at_def ENV_SIZE_def ENV_HEADER_SIZE_REDUND_def add.assoc)
  qed
  moreover have "m' (flags_at a) = m (flags_at a)" using s [of 4] assms(1) by (simp add: flags_at_def)
  ultimately show ?thesis by (simp add: read_env_def)
qed

lemma crc_ok_read: "crc_ok cfg m a \<longleftrightarrow> crc32 0 (Some (et_data (read_env cfg m a))) = et_crc (read_env cfg m a)"
  by (simp add: crc_ok_def read_env_def)

lemma read_env_sel [simp]: "et_flags (read_env cfg m a) = m (flags_at a)"
  "et_data (read_env cfg m a) = mread m (data_at a) (ENV_SIZE cfg)" "et_crc (read_env cfg m a) = mem_be32 m a"
  by (simp_all add: read_env_def)

text \<open>Erasing the range of one copy leaves the other alone.\<close>

lemma other_copy:
  assumes wf: "copies_wf cfg" "copies cfg a b e" and "same_outside b e m m'"
  shows "read_env cfg m' a = read_env cfg m a"
proof -
  obtain n where n: "fe_size cfg \<le> n" "unat b + n \<le> 2 ^ 32" "unat a + fe_size cfg \<le> 2 ^ 32" "unat e = unat b + n - 1"
    "unat a + fe_size cfg \<le> unat b \<or> unat b + n \<le> unat a" "5 < fe_size cfg"
    using copies_layout [OF wf] .
  show ?thesis
  proof (rule read_env_same)
    fix x assume "in_block a (fe_size cfg) x"
    then have i: "unat (x - a) < fe_size cfg" by (simp add: in_block_def)
    have "unat (a + of_nat (unat (x - a))) = unat a + unat (x - a)"
    proof (cases "unat a + unat (x - a) < 2 ^ 32")
      case True
      then show ?thesis by (rule unat_add_of_nat)
    qed (use i n(3) in linarith)
    then have x: "unat x = unat a + unat (x - a)" by simp
    then have "x < b \<or> e < x" using n i by (auto simp: word_less_nat_alt)
    then show "m' x = m x" using assms(3) unfolding same_outside_def by blast
  qed (use n in auto)
qed

section \<open>Protection keeps the banks\<close>

lemma protect_sectors_simps [simp]:
  "fi_size (protect_sectors p f l info) = fi_size info" "sector_count (protect_sectors p f l info) = sector_count info"
  "flash_id (protect_sectors p f l info) = flash_id info" "fi_start (protect_sectors p f l info) = fi_start info"
  "length (fi_protect (protect_sectors p f l info)) = length (fi_protect info)"
proof -
  have "length (fold (\<lambda>i ps. ps[i := p]) is ps) = length ps" for "is" and ps :: "byte list"
    by (induction "is" arbitrary: ps) simp_all
  then show "length (fi_protect (protect_sectors p f l info)) = length (fi_protect info)"
    by (simp add: protect_sectors_def)
qed (simp_all add: protect_sectors_def)

lemma b_end_protect [simp]: "b_end (protect_sectors p f l info) = b_end info"
  by (simp add: b_end_def)

lemma bank_wf_protect [simp]: "bank_wf (protect_sectors p f l info) \<longleftrightarrow> bank_wf info"
  by (simp add: bank_wf_def)

definition same_bank :: "flash_info \<Rightarrow> flash_info \<Rightarrow> bool" where
  "same_bank x y \<longleftrightarrow> flash_id y = flash_id x \<and> b_end y = b_end x \<and> fi_start y = fi_start x \<and> bank_wf y = bank_wf x"

lemma protect_banks_same: "list_all2 same_bank infos (snd (protect_banks p first stop infos))"
  by (induction infos) (auto simp: same_bank_def Let_def split: prod.splits)

lemma banks_wf_same: "banks_wf xs \<Longrightarrow> list_all2 same_bank xs ys \<Longrightarrow> banks_wf ys"
  by (auto simp: banks_wf_def list_all_length list_all2_conv_all_nth same_bank_def)

lemma flash_sect_protect_wf:
  assumes "flash_sect_protect p first stop st = (rc, st')" and "banks_wf (fl_banks st)"
  shows "banks_wf (fl_banks st') \<and> fl_mem st' = fl_mem st \<and> fl_events st' = fl_events st"
  using assms banks_wf_same [OF assms(2) protect_banks_same]
  by (auto simp: flash_sect_protect_def split: prod.splits) (metis snd_conv)

section \<open>What a power cycle finds\<close>

definition whole_flag :: "byte \<Rightarrow> bool" where
  "whole_flag f \<longleftrightarrow> f \<in> {0, 1, 0xFF}"

definition default_data :: "flash_env \<Rightarrow> byte list" where
  "default_data cfg = fe_default cfg @ replicate (ENV_SIZE cfg - length (fe_default cfg)) 0"

text \<open>
  The copies at \<open>a\<close> and \<open>b\<close> commit the data \<open>D\<close>: a copy that checks holds data of \<open>D\<close>, unless the other one checks and
  its flags make it the obsolete one; when \<open>a\<close> does not check, the default environment is in \<open>D\<close>.
\<close>

definition stored :: "flash_env \<Rightarrow> mem \<Rightarrow> u32 \<Rightarrow> u32 \<Rightarrow> byte list set \<Rightarrow> bool" where
  "stored cfg m a b D \<longleftrightarrow>
     (if crc_ok cfg m a
      then et_data (read_env cfg m a) \<in> D \<and> whole_flag (m (flags_at a)) \<and>
           (crc_ok cfg m b \<longrightarrow> et_data (read_env cfg m b) \<in> D \<and> whole_flag (m (flags_at b)) \<or>
              m (flags_at b) = 0 \<and> m (flags_at a) \<noteq> 0)
      else default_data cfg \<in> D \<and>
           (crc_ok cfg m b \<longrightarrow> et_data (read_env cfg m b) \<in> D \<and> whole_flag (m (flags_at b))))"

definition env_stored :: "flash_env \<Rightarrow> mem \<Rightarrow> byte list set \<Rightarrow> bool" where
  "env_stored cfg m D \<longleftrightarrow> stored cfg m (fe_addr cfg) (fe_addr_redund cfg) D \<or> stored cfg m (fe_addr_redund cfg) (fe_addr cfg) D"

lemma stored_mono: "stored cfg m a b D \<Longrightarrow> D \<subseteq> E \<Longrightarrow> stored cfg m a b E"
  by (auto simp: stored_def split: if_splits)

lemma stored_env_stored: "copies cfg a b e \<Longrightarrow> stored cfg m a b D \<Longrightarrow> env_stored cfg m D"
  by (auto simp: copies_def env_stored_def)

text \<open>The other copy counts as well where it holds committed data.\<close>

lemma stored_swap:
  "stored cfg m a b D \<Longrightarrow> crc_ok cfg m b \<Longrightarrow> crc_ok cfg m a \<Longrightarrow> et_data (read_env cfg m b) \<in> D \<Longrightarrow> whole_flag (m (flags_at b)) \<Longrightarrow>
   stored cfg m b a D"
  by (auto simp: stored_def)

lemma stored_second: "stored cfg m a b D \<Longrightarrow> crc_ok cfg m b \<Longrightarrow> \<not> crc_ok cfg m a \<Longrightarrow> stored cfg m b a D"
  by (auto simp: stored_def)

text \<open>The choice of \<open>env_init\<close>.\<close>

lemma env_init_both:
  assumes ok: "crc_ok cfg m (fe_addr cfg)" "crc_ok cfg m (fe_addr_redund cfg)"
    and whole: "whole_flag (m (flags_at (fe_addr cfg)))" "whole_flag (m (flags_at (fe_addr_redund cfg)))"
  shows "\<exists>k. k \<noteq> 0 \<and>
     (env_init cfg m (static_vars cfg) = (static_vars cfg)\<lparr>gd_env_addr := data_at (fe_addr cfg), gd_env_valid := k\<rparr> \<and>
        \<not> (m (flags_at (fe_addr cfg)) = 0 \<and> m (flags_at (fe_addr_redund cfg)) \<noteq> 0) \<or>
      env_init cfg m (static_vars cfg) = (static_vars cfg)\<lparr>gd_env_addr := data_at (fe_addr_redund cfg), gd_env_valid := k\<rparr> \<and>
        \<not> (m (flags_at (fe_addr_redund cfg)) = 0 \<and> m (flags_at (fe_addr cfg)) \<noteq> 0))"
  using assms
  by (auto simp: env_init_def static_vars_def Let_def active_flag_def obsolete_flag_def whole_flag_def)

lemma stored_flags:
  "stored cfg m a b D \<Longrightarrow> crc_ok cfg m a \<Longrightarrow> crc_ok cfg m b \<Longrightarrow> whole_flag (m (flags_at a)) \<and> whole_flag (m (flags_at b))"
  by (auto simp: stored_def whole_flag_def)

lemma stored_choose:
  assumes "stored cfg m a b D \<or> stored cfg m b a D" and "crc_ok cfg m a" "crc_ok cfg m b"
    and "\<not> (m (flags_at a) = 0 \<and> m (flags_at b) \<noteq> 0)"
  shows "stored cfg m a b D"
  using assms by (auto simp: stored_def)

lemma env_init_choice:
  assumes st: "env_stored cfg m D" and wf: "copies_wf cfg" and v: "v = env_init cfg m (static_vars cfg)"
  shows "(default_data cfg \<in> D \<and> \<not> crc_ok cfg m (fe_addr cfg) \<and> \<not> crc_ok cfg m (fe_addr_redund cfg) \<and>
            v = (static_vars cfg)\<lparr>gd_env_addr := fe_default_addr cfg, gd_env_valid := 0\<rparr>) \<or>
         (\<exists>a b e k. copies cfg a b e \<and> k \<noteq> 0 \<and> crc_ok cfg m a \<and> stored cfg m a b D \<and>
            v = (static_vars cfg)\<lparr>gd_env_addr := data_at a, gd_env_valid := k\<rparr>)"
proof -
  let ?a = "fe_addr cfg" and ?b = "fe_addr_redund cfg"
  have c: "copies cfg ?a ?b (fe_addr_redund cfg + of_nat (fe_size_redund cfg) - 1)"
    "copies cfg ?b ?a (fe_addr cfg + of_nat (fe_size cfg) - 1)"
    by (simp_all add: copies_def)
  have st: "stored cfg m ?a ?b D \<or> stored cfg m ?b ?a D" using st by (simp add: env_stored_def)
  consider "\<not> crc_ok cfg m ?a" "\<not> crc_ok cfg m ?b" | "crc_ok cfg m ?a" "\<not> crc_ok cfg m ?b"
    | "\<not> crc_ok cfg m ?a" "crc_ok cfg m ?b" | "crc_ok cfg m ?a" "crc_ok cfg m ?b" by blast
  then show ?thesis
  proof cases
    case 1
    then have "default_data cfg \<in> D" using st by (auto simp: stored_def)
    with 1 show ?thesis unfolding v by (simp add: env_init_def static_vars_def Let_def)
  next
    case 2
    have "stored cfg m ?a ?b D" using st stored_second 2 by blast
    moreover have "v = (static_vars cfg)\<lparr>gd_env_addr := data_at ?a, gd_env_valid := 1\<rparr>"
      unfolding v using 2 by (simp add: env_init_def static_vars_def Let_def)
    ultimately show ?thesis using c(1) 2 by (metis zero_neq_one)
  next
    case 3
    have "stored cfg m ?b ?a D" using st stored_second 3 by blast
    moreover have "v = (static_vars cfg)\<lparr>gd_env_addr := data_at ?b, gd_env_valid := 1\<rparr>"
      unfolding v using 3 by (simp add: env_init_def static_vars_def Let_def)
    ultimately show ?thesis using c(2) 3 by (metis zero_neq_one)
  next
    case 4
    then have "whole_flag (m (flags_at ?a))" "whole_flag (m (flags_at ?b))" using st stored_flags by blast+
    then show ?thesis using env_init_both [OF 4, folded v] stored_choose [of cfg m ?a ?b D] stored_choose [of cfg m ?b ?a D] st 4 c
      by blast
  qed
qed

section \<open>Writing a flag\<close>

definition flag_written :: "mem \<Rightarrow> u32 \<Rightarrow> byte \<Rightarrow> mem \<Rightarrow> bool" where
  "flag_written m f flag m' \<longleftrightarrow> (\<forall>x. x \<noteq> f \<longrightarrow> m' x = m x) \<and> (\<exists>c. m' f = m f AND (c OR flag))"

lemma programmed_flag: "programmed m (mwrite m f [flag]) m' \<Longrightarrow> flag_written m f flag m'"
  unfolding flag_written_def
proof (intro conjI allI impI)
  fix x assume p: "programmed m (mwrite m f [flag]) m'" and "x \<noteq> f"
  then show "m' x = m x" by (intro programmed_same [OF p]) simp
next
  assume "programmed m (mwrite m f [flag]) m'"
  then obtain c where "m' f = m f AND (c OR mwrite m f [flag] f)" by (rule programmedE)
  then have "m' f = m f AND (c OR flag)" by (simp only: mwrite.simps fun_upd_same)
  then show "\<exists>c. m' f = m f AND (c OR flag)" ..
qed

lemma clears_flag:
  assumes "clears m (mwrite m f [flag])"
  shows "flag_written m f flag (mwrite m f [flag])"
proof -
  have "m f AND flag = flag" using assms by (auto simp: clears_def split: if_splits)
  then have "flag = m f AND (0 OR flag)" by simp
  then have "\<exists>c. flag = m f AND (c OR flag)" ..
  then show ?thesis by (simp add: flag_written_def)
qed

lemma flash_write_flag:
  assumes "banks_wf (fl_banks st)"
  shows "case flash_write [flag] f st of Off m' \<Rightarrow> flag_written (fl_mem st) f flag m'
    | Ret rc st' \<Rightarrow> flag_written (fl_mem st) f flag (fl_mem st') \<and> banks_wf (fl_banks st')"
proof -
  have "unat f < 2 ^ 32" using unsigned_less [of f, where ?'a = nat] by simp
  then have w: "writes st f [flag] (flash_write [flag] f st)" using assms by (intro writes_flash_write) auto
  then show ?thesis using assms
    by (auto simp: writes_def programmed_flag clears_flag simp del: mwrite.simps split: powered.splits if_splits)
qed

lemma write_flag_result:
  assumes "banks_wf (fl_banks st)"
  shows "case write_flag flag a stop st of Off m' \<Rightarrow> flag_written (fl_mem st) (flags_at a) flag m'
    | Ret _ st' \<Rightarrow> flag_written (fl_mem st) (flags_at a) flag (fl_mem st') \<and> banks_wf (fl_banks st')"
proof -
  obtain rc1 st1 where p: "flash_sect_protect 0 a stop st = (rc1, st1)" by fastforce
  note st1 = flash_sect_protect_wf [OF p assms]
  show ?thesis
  proof (cases "flash_write [flag] (flags_at a) st1")
    case (Off m')
    then show ?thesis using flash_write_flag [where st = st1 and flag = flag and f = "flags_at a"] st1 by (simp add: write_flag_def p)
  next
    case (Ret rc2 st2)
    obtain rc3 st3 where q: "flash_sect_protect 1 a stop st2 = (rc3, st3)" by fastforce
    have "flag_written (fl_mem st1) (flags_at a) flag (fl_mem st2)" "banks_wf (fl_banks st2)"
      using flash_write_flag [where st = st1 and flag = flag and f = "flags_at a"] st1 Ret by simp_all
    then show ?thesis using flash_sect_protect_wf [OF q] st1 Ret by (simp add: write_flag_def p q)
  qed
qed

text \<open>No other byte of a copy has the address of a flag.\<close>

lemma flag_address:
  assumes wf: "copies_wf cfg" "copies cfg a b e" and x: "x \<in> {a, b}" "c \<in> {a, b}" and k: "k < fe_size cfg"
    and eq: "x + of_nat k = flags_at c"
  shows "x = c \<and> k = 4"
proof -
  obtain n where n: "fe_size cfg \<le> n" "unat b + n \<le> 2 ^ 32" "unat a + fe_size cfg \<le> 2 ^ 32"
    "unat a + fe_size cfg \<le> unat b \<or> unat b + n \<le> unat a" "5 < fe_size cfg"
    using copies_layout [OF wf] by metis
  have "unat x + k < 2 ^ 32" "unat c + 4 < 2 ^ 32" using x k n by auto
  then have "unat (x + of_nat k) = unat x + k" "unat (c + of_nat 4) = unat c + 4" by (simp_all only: unat_add_of_nat)
  then have sum: "unat x + k = unat c + 4" using eq by (simp add: flags_at_def)
  then have "x = c" using x k n by auto
  with sum show ?thesis by simp
qed

lemma copies_distinct: "copies_wf cfg \<Longrightarrow> copies cfg a b e \<Longrightarrow> a \<noteq> b \<and> flags_at a \<noteq> flags_at b \<and> data_at a \<noteq> data_at b"
  by (auto simp: copies_wf_def copies_def flags_at_def data_at_def)

lemma flag_only:
  assumes wf: "copies_wf cfg" "copies cfg a b e" and x: "x \<in> {a, b}" "c \<in> {a, b}"
    and same: "\<And>p. p \<noteq> flags_at c \<Longrightarrow> m' p = m p"
  shows "et_data (read_env cfg m' x) = et_data (read_env cfg m x) \<and> et_crc (read_env cfg m' x) = et_crc (read_env cfg m x) \<and>
    (x \<noteq> c \<longrightarrow> m' (flags_at x) = m (flags_at x))"
proof (intro conjI impI)
  have s: "m' (x + of_nat k) = m (x + of_nat k)" if "k < fe_size cfg" "k \<noteq> 4" for k
    using flag_address [OF wf x that(1)] that(2) by (intro same) auto
  have five: "5 < fe_size cfg" using wf by (simp add: copies_wf_def)
  have "mread m' (data_at x) (ENV_SIZE cfg) = mread m (data_at x) (ENV_SIZE cfg)"
  proof (rule mread_eqI)
    fix i assume "i < ENV_SIZE cfg"
    then show "m' (data_at x + of_nat i) = m (data_at x + of_nat i)"
      using s [of "5 + i"] by (simp add: data_at_def ENV_SIZE_def ENV_HEADER_SIZE_REDUND_def add.assoc)
  qed
  then show "et_data (read_env cfg m' x) = et_data (read_env cfg m x)" by simp
  have "mread m' x 4 = mread m x 4" by (rule mread_eqI) (use s five in auto)
  then show "et_crc (read_env cfg m' x) = et_crc (read_env cfg m x)" by simp
  assume "x \<noteq> c"
  then have "flags_at x \<noteq> flags_at c" using copies_distinct [OF wf] x by auto
  then show "m' (flags_at x) = m (flags_at x)" by (rule same)
qed

text \<open>
  The assumption about the chip: a flag byte whose programming is interrupted is left as it was or as 0, 1 or 0xFF.
\<close>

definition whole_flags :: "flash_env \<Rightarrow> mem \<Rightarrow> mem \<Rightarrow> bool" where
  "whole_flags cfg m m' \<longleftrightarrow> (\<forall>x \<in> {fe_addr cfg, fe_addr_redund cfg}. m' (flags_at x) = m (flags_at x) \<or> whole_flag (m' (flags_at x)))"

lemma whole_flags_copy: "whole_flags cfg m m' \<Longrightarrow> copies cfg a b e \<Longrightarrow> x \<in> {a, b} \<Longrightarrow> m' (flags_at x) = m (flags_at x) \<or> whole_flag (m' (flags_at x))"
  by (auto simp: whole_flags_def copies_def)

lemma stored_obsolete:
  assumes wf: "copies_wf cfg" "copies cfg a b e" and st: "stored cfg m a b D" "crc_ok cfg m a" "crc_ok cfg m b" "m (flags_at b) \<noteq> 0"
    and w: "flag_written m (flags_at b) flag m'" and wh: "whole_flags cfg m m'"
  shows "stored cfg m' a b D \<and> crc_ok cfg m' a"
proof -
  have o: "\<And>p. p \<noteq> flags_at b \<Longrightarrow> m' p = m p" using w by (simp add: flag_written_def)
  note fa = flag_only [OF wf, of a b, OF _ _ o, simplified] and fb = flag_only [OF wf, of b b, OF _ _ o, simplified]
  have "m' (flags_at a) = m (flags_at a)" using copies_distinct [OF wf] by (intro o) auto
  then show ?thesis
    using fa fb st whole_flags_copy [OF wh wf(2), of b] by (auto simp: stored_def crc_ok_def)
qed

lemma stored_active:
  assumes wf: "copies_wf cfg" "copies cfg a b e" and st: "stored cfg m a b D" "crc_ok cfg m a" "m (flags_at a) AND 1 = 1"
    and w: "flag_written m (flags_at a) 1 m'" and wh: "whole_flags cfg m m'"
  shows "stored cfg m' a b D \<and> crc_ok cfg m' a"
proof -
  have o: "\<And>p. p \<noteq> flags_at a \<Longrightarrow> m' p = m p" using w by (simp add: flag_written_def)
  note fa = flag_only [OF wf, of a a, OF _ _ o, simplified] and fb = flag_only [OF wf, of b a, OF _ _ o, simplified]
  have b: "m' (flags_at b) = m (flags_at b)" using copies_distinct [OF wf] by (intro o) auto
  obtain c where c: "m' (flags_at a) = m (flags_at a) AND (c OR 1)" using w by (auto simp: flag_written_def)
  have "m' (flags_at a) AND 1 = 1" unfolding c using st(3)
    by (metis and.assoc and.commute and_or_self)
  then have "m' (flags_at a) \<noteq> 0" by auto
  then show ?thesis
    using b fa fb st whole_flags_copy [OF wh wf(2), of a] by (auto simp: stored_def crc_ok_def)
qed

section \<open>Starting\<close>

text \<open>A repair changes one flag; what the copies commit stays.\<close>

definition repaired :: "flash_env \<Rightarrow> mem \<Rightarrow> u32 \<Rightarrow> u32 \<Rightarrow> byte list set \<Rightarrow> u32 \<Rightarrow> mem \<Rightarrow> bool" where
  "repaired cfg m a b D f m' \<longleftrightarrow> (\<forall>p. p \<noteq> f \<longrightarrow> m' p = m p) \<and>
     (stored cfg m a b D \<and> crc_ok cfg m a \<and> whole_flags cfg m m' \<longrightarrow> stored cfg m' a b D \<and> crc_ok cfg m' a)"

lemma mark_obsolete_result:
  assumes wf: "copies_wf cfg" "copies cfg a b e" "banks_wf (fl_banks st)"
    and b: "flash_addr_new v = b"
  shows "case mark_obsolete cfg v st of Off m' \<Rightarrow> repaired cfg (fl_mem st) a b D (flags_at b) m'
    | Ret v' st' \<Rightarrow> banks_wf (fl_banks st') \<and> (\<exists>k. v' = v\<lparr>gd_env_valid := k\<rparr>) \<and>
        repaired cfg (fl_mem st) a b D (flags_at b) (fl_mem st')"
proof (cases "fl_mem st (flags_at b) \<noteq> 0 \<and> crc_ok cfg (fl_mem st) b")
  case True
  have r: "flag_written (fl_mem st) (flags_at b) 0 m' \<Longrightarrow> repaired cfg (fl_mem st) a b D (flags_at b) m'" for m'
  proof -
    assume w: "flag_written (fl_mem st) (flags_at b) 0 m'"
    then show ?thesis using stored_obsolete [OF wf(1,2) _ _ _ _ w] True unfolding repaired_def flag_written_def by blast
  qed
  show ?thesis
    using write_flag_result [where st = st and flag = 0 and a = b and stop = "end_addr_new v"] wf(3) True b r
    by (auto simp: mark_obsolete_def obsolete_flag_def split: powered.splits)
next
  case False
  have "\<exists>k. v = v\<lparr>gd_env_valid := k\<rparr>" by (rule exI [of _ "gd_env_valid v"]) simp
  then show ?thesis using False wf(3) b by (auto simp: mark_obsolete_def obsolete_flag_def repaired_def)
qed

lemma mark_active_result:
  assumes wf: "copies_wf cfg" "copies cfg a b e" "banks_wf (fl_banks st)"
    and a: "flash_addr v = a"
  shows "case mark_active v st of Off m' \<Rightarrow> repaired cfg (fl_mem st) a b D (flags_at a) m'
    | Ret v' st' \<Rightarrow> banks_wf (fl_banks st') \<and> (\<exists>k. v' = v\<lparr>gd_env_valid := k\<rparr>) \<and>
        repaired cfg (fl_mem st) a b D (flags_at a) (fl_mem st')"
proof (cases "fl_mem st (flags_at a) \<noteq> 1 \<and> fl_mem st (flags_at a) AND 1 = 1")
  case True
  have r: "flag_written (fl_mem st) (flags_at a) 1 m' \<Longrightarrow> repaired cfg (fl_mem st) a b D (flags_at a) m'" for m'
  proof -
    assume w: "flag_written (fl_mem st) (flags_at a) 1 m'"
    then show ?thesis using stored_active [OF wf(1,2) _ _ _ w] True unfolding repaired_def flag_written_def by blast
  qed
  show ?thesis
    using write_flag_result [where st = st and flag = 1 and a = a and stop = "end_addr v"] wf(3) True a r
    by (auto simp: mark_active_def active_flag_def split: powered.splits)
next
  case False
  have "\<exists>k. v = v\<lparr>gd_env_valid := k\<rparr>" by (rule exI [of _ "gd_env_valid v"]) simp
  then show ?thesis using False wf(3) a by (auto simp: mark_active_def active_flag_def repaired_def)
qed

lemma copies_flags: "copies cfg a b e \<Longrightarrow> {fe_addr cfg, fe_addr_redund cfg} = {a, b}"
  by (auto simp: copies_def)

text \<open>If the flags are whole after both repairs they were so after the first.\<close>

lemma repaired_both:
  assumes wf: "copies_wf cfg" "copies cfg a b e" and st: "stored cfg m a b D" "crc_ok cfg m a"
    and r: "repaired cfg m a b D (flags_at b) m1" "repaired cfg m1 a b D (flags_at a) m2" and wh: "whole_flags cfg m m2"
  shows "stored cfg m2 a b D \<and> crc_ok cfg m2 a"
proof -
  have d: "flags_at a \<noteq> flags_at b" using copies_distinct [OF wf] by simp
  have ab: "m2 (flags_at b) = m1 (flags_at b)" "m1 (flags_at a) = m (flags_at a)" using r d unfolding repaired_def by metis+
  have "whole_flags cfg m m1" "whole_flags cfg m1 m2" using wh ab unfolding whole_flags_def copies_flags [OF wf(2)] by auto
  then show ?thesis using r st unfolding repaired_def by blast
qed

text \<open>The state of a board that has started, and the copy of the environment it works with.\<close>

definition running :: "flash_env \<Rightarrow> env_vars \<Rightarrow> flash_state \<Rightarrow> byte list set \<Rightarrow> bool" where
  "running cfg v st D \<longleftrightarrow> banks_wf (fl_banks st) \<and>
     copies cfg (flash_addr v) (flash_addr_new v) (end_addr_new v) \<and> copies cfg (flash_addr_new v) (flash_addr v) (end_addr v) \<and>
     stored cfg (fl_mem st) (flash_addr v) (flash_addr_new v) D"

definition ram_env :: "flash_env \<Rightarrow> env_vars \<Rightarrow> bool" where
  "ram_env cfg v \<longleftrightarrow> length (et_data (env_ptr v)) = ENV_SIZE cfg \<and> et_crc (env_ptr v) = crc32 0 (Some (et_data (env_ptr v)))"

lemma relocate_spec_result:
  assumes wf: "copies_wf cfg" "banks_wf (fl_banks st)"
    and st: "stored cfg (fl_mem st) a b D" "crc_ok cfg (fl_mem st) a"
    and v: "flash_addr v = a" "flash_addr_new v = b" "gd_env_addr v = data_at a"
      "copies cfg a b (end_addr_new v)" "copies cfg b a (end_addr v)"
  shows "case env_relocate_spec cfg v st of Off m' \<Rightarrow> whole_flags cfg (fl_mem st) m' \<longrightarrow> env_stored cfg m' D
    | Ret v' st' \<Rightarrow> whole_flags cfg (fl_mem st) (fl_mem st') \<longrightarrow>
        running cfg v' st' D \<and> ram_env cfg v' \<and> et_data (env_ptr v') \<in> D \<and> env_ptr v' = read_env cfg (fl_mem st') a"
proof (cases "mark_obsolete cfg v st")
  case (Off m1)
  then show ?thesis
    using mark_obsolete_result [OF wf(1) v(4) wf(2) v(2)] stored_env_stored [OF v(4)] st
    by (auto simp: env_relocate_spec_def v repaired_def)
next
  case (Ret v1 st1)
  then obtain k1 where r1: "banks_wf (fl_banks st1)" "v1 = v\<lparr>gd_env_valid := k1\<rparr>" "repaired cfg (fl_mem st) a b D (flags_at b) (fl_mem st1)"
    using mark_obsolete_result [OF wf(1) v(4) wf(2) v(2)] by auto
  note r2 = mark_active_result [OF wf(1) v(4) r1(1), of v1 D]
  note both = repaired_both [OF wf(1) v(4) st r1(3)]
  show ?thesis
  proof (cases "mark_active v1 st1")
    case (Off m2)
    then have "whole_flags cfg (fl_mem st) m2 \<longrightarrow> env_stored cfg m2 D"
      using r1(2) r2 both stored_env_stored [OF v(4)] v(1) by auto
    then show ?thesis by (simp add: env_relocate_spec_def v Ret Off)
  next
    case (Ret v2 st2)
    then obtain k2 where v2: "v2 = v\<lparr>gd_env_valid := k2\<rparr>" "banks_wf (fl_banks st2)"
        "repaired cfg (fl_mem st1) a b D (flags_at a) (fl_mem st2)"
      using r1(2) r2 v(1) by auto
    have "stored cfg (fl_mem st2) a b D" "crc_ok cfg (fl_mem st2) a" if "whole_flags cfg (fl_mem st) (fl_mem st2)"
      using both [OF v2(3) that] by auto
    then show ?thesis
      using v2 v \<open>mark_obsolete cfg v st = Ret v1 st1\<close>
      by (auto simp: env_relocate_spec_def Ret running_def ram_env_def crc_ok_read stored_def)
  qed
qed

text \<open>When \<open>env_init\<close> has chosen the copy at \<open>a\<close>, \<open>env_relocate\<close> works with it as \<^verbatim>\<open>flash_addr\<close>.\<close>

lemma env_boot_chosen:
  assumes wf: "copies_wf cfg" and c: "copies cfg a b e" "k \<noteq> 0"
    and v: "env_init cfg (fl_mem st) (static_vars cfg) = (static_vars cfg)\<lparr>gd_env_addr := data_at a, gd_env_valid := k\<rparr>"
  obtains v1 where "flash_addr v1 = a" "flash_addr_new v1 = b" "gd_env_addr v1 = data_at a"
    "copies cfg a b (end_addr_new v1)" "copies cfg b a (end_addr v1)"
    "env_boot cfg st = andthen (env_relocate_spec cfg v1 st) (\<lambda>v st. Ret (v\<lparr>gd_env_addr := data_at (fe_buffer cfg)\<rparr>) st)"
proof -
  let ?v = "env_init cfg (fl_mem st) (static_vars cfg)"
  define v1 where "v1 = (if gd_env_addr ?v \<noteq> data_at (flash_addr ?v) then swap_copies ?v else ?v)"
  have v1: "flash_addr v1 = a" "flash_addr_new v1 = b" "gd_env_addr v1 = data_at a"
      "copies cfg a b (end_addr_new v1)" "copies cfg b a (end_addr v1)"
    using c(1) copies_distinct [OF wf c(1)] unfolding v1_def v
    by (auto simp: static_vars_def swap_copies_def copies_def)
  have "env_relocate_spec cfg ?v st = env_relocate_spec cfg v1 st"
    using v1(1,3) by (simp add: env_relocate_spec_def v1_def [symmetric])
  then have "env_boot cfg st = andthen (env_relocate_spec cfg v1 st) (\<lambda>v st. Ret (v\<lparr>gd_env_addr := data_at (fe_buffer cfg)\<rparr>) st)"
    using c(2) by (simp add: env_boot_def env_relocate_redund_def v)
  then show thesis using that v1 by blast
qed

text \<open>Starting from a flash that commits \<open>D\<close>: the board works with data of \<open>D\<close>, and if the power fails again the flash still commits \<open>D\<close>.\<close>

lemma env_boot_result:
  assumes wf: "copies_wf cfg" "banks_wf (fl_banks st)" and st: "env_stored cfg (fl_mem st) D"
  shows "case env_boot cfg st of Off m' \<Rightarrow> whole_flags cfg (fl_mem st) m' \<longrightarrow> env_stored cfg m' D
    | Ret v' st' \<Rightarrow> whole_flags cfg (fl_mem st) (fl_mem st') \<longrightarrow> running cfg v' st' D \<and> ram_env cfg v' \<and> et_data (env_ptr v') \<in> D"
proof -
  let ?v = "env_init cfg (fl_mem st) (static_vars cfg)"
  have s: "copies cfg (flash_addr (static_vars cfg)) (flash_addr_new (static_vars cfg)) (end_addr_new (static_vars cfg))"
    "copies cfg (flash_addr_new (static_vars cfg)) (flash_addr (static_vars cfg)) (end_addr (static_vars cfg))"
    by (simp_all add: static_vars_def copies_def)
  from env_init_choice [OF st wf(1) refl] show ?thesis
  proof (elim disjE conjE exE)
    assume d: "default_data cfg \<in> D" "\<not> crc_ok cfg (fl_mem st) (fe_addr cfg)" "\<not> crc_ok cfg (fl_mem st) (fe_addr_redund cfg)"
      and v: "?v = (static_vars cfg)\<lparr>gd_env_addr := fe_default_addr cfg, gd_env_valid := 0\<rparr>"
    then have "stored cfg (fl_mem st) (fe_addr cfg) (fe_addr_redund cfg) D" by (simp add: stored_def)
    moreover have "length (fe_default cfg) \<le> ENV_SIZE cfg" using wf(1) by (simp add: copies_wf_def)
    ultimately show ?thesis
      using d(1) s wf(2) unfolding env_boot_def v
      by (auto simp: env_relocate_redund_def running_def ram_env_def default_data_def static_vars_def Let_def)
  next
    fix a b e k
    assume c: "copies cfg a b e" "k \<noteq> 0" "crc_ok cfg (fl_mem st) a" "stored cfg (fl_mem st) a b D"
      and v: "?v = (static_vars cfg)\<lparr>gd_env_addr := data_at a, gd_env_valid := k\<rparr>"
    obtain v1 where v1: "flash_addr v1 = a" "flash_addr_new v1 = b" "gd_env_addr v1 = data_at a"
        "copies cfg a b (end_addr_new v1)" "copies cfg b a (end_addr v1)"
      and "env_boot cfg st = andthen (env_relocate_spec cfg v1 st) (\<lambda>v st. Ret (v\<lparr>gd_env_addr := data_at (fe_buffer cfg)\<rparr>) st)"
      using env_boot_chosen [OF wf(1) c(1,2) v] .
    then show ?thesis
      using relocate_spec_result [OF wf c(4,3) v1]
      by (auto simp: running_def ram_env_def split: powered.splits)
  qed
qed

section \<open>Saving\<close>

text \<open>
  The assumption about an interrupted save: a half-written copy at \<open>b\<close> passes its CRC only if it was not changed yet, or is
  the new one with whole flags; the flag of the copy at \<open>a\<close> is as it was or whole.
\<close>

definition clean_cut :: "flash_env \<Rightarrow> mem \<Rightarrow> u32 \<Rightarrow> u32 \<Rightarrow> byte list \<Rightarrow> mem \<Rightarrow> bool" where
  "clean_cut cfg m a b d m' \<longleftrightarrow> (m' (flags_at a) = m (flags_at a) \<or> whole_flag (m' (flags_at a))) \<and>
     (crc_ok cfg m' b \<longrightarrow> read_env cfg m' b = read_env cfg m b \<or>
        et_data (read_env cfg m' b) = d \<and> whole_flag (m' (flags_at b)))"

text \<open>The two stages of a save: first only the new copy changes, then only the flags.\<close>

definition copy_done :: "flash_env \<Rightarrow> u32 \<Rightarrow> u32 \<Rightarrow> byte list \<Rightarrow> mem \<Rightarrow> mem \<Rightarrow> bool" where
  "copy_done cfg b e d m m2 \<longleftrightarrow> same_outside b e m m2 \<and> et_data (read_env cfg m2 b) = d \<and> crc_ok cfg m2 b"

definition save_cut :: "flash_env \<Rightarrow> u32 \<Rightarrow> u32 \<Rightarrow> u32 \<Rightarrow> byte list \<Rightarrow> mem \<Rightarrow> mem \<Rightarrow> bool" where
  "save_cut cfg a b e d m m' \<longleftrightarrow> same_outside b e m m' \<or>
     (\<exists>m2. copy_done cfg b e d m m2 \<and> (\<forall>p. p \<notin> {flags_at a, flags_at b} \<longrightarrow> m' p = m2 p))"

lemma flags_only:
  assumes wf: "copies_wf cfg" "copies cfg a b e" and x: "x \<in> {a, b}"
    and same: "\<And>p. p \<notin> {flags_at a, flags_at b} \<Longrightarrow> m' p = m p"
  shows "et_data (read_env cfg m' x) = et_data (read_env cfg m x) \<and> (crc_ok cfg m' x \<longleftrightarrow> crc_ok cfg m x)"
proof -
  let ?m = "m(flags_at a := m' (flags_at a))"
  have "et_data (read_env cfg ?m x) = et_data (read_env cfg m x) \<and> et_crc (read_env cfg ?m x) = et_crc (read_env cfg m x)"
    using flag_only [OF wf x, of a ?m m] by simp
  moreover have "et_data (read_env cfg m' x) = et_data (read_env cfg ?m x) \<and> et_crc (read_env cfg m' x) = et_crc (read_env cfg ?m x)"
    using flag_only [OF wf x, of b m' ?m] same by auto
  ultimately show ?thesis by (simp add: crc_ok_read del: read_env_sel)
qed

lemma stored_whole: "stored cfg m a b D \<Longrightarrow> crc_ok cfg m b \<Longrightarrow> whole_flag (m (flags_at b))"
  by (auto simp: stored_def whole_flag_def split: if_splits)

lemma save_cut_stored:
  assumes wf: "copies_wf cfg" "copies cfg a b e" and st: "stored cfg m a b D"
    and cut: "save_cut cfg a b e d m m'" and clean: "clean_cut cfg m a b d m'"
  shows "stored cfg m' a b (insert d D)"
  using cut unfolding save_cut_def
proof (elim disjE exE conjE)
  assume "same_outside b e m m'"
  then have a: "read_env cfg m' a = read_env cfg m a" by (rule other_copy [OF wf])
  then have "m' (flags_at a) = m (flags_at a)" "crc_ok cfg m' a = crc_ok cfg m a"
    by (metis read_env_sel(1)) (simp add: crc_ok_read a)
  moreover have "read_env cfg m' b = read_env cfg m b \<Longrightarrow> m' (flags_at b) = m (flags_at b) \<and> crc_ok cfg m' b = crc_ok cfg m b"
    by (metis read_env_sel(1) crc_ok_read)
  ultimately show ?thesis
    using a st clean unfolding stored_def clean_cut_def by (auto simp del: read_env_sel split: if_splits)
next
  fix m2 assume m2: "copy_done cfg b e d m m2" and same: "\<forall>p. p \<notin> {flags_at a, flags_at b} \<longrightarrow> m' p = m2 p"
  have a: "read_env cfg m2 a = read_env cfg m a" using m2 by (auto simp: copy_done_def intro: other_copy [OF wf])
  have "et_data (read_env cfg m' a) = et_data (read_env cfg m a)" "crc_ok cfg m' a \<longleftrightarrow> crc_ok cfg m a"
    using flags_only [OF wf, of a m' m2] same a by (auto simp: crc_ok_read simp del: read_env_sel)
  moreover have b: "et_data (read_env cfg m' b) = d"
    using flags_only [OF wf, of b m' m2] same m2 by (auto simp: copy_done_def simp del: read_env_sel)
  moreover have "whole_flag (m' (flags_at b))" if "crc_ok cfg m' b"
  proof (cases "read_env cfg m' b = read_env cfg m b")
    case True
    then have "crc_ok cfg m b" "m' (flags_at b) = m (flags_at b)" using that by (simp add: crc_ok_read) (metis True read_env_sel(1))
    then show ?thesis using stored_whole [OF st] by simp
  next
    case False
    then show ?thesis using clean that by (auto simp: clean_cut_def)
  qed
  moreover have "whole_flag (m' (flags_at a))" if "crc_ok cfg m a"
    using clean st that by (auto simp: clean_cut_def stored_def)
  ultimately show ?thesis using st by (auto simp: stored_def simp del: read_env_sel split: if_splits)
qed

lemma save_full_stored:
  assumes wf: "copies_wf cfg" "copies cfg a b e" and m2: "copy_done cfg b e d m m2"
    and same: "\<And>p. p \<notin> {flags_at a, flags_at b} \<Longrightarrow> m' p = m2 p" and flags: "m' (flags_at a) = 0" "m' (flags_at b) = 1"
  shows "stored cfg m' b a {d} \<and> crc_ok cfg m' b"
  using flags_only [OF wf, of b m' m2] same m2 flags
  by (auto simp: stored_def copy_done_def whole_flag_def simp del: read_env_sel)

text \<open>Writes within the range of a copy.\<close>

lemma mwrite_within:
  assumes "unat b \<le> unat addr" "unat addr + length src \<le> Suc (unat e)" and x: "x < b \<or> e < x"
  shows "mwrite m addr src x = m x"
proof -
  have e: "unat e < 2 ^ 32" using unsigned_less [of e, where ?'a = nat] by simp
  have "\<not> unat (x - addr) < length src"
  proof
    assume lt: "unat (x - addr) < length src"
    have "unat (addr + of_nat (unat (x - addr))) = unat addr + unat (x - addr)"
      by (rule unat_add_of_nat) (use lt assms(2) e in linarith)
    then have "unat x = unat addr + unat (x - addr)" by simp
    then show False using lt assms by (auto simp: word_less_nat_alt)
  qed
  moreover have "length src \<le> 2 ^ 32" using assms(2) e by linarith
  ultimately show ?thesis by (simp add: mwrite_apply)
qed

lemma writes_within:
  assumes w: "writes st addr src r" and r: "unat b \<le> unat addr" "unat addr + length src \<le> Suc (unat e)"
  shows "case r of Off m' \<Rightarrow> same_outside b e (fl_mem st) m'
    | Ret rc st' \<Rightarrow> fl_banks st' = fl_banks st \<and> same_outside b e (fl_mem st) (fl_mem st') \<and>
        (rc = 0 \<longrightarrow> fl_mem st' = mwrite (fl_mem st) addr src)"
proof -
  have p: "programmed m (mwrite m addr src) m' \<Longrightarrow> same_outside b e m m'" for m m'
    unfolding same_outside_def using mwrite_within [OF r] programmed_same by blast
  have "same_outside b e m (mwrite m addr src)" for m
    unfolding same_outside_def using mwrite_within [OF r] by blast
  then show ?thesis using w p by (auto simp: writes_def split: powered.splits if_splits)
qed

lemma flash_write_flag_ok:
  assumes "banks_wf (fl_banks st)" and r: "flash_write [flag] f st = Ret 0 st'"
  shows "fl_mem st' f = flag"
proof -
  have "unat f < 2 ^ 32" using unsigned_less [of f, where ?'a = nat] by simp
  then have w: "writes st f [flag] (flash_write [flag] f st)" using assms by (intro writes_flash_write) auto
  show ?thesis using writes_mem [OF w r] by simp
qed

lemma copy_written:
  assumes wf: "copies_wf cfg" "copies cfg a b e" and d: "length d = ENV_SIZE cfg" "crc = crc32 0 (Some d)"
    and m1: "m1 = mwrite m (data_at b) d" and m2: "m2 = mwrite m1 b (be32 crc)" and same: "same_outside b e m m2"
  shows "copy_done cfg b e d m m2"
proof -
  obtain n where n: "fe_size cfg \<le> n" "unat b + n \<le> 2 ^ 32" "5 < fe_size cfg" using copies_layout [OF wf] by metis
  have ub: "unat (data_at b) = unat b + 5" using n unat_add_of_nat [of b 5] by (simp add: data_at_def)
  have len: "length d + 5 = fe_size cfg" using d(1) n(3) by (simp add: ENV_SIZE_def ENV_HEADER_SIZE_REDUND_def)
  have dis: "disjoint_blocks b (length (be32 crc)) (data_at b) (length d)"
    using n len ub by (auto simp: disjoint_blocks_def)
  have "mread m2 (data_at b) (ENV_SIZE cfg) = mread m1 (data_at b) (ENV_SIZE cfg)"
    unfolding m2 d(1) [symmetric] by (rule mread_mwrite_disjoint [OF dis])
  also have "\<dots> = d" unfolding m1 using n len by (intro mread_mwrite) (auto simp: d(1))
  finally have data: "mread m2 (data_at b) (ENV_SIZE cfg) = d" .
  have "mread m2 b 4 = be32 crc" unfolding m2 by (rule mread_mwrite) simp_all
  then have "mem_be32 m2 b = crc" using be32_dec_be32 [of crc "[]"] by simp
  then show ?thesis using same data d(2) by (simp add: copy_done_def crc_ok_def)
qed

lemma save_cut_early: "same_outside b e m m' \<Longrightarrow> save_cut cfg a b e d m m'"
  by (simp add: save_cut_def)

text \<open>Facts about every outcome of an operation, and how they pass through a sequence of operations.\<close>

definition outcome :: "(mem \<Rightarrow> bool) \<Rightarrow> ('a \<Rightarrow> flash_state \<Rightarrow> bool) \<Rightarrow> 'a powered \<Rightarrow> bool" where
  "outcome Q R r \<longleftrightarrow> (case r of Off m \<Rightarrow> Q m | Ret x st \<Rightarrow> R x st)"

lemma outcome_simps [simp]: "outcome Q R (Off m) \<longleftrightarrow> Q m" "outcome Q R (Ret x st) \<longleftrightarrow> R x st"
  by (simp_all add: outcome_def)

lemma outcome_andthen: "outcome Q (\<lambda>x st. outcome Q R (k x st)) r \<Longrightarrow> outcome Q R (andthen r k)"
  by (cases r) simp_all

lemma outcome_mono: "outcome Q R r \<Longrightarrow> (\<And>m. Q m \<Longrightarrow> Q' m) \<Longrightarrow> (\<And>x st. R x st \<Longrightarrow> R' x st) \<Longrightarrow> outcome Q' R' r"
  by (cases r) simp_all

text \<open>What is known after the two writes of the new copy and after the first flag.\<close>

definition only_flags :: "u32 \<Rightarrow> u32 \<Rightarrow> mem \<Rightarrow> mem \<Rightarrow> bool" where
  "only_flags a b m m' \<longleftrightarrow> (\<forall>p. p \<notin> {flags_at a, flags_at b} \<longrightarrow> m' p = m p)"

definition saved :: "flash_env \<Rightarrow> u32 \<Rightarrow> u32 \<Rightarrow> u32 \<Rightarrow> byte list \<Rightarrow> mem \<Rightarrow> mem \<Rightarrow> bool" where
  "saved cfg a b e d m m' \<longleftrightarrow>
     (\<exists>m2. copy_done cfg b e d m m2 \<and> only_flags a b m2 m' \<and> m' (flags_at a) = 0 \<and> m' (flags_at b) = 1)"

lemma write_obsolete:
  assumes "banks_wf (fl_banks st2)" and "copy_done cfg b e d m (fl_mem st2)"
  shows "outcome (save_cut cfg a b e d m)
    (\<lambda>rc st. banks_wf (fl_banks st) \<and> save_cut cfg a b e d m (fl_mem st) \<and>
       only_flags a b (fl_mem st2) (fl_mem st) \<and> (rc = 0 \<longrightarrow> fl_mem st (flags_at a) = 0)) (flash_write [0] (flags_at a) st2)"
  using flash_write_flag [where st = st2 and flag = 0 and f = "flags_at a", OF assms(1)] assms
    flash_write_flag_ok [where st = st2 and flag = 0 and f = "flags_at a"]
  by (auto simp: outcome_def save_cut_def flag_written_def only_flags_def split: powered.splits)

lemma write_active:
  assumes "banks_wf (fl_banks st3)" and "copy_done cfg b e d m m2" "only_flags a b m2 (fl_mem st3)"
    and "fl_mem st3 (flags_at a) = 0" and d: "flags_at a \<noteq> flags_at b"
  shows "outcome (save_cut cfg a b e d m)
    (\<lambda>rc st. banks_wf (fl_banks st) \<and> (if rc \<noteq> 0 then save_cut cfg a b e d m (fl_mem st) else saved cfg a b e d m (fl_mem st)))
    (flash_write [1] (flags_at b) st3)"
proof -
  have "only_flags a b m2 m'" if "flag_written (fl_mem st3) (flags_at b) 1 m'" for m'
    using that assms(3) by (auto simp: only_flags_def flag_written_def)
  moreover have "m' (flags_at a) = 0" if "flag_written (fl_mem st3) (flags_at b) 1 m'" for m'
    using that assms(4) d by (auto simp: flag_written_def)
  ultimately show ?thesis
    using flash_write_flag [where st = st3 and flag = 1 and f = "flags_at b", OF assms(1)] assms(2)
      flash_write_flag_ok [where st = st3 and flag = 1 and f = "flags_at b", OF assms(1)]
    unfolding outcome_def save_cut_def saved_def only_flags_def by (auto split: powered.splits)
qed

lemma save_writes_result:
  assumes wf: "copies_wf cfg" "copies cfg a b e" "banks_wf (fl_banks st)"
    and v: "flash_addr v = a" "flash_addr_new v = b" and ram: "ram_env cfg v" and d: "d = et_data (env_ptr v)"
  shows "outcome (save_cut cfg a b e d (fl_mem st))
    (\<lambda>rc st'. banks_wf (fl_banks st') \<and>
       (if rc \<noteq> 0 then save_cut cfg a b e d (fl_mem st) (fl_mem st') else saved cfg a b e d (fl_mem st) (fl_mem st'))) (save_writes v st)"
    (is "outcome ?Q ?R _")
proof -
  let ?crc = "be32 (et_crc (env_ptr v))" and ?m = "fl_mem st"
  obtain n where n: "fe_size cfg \<le> n" "unat b + n \<le> 2 ^ 32" "unat e = unat b + n - 1" "5 < fe_size cfg"
    using copies_layout [OF wf(1,2)] by metis
  have len: "length d + 5 = fe_size cfg" using ram n(4) by (simp add: d ram_env_def ENV_SIZE_def ENV_HEADER_SIZE_REDUND_def)
  have ub: "unat (data_at b) = unat b + 5" using n unat_add_of_nat [of b 5] by (simp add: data_at_def)
  have fl: "flags_at a \<noteq> flags_at b" using copies_distinct [OF wf(1,2)] by simp
  have s3: "outcome ?Q ?R (andthen (flash_write [0] (flags_at a) st2) (\<lambda>rc st. if rc \<noteq> 0 then Ret rc st else
      flash_write [1] (flags_at b) st))" if st2: "banks_wf (fl_banks st2)" "copy_done cfg b e d ?m (fl_mem st2)" for st2
    by (rule outcome_andthen, rule outcome_mono [OF write_obsolete [OF st2]])
      (use write_active [OF _ st2(2) _ _ fl] in auto)
  have s2: "outcome ?Q ?R (andthen (flash_write ?crc b st1) (\<lambda>rc st. if rc \<noteq> 0 then Ret rc st else
      andthen (flash_write [0] (flags_at a) st) (\<lambda>rc st. if rc \<noteq> 0 then Ret rc st else flash_write [1] (flags_at b) st)))"
    if st1: "banks_wf (fl_banks st1)" "same_outside b e ?m (fl_mem st1)" "fl_mem st1 = mwrite ?m (data_at b) d" for st1
  proof (rule outcome_andthen, rule outcome_mono)
    show "outcome (same_outside b e ?m) (\<lambda>rc st. banks_wf (fl_banks st) \<and> same_outside b e ?m (fl_mem st) \<and>
        (rc = 0 \<longrightarrow> fl_mem st = mwrite (fl_mem st1) b ?crc)) (flash_write ?crc b st1)"
      using writes_within [OF writes_flash_write [OF st1(1), of b ?crc], of b e] n st1 same_outside_trans [OF st1(2)]
      by (auto simp: outcome_def split: powered.splits)
  next
    fix rc :: int and st2 :: flash_state
    assume st2: "banks_wf (fl_banks st2) \<and> same_outside b e ?m (fl_mem st2) \<and> (rc = 0 \<longrightarrow> fl_mem st2 = mwrite (fl_mem st1) b ?crc)"
    have "copy_done cfg b e d ?m (fl_mem st2)" if "rc = 0"
      using that st1(3) st2 ram by (intro copy_written [OF wf(1,2)]) (auto simp: ram_env_def d)
    then show "outcome ?Q ?R (if rc \<noteq> 0 then Ret rc st2 else andthen (flash_write [0] (flags_at a) st2)
        (\<lambda>rc st. if rc \<noteq> 0 then Ret rc st else flash_write [1] (flags_at b) st))"
      using st2 s3 [of st2] by (auto intro: save_cut_early)
  qed (rule save_cut_early)
  show ?thesis unfolding save_writes_def v obsolete_flag_def active_flag_def d [symmetric]
  proof (rule outcome_andthen, rule outcome_mono)
    show "outcome (same_outside b e ?m) (\<lambda>rc st1. banks_wf (fl_banks st1) \<and> same_outside b e ?m (fl_mem st1) \<and>
        (rc = 0 \<longrightarrow> fl_mem st1 = mwrite ?m (data_at b) d)) (flash_write d (data_at b) st)"
      using writes_within [OF writes_flash_write [OF wf(3), of "data_at b" d], of b e] n len ub wf(3)
      by (auto simp: outcome_def split: powered.splits)
  next
    fix rc :: int and st1 :: flash_state
    assume st1: "banks_wf (fl_banks st1) \<and> same_outside b e ?m (fl_mem st1) \<and> (rc = 0 \<longrightarrow> fl_mem st1 = mwrite ?m (data_at b) d)"
    show "outcome ?Q ?R (if rc \<noteq> 0 then Ret rc st1 else andthen (flash_write ?crc b st1) (\<lambda>rc st. if rc \<noteq> 0 then Ret rc st else
        andthen (flash_write [0] (flags_at a) st) (\<lambda>rc st. if rc \<noteq> 0 then Ret rc st else flash_write [1] (flags_at b) st)))"
    proof (cases "rc = 0")
      case True
      then show ?thesis using s2 [of st1] st1 by argo
    qed (use st1 in \<open>simp add: save_cut_early\<close>)
  qed (rule save_cut_early)
qed

lemma save_done_result:
  assumes "banks_wf (fl_banks st)"
  shows "\<exists>st'. save_done rc v st = Ret (rc, v) st' \<and> banks_wf (fl_banks st') \<and> fl_mem st' = fl_mem st"
proof -
  obtain rc1 st1 where p: "flash_sect_protect 1 (flash_addr v) (end_addr v) st = (rc1, st1)" by fastforce
  obtain rc2 st2 where q: "flash_sect_protect 1 (flash_addr_new v) (end_addr_new v) st1 = (rc2, st2)" by fastforce
  show ?thesis
    using flash_sect_protect_wf [OF p assms] flash_sect_protect_wf [OF q] by (simp add: save_done_def p q)
qed

lemma outcome_save_done:
  "banks_wf (fl_banks st) \<Longrightarrow> (\<And>st'. banks_wf (fl_banks st') \<Longrightarrow> fl_mem st' = fl_mem st \<Longrightarrow> R (rc, v) st') \<Longrightarrow>
   outcome Q R (save_done rc v st)"
proof -
  assume wf: "banks_wf (fl_banks st)" and R: "\<And>st'. banks_wf (fl_banks st') \<Longrightarrow> fl_mem st' = fl_mem st \<Longrightarrow> R (rc, v) st'"
  obtain st' where "save_done rc v st = Ret (rc, v) st'" "banks_wf (fl_banks st')" "fl_mem st' = fl_mem st"
    using save_done_result [OF wf] by blast
  then show ?thesis using R by simp
qed

lemma swap_copies_simps [simp]: "flash_addr (swap_copies v) = flash_addr_new v" "flash_addr_new (swap_copies v) = flash_addr v"
  "end_addr (swap_copies v) = end_addr_new v" "end_addr_new (swap_copies v) = end_addr v" "env_ptr (swap_copies v) = env_ptr v"
  by (simp_all add: swap_copies_def)

text \<open>Every outcome of \<open>saveenv\<close> on memory level: the new copy is there and marked, or the save was cut at one of its stages.\<close>

lemma saveenv_outcome:
  assumes wf: "copies_wf cfg" "copies cfg a b e" "banks_wf (fl_banks st)"
    and v: "flash_addr v = a" "flash_addr_new v = b" "end_addr_new v = e" and ram: "ram_env cfg v" and d: "d = et_data (env_ptr v)"
  shows "outcome (save_cut cfg a b e d (fl_mem st))
    (\<lambda>(rc, v') st'. banks_wf (fl_banks st') \<and>
       (if rc = 0 then v' = swap_copies v \<and> saved cfg a b e d (fl_mem st) (fl_mem st')
        else v' = v \<and> save_cut cfg a b e d (fl_mem st) (fl_mem st'))) (saveenv v st)" (is "outcome ?Q ?R _")
proof -
  let ?m = "fl_mem st"
  have fail: "outcome ?Q ?R (save_done 1 v st')" if "banks_wf (fl_banks st')" "save_cut cfg a b e d ?m (fl_mem st')" for st'
    using that by (intro outcome_save_done) auto
  have fin: "outcome ?Q ?R (save_done 0 (swap_copies v) st')" if "banks_wf (fl_banks st')" "saved cfg a b e d ?m (fl_mem st')" for st'
    using that by (intro outcome_save_done) auto
  obtain rc1 st1 where p1: "flash_sect_protect 0 (flash_addr v) (end_addr v) st = (rc1, st1)" by fastforce
  obtain rc2 st2 where p2: "flash_sect_protect 0 (flash_addr_new v) (end_addr_new v) st1 = (rc2, st2)" by fastforce
  have s1: "banks_wf (fl_banks st1)" "fl_mem st1 = ?m" using flash_sect_protect_wf [OF p1 wf(3)] by simp_all
  have s2: "banks_wf (fl_banks st2)" "fl_mem st2 = ?m" using flash_sect_protect_wf [OF p2 s1(1)] s1(2) by simp_all
  have writes: "outcome ?Q ?R (andthen (save_writes v st3) (\<lambda>rc st. if rc \<noteq> 0 then save_done 1 v st else save_done 0 (swap_copies v) st))"
    if st3: "banks_wf (fl_banks st3)" "same_outside b e ?m (fl_mem st3)" for st3
  proof (rule outcome_andthen, rule outcome_mono [OF save_writes_result [OF wf(1,2) st3(1) v(1,2) ram d]])
    have m: "save_cut cfg a b e d (fl_mem st3) m' \<Longrightarrow> save_cut cfg a b e d ?m m'"
      "saved cfg a b e d (fl_mem st3) m' \<Longrightarrow> saved cfg a b e d ?m m'" for m'
      using same_outside_trans [OF st3(2)] unfolding save_cut_def saved_def copy_done_def by blast+
    show "save_cut cfg a b e d (fl_mem st3) m' \<Longrightarrow> ?Q m'" for m' by (rule m)
    fix rc :: int and st4 :: flash_state
    assume st4: "banks_wf (fl_banks st4) \<and> (if rc \<noteq> 0 then save_cut cfg a b e d (fl_mem st3) (fl_mem st4)
      else saved cfg a b e d (fl_mem st3) (fl_mem st4))"
    show "outcome ?Q ?R (if rc \<noteq> 0 then save_done 1 v st4 else save_done 0 (swap_copies v) st4)"
      using st4 m fail [of st4] fin [of st4] by (cases "rc = 0") simp_all
  qed
  have erase: "outcome (same_outside b e ?m) (\<lambda>rc st3. banks_wf (fl_banks st3) \<and> same_outside b e ?m (fl_mem st3))
      (flash_sect_erase b e st2)"
    using flash_sect_erase_erases [OF s2(1), of b e] s2 by (auto simp: erases_def outcome_def split: powered.splits)
  have "outcome ?Q ?R (andthen (flash_sect_erase b e st2) (\<lambda>rc st. if rc \<noteq> 0 then save_done 1 v st
      else andthen (save_writes v st) (\<lambda>rc st. if rc \<noteq> 0 then save_done 1 v st else save_done 0 (swap_copies v) st)))"
  proof (rule outcome_andthen, rule outcome_mono [OF erase])
    fix rc :: int and st3 :: flash_state
    assume st3: "banks_wf (fl_banks st3) \<and> same_outside b e ?m (fl_mem st3)"
    show "outcome ?Q ?R (if rc \<noteq> 0 then save_done 1 v st3
      else andthen (save_writes v st3) (\<lambda>rc st. if rc \<noteq> 0 then save_done 1 v st else save_done 0 (swap_copies v) st))"
      using st3 fail [of st3] writes [of st3] by (cases "rc = 0") (simp_all add: save_cut_early)
  qed (rule save_cut_early)
  then show ?thesis
    using fail [of st1] fail [of st2] s1 s2 p1 p2 by (simp add: saveenv_def v save_cut_early)
qed

text \<open>The same in terms of the committed data.\<close>

lemma saveenv_result:
  assumes wf: "copies_wf cfg" and run: "running cfg v st D" and ram: "ram_env cfg v"
    and d: "d = et_data (env_ptr v)" and a: "a = flash_addr v" and b: "b = flash_addr_new v"
  shows "outcome (\<lambda>m'. clean_cut cfg (fl_mem st) a b d m' \<longrightarrow> env_stored cfg m' (insert d D))
    (\<lambda>(rc, v') st'. if rc = 0 then env_ptr v' = env_ptr v \<and> running cfg v' st' {d} \<and> saved cfg a b (end_addr_new v) d (fl_mem st) (fl_mem st')
       else v' = v \<and> (clean_cut cfg (fl_mem st) a b d (fl_mem st') \<longrightarrow> running cfg v' st' (insert d D))) (saveenv v st)"
proof -
  have c: "copies cfg a b (end_addr_new v)" "copies cfg b a (end_addr v)" "banks_wf (fl_banks st)" "stored cfg (fl_mem st) a b D"
    using run by (simp_all add: running_def a b)
  have cut: "stored cfg m' a b (insert d D)" if "save_cut cfg a b (end_addr_new v) d (fl_mem st) m'" "clean_cut cfg (fl_mem st) a b d m'" for m'
    using save_cut_stored [OF wf c(1,4)] that by blast
  have full: "stored cfg m' b a {d}" if "saved cfg a b (end_addr_new v) d (fl_mem st) m'" for m'
    using that save_full_stored [OF wf c(1)] unfolding saved_def only_flags_def by blast
  have run': "running cfg v st' E" if "banks_wf (fl_banks st')" "stored cfg (fl_mem st') a b E" for st' E
    using that c by (simp add: running_def a b)
  have swap: "running cfg (swap_copies v) st' E" if "banks_wf (fl_banks st')" "stored cfg (fl_mem st') b a E" for st' E
    using that c by (simp add: running_def a b)
  show ?thesis
  proof (rule outcome_mono [OF saveenv_outcome [OF wf c(1,3) a [symmetric] b [symmetric] refl ram d]], goal_cases)
    case 1
    then show ?case using cut stored_env_stored [OF c(1)] by blast
  next
    case (2 x st')
    then show ?case using swap full cut run' by (cases x; cases "fst x = 0") auto
  qed
qed

section \<open>The board and its environment over many power cycles\<close>

text \<open>
  A machine state is a board without power, with what its flash holds, or a running one. The second component are the
  data the environment may have when the board starts next. Every step brings its own chip events.
\<close>

datatype machine = Down mem | Up env_vars flash_state

inductive env_step :: "flash_env \<Rightarrow> flash_info list \<Rightarrow> machine \<times> byte list set \<Rightarrow> machine \<times> byte list set \<Rightarrow> bool"
  for cfg banks where
  start: "env_boot cfg \<lparr>fl_mem = m, fl_banks = banks, fl_events = es\<rparr> = Ret v st \<Longrightarrow> whole_flags cfg m (fl_mem st) \<Longrightarrow>
    env_step cfg banks (Down m, D) (Up v st, D)"
| start_cut: "env_boot cfg \<lparr>fl_mem = m, fl_banks = banks, fl_events = es\<rparr> = Off m' \<Longrightarrow> whole_flags cfg m m' \<Longrightarrow>
    env_step cfg banks (Down m, D) (Down m', D)"
| reset: "env_step cfg banks (Up v st, D) (Down (fl_mem st), D)"
| edit: "ram_env cfg (v\<lparr>env_ptr := e\<rparr>) \<Longrightarrow> env_step cfg banks (Up v st, D) (Up (v\<lparr>env_ptr := e\<rparr>) st, D)"
| save: "saveenv v (st\<lparr>fl_events := es\<rparr>) = Ret (0, v') st' \<Longrightarrow>
    env_step cfg banks (Up v st, D) (Up v' st', {et_data (env_ptr v)})"
| save_error: "saveenv v (st\<lparr>fl_events := es\<rparr>) = Ret (rc, v') st' \<Longrightarrow> rc \<noteq> 0 \<Longrightarrow>
    clean_cut cfg (fl_mem st) (flash_addr v) (flash_addr_new v) (et_data (env_ptr v)) (fl_mem st') \<Longrightarrow>
    env_step cfg banks (Up v st, D) (Up v' st', insert (et_data (env_ptr v)) D)"
| save_off: "saveenv v (st\<lparr>fl_events := es\<rparr>) = Off m' \<Longrightarrow>
    clean_cut cfg (fl_mem st) (flash_addr v) (flash_addr_new v) (et_data (env_ptr v)) m' \<Longrightarrow>
    env_step cfg banks (Up v st, D) (Down m', insert (et_data (env_ptr v)) D)"

inductive_cases env_stepE: "env_step cfg banks s t"

text \<open>The invariant of all machine states.\<close>

fun machine_ok :: "flash_env \<Rightarrow> machine \<times> byte list set \<Rightarrow> bool" where
  "machine_ok cfg (Down m, D) \<longleftrightarrow> env_stored cfg m D"
| "machine_ok cfg (Up v st, D) \<longleftrightarrow> running cfg v st D \<and> ram_env cfg v"

lemma running_events: "running cfg v (st\<lparr>fl_events := es\<rparr>) D \<longleftrightarrow> running cfg v st D"
  by (simp add: running_def)

lemma env_step_ok:
  assumes wf: "copies_wf cfg" "banks_wf banks" and step: "env_step cfg banks s t" and ok: "machine_ok cfg s"
  shows "machine_ok cfg t"
  using step ok
proof cases
  case (start m es v st D)
  then show ?thesis using env_boot_result [OF wf(1), of "\<lparr>fl_mem = m, fl_banks = banks, fl_events = es\<rparr>" D] wf(2) ok by auto
next
  case (start_cut m es m' D)
  then show ?thesis using env_boot_result [OF wf(1), of "\<lparr>fl_mem = m, fl_banks = banks, fl_events = es\<rparr>" D] wf(2) ok by auto
next
  case (reset v st D)
  then show ?thesis using ok stored_env_stored by (auto simp: running_def)
next
  case (edit v e st D)
  then show ?thesis using ok by (simp add: running_def)
next
  case (save v es st v' st' D)
  then show ?thesis using ok saveenv_result [OF wf(1) _ _ refl refl refl, of v "st\<lparr>fl_events := es\<rparr>" D] by (simp add: running_events ram_env_def)
next
  case (save_error v es st rc v' st' D)
  then have "v' = v \<and> running cfg v st' (insert (et_data (env_ptr v)) D)"
    using ok saveenv_result [OF wf(1) _ _ refl refl refl, of v "st\<lparr>fl_events := es\<rparr>" D] by (auto simp: running_events)
  then show ?thesis using save_error ok by simp
next
  case (save_off v es st m' D)
  then show ?thesis using ok saveenv_result [OF wf(1) _ _ refl refl refl, of v "st\<lparr>fl_events := es\<rparr>" D] by (simp add: running_events)
qed

end
