(* ===== verification/EnvFlashSave.thy ===== *)
theory EnvFlashSave
  imports EnvFlashInvariant
begin

text \<open>
  A save that nothing interrupts: the sector functions find the sectors of a copy, take their protection away and erase them,
  the writes into erased sectors succeed, and the next start finds what was saved.
\<close>

section \<open>Saving on a board that works\<close>

text \<open>The range is a run of sectors of one bank, from sector \<open>f\<close> to \<open>l\<close> of bank \<open>k\<close>.\<close>

definition sector_run :: "flash_info list \<Rightarrow> u32 \<Rightarrow> u32 \<Rightarrow> nat \<Rightarrow> nat \<Rightarrow> nat \<Rightarrow> bool" where
  "sector_run banks first stop k f l \<longleftrightarrow>
     k < length banks \<and> flash_id (banks ! k) \<noteq> FLASH_UNKNOWN \<and> flash_id (banks ! k) \<le> FLASH_AMD_COMP \<and>
     f \<le> l \<and> l < unat (sector_count (banks ! k)) \<and> fi_start (banks ! k) ! f = first \<and> sect_end (banks ! k) l = stop"

lemma sect_range_run:
  assumes wf: "bank_wf info" and fl: "f \<le> l" "l < unat (sector_count info)"
  shows "sect_range info (fi_start info ! f) (sect_end info l) = (int f, int l)"
proof -
  let ?n = "unat (sector_count info)" and ?F = "sect_find info (fi_start info ! f) (sect_end info l)"
  have start: "fi_start info ! i < fi_start info ! j" if "i < j" "j < ?n" for i j
    using sect_nonempty [OF wf, of i] sect_end_below [OF wf that] that by auto
  have stop: "sect_end info i < sect_end info j" if "i < j" "j < ?n" for i j
    using sect_nonempty [OF wf, of j] sect_end_below [OF wf that] that by auto
  have "fold ?F [0..<j] (-1, -1) = (if f < j then int f else -1, if l < j then int l else -1)" if "j \<le> ?n" for j
    using that
  proof (induction j)
    case (Suc i)
    then have IH: "fold ?F [0..<i] (-1, -1) = (if f < i then int f else -1, if l < i then int l else -1)" and i: "i < ?n" by simp_all
    consider "i < f" | "f \<le> i" "i \<le> l" | "l < i" by linarith
    then have "?F i (if f < i then int f else -1, if l < i then int l else -1) = (if f < Suc i then int f else -1, if l < Suc i then int l else -1)"
    proof cases
      case 1
      then show ?thesis using sect_end_below [OF wf, of i f] fl by (simp add: sect_find_def Let_def)
    next
      case 2
      have le: "fi_start info ! f \<le> sect_end info i" "fi_start info ! i \<le> sect_end info l"
        using starts_ascend [OF wf 2(1) i] sect_nonempty [OF wf i] sect_end_ascend [OF wf 2(2) fl(2)] by auto
      have eq: "fi_start info ! f = fi_start info ! i \<longleftrightarrow> i = f" "sect_end info l = sect_end info i \<longleftrightarrow> i = l"
        using start [of f i] stop [of i l] 2 i fl(2) by (cases "i = f"; cases "i = l"; auto)+
      show ?thesis unfolding sect_find_def Let_def using le eq 2 by auto
    next
      case 3
      then show ?thesis using sect_end_below [OF wf 3 i] fl by (simp add: sect_find_def Let_def)
    qed
    then show ?case using IH by simp
  qed simp
  from this [of ?n] show ?thesis using fl by (simp add: sect_range_def sectors_def)
qed

text \<open>No other bank has sectors in the range.\<close>

definition range_found :: "flash_info \<Rightarrow> u32 \<Rightarrow> u32 \<Rightarrow> bool" where
  "range_found info first stop \<longleftrightarrow> flash_id info \<noteq> FLASH_UNKNOWN \<and>
     (case sect_range info first stop of (s_first, s_last) \<Rightarrow> s_first \<ge> 0 \<and> s_first \<le> s_last)"

lemma bank_range:
  assumes "bank_wf info" and "i < unat (sector_count info)"
  shows "fi_start info ! 0 \<le> fi_start info ! i \<and> fi_start info ! i \<le> sect_end info i \<and> sect_end info i \<le> b_end info"
proof (intro conjI)
  show "fi_start info ! 0 \<le> fi_start info ! i" using starts_ascend [OF assms(1), of 0 i] assms(2) by simp
  show "fi_start info ! i \<le> sect_end info i" using assms by (rule sect_nonempty)
  have "sect_end info i \<le> sect_end info (unat (sector_count info) - 1)"
    using assms(2) by (intro sect_end_ascend [OF assms(1)]) auto
  then show "sect_end info i \<le> b_end info" using bank_facts(1,5) [OF assms(1) refl] by simp
qed

lemma bank_unique:
  assumes wf: "banks_wf banks" and "j < length banks" "flash_id (banks ! j) \<noteq> FLASH_UNKNOWN" "k < length banks" "flash_id (banks ! k) \<noteq> FLASH_UNKNOWN"
    and "fi_start (banks ! j) ! 0 \<le> a" "a \<le> b_end (banks ! j)" "fi_start (banks ! k) ! 0 \<le> a" "a \<le> b_end (banks ! k)"
  shows "j = k"
  using bank_le_bank [OF wf, of j k a a] bank_le_bank [OF wf, of k j a a] assms by simp

lemma other_bank_not_found:
  assumes wf: "banks_wf banks" and run: "sector_run banks first stop k f l" and j: "j < length banks" "j \<noteq> k"
  shows "\<not> range_found (banks ! j) first stop"
proof
  assume found: "range_found (banks ! j) first stop"
  obtain sf sl where r: "sect_range (banks ! j) first stop = (sf, sl)" by fastforce
  have wj: "bank_wf (banks ! j)" and kj: "flash_id (banks ! j) \<noteq> FLASH_UNKNOWN"
    using found banks_wf_bank [OF wf j(1)] by (auto simp: range_found_def)
  have "sf \<ge> 0" "sf \<le> sl" using found r by (auto simp: range_found_def)
  then obtain f' where f': "f' < unat (sector_count (banks ! j))" "fi_start (banks ! j) ! f' = first"
    using sect_range_found [OF wj r] by (metis le_less_trans)
  have wk: "bank_wf (banks ! k)" using run banks_wf_bank [OF wf] by (simp add: sector_run_def)
  have "f < unat (sector_count (banks ! k))" using run by (simp add: sector_run_def)
  then have k: "fi_start (banks ! k) ! 0 \<le> first" "first \<le> b_end (banks ! k)"
    using bank_range [OF wk, of f] run unfolding sector_run_def by (blast, metis order.trans)
  have "fi_start (banks ! j) ! 0 \<le> first" "first \<le> b_end (banks ! j)"
    using bank_range [OF wj f'(1)] f'(2) by (blast, metis order.trans)
  then have "j = k" using run by (intro bank_unique [OF wf j(1) kj _ _ _ _ k]) (simp_all add: sector_run_def)
  with j(2) show False ..
qed

lemma run_found: "banks_wf banks \<Longrightarrow> sector_run banks first stop k f l \<Longrightarrow> sect_range (banks ! k) first stop = (int f, int l)"
  using sect_range_run [of "banks ! k" f l] banks_wf_bank by (auto simp: sector_run_def)

section \<open>Protection\<close>

lemma fold_update_nth:
  "i < length ps \<Longrightarrow> fold (\<lambda>i ps. ps[i := p]) is ps ! i = (if i \<in> set is then p else ps ! i)"
proof (induction "is" arbitrary: ps)
  case (Cons j "is")
  then show ?case by (auto simp: nth_list_update)
qed simp

text \<open>Taking protection away never sets it, and clears it in the range.\<close>

definition clear_in :: "flash_info list \<Rightarrow> nat \<Rightarrow> nat \<Rightarrow> nat \<Rightarrow> bool" where
  "clear_in banks k f l \<longleftrightarrow> (\<forall>i. f \<le> i \<and> i \<le> l \<longrightarrow> fi_protect (banks ! k) ! i = 0)"

definition same_layout :: "flash_info \<Rightarrow> flash_info \<Rightarrow> bool" where
  "same_layout x y \<longleftrightarrow> fi_size y = fi_size x \<and> sector_count y = sector_count x \<and> flash_id y = flash_id x \<and> fi_start y = fi_start x \<and>
     length (fi_protect y) = length (fi_protect x) \<and> (\<forall>i < length (fi_protect x). fi_protect x ! i = 0 \<longrightarrow> fi_protect y ! i = 0)"

lemma same_layout_refl: "same_layout x x" by (simp add: same_layout_def)

lemma protect_banks_layout: "list_all2 same_layout infos (snd (protect_banks 0 first stop infos))"
proof (induction infos)
  case (Cons info infos)
  have "same_layout info (protect_sectors 0 a b info)" for a b
    by (simp add: same_layout_def) (simp add: protect_sectors_def fold_update_nth)
  then show ?case using Cons by (auto simp: Let_def same_layout_refl split: prod.splits)
qed simp

lemma protect_banks_count: "fst (protect_banks p first stop infos) \<ge> 0 \<and>
   (\<forall>k < length infos. range_found (infos ! k) first stop \<longrightarrow> fst (protect_banks p first stop infos) > 0 \<and>
      (\<exists>f l. sect_range (infos ! k) first stop = (f, l) \<and> snd (protect_banks p first stop infos) ! k = protect_sectors p f l (infos ! k)))"
proof (induction infos)
  case (Cons info infos)
  obtain n bs where r: "protect_banks p first stop infos = (n, bs)" by fastforce
  obtain sf sl where s: "sect_range info first stop = (sf, sl)" by fastforce
  show ?case
  proof (intro conjI allI impI)
    show "0 \<le> fst (protect_banks p first stop (info # infos))" using Cons r s by (auto simp: Let_def)
    fix k assume k: "k < length (info # infos)" and found: "range_found ((info # infos) ! k) first stop"
    show "0 < fst (protect_banks p first stop (info # infos))"
      using Cons r s k found by (cases k) (auto simp: Let_def range_found_def)
    show "\<exists>f l. sect_range ((info # infos) ! k) first stop = (f, l) \<and>
        snd (protect_banks p first stop (info # infos)) ! k = protect_sectors p f l ((info # infos) ! k)"
      using Cons r s k found by (cases k) (auto simp: Let_def range_found_def)
  qed
qed simp

lemma unprotect_run:
  assumes wf: "banks_wf (fl_banks st)" and run: "sector_run (fl_banks st) first stop k f l"
  shows "\<exists>st'. flash_sect_protect 0 first stop st = (0, st') \<and> fl_mem st' = fl_mem st \<and> fl_events st' = fl_events st \<and>
    list_all2 same_layout (fl_banks st) (fl_banks st') \<and> clear_in (fl_banks st') k f l"
proof -
  let ?banks = "fl_banks st"
  obtain n bs where r: "protect_banks 0 first stop ?banks = (n, bs)" by fastforce
  have kl: "k < length ?banks" "l < unat (sector_count (?banks ! k))" "f \<le> l" using run by (simp_all add: sector_run_def)
  have wk: "bank_wf (?banks ! k)" using run banks_wf_bank [OF wf] by (simp add: sector_run_def)
  have found: "range_found (?banks ! k) first stop"
    using run_found [OF wf run] run by (simp add: range_found_def sector_run_def)
  have n: "n > 0" "bs ! k = protect_sectors 0 (int f) (int l) (?banks ! k)"
    using protect_banks_count [of 0 first stop ?banks] found kl(1) r run_found [OF wf run] by auto
  have "fi_protect (bs ! k) ! i = 0" if "f \<le> i" "i \<le> l" for i
    using that kl(2) bank_facts(2) [OF wk refl] unfolding n(2) by (simp add: protect_sectors_def fold_update_nth del: upt_Suc)
  then show ?thesis
    using n(1) protect_banks_layout [of ?banks first stop] by (simp add: flash_sect_protect_def r clear_in_def)
qed

lemma same_layout_bank: "same_layout x y \<Longrightarrow> b_end y = b_end x \<and> sect_end y = sect_end x \<and> (bank_wf y \<longleftrightarrow> bank_wf x)"
  by (auto simp: same_layout_def b_end_def bank_wf_def sect_end_def s_end_def fun_eq_iff)

lemma same_layout_banks:
  assumes "list_all2 same_layout xs ys"
  shows "banks_wf ys \<longleftrightarrow> banks_wf xs" "sector_run ys first stop k f l \<longleftrightarrow> sector_run xs first stop k f l" "length ys = length xs"
proof -
  have len: "length ys = length xs" using assms by (rule list_all2_lengthD [symmetric])
  have e: "k < length xs \<Longrightarrow> same_layout (xs ! k) (ys ! k)" for k using assms list_all2_nthD by blast
  then have e': "k < length xs \<Longrightarrow> b_end (ys ! k) = b_end (xs ! k) \<and> sect_end (ys ! k) = sect_end (xs ! k) \<and> bank_wf (ys ! k) = bank_wf (xs ! k) \<and>
      flash_id (ys ! k) = flash_id (xs ! k) \<and> fi_start (ys ! k) = fi_start (xs ! k) \<and> sector_count (ys ! k) = sector_count (xs ! k)" for k
    using same_layout_bank by (simp add: same_layout_def)
  show "length ys = length xs" by (rule len)
  show "banks_wf ys \<longleftrightarrow> banks_wf xs" using len e' by (auto simp: banks_wf_def list_all_length)
  show "sector_run ys first stop k f l \<longleftrightarrow> sector_run xs first stop k f l" using len e' by (auto simp: sector_run_def)
qed

lemma clear_in_layout:
  assumes "list_all2 same_layout xs ys" and "clear_in xs k f l" "sector_run xs first stop k f l" "banks_wf xs"
  shows "clear_in ys k f l"
  unfolding clear_in_def
proof (intro allI impI)
  fix i assume i: "f \<le> i \<and> i \<le> l"
  have k: "k < length xs" "l < unat (sector_count (xs ! k))" "bank_wf (xs ! k)"
    using assms(3) banks_wf_bank [OF assms(4)] by (auto simp: sector_run_def)
  have "i < length (fi_protect (xs ! k))" using bank_facts(2) [OF k(3) refl] k(2) i by simp
  then show "fi_protect (ys ! k) ! i = 0"
    using list_all2_nthD [OF assms(1) k(1)] assms(2) i by (simp add: same_layout_def clear_in_def)
qed

section \<open>Erasing a run\<close>

lemma erase_banks_skip:
  "list_all (\<lambda>info. \<not> range_found info first stop) infos \<Longrightarrow>
   erase_banks (infos @ rest) first stop n rc st = erase_banks rest first stop n rc st"
  by (induction infos) (auto simp: range_found_def split: prod.splits)

lemma flash_erase_run:
  assumes run: "sector_run (fl_banks st) first stop k f l" and wf: "banks_wf (fl_banks st)"
    and clear: "clear_in (fl_banks st) k f l" and ev: "fl_events st = []"
  shows "flash_erase (fl_banks st ! k) (int f) (int l) st = Ret 0 (st\<lparr>fl_mem := \<lambda>a. if first \<le> a \<and> a \<le> stop then 0xFF else fl_mem st a\<rparr>)"
proof -
  let ?info = "fl_banks st ! k"
  have r: "flash_id ?info \<noteq> FLASH_UNKNOWN" "\<not> flash_id ?info > FLASH_AMD_COMP" "f \<le> l" "l < unat (sector_count ?info)"
    "fi_start ?info ! f = first" "sect_end ?info l = stop" "bank_wf ?info"
    using run banks_wf_bank [OF wf] by (auto simp: sector_run_def)
  have "[i \<leftarrow> [f..<Suc l]. fi_protect ?info ! i = 0] = [f..<Suc l]"
    using clear unfolding clear_in_def by (intro filter_True) auto
  moreover have "in_sectors ?info [f..<Suc l] a \<longleftrightarrow> first \<le> a \<and> a \<le> stop" for a
    using in_sectors_range [OF r(7,3,4)] r(5,6) by simp
  ultimately show ?thesis using r ev by (simp add: flash_erase_def chip_op_def del: upt_Suc)
qed

lemma erase_run:
  assumes run: "sector_run (fl_banks st) first stop k f l" and wf: "banks_wf (fl_banks st)"
    and clear: "clear_in (fl_banks st) k f l" and ev: "fl_events st = []"
  shows "flash_sect_erase first stop st = Ret 0 (st\<lparr>fl_mem := \<lambda>a. if first \<le> a \<and> a \<le> stop then 0xFF else fl_mem st a\<rparr>)"
proof -
  let ?banks = "fl_banks st"
  have k: "k < length ?banks" "flash_id (?banks ! k) \<noteq> FLASH_UNKNOWN" "f \<le> l" using run by (auto simp: sector_run_def)
  have split: "?banks = take k ?banks @ ?banks ! k # drop (Suc k) ?banks" using k(1) by (rule id_take_nth_drop)
  have no: "list_all (\<lambda>info. \<not> range_found info first stop) (take k ?banks)"
      "list_all (\<lambda>info. \<not> range_found info first stop) (drop (Suc k) ?banks)"
    using other_bank_not_found [OF wf run] by (auto simp: list_all_length)
  note skip = erase_banks_skip [OF no(2), where rest = "[]", simplified]
  have "flash_sect_erase first stop st = erase_banks (?banks ! k # drop (Suc k) ?banks) first stop 0 0 st"
    unfolding flash_sect_erase_def by (subst split) (simp add: erase_banks_skip [OF no(1)] del: erase_banks.simps)
  then show ?thesis using k run_found [OF wf run] by (simp add: skip flash_erase_run [OF assms])
qed

section \<open>Writing into a run\<close>

lemma addr2info_bank:
  assumes wf: "banks_wf banks" and k: "k < length banks" "flash_id (banks ! k) \<noteq> FLASH_UNKNOWN"
    and a: "fi_start (banks ! k) ! 0 \<le> a" "a \<le> b_end (banks ! k)"
  shows "addr2info banks a = Some k"
proof -
  have "addr2info banks a \<noteq> None" using k a
  proof (induction banks arbitrary: k)
    case (Cons info banks)
    then show ?case by (cases k) (auto simp: b_end_def)
  qed simp
  then obtain j where j: "addr2info banks a = Some j" by blast
  then show ?thesis using addr2info_Some [OF j] bank_unique [OF wf, of j k a] k a by simp
qed

lemma write_run:
  assumes run: "sector_run (fl_banks st) first stop k f l" and wf: "banks_wf (fl_banks st)"
    and clear: "clear_in (fl_banks st) k f l" and ev: "fl_events st = []"
    and src: "src \<noteq> []" "first \<le> addr" "unat addr + length src \<le> Suc (unat stop)" and w: "writable (fl_mem st) addr src"
  shows "\<exists>st'. flash_write src addr st = Ret 0 st' \<and> fl_events st' = [] \<and> fl_banks st' = fl_banks st \<and>
    fl_mem st' = mwrite (fl_mem st) addr src"
proof -
  let ?banks = "fl_banks st" and ?stop = "addr + of_nat (length src) - 1"
  let ?info = "?banks ! k"
  have r: "k < length ?banks" "flash_id ?info \<noteq> FLASH_UNKNOWN" "f \<le> l" "l < unat (sector_count ?info)"
    "fi_start ?info ! f = first" "sect_end ?info l = stop" "bank_wf ?info"
    using run banks_wf_bank [OF wf] by (auto simp: sector_run_def)
  have fit: "unat addr + length src \<le> 2 ^ 32" using src(3) unsigned_less [of stop, where ?'a = nat] by simp
  have us: "unat ?stop = unat addr + (length src - 1)" by (rule unat_stop [OF fit src(1)])
  have le: "addr \<le> ?stop" "?stop \<le> stop" using src us by (cases src; simp add: word_le_nat_alt)+
  have f: "f < unat (sector_count ?info)" using r by simp
  have lo: "fi_start ?info ! 0 \<le> addr" using bank_range [OF r(7) f] r(5) src(2) by (metis order.trans)
  have hi: "?stop \<le> b_end ?info" using bank_range [OF r(7,4)] r(6) le(2) by (metis order.trans)
  have info: "addr2info ?banks addr = Some k" "addr2info ?banks ?stop = Some k"
    using lo hi le(1) by (auto intro!: addr2info_bank [OF wf r(1,2)])
  have "\<not> protected_hit addr ?stop ?info"
  proof
    assume "protected_hit addr ?stop ?info"
    then obtain i where i: "i < unat (sector_count ?info)" "?stop \<ge> fi_start ?info ! i" "addr < sect_behind ?info i" "fi_protect ?info ! i \<noteq> 0"
      by (auto simp: protected_hit_def sectors_def list_ex_iff)
    have "i < f \<or> l < i" using i(4) clear by (auto simp: clear_in_def not_less)
    then show False
    proof
      assume "i < f"
      then have "sect_behind ?info i \<le> first"
        using bank_facts(6) [OF r(7) refl, of i] starts_ascend [OF r(7), of "Suc i" f] f r(5) by auto
      then show False using i(3) src(2) by simp
    next
      assume "l < i"
      then have "stop < fi_start ?info ! i" using sect_end_below [OF r(7) _ i(1)] r(6) by blast
      then show False using i(2) le(2) by simp
    qed
  qed
  then have "flash_write src addr st = write_banks [?info] src addr st"
    using src(1) info by (simp add: flash_write_def Let_def)
  then have "completes (flash_write src addr st)" using write_banks_completes [OF ev w, of "[?info]"] fit by (simp del: write_banks.simps)
  then obtain st' where st': "flash_write src addr st = Ret 0 st'" "fl_events st' = []" by (auto simp: completes_def)
  then show ?thesis using writes_flash_write [OF wf fit] by (auto simp: writes_def)
qed

section \<open>The start after a save\<close>

lemma env_init_active:
  assumes "copies_wf cfg" "copies cfg a b e" and ok: "crc_ok cfg m b" and fl: "m (flags_at a) = 0" "m (flags_at b) = 1"
  shows "env_init cfg m (static_vars cfg) = (static_vars cfg)\<lparr>gd_env_addr := data_at b, gd_env_valid := 1\<rparr>"
  using assms(2) unfolding copies_def
proof (elim disjE conjE)
  assume "a = fe_addr cfg" "b = fe_addr_redund cfg"
  then show ?thesis using ok fl
    by (cases "crc_ok cfg m a") (simp_all add: env_init_def static_vars_def Let_def active_flag_def obsolete_flag_def)
next
  assume "b = fe_addr cfg" "a = fe_addr_redund cfg"
  then show ?thesis using ok fl
    by (cases "crc_ok cfg m a") (simp_all add: env_init_def static_vars_def Let_def active_flag_def obsolete_flag_def)
qed

text \<open>A start with an active copy and an obsolete one changes nothing.\<close>

lemma env_boot_active:
  assumes wf: "copies_wf cfg" "copies cfg b a e" and ok: "crc_ok cfg (fl_mem st) b" and fl: "fl_mem st (flags_at a) = 0" "fl_mem st (flags_at b) = 1"
    and init: "env_init cfg (fl_mem st) (static_vars cfg) = (static_vars cfg)\<lparr>gd_env_addr := data_at b, gd_env_valid := 1\<rparr>"
  shows "\<exists>w. env_boot cfg st = Ret w st \<and> env_ptr w = read_env cfg (fl_mem st) b"
proof -
  obtain v1 where v1: "flash_addr v1 = b" "flash_addr_new v1 = a" "gd_env_addr v1 = data_at b"
    and boot: "env_boot cfg st = andthen (env_relocate_spec cfg v1 st) (\<lambda>v st. Ret (v\<lparr>gd_env_addr := data_at (fe_buffer cfg)\<rparr>) st)"
    using env_boot_chosen [OF wf one_neq_zero init] by metis
  have "mark_obsolete cfg v1 st = Ret v1 st" using fl v1 by (simp add: mark_obsolete_def obsolete_flag_def)
  moreover have "mark_active v1 st = Ret v1 st" using fl v1 by (simp add: mark_active_def active_flag_def)
  ultimately show ?thesis unfolding boot using v1 by (simp add: env_relocate_spec_def)
qed

text \<open>What \<open>saveenv\<close> saved is there when the board starts again, marked active, and there is nothing to repair.\<close>

lemma save_then_boot:
  assumes wf: "copies_wf cfg" and run: "running cfg v st D" "ram_env cfg v" and r: "saveenv v st = Ret (0, v') st'"
    and st'': "fl_mem st'' = fl_mem st'"
  shows "\<exists>w. env_boot cfg st'' = Ret w st'' \<and>
      env_ptr w = \<lparr>et_crc = et_crc (env_ptr v), et_flags = active_flag, et_data = et_data (env_ptr v)\<rparr>"
proof -
  let ?a = "flash_addr v" and ?b = "flash_addr_new v" and ?m = "fl_mem st'"
  have c: "copies cfg ?a ?b (end_addr_new v)" "copies cfg ?b ?a (end_addr v)" using run(1) by (simp_all add: running_def)
  have "saved cfg ?a ?b (end_addr_new v) (et_data (env_ptr v)) (fl_mem st) ?m"
    using saveenv_result [OF wf run refl refl refl] r by simp
  then obtain m2 where m2: "copy_done cfg ?b (end_addr_new v) (et_data (env_ptr v)) (fl_mem st) m2" "only_flags ?a ?b m2 ?m"
      and fl: "?m (flags_at ?a) = 0" "?m (flags_at ?b) = 1" unfolding saved_def by blast
  have b: "et_data (read_env cfg ?m ?b) = et_data (env_ptr v)" "crc_ok cfg ?m ?b"
    using flags_only [OF wf c(1), of ?b ?m m2] m2 by (auto simp: copy_done_def only_flags_def simp del: read_env_sel)
  have "et_crc (read_env cfg ?m ?b) = et_crc (env_ptr v)" using b run(2) by (simp add: crc_ok_read ram_env_def del: read_env_sel)
  then have "read_env cfg ?m ?b = \<lparr>et_crc = et_crc (env_ptr v), et_flags = active_flag, et_data = et_data (env_ptr v)\<rparr>"
    using b(1) fl(2) by (intro env_t.equality) (simp_all add: active_flag_def)
  then show ?thesis
    using env_boot_active [OF wf c(2), of st''] env_init_active [OF wf c(1) b(2) fl] b(2) fl by (simp add: st'' del: read_env_sel)
qed

section \<open>The whole save\<close>

lemma writable_FF:
  assumes "\<And>i. i < length src \<Longrightarrow> m (addr + of_nat i) = 0xFF"
  shows "writable m addr src"
proof -
  have "mread m addr (length src) = replicate (length src) 0xFF"
    using assms by (intro nth_equalityI) auto
  moreover have "map2 (AND) (replicate (length src) 0xFF) src = src" by (induction src) simp_all
  ultimately show ?thesis by (simp add: writable_def)
qed

lemma writable_zero: "writable m addr [0]"
  by (simp add: writable_def)

text \<open>A byte of the new copy is still erased when the writes before it did not reach it.\<close>

lemma mwrite_before:
  assumes le: "unat addr + length src \<le> unat p"
  shows "mwrite m addr src p = m p"
proof -
  have p: "unat p < 2 ^ 32" using unsigned_less [of p, where ?'a = nat] by simp
  have "unat (p - addr) = unat p - unat addr" using le by (intro unat_sub) (simp add: word_le_nat_alt)
  then have "\<not> unat (p - addr) < length src" using le by linarith
  moreover have "length src \<le> 2 ^ 32" using le p by linarith
  ultimately show ?thesis by (simp add: mwrite_apply)
qed

lemma mwrite_behind:
  assumes "unat p < unat addr" and "unat addr + length src \<le> 2 ^ 32"
  shows "mwrite m addr src p = m p"
proof (cases "src = []")
  case False
  then have "unat (addr + of_nat (length src) - 1) = unat addr + (length src - 1)" using unat_stop assms(2) by blast
  then have "unat addr + length src \<le> Suc (unat (addr + of_nat (length src) - 1))" by linarith
  then show ?thesis using assms(1) by (intro mwrite_within [of addr]) (auto simp: word_less_nat_alt)
qed simp

lemma unprotect_both:
  assumes "banks_wf (fl_banks st)" "fl_events st = []"
    and ra: "sector_run (fl_banks st) a ea ka fa la" and rb: "sector_run (fl_banks st) b eb kb fb lb"
  obtains st1 st2 where "flash_sect_protect 0 a ea st = (0, st1)" "flash_sect_protect 0 b eb st1 = (0, st2)"
    "fl_mem st2 = fl_mem st" "fl_events st2 = []" "banks_wf (fl_banks st2)"
    "sector_run (fl_banks st2) a ea ka fa la" "clear_in (fl_banks st2) ka fa la"
    "sector_run (fl_banks st2) b eb kb fb lb" "clear_in (fl_banks st2) kb fb lb"
proof -
  obtain st1 where s1: "flash_sect_protect 0 a ea st = (0, st1)" "fl_mem st1 = fl_mem st" "fl_events st1 = []"
      "list_all2 same_layout (fl_banks st) (fl_banks st1)" "clear_in (fl_banks st1) ka fa la"
    using unprotect_run [OF assms(1) ra] assms(2) by auto
  note l1 = same_layout_banks [OF s1(4)]
  obtain st2 where s2: "flash_sect_protect 0 b eb st1 = (0, st2)" "fl_mem st2 = fl_mem st" "fl_events st2 = []"
      "list_all2 same_layout (fl_banks st1) (fl_banks st2)" "clear_in (fl_banks st2) kb fb lb"
    using unprotect_run [of st1 b eb kb fb lb] assms(1) rb s1(2,3) l1 by auto
  note l2 = same_layout_banks [OF s2(4)]
  show thesis
    using that [OF s1(1) s2(1)] s2 l1 l2 assms clear_in_layout [OF s2(4) s1(5)] by auto
qed

lemma save_writes_run:
  assumes wf: "copies_wf cfg" "copies cfg a b e" "copies cfg b a ea" and v: "flash_addr v = a" "flash_addr_new v = b" and ram: "ram_env cfg v"
    and st: "banks_wf (fl_banks st)" "fl_events st = []"
    and ra: "sector_run (fl_banks st) a ea ka fa la" "clear_in (fl_banks st) ka fa la"
    and rb: "sector_run (fl_banks st) b e kb fb lb" "clear_in (fl_banks st) kb fb lb"
    and erased: "\<And>p. b \<le> p \<Longrightarrow> p \<le> e \<Longrightarrow> fl_mem st p = 0xFF"
  shows "\<exists>st'. save_writes v st = Ret 0 st' \<and> fl_events st' = []"
proof -
  let ?d = "et_data (env_ptr v)" and ?crc = "be32 (et_crc (env_ptr v))" and ?m = "fl_mem st"
  obtain n where n: "fe_size cfg \<le> n" "unat b + n \<le> 2 ^ 32" "unat a + fe_size cfg \<le> 2 ^ 32" "unat e = unat b + n - 1" "5 < fe_size cfg"
    using copies_layout [OF wf(1,2)] by metis
  obtain n' where n': "fe_size cfg \<le> n'" "unat a + n' \<le> 2 ^ 32" "unat ea = unat a + n' - 1"
    using copies_layout [OF wf(1,3)] by metis
  have len: "length ?d + 5 = fe_size cfg" using ram n(5) by (simp add: ram_env_def ENV_SIZE_def ENV_HEADER_SIZE_REDUND_def)
  then have ne: "?d \<noteq> []" using n(5) by auto
  have u: "unat (data_at b) = unat b + 5" "unat (flags_at b) = unat b + 4" "unat (flags_at a) = unat a + 4"
    using n unat_add_of_nat [of b 5] unat_add_of_nat [of b 4] unat_add_of_nat [of a 4] by (simp_all add: data_at_def flags_at_def)
  let ?ok = "\<lambda>st'. fl_events st' = [] \<and> fl_banks st' = fl_banks st"
  have wb: "\<exists>st'. flash_write src addr st'' = Ret 0 st' \<and> ?ok st' \<and> fl_mem st' = mwrite (fl_mem st'') addr src"
    if "?ok st''" "src \<noteq> []" "writable (fl_mem st'') addr src" "unat b \<le> unat addr" "unat addr + length src \<le> Suc (unat e)" for st'' src addr
    using write_run [of st'' b e kb fb lb src addr] rb st(1) that by (simp add: word_le_nat_alt)
  have er: "?m (addr + of_nat i) = 0xFF" if "i < k" "unat b \<le> unat addr" "unat addr + k \<le> Suc (unat e)" for addr i k
    using that n unat_add_of_nat [of addr i] by (intro erased) (auto simp: word_le_nat_alt)
  have "writable ?m (data_at b) ?d" by (rule writable_FF) (use er u len n in auto)
  then obtain st4 where s4: "flash_write ?d (data_at b) st = Ret 0 st4" "?ok st4" "fl_mem st4 = mwrite ?m (data_at b) ?d"
    using wb [of st ?d "data_at b"] st(2) n len u ne by auto
  have "writable (fl_mem st4) b ?crc"
  proof (rule writable_FF)
    fix i assume i: "i < length ?crc"
    then have "unat (b + of_nat i) = unat b + i" using n by (intro unat_add_of_nat) auto
    then show "fl_mem st4 (b + of_nat i) = 0xFF"
      unfolding s4(3) using i u n len er [of i 4 b] by (subst mwrite_behind) auto
  qed
  then obtain st5 where s5: "flash_write ?crc b st4 = Ret 0 st5" "?ok st5" "fl_mem st5 = mwrite (mwrite ?m (data_at b) ?d) b ?crc"
    using wb [of st4 ?crc b] s4 n by (auto simp: be32_def)
  obtain st6 where s6: "flash_write [0] (flags_at a) st5 = Ret 0 st6" "?ok st6" "fl_mem st6 = mwrite (fl_mem st5) (flags_at a) [0]"
    using write_run [of st5 a ea ka fa la "[0]" "flags_at a"] ra st(1) s5(2) n(5) n' u by (auto simp: word_le_nat_alt writable_zero)
  have "fl_mem st6 (flags_at b) = fl_mem st5 (flags_at b)"
    using copies_distinct [OF wf(1,2)] by (auto simp: s6(3))
  also have "\<dots> = mwrite ?m (data_at b) ?d (flags_at b)" unfolding s5(3) using u by (intro mwrite_before) simp
  also have "\<dots> = ?m (flags_at b)" using u n len by (intro mwrite_behind) auto
  also have "\<dots> = 0xFF" using u n by (intro erased) (auto simp: word_le_nat_alt)
  finally have "writable (fl_mem st6) (flags_at b) [1]" by (intro writable_FF) simp
  then obtain st7 where s7: "flash_write [1] (flags_at b) st6 = Ret 0 st7" "?ok st7"
    using wb [of st6 "[1]" "flags_at b"] s6(2) n u by auto
  then show ?thesis
    by (simp add: save_writes_def v s4(1) s5(1) s6(1) obsolete_flag_def active_flag_def)
qed

lemma saveenv_success:
  assumes wf: "copies_wf cfg" and run: "running cfg v st D" "ram_env cfg v" and ev: "fl_events st = []"
    and ra: "sector_run (fl_banks st) (flash_addr v) (end_addr v) ka fa la"
    and rb: "sector_run (fl_banks st) (flash_addr_new v) (end_addr_new v) kb fb lb"
  shows "\<exists>v' st'. saveenv v st = Ret (0, v') st' \<and> fl_events st' = [] \<and>
    (\<exists>w. env_boot cfg st' = Ret w st' \<and> et_data (env_ptr w) = et_data (env_ptr v))"
proof -
  have c: "copies cfg (flash_addr v) (flash_addr_new v) (end_addr_new v)" "copies cfg (flash_addr_new v) (flash_addr v) (end_addr v)"
    and bw: "banks_wf (fl_banks st)" using run(1) by (simp_all add: running_def)
  obtain st1 st2 where p: "flash_sect_protect 0 (flash_addr v) (end_addr v) st = (0, st1)"
      "flash_sect_protect 0 (flash_addr_new v) (end_addr_new v) st1 = (0, st2)"
    and s2: "fl_mem st2 = fl_mem st" "fl_events st2 = []" "banks_wf (fl_banks st2)"
      "sector_run (fl_banks st2) (flash_addr v) (end_addr v) ka fa la" "clear_in (fl_banks st2) ka fa la"
      "sector_run (fl_banks st2) (flash_addr_new v) (end_addr_new v) kb fb lb" "clear_in (fl_banks st2) kb fb lb"
    using unprotect_both [OF bw ev ra rb] .
  let ?st3 = "st2\<lparr>fl_mem := \<lambda>p. if flash_addr_new v \<le> p \<and> p \<le> end_addr_new v then 0xFF else fl_mem st2 p\<rparr>"
  have erase: "flash_sect_erase (flash_addr_new v) (end_addr_new v) st2 = Ret 0 ?st3" by (rule erase_run [OF s2(6,3,7,2)])
  obtain st4 where s4: "save_writes v ?st3 = Ret 0 st4" "fl_events st4 = []"
    using save_writes_run [OF wf c refl refl run(2), of ?st3 ka fa la kb fb lb] s2 by auto
  have "saveenv v st = save_done 0 (swap_copies v) st4" by (simp add: saveenv_def p erase s4(1))
  then obtain st' where st': "saveenv v st = Ret (0, swap_copies v) st'" "fl_events st' = []"
    using s4(2) by (auto simp: save_done_def flash_sect_protect_def split: prod.splits)
  then show ?thesis using save_then_boot [OF wf run st'(1) refl] by auto
qed

end
