(* ===== verification/EnvFlashCorrect.thy ===== *)
theory EnvFlashCorrect
  imports EnvFlashSave EnvironmentCorrect
begin

text \<open>The properties of the environment in flash, with a small board on which they are evaluated.\<close>

section \<open>The properties\<close>

text \<open>
  C6: a board that saves its environment in two copies and loses power at any time, also in the middle of a save or of the
  repairs of the next start, starts with the environment of its last successful save or of a later attempt, never with a mixture. The
  steps assume two things of the chip (\<open>clean_cut\<close>, \<open>whole_flags\<close>): an operation that is interrupted or fails leaves the flag byte
  of a copy as it was or writes it to one of the values 0, 1 and 0xFF, and a half-written copy does not pass its CRC by chance. And
  they assume one thing of the program (\<open>ram_env\<close>): what is saved is an environment in RAM whose CRC matches its data. \<open>setenv\<close>
  leaves such an environment when it succeeds, but not when the new value does not fit; and what a flag byte that is torn does is the next theorem.
\<close>

theorem env_survives_power_failure:
  assumes wf: "copies_wf cfg" "banks_wf banks" and st: "env_stored cfg m D"
    and steps: "(env_step cfg banks)\<^sup>*\<^sup>* (Down m, D) (Down m', D')"
    and boot: "env_boot cfg \<lparr>fl_mem = m', fl_banks = banks, fl_events = es\<rparr> = Ret v st'" "whole_flags cfg m' (fl_mem st')"
  shows "et_data (env_ptr v) \<in> D'"
proof -
  have "machine_ok cfg (Down m', D')"
    using steps st by (induction rule: rtranclp_induct) (auto intro: env_step_ok [OF wf])
  then show ?thesis
    using env_boot_result [OF wf(1), of "\<lparr>fl_mem = m', fl_banks = banks, fl_events = es\<rparr>" D'] wf(2) boot by simp
qed

text \<open>
  when both copies pass their CRC but one flag is 0 and the other is none of 0, 1 and 0xFF, as an interrupted write of the
  flag may leave it, \<open>env_init\<close> chooses neither and the board starts with the default environment.
\<close>

theorem env_init_torn_flag:
  assumes "crc_ok cfg m (fe_addr cfg)" "crc_ok cfg m (fe_addr_redund cfg)" "length (fe_default cfg) \<le> ENV_SIZE cfg"
    and "m (flags_at (fe_addr cfg)) = 0" "m (flags_at (fe_addr_redund cfg)) \<notin> {0, 1, 0xFF}"
  shows "\<exists>v. env_boot cfg \<lparr>fl_mem = m, fl_banks = banks, fl_events = es\<rparr> = Ret v \<lparr>fl_mem = m, fl_banks = banks, fl_events = es\<rparr> \<and>
    et_data (env_ptr v) = default_data cfg"
  using assms by (simp add: env_boot_def env_init_def env_relocate_redund_def static_vars_def Let_def active_flag_def
      obsolete_flag_def default_data_def)

section \<open>A board\<close>

text \<open>A small board with two copies of eight bytes in an erased flash, and an environment to save.\<close>

definition small_bank :: flash_info where
  "small_bank = \<lparr>fi_size = 16, sector_count = 2, flash_id = 5, fi_start = [0x40000000, 0x40000008], fi_protect = [0, 1]\<rparr>"

definition small_flash :: "mem \<Rightarrow> chip_event list \<Rightarrow> flash_state" where
  "small_flash m es = \<lparr>fl_mem = m, fl_banks = [small_bank], fl_events = es\<rparr>"

definition small_cfg :: flash_env where
  "small_cfg = \<lparr>fe_addr = 0x40000000, fe_addr_redund = 0x40000008, fe_size = 8, fe_size_redund = 8,
     fe_default = [0, 0], fe_default_addr = 0x40000020, fe_buffer = 0x1000\<rparr>"

definition small_env :: env_t where
  "small_env = \<lparr>et_crc = 1438416925, et_flags = 0xFF, et_data = [1, 2, 3]\<rparr>"

fun is_ret :: "('a \<Rightarrow> flash_state \<Rightarrow> bool) \<Rightarrow> 'a powered \<Rightarrow> bool" where
  "is_ret P (Off m) = False"
| "is_ret P (Ret x st) = P x st"

fun is_off :: "(mem \<Rightarrow> bool) \<Rightarrow> 'a powered \<Rightarrow> bool" where
  "is_off P (Off m) = P m"
| "is_off P (Ret x st) = False"

lemma is_retE: "is_ret P r \<Longrightarrow> (\<And>x st. r = Ret x st \<Longrightarrow> P x st \<Longrightarrow> thesis) \<Longrightarrow> thesis"
  by (cases r) auto

lemma is_offE: "is_off P r \<Longrightarrow> (\<And>m. r = Off m \<Longrightarrow> P m \<Longrightarrow> thesis) \<Longrightarrow> thesis"
  by (cases r) auto

lemma small_wf: "banks_wf [small_bank]" "copies_wf small_cfg"
  by (simp_all add: banks_wf_def bank_wf_def small_bank_def b_end_def Let_def FLASH_UNKNOWN_def upt_rec)
    (simp add: copies_wf_def small_cfg_def ENV_SIZE_def ENV_HEADER_SIZE_REDUND_def)

lemma small_erased: "\<not> crc_ok small_cfg (\<lambda>_. 0xFF) 0x40000000" "\<not> crc_ok small_cfg (\<lambda>_. 0xFF) 0x40000008"
  by code_simp+

lemma small_crc: "crc32 0 (Some [1, 2, 3]) = 1438416925"
  by code_simp

lemma small_data: "default_data small_cfg = [0, 0, 0]" "ENV_SIZE small_cfg = 3"
  by code_simp+

lemma small_stored: "stored small_cfg (\<lambda>_. 0xFF) 0x40000000 0x40000008 {[0, 0, 0]}"
  using small_erased by (simp add: stored_def small_data)

text \<open>The power fails when the first flag is written: the new copy is complete.\<close>

theorem env_survives_power_failure_witness:
  "\<exists>m' v st'. (env_step small_cfg [small_bank])\<^sup>*\<^sup>* (Down (\<lambda>_. 0xFF), {[0, 0, 0]}) (Down m', {[1, 2, 3], [0, 0, 0]}) \<and>
     env_boot small_cfg (small_flash m' []) = Ret v st' \<and> et_data (env_ptr v) \<in> {[1, 2, 3], [0, 0, 0]}"
proof -
  let ?es = "[Completes, Completes, Completes, Power_fails (\<lambda>_. 0xFF)]"
  have "is_ret (\<lambda>v0 st0. whole_flags small_cfg (\<lambda>_. 0xFF) (fl_mem st0) \<and>
     is_off (\<lambda>m'. clean_cut small_cfg (fl_mem st0) (flash_addr v0) (flash_addr_new v0) [1, 2, 3] m' \<and>
        is_ret (\<lambda>v st'. whole_flags small_cfg m' (fl_mem st')) (env_boot small_cfg (small_flash m' [])))
       (saveenv (v0\<lparr>env_ptr := small_env\<rparr>) (st0\<lparr>fl_events := ?es\<rparr>)))
     (env_boot small_cfg (small_flash (\<lambda>_. 0xFF) []))"
    by code_simp
  then obtain v0 st0 m' v st' where r: "env_boot small_cfg (small_flash (\<lambda>_. 0xFF) []) = Ret v0 st0"
      "whole_flags small_cfg (\<lambda>_. 0xFF) (fl_mem st0)"
      "saveenv (v0\<lparr>env_ptr := small_env\<rparr>) (st0\<lparr>fl_events := ?es\<rparr>) = Off m'"
      "clean_cut small_cfg (fl_mem st0) (flash_addr v0) (flash_addr_new v0) [1, 2, 3] m'"
      "env_boot small_cfg (small_flash m' []) = Ret v st'" "whole_flags small_cfg m' (fl_mem st')"
    by (elim is_retE is_offE conjE) blast
  let ?d = "{[0, 0, 0]}" and ?v = "v0\<lparr>env_ptr := small_env\<rparr>"
  have s1: "env_step small_cfg [small_bank] (Down (\<lambda>_. 0xFF), ?d) (Up v0 st0, ?d)"
    by (rule start [OF r(1) [unfolded small_flash_def] r(2)])
  have s2: "env_step small_cfg [small_bank] (Up v0 st0, ?d) (Up ?v st0, ?d)"
    by (rule edit) (simp add: ram_env_def small_env_def small_data small_crc)
  have s3: "env_step small_cfg [small_bank] (Up ?v st0, ?d) (Down m', insert (et_data (env_ptr ?v)) ?d)"
    by (rule save_off [OF r(3)]) (use r(4) in \<open>simp add: small_env_def\<close>)
  have steps: "(env_step small_cfg [small_bank])\<^sup>*\<^sup>* (Down (\<lambda>_. 0xFF), ?d) (Down m', insert (et_data (env_ptr ?v)) ?d)"
    using s1 s2 s3 by (meson converse_rtranclp_into_rtranclp r_into_rtranclp)
  have "env_stored small_cfg (\<lambda>_. 0xFF) ?d"
    using small_stored by (simp add: env_stored_def small_cfg_def)
  then have "et_data (env_ptr v) \<in> insert (et_data (env_ptr ?v)) ?d"
    using env_survives_power_failure [OF small_wf(2,1) _ steps r(5) [unfolded small_flash_def] r(6)] by blast
  then show ?thesis using steps r(5) by (auto simp: small_env_def)
qed

lemma small_running:
  "running small_cfg ((static_vars small_cfg)\<lparr>env_ptr := small_env\<rparr>) (small_flash (\<lambda>_. 0xFF) []) {[0, 0, 0]}"
  using small_stored small_wf(1) by (simp add: running_def static_vars_def copies_def small_flash_def small_cfg_def)

lemma small_runs: "sector_run [small_bank] 0x40000000 0x40000007 0 0 0" "sector_run [small_bank] 0x40000008 0x4000000F 0 1 1"
  by (simp_all add: sector_run_def small_bank_def FLASH_UNKNOWN_def FLASH_AMD_COMP_def sect_end_def s_end_def b_end_def)

text \<open>
  C8: on a board whose chip completes every operation and whose copies are runs of whole sectors, \<open>saveenv\<close> returns 0, and the
  next start finds the environment that was saved. The board has started, with its copies in the state that the invariant of the
  steps above keeps (\<open>running\<close>), and the CRC of the environment in RAM matches its data (\<open>ram_env\<close>): \<open>saveenv\<close> stores the
  CRC as it finds it, so that after a \<open>setenv\<close> that failed for lack of room the copy it writes is not accepted by the next start.
\<close>

theorem saveenv_succeeds:
  assumes "copies_wf cfg" and "running cfg v st D" "ram_env cfg v" and "fl_events st = []"
    and "sector_run (fl_banks st) (flash_addr v) (end_addr v) ka fa la"
    and "sector_run (fl_banks st) (flash_addr_new v) (end_addr_new v) kb fb lb"
  shows "\<exists>v' st' w. saveenv v st = Ret (0, v') st' \<and> env_boot cfg st' = Ret w st' \<and> et_data (env_ptr w) = et_data (env_ptr v)"
  using saveenv_success [OF assms] by blast

theorem saveenv_succeeds_witness:
  "\<exists>v' st' w. saveenv ((static_vars small_cfg)\<lparr>env_ptr := small_env\<rparr>) (small_flash (\<lambda>_. 0xFF) []) = Ret (0, v') st' \<and>
     env_boot small_cfg st' = Ret w st' \<and> et_data (env_ptr w) = [1, 2, 3]"
proof -
  have "ram_env small_cfg ((static_vars small_cfg)\<lparr>env_ptr := small_env\<rparr>)"
    by (simp add: ram_env_def small_env_def small_data small_crc)
  then show ?thesis
    using saveenv_succeeds [OF small_wf(2) small_running, of 0 0 0 0 1 1] small_runs
    by (simp add: small_flash_def static_vars_def small_cfg_def) (simp add: small_env_def)
qed

definition torn_flash :: mem where
  "torn_flash = mwrite (\<lambda>_. 0) 0x40000000 ([0x55, 0xBC, 0x80, 0x1D, 0, 1, 2, 3] @ [0x55, 0xBC, 0x80, 0x1D, 3, 1, 2, 3])"

theorem env_init_torn_flag_witness:
  "\<exists>v. env_boot small_cfg (small_flash torn_flash []) = Ret v (small_flash torn_flash []) \<and> et_data (env_ptr v) = [0, 0, 0]"
proof -
  have ok: "crc_ok small_cfg torn_flash 0x40000000" "crc_ok small_cfg torn_flash 0x40000008" by code_simp+
  have fl: "torn_flash (flags_at 0x40000000) = 0" "torn_flash (flags_at 0x40000008) = 3" by code_simp+
  have "\<exists>v. env_boot small_cfg \<lparr>fl_mem = torn_flash, fl_banks = [small_bank], fl_events = []\<rparr> =
      Ret v \<lparr>fl_mem = torn_flash, fl_banks = [small_bank], fl_events = []\<rparr> \<and> et_data (env_ptr v) = default_data small_cfg"
    by (rule env_init_torn_flag) (use ok fl small_data in \<open>simp_all add: small_cfg_def\<close>)
  then show ?thesis by (simp add: small_flash_def small_data)
qed

section \<open>A setting survives\<close>

text \<open>
  C7: the path of a setting: a variable that is set, saved and looked up after the next start has its new value, and every other variable the
  value it had.
\<close>

theorem setting_survives:
  assumes "copies_wf cfg" "running cfg v st D" "fl_events st = []"
    and "sector_run (fl_banks st) (flash_addr v) (end_addr v) ka fa la"
    and "sector_run (fl_banks st) (flash_addr_new v) (end_addr_new v) kb fb lb"
    and es: "env_models (env_data s) es" "distinct (map fst es)" "length (env_data s) = ENV_SIZE cfg"
    and name: "wf_name name" "plain_name name" "0 \<notin> set val"
    and room: "length (env_bytes (drop_var name es)) + length name + length val + 3 \<le> length (env_data s)"
  shows "\<exists>s' v' st' w. setenv ecfg name (Some val) s = Some (0, s') \<and>
    saveenv (v\<lparr>env_ptr := \<lparr>et_crc = env_crc s', et_flags = flag, et_data = env_data s'\<rparr>\<rparr>) st = Ret (0, v') st' \<and>
    env_boot cfg st' = Ret w st' \<and>
    (\<forall>n. wf_name n \<longrightarrow> getenv_str (et_data (env_ptr w)) n = (if n = name then Some (Some val) else getenv_str (env_data s) n))"
proof -
  obtain s' where s': "setenv ecfg name (Some val) s = Some (0, s')" "env_models (env_data s') (drop_var name es @ [(name, val)])"
      "env_crc s' = crc32 0 (Some (env_data s'))" "length (env_data s') = length (env_data s)"
    using setenv_room [OF es(1) name room] by blast
  let ?v = "v\<lparr>env_ptr := \<lparr>et_crc = env_crc s', et_flags = flag, et_data = env_data s'\<rparr>\<rparr>"
  have "running cfg ?v st D" "ram_env cfg ?v" using assms(2) s'(3,4) es(3) by (simp_all add: running_def ram_env_def)
  then obtain v' st' w where b: "saveenv ?v st = Ret (0, v') st'" "env_boot cfg st' = Ret w st'" "et_data (env_ptr w) = env_data s'"
    using saveenv_success [OF assms(1) _ _ assms(3), of ?v D ka fa la kb fb lb] assms(4,5) by auto
  have "getenv_str (env_data s') n = (if n = name then Some (Some val) else getenv_str (env_data s) n)" if "wf_name n" for n
    using getenv_models [OF s'(2) that] getenv_models [OF es(1) that] map_of_set_var [OF es(2), of name val n]
    by (auto simp: getenv_str_def simp del: map_of_append)
  then show ?thesis using s'(1) b by (metis (no_types))
qed

text \<open>A board whose environment has 12 bytes of data.\<close>

definition env_bank :: flash_info where
  "env_bank = \<lparr>fi_size = 34, sector_count = 2, flash_id = 5, fi_start = [0x40000000, 0x40000011], fi_protect = [0, 1]\<rparr>"

definition env_flash_cfg :: flash_env where
  "env_flash_cfg = \<lparr>fe_addr = 0x40000000, fe_addr_redund = 0x40000011, fe_size = 17, fe_size_redund = 17,
     fe_default = [0, 0], fe_default_addr = 0x40000040, fe_buffer = 0x1000\<rparr>"

theorem setting_survives_witness:
  "\<exists>D s' v' st' w. setenv cfg_example (str ''a'') (Some (str ''567'')) env_example = Some (0, s') \<and>
    saveenv ((static_vars env_flash_cfg)\<lparr>env_ptr := \<lparr>et_crc = env_crc s', et_flags = 0xFF, et_data = env_data s'\<rparr>\<rparr>)
      \<lparr>fl_mem = (\<lambda>_. 0xFF), fl_banks = [env_bank], fl_events = []\<rparr> = Ret (0, v') st' \<and>
    env_boot env_flash_cfg st' = Ret w st' \<and> getenv_str (et_data (env_ptr w)) (str ''a'') = Some (Some (str ''567''))"
proof -
  let ?st = "\<lparr>fl_mem = (\<lambda>_. 0xFF), fl_banks = [env_bank], fl_events = []\<rparr> :: flash_state" and ?v = "static_vars env_flash_cfg"
  have size: "ENV_SIZE env_flash_cfg = 12" by (simp add: env_flash_cfg_def ENV_SIZE_def ENV_HEADER_SIZE_REDUND_def)
  have wf: "copies_wf env_flash_cfg" by (simp add: copies_wf_def size) (simp add: env_flash_cfg_def)
  have bank: "banks_wf [env_bank]"
    by (simp add: banks_wf_def bank_wf_def env_bank_def b_end_def Let_def FLASH_UNKNOWN_def upt_rec)
  let ?D = "{default_data env_flash_cfg, replicate 12 0xFF}"
  have "stored env_flash_cfg (\<lambda>_. 0xFF) 0x40000000 0x40000011 ?D"
    using mread_eqI by (auto simp: stored_def whole_flag_def size list_eq_iff_nth_eq)
  then have run: "running env_flash_cfg ?v ?st ?D"
    using bank by (simp add: running_def copies_def static_vars_def) (simp add: env_flash_cfg_def)
  have runs: "sector_run [env_bank] 0x40000000 0x40000010 0 0 0" "sector_run [env_bank] 0x40000011 0x40000021 0 1 1"
    by (simp_all add: sector_run_def env_bank_def FLASH_UNKNOWN_def FLASH_AMD_COMP_def sect_end_def s_end_def b_end_def)
  have v: "flash_addr ?v = 0x40000000" "flash_addr_new ?v = 0x40000011" "end_addr ?v = 0x40000010" "end_addr_new ?v = 0x40000021"
    by (simp_all add: static_vars_def env_flash_cfg_def)
  have wfn: "wf_name (str ''a'')" "plain_name (str ''a'')" by (simp_all add: wf_name_def plain_name_def)
  show ?thesis
    using setting_survives [OF wf run, where ka = 0 and fa = 0 and la = 0 and kb = 0 and fb = 1 and lb = 1 and s = env_example and
        es = "[(str ''a'', str ''1'')]" and name = "str ''a''" and val = "str ''567''" and ecfg = cfg_example and flag = "0xFF"]
      runs env_example_models wfn by (auto simp: v size env_example_def)
qed

end
