(* ===== verification/Spec2Isabelle.thy ===== *)
theory Spec2Isabelle
  imports Crc32 SrecordCorrect EnvironmentCorrect LineEditCorrect CmdLineCorrect
    ImageCorrect BootmCorrect BootImage GunzipCorrect Date TftpCorrect NetRetry NetErrors NetBootCorrect DhcpBoot
    FlashCmd EnvFlashCorrect
begin

text \<open>
  \<^bold>\<open>The program.\<close> PPCBoot 2.0.0, a boot monitor for PowerPC and ARM boards (the ancestor of U-Boot). After power-on it reads its settings
  (the \<^emph>\<open>environment\<close>), waits a few seconds for a key, and runs the boot command or a command line typed at
  the console. Commands load files over the serial line or the network into memory, check and start the images
  that the host tool \<^verbatim>\<open>mkimage\<close> makes, and change the settings. This development models that path, from the
  characters and frames that come in to the jump into the kernel, and the library routines on it.

  \<^bold>\<open>The parts and how they interact.\<close> All file names are under \<^verbatim>\<open>src/\<close>.

  \<^item> \<open>Prelude\<close>, \<open>Memory\<close>: C integers (\<open>byte\<close>, \<open>u16\<close>, \<open>u32\<close> are words of their width, so arithmetic wraps as on
    the target), C strings as byte lists, big-endian encodings; the target's memory as one byte at every address.
  \<^item> \<open>Crc32\<close> (\<^verbatim>\<open>lib_generic/crc32.c\<close>), \<open>Ctype\<close> (\<^verbatim>\<open>ctype.c\<close>), \<open>Vsprintf\<close> (\<^verbatim>\<open>vsprintf.c\<close>), \<open>Date\<close> (\<^verbatim>\<open>rtc/date.c\<close>):
    the library routines the rest calls.
  \<^item> \<open>Console\<close> (\<^verbatim>\<open>common/console.c\<close>: the standard devices) and \<open>Environment\<close> (\<^verbatim>\<open>common/cmd_nvedit.c\<close>,
    \<^verbatim>\<open>env_common.c\<close>): the record \<open>env_state\<close> holds the data area, its CRC and the globals that \<open>_do_setenv\<close>
    updates with it (\<^verbatim>\<open>load_addr\<close>, \<^verbatim>\<open>BootFile\<close>, the board's addresses, the baud rate, the console).
  \<^item> \<open>Flash\<close> (\<^verbatim>\<open>common/flash.c\<close>, the sector functions of \<^verbatim>\<open>cmd_flash.c\<close>, the driver \<^verbatim>\<open>board/tqm8xx/flash.c\<close>),
    \<open>FlashCmd\<close> (the commands of \<^verbatim>\<open>cmd_flash.c\<close>) and \<open>EnvFlash\<close> (\<^verbatim>\<open>common/env_flash.c\<close>): \<open>flash_state\<close> holds what the
    chips contain, the table of banks and the events that the next chip operations meet; the record \<open>env_vars\<close> holds
    the variables of \<^verbatim>\<open>env_flash.c\<close>. \<open>saveenv\<close> writes the data area of \<open>Environment\<close> into the copy that is not in use,
    \<open>env_boot\<close> is what a start makes of the two copies.
  \<^item> \<open>LineEdit\<close> and \<open>CmdLine\<close> (\<^verbatim>\<open>common/main.c\<close>, \<^verbatim>\<open>command.c\<close>): keys become a line, a line becomes commands, with
    \<^verbatim>\<open>$(name)\<close> read from the environment. The command table and what its commands do to the machine are the
    argument \<open>'s shell\<close>; \<open>do_bootd\<close> closes the loop by running \<^verbatim>\<open>bootcmd\<close>.
  \<^item> \<open>Srecord\<close> (\<^verbatim>\<open>common/s_record.c\<close>, \<^verbatim>\<open>cmd_boot.c\<close>): down- and upload over the serial line.
  \<^item> \<open>Net\<close>, \<open>Tftp\<close>, \<open>Arp\<close>, \<open>Bootp\<close>, \<open>NetMain\<close> (\<^verbatim>\<open>net/net.c\<close>, \<^verbatim>\<open>tftp.c\<close>, \<^verbatim>\<open>arp.c\<close>, \<^verbatim>\<open>rarp.c\<close>, \<^verbatim>\<open>bootp.c\<close>) and \<open>NetBoot\<close>
    (\<^verbatim>\<open>common/cmd_net.c\<close>): \<open>net_state\<close> holds the globals of the network code, the environment and the memory; the
    function pointers \<^verbatim>\<open>packetHandler\<close> and \<^verbatim>\<open>timeHandler\<close> are values of a datatype that \<open>call_handler\<close> and
    \<open>call_timeout\<close> dispatch on. \<open>NetLoop\<close> takes a list of turns, each with the frames the Ethernet driver finds,
    the time and whether control-C was typed, and gives back what the code returns or that it still waits.
    \<open>NetBoot\<close> ends in \<open>do_bootm\<close> when \<^verbatim>\<open>autostart\<close> is set.
  \<^item> \<open>Image\<close> (\<^verbatim>\<open>include/image.h\<close>, \<^verbatim>\<open>tools/mkimage.c\<close>) and \<open>Bootm\<close> (\<^verbatim>\<open>common/cmd_bootm.c\<close>): the image format, the tool
    that writes it, and the commands that check it and start what it holds. \<open>transfer\<close> is where control goes, with
    the memory as it is then.

  The theories whose names end in \<open>Correct\<close>, and \<open>BootImage\<close>, \<open>DhcpBoot\<close>, \<open>TftpInvariant\<close>, \<open>NetInvariant\<close>, \<open>NetRetry\<close>,
  \<open>NetErrors\<close>, \<open>EnvFlashInvariant\<close> and \<open>EnvFlashSave\<close>, hold the proofs.

  \<^bold>\<open>Conventions.\<close> A function of the code is a definition of the same name, a loop a recursive function with the
  loop's variables as arguments. \<open>option\<close> stands for what the code does not survive: a read or write outside a
  buffer, a null pointer, a \<^verbatim>\<open>panic\<close>, a loop that never ends (\<open>partial_function\<close>: \<open>skip_string\<close>, \<open>skip_lens\<close>,
  \<open>vendor_loop\<close>, \<open>options_loop\<close>, \<open>type_loop\<close>); errors that the code handles are values (return codes, \<open>boot_error\<close>, \<open>net_result\<close>,
  \<open>netboot_end\<close>). Structural recursion or a \<open>termination\<close> proof with a measure shows that every other loop ends,
  so no fuel is used; the theorems about the partial functions prove that a result is there. A function that
  programs or erases flash has a result of type \<open>powered\<close>: it returned, or the power failed meanwhile (\<open>Off\<close>) and
  only what the chips hold is left. Each chip operation takes one event, which says whether it completes, times
  out or is cut short, with what it leaves in the cells concerned; with no event left everything completes.

  \<^bold>\<open>What is shown.\<close>

  \<^item> Booting: a board whose environment names a server and asks for an automatic start ends in the kernel of the
    \<^verbatim>\<open>mkimage\<close> image on that server, with its data at the load address and the boot arguments in place
    (\<open>NetBootCorrect\<close>), and so does one that gets its address with DHCP (\<open>DhcpBoot\<close>, which also shows two failures of
    that client); \<open>bootm\<close> does so for uncompressed images of one or several files, places the initrd within its
    limits (\<open>BootImage\<close>); \<open>iminfo\<close> accepts what the tool made, agrees with the tool on files as long as their header
    says, and notices changed bytes in header and data (\<open>BootmCorrect\<close>); \<open>gunzip\<close> gives \<open>inflate\<close> what lies behind the
    gzip header, whatever parts that has, and passes on its outcome (\<open>GunzipCorrect\<close>). The tool's files read back as the
    options they were made from (\<open>ImageCorrect\<close>).
  \<^item> Network: an invariant of the TFTP client over all interleavings of frames, losses and time-outs gives the
    safety of a transfer (success means that the file is there), and its liveness follows when the frames arrive
    (\<open>TftpInvariant\<close>, \<open>TftpCorrect\<close>); datagrams, checksums and addresses survive the round trip (\<open>NetCorrect\<close>);
    \<open>NetLoop\<close> never leaves its buffers nor gets stuck in a handler, for RARP, TFTP and, in a build without DHCP, BOOTP (\<open>NetInvariant\<close>); without an answer it repeats its
    requests a fixed number of times and starts again (\<open>NetRetry\<close>, one locale for four protocols); two errors, a
    datagram that passes for the ARP reply in every transfer but the first and block numbers that wrap round (\<open>NetErrors\<close>).
  \<^item> Environment: a data area is related to a list of variables; \<open>setenv\<close> and \<open>getenv\<close> behave as a map, for single
    calls and sequences (the locale of key/value stores), well-formedness is kept on every path, what happens
    when space runs out (\<open>EnvironmentCorrect\<close>).
  \<^item> Flash: \<open>flash_write\<close> writes its data or returns the code of what prevented it, changes nothing outside the target
    and nothing in protected sectors, except at the top of the address space (\<open>FlashCorrect\<close>). Over every sequence of
    starts, edits, saves, chip errors and power failures, a board starts with the environment of its last
    successful save or of a later attempt (an invariant of the two copies over an inductive step relation,
    \<open>EnvFlashInvariant\<close>); on a working chip \<open>saveenv\<close> succeeds (\<open>EnvFlashSave\<close>), so that a variable set, saved and
    looked up after the next start has its new value (\<open>EnvFlashCorrect\<close>). The assumption is that interrupted
    operations leave neither a wrong copy with a matching CRC nor a flag byte that is partly written, and that the
    environment in RAM has a matching CRC when it is saved, as after a successful \<open>setenv\<close>; what happens with such
    a byte, and that a \<open>setenv\<close> for whose value there is no room leaves a stale CRC, is shown as well.
  \<^item> Console: the line editor implements editing operations on a line, the keyed boot delay stops exactly when a
    key string has been typed (\<open>LineEditCorrect\<close>); variable expansion, word splitting and the
    repetition of the last command; a command line runs as a big-step relation over its commands says, with one rule for
    each way a command can end (\<open>CmdLineCorrect\<close>).
  \<^item> Serial line: an uploaded block comes back unchanged when it is downloaded, damaged records are refused, the
    decoder keeps to its buffer (\<open>SrecordCorrect\<close>).
  \<^item> Library: the CRC's table, unrolled loop and bit-serial definition agree, and it detects every burst of four
    bytes (\<open>Crc32\<close>); numbers read back as printed (\<open>Vsprintf\<close>); dates are right between 1970 and 2038 (\<open>Date\<close>).

  \<^bold>\<open>Configuration and bounds.\<close> A 32-bit big-endian PowerPC with unsigned plain \<^verbatim>\<open>char\<close>; buffer sizes
  (\<^verbatim>\<open>CFG_CBSIZE\<close>, \<^verbatim>\<open>CFG_MAXARGS\<close>, the size of the environment), the watchdog, memory limits and key strings are
  arguments. One network device (\<^verbatim>\<open>CONFIG_NET_MULTI\<close> is not set), DHCP or not
  as \<open>bo_dhcp\<close> says, no \<^verbatim>\<open>CONFIG_BOOTP_VENDOREX\<close>, \<^verbatim>\<open>CFG_HZ\<close> is 1000, receive buffers are 1536
  bytes and, for \<open>NetLoop_safe\<close>, not in the last 128 KB of the address space; files loaded over TFTP are smaller
  than 65535 blocks of 512 bytes, as \<open>NetErrors\<close> shows they must be. \<open>inflate\<close> of the vendored zlib, standalone
  applications and, for the serial download, the flash driver are arguments. \<open>EnvFlash\<close> has the redundant environment
  (\<^verbatim>\<open>CFG_ENV_ADDR_REDUND\<close>), and the variant with one copy as \<open>env_init_single\<close> and \<open>saveenv_single\<close>.

  \<^bold>\<open>Not modelled.\<close> Register access of boards, processors and device drivers, which are most of the repository
  (their effect is not in the source); third-party code taken over as it is (zlib, bzlib, hush, dlmalloc, jffs2); the
  Kermit receiver; memory and device commands; disk partitions; the environment in EEPROM or NVRAM; the probing of
  flash chips (\<open>flash_init\<close> asks the hardware) and the flash drivers of other boards;
  console output except where it is the result of the code.
\<close>

end
